(* ===== verification/Prelude.thy ===== *)
theory Prelude
  imports Main "HOL-Library.Word" "HOL-Library.Monad_Syntax"
begin

text \<open>
  Shared vocabulary of the development: names for the machine integers of the
  sources, the fault result of kernel code (\<open>None\<close> stands for a kernel
  \<open>BUG()\<close>, an out-of-range array access or a corrupted list), arrays of
  intrusive kernel lists, and the generic lemmas on lists, options and words the
  components use. Collections: \<open>st_simps\<close> holds the read-over-write facts of
  the explicit stores, \<open>q_simps\<close> the facts on arrays of queues.
\<close>

unbundle bit_operations_syntax

named_theorems st_simps \<open>read-over-write facts of the model's stores\<close>
named_theorems q_simps \<open>facts on arrays of queues\<close>

type_synonym u8 = "8 word"
type_synonym u16 = "16 word"
type_synonym u32 = "32 word"
type_synonym u64 = "64 word"

section \<open>Flags\<close>

text \<open>\<open>flags \<and> mask\<close> as a C condition: some bit of the mask is set.\<close>

definition has_flag :: "'a::len word \<Rightarrow> 'a word \<Rightarrow> bool" where
  "has_flag flags m \<longleftrightarrow> flags AND m \<noteq> 0"

lemma has_flag_zero [simp]: "\<not> has_flag 0 m" "\<not> has_flag f 0"
  by (simp_all add: has_flag_def)

section \<open>Checked access\<close>

text \<open>A C array index: \<open>None\<close> outside the bounds of the array.\<close>

definition in_bounds :: "int \<Rightarrow> 'a list \<Rightarrow> bool" where
  "in_bounds i xs \<longleftrightarrow> 0 \<le> i \<and> nat i < length xs"

definition aread :: "'a list \<Rightarrow> int \<Rightarrow> 'a option" where
  "aread xs i = (if in_bounds i xs then Some (xs ! nat i) else None)"

lemma aread_Some [simp]: "0 \<le> i \<Longrightarrow> nat i < length xs \<Longrightarrow> aread xs i = Some (xs ! nat i)"
  by (simp add: aread_def in_bounds_def)

lemma aread_eq_Some:
  "aread xs i = Some v \<longleftrightarrow> 0 \<le> i \<and> nat i < length xs \<and> v = xs ! nat i"
  by (auto simp: aread_def in_bounds_def)

definition guard :: "bool \<Rightarrow> unit option" where
  "guard b = (if b then Some () else None)"

lemma guard_simps [simp]: "guard True = Some ()" "guard False = None"
  by (simp_all add: guard_def)

lemma guard_eq_Some [simp]: "guard b = Some u \<longleftrightarrow> b"
  by (simp add: guard_def)

lemma bind_guard_Some [simp]:
  "(guard b \<bind> f = Some y) \<longleftrightarrow> b \<and> f () = Some y"
  by (simp add: guard_def)

section \<open>Arrays of intrusive lists\<close>

text \<open>
  An array of \<open>struct list_head\<close> is a list of queues. A node is an element of at most
  one queue; unlinking it needs no knowledge of the queue it is on.
\<close>

definition qs_del :: "'a \<Rightarrow> 'a list list \<Rightarrow> 'a list list" where
  "qs_del x qs = map (removeAll x) qs"

definition qs_add_tail :: "nat \<Rightarrow> 'a \<Rightarrow> 'a list list \<Rightarrow> 'a list list" where
  "qs_add_tail i x qs = qs[i := qs ! i @ [x]]"

definition qs_add :: "nat \<Rightarrow> 'a \<Rightarrow> 'a list list \<Rightarrow> 'a list list" where
  "qs_add i x qs = qs[i := x # qs ! i]"

definition qs_mem :: "'a \<Rightarrow> 'a list list \<Rightarrow> bool" where
  "qs_mem x qs \<longleftrightarrow> x \<in> set (concat qs)"

lemma length_qs [simp]:
  "length (qs_del x qs) = length qs"
  "length (qs_add_tail i x qs) = length qs"
  "length (qs_add i x qs) = length qs"
  by (simp_all add: qs_del_def qs_add_tail_def qs_add_def)

lemma nth_qs_del [q_simps]: "i < length qs \<Longrightarrow> qs_del x qs ! i = removeAll x (qs ! i)"
  by (simp add: qs_del_def)

lemma nth_qs_add_tail [q_simps]:
  "j < length qs \<Longrightarrow> qs_add_tail i x qs ! j = (if j = i then qs ! i @ [x] else qs ! j)"
  by (auto simp: qs_add_tail_def nth_list_update)

lemma nth_qs_add [q_simps]:
  "j < length qs \<Longrightarrow> qs_add i x qs ! j = (if j = i then x # qs ! i else qs ! j)"
  by (auto simp: qs_add_def nth_list_update)

lemma qs_mem_nth: "qs_mem x qs \<longleftrightarrow> (\<exists>i < length qs. x \<in> set (qs ! i))"
  unfolding qs_mem_def set_concat by (metis UN_iff in_set_conv_nth)

lemma qs_mem_del [q_simps]: "qs_mem y (qs_del x qs) \<longleftrightarrow> y \<noteq> x \<and> qs_mem y qs"
  by (auto simp: qs_mem_def qs_del_def)

lemma qs_mem_add_tail [q_simps]:
  "i < length qs \<Longrightarrow> qs_mem y (qs_add_tail i x qs) \<longleftrightarrow> y = x \<or> qs_mem y qs"
  by (auto simp: qs_mem_nth nth_qs_add_tail split: if_splits)

lemma qs_mem_add [q_simps]:
  "i < length qs \<Longrightarrow> qs_mem y (qs_add i x qs) \<longleftrightarrow> y = x \<or> qs_mem y qs"
  by (auto simp: qs_mem_nth nth_qs_add split: if_splits)

lemma qs_del_absent: "\<not> qs_mem x qs \<Longrightarrow> qs_del x qs = qs"
  unfolding qs_del_def qs_mem_def by (rule map_idI) (auto simp:)

text \<open>
  \<open>qs_ok\<close>: every node is linked at most once in the whole array.
\<close>

definition qs_ok :: "'a list list \<Rightarrow> bool" where
  "qs_ok qs \<longleftrightarrow>
     (\<forall>i < length qs. distinct (qs ! i)) \<and>
     (\<forall>i < length qs. \<forall>j < length qs. \<forall>x \<in> set (qs ! i). x \<in> set (qs ! j) \<longrightarrow> i = j)"

lemma qs_okI:
  assumes "\<And>i. i < length qs \<Longrightarrow> distinct (qs ! i)"
    and "\<And>i j x. i < length qs \<Longrightarrow> j < length qs \<Longrightarrow> x \<in> set (qs ! i) \<Longrightarrow> x \<in> set (qs ! j) \<Longrightarrow> i = j"
  shows "qs_ok qs"
  using assms unfolding qs_ok_def by blast

lemma qs_ok_distinct: "qs_ok qs \<Longrightarrow> i < length qs \<Longrightarrow> distinct (qs ! i)"
  by (simp add: qs_ok_def)

lemma qs_ok_unique:
  "qs_ok qs \<Longrightarrow> i < length qs \<Longrightarrow> j < length qs \<Longrightarrow> x \<in> set (qs ! i) \<Longrightarrow> x \<in> set (qs ! j) \<Longrightarrow> i = j"
  unfolding qs_ok_def by blast

lemma qs_ok_replicate [simp]: "qs_ok (replicate n [])"
  by (rule qs_okI) auto

lemma qs_ok_del: "qs_ok qs \<Longrightarrow> qs_ok (qs_del x qs)"
  by (rule qs_okI) (auto simp: nth_qs_del distinct_removeAll qs_ok_distinct dest: qs_ok_unique)

lemma qs_ok_insert:
  assumes ok: "qs_ok qs" and x: "\<not> qs_mem x qs" and len: "length qs' = length qs"
    and i: "i < length qs" and d: "distinct (qs' ! i)" and s: "set (qs' ! i) = insert x (set (qs ! i))"
    and rest: "\<And>j. j < length qs \<Longrightarrow> j \<noteq> i \<Longrightarrow> qs' ! j = qs ! j"
  shows "qs_ok qs'"
proof (rule qs_okI)
  fix j assume "j < length qs'"
  then show "distinct (qs' ! j)"
    using d rest [of j] len ok by (cases "j = i") (auto simp: qs_ok_distinct)
next
  fix j k y
  assume a: "j < length qs'" "k < length qs'" "y \<in> set (qs' ! j)" "y \<in> set (qs' ! k)"
  have mem: "y \<in> set (qs ! l) \<or> (l = i \<and> y = x)" if "l < length qs" "y \<in> set (qs' ! l)" for l
    using that s rest [of l] by (cases "l = i") auto
  from mem [of j] mem [of k] a len have "(y \<in> set (qs ! j) \<or> j = i \<and> y = x) \<and> (y \<in> set (qs ! k) \<or> k = i \<and> y = x)"
    by simp
  moreover have "x \<notin> set (qs ! l)" if "l < length qs" for l
    using x that by (auto simp: qs_mem_nth)
  ultimately show "j = k"
    using a len ok by (auto dest: qs_ok_unique)
qed

lemma qs_ok_add_tail:
  assumes "qs_ok qs" "\<not> qs_mem x qs" "i < length qs" shows "qs_ok (qs_add_tail i x qs)"
  by (rule qs_ok_insert [OF assms(1,2) _ assms(3)])
    (use assms in \<open>auto simp: nth_qs_add_tail qs_ok_distinct qs_mem_nth\<close>)

lemma qs_ok_add:
  assumes "qs_ok qs" "\<not> qs_mem x qs" "i < length qs" shows "qs_ok (qs_add i x qs)"
  by (rule qs_ok_insert [OF assms(1,2) _ assms(3)])
    (use assms in \<open>auto simp: nth_qs_add qs_ok_distinct qs_mem_nth\<close>)

text \<open>Deleting a node that was just appended restores the array.\<close>

lemma qs_del_add_tail:
  "i < length qs \<Longrightarrow> \<not> qs_mem x qs \<Longrightarrow> qs_del x (qs_add_tail i x qs) = qs"
  by (rule nth_equalityI) (auto simp: q_simps qs_mem_nth)

lemma qs_del_add:
  "i < length qs \<Longrightarrow> \<not> qs_mem x qs \<Longrightarrow> qs_del x (qs_add i x qs) = qs"
  by (rule nth_equalityI) (auto simp: q_simps qs_mem_nth)

text \<open>Counting and ordering the nodes of an array of queues.\<close>

lemma qs_ok_Cons: "qs_ok (q # qs) \<longleftrightarrow> distinct q \<and> qs_ok qs \<and> (\<forall>x \<in> set q. \<not> qs_mem x qs)"
  (is "?l = ?r")
proof
  assume l: ?l
  have "distinct q" using qs_ok_distinct [OF l, of 0] by simp
  moreover have "qs_ok qs"
    using qs_ok_distinct [OF l, of "Suc i" for i] qs_ok_unique [OF l, of "Suc i" "Suc j" for i j]
    by (intro qs_okI) auto
  moreover have "\<not> qs_mem x qs" if "x \<in> set q" for x
    using qs_ok_unique [OF l, of 0 "Suc j" x for j] that by (auto simp: qs_mem_nth)
  ultimately show ?r by blast
next
  assume r: ?r
  show ?l
  proof (rule qs_okI)
    fix i assume "i < length (q # qs)"
    then show "distinct ((q # qs) ! i)" using r by (cases i) (auto simp: qs_ok_distinct)
  next
    fix i j x
    assume "i < length (q # qs)" "j < length (q # qs)" "x \<in> set ((q # qs) ! i)" "x \<in> set ((q # qs) ! j)"
    then show "i = j"
      using r by (cases i; cases j) (auto simp: qs_mem_nth dest: qs_ok_unique)
  qed
qed

lemma qs_ok_distinct_concat: "qs_ok qs \<Longrightarrow> distinct (concat qs)"
  by (induction qs) (auto simp: qs_ok_Cons qs_mem_def)

lemma length_concat_update:
  "i < length qs \<Longrightarrow> length q = Suc (length (qs ! i)) \<Longrightarrow> length (concat (qs[i := q])) = Suc (length (concat qs))"
  by (simp add: length_concat map_update sum_list_update)

lemma length_concat_add [q_simps]:
  "i < length qs \<Longrightarrow> length (concat (qs_add i x qs)) = Suc (length (concat qs))"
  "i < length qs \<Longrightarrow> length (concat (qs_add_tail i x qs)) = Suc (length (concat qs))"
  by (simp_all add: qs_add_def qs_add_tail_def length_concat_update del: length_concat)

lemma concat_qs_del: "concat (qs_del x qs) = removeAll x (concat qs)"
  by (induction qs) (simp_all add: qs_del_def)

lemma length_concat_del:
  "qs_ok qs \<Longrightarrow> qs_mem x qs \<Longrightarrow> length (concat (qs_del x qs)) = length (concat qs) - 1"
  by (simp add: concat_qs_del qs_ok_distinct_concat distinct_remove1_removeAll [symmetric] length_remove1 qs_mem_def)

definition first_q :: "'a list list \<Rightarrow> nat" where
  "first_q qs = length (takeWhile (\<lambda>q. q = []) qs)"

lemma first_q_le: "first_q qs \<le> length qs"
  by (simp add: first_q_def length_takeWhile_le)

lemma first_q_before: "i < first_q qs \<Longrightarrow> qs ! i = []"
  unfolding first_q_def by (metis (mono_tags, lifting) nth_mem set_takeWhileD takeWhile_nth)

lemma first_q_at: "first_q qs < length qs \<Longrightarrow> qs ! first_q qs \<noteq> []"
  unfolding first_q_def by (rule nth_length_takeWhile)

lemma first_q_eqI:
  assumes "n \<le> length qs" "\<And>i. i < n \<Longrightarrow> qs ! i = []" "n < length qs \<Longrightarrow> qs ! n \<noteq> []"
  shows "first_q qs = n"
proof (rule linorder_cases [of "first_q qs" n])
  assume "first_q qs < n"
  then show ?thesis using assms(1,2) first_q_at [of qs] by simp
next
  assume "n < first_q qs"
  then show ?thesis using assms(3) first_q_before [of n qs] first_q_le [of qs] by simp
qed

lemma first_q_insert:
  assumes i: "i < length qs" and len: "length qs' = length qs" and ne: "qs' ! i \<noteq> []"
    and rest: "\<And>j. j < length qs \<Longrightarrow> j \<noteq> i \<Longrightarrow> qs' ! j = qs ! j"
  shows "first_q qs' = min i (first_q qs)"
proof (rule first_q_eqI)
  show "min i (first_q qs) \<le> length qs'" using i len by simp
  show "qs' ! j = []" if "j < min i (first_q qs)" for j
    using that rest [of j] first_q_before [of j qs] i by simp
  show "qs' ! min i (first_q qs) \<noteq> []" if "min i (first_q qs) < length qs'"
    using ne rest [of "first_q qs"] first_q_at [of qs] i by (auto simp: min_def)
qed

lemma first_q_none: "first_q qs = length qs \<longleftrightarrow> concat qs = []"
  by (metis concat_eq_Nil_conv first_q_at first_q_before first_q_le in_set_conv_nth le_neq_implies_less)

section \<open>Words\<close>

lemma unat_minus_one_word: "w \<noteq> 0 \<Longrightarrow> unat (w - 1 :: 'a::len word) = unat w - 1"
  by (simp add: unat_minus_one)

lemma unat_of_nat_small: "n < 2 ^ LENGTH('a) \<Longrightarrow> unat (of_nat n :: 'a::len word) = n"
  by (simp add: unat_of_nat take_bit_nat_eq_self)

lemma unat_bound: "unat (w :: 'a::len word) < 2 ^ LENGTH('a)"
  by (rule unsigned_less)

lemma unat_ucast_up: "LENGTH('a) \<le> LENGTH('b) \<Longrightarrow> unat (ucast (w :: 'a::len word) :: 'b::len word) = unat w"
  by (simp add: unsigned_ucast_eq take_bit_nat_eq_self less_le_trans [OF unat_bound] power_increasing)

lemma word_of_int_small_pos: "0 \<le> i \<Longrightarrow> i < 2 ^ LENGTH('a) \<Longrightarrow> unat (word_of_int i :: 'a::len word) = nat i"
  by (simp add: unsigned_of_int take_bit_int_eq_self)

lemma takeWhile_split:
  assumes "\<forall>x \<in> set xs. P x" "\<forall>y \<in> set ys. \<not> P y"
  shows "takeWhile P (xs @ ys) = xs" "dropWhile P (xs @ ys) = ys"
proof -
  have "takeWhile P ys = []" "dropWhile P ys = ys"
    using assms(2) by (cases ys; simp)+
  with assms(1) show "takeWhile P (xs @ ys) = xs" "dropWhile P (xs @ ys) = ys"
    by (simp_all add: takeWhile_append2 dropWhile_append2)
qed

section \<open>Decimal numbers\<close>

text \<open>\<open>printf\<close>'s \<open>%d\<close> and the value of a string of digits.\<close>

definition digit :: "nat \<Rightarrow> char" where "digit n = char_of (48 + n)"

definition is_digit :: "char \<Rightarrow> bool" where
  "is_digit c \<longleftrightarrow> 48 \<le> (of_char c :: nat) \<and> (of_char c :: nat) \<le> 57"

definition digit_val :: "char \<Rightarrow> nat" where "digit_val c = of_char c - 48"

fun nat_to_string :: "nat \<Rightarrow> string" where
  "nat_to_string n = (if n < 10 then [digit n] else nat_to_string (n div 10) @ [digit (n mod 10)])"

declare nat_to_string.simps [simp del]

definition int_to_string :: "int \<Rightarrow> string" where
  "int_to_string i = (if i < 0 then CHR ''-'' # nat_to_string (nat (- i)) else nat_to_string (nat i))"

definition digits_val :: "string \<Rightarrow> nat" where
  "digits_val = foldl (\<lambda>n c. 10 * n + digit_val c) 0"

lemma digit_ok: "n < 10 \<Longrightarrow> is_digit (digit n)" "n < 10 \<Longrightarrow> digit_val (digit n) = n"
  by (simp_all add: digit_def is_digit_def digit_val_def)

lemma digit_chars:
  "digit 0 = CHR ''0''" "digit (Suc 0) = CHR ''1''" "digit 2 = CHR ''2''" "digit 3 = CHR ''3''" "digit 4 = CHR ''4''"
  "digit 5 = CHR ''5''" "digit 6 = CHR ''6''" "digit 7 = CHR ''7''" "digit 8 = CHR ''8''" "digit 9 = CHR ''9''"
  by (simp_all add: digit_def char_of_def bit_0)

lemma nat_to_string_digits: "\<forall>c \<in> set (nat_to_string n). is_digit c"
  by (induction n rule: nat_to_string.induct) (subst nat_to_string.simps, auto simp: digit_ok)

lemma nat_to_string_nonempty: "nat_to_string n \<noteq> []"
  by (subst nat_to_string.simps) simp

lemma digits_val_nat_to_string: "digits_val (nat_to_string n) = n"
  by (induction n rule: nat_to_string.induct) (subst nat_to_string.simps, simp add: digits_val_def digit_ok)

lemma length_nat_to_string: "0 < k \<Longrightarrow> n < 10 ^ k \<Longrightarrow> length (nat_to_string n) \<le> k"
proof (induction n arbitrary: k rule: nat_to_string.induct)
  case (1 n)
  show ?case
  proof (cases "n < 10")
    case False
    then obtain j where j: "k = Suc j" "0 < j" using 1(2,3) by (cases k; cases "k - 1") auto
    have "n div 10 < 10 ^ j" using 1(3) j(1) by (simp add: less_mult_imp_div_less mult.commute)
    then show ?thesis using 1(1) [OF False j(2)] False j by (subst nat_to_string.simps) simp
  qed (use 1(2) in \<open>subst nat_to_string.simps, simp\<close>)
qed

section \<open>State machines\<close>

text \<open>
  The contract of a state machine whose steps keep an invariant: what one step keeps, every
  reachable state has.
\<close>

locale step_invariant =
  fixes step :: "'s \<Rightarrow> 's \<Rightarrow> bool" and inv :: "'s \<Rightarrow> bool"
  assumes step_inv: "step s s' \<Longrightarrow> inv s \<Longrightarrow> inv s'"
begin

lemma reach_inv: "step\<^sup>*\<^sup>* s s' \<Longrightarrow> inv s \<Longrightarrow> inv s'"
  by (induction rule: rtranclp_induct) (blast intro: step_inv)+

end

end
