(* ===== verification/Sched_Types.thy ===== *)
theory Sched_Types
  imports Prelude
begin

text \<open>
  The data of the scheduler: scheduling policies and classes, \<open>task_struct\<close>,
  \<open>struct rt_rq\<close>, \<open>struct ts_rq\<close>, \<open>struct rq\<close> and the root domain, as far as
  \<open>kernel/sched/{core,rt,ts}.c\<close> read and write them. A task is addressed by its
  \<open>tid\<close>, a run queue by its CPU number, and the whole kernel state is one record, so a
  handler of the sources is a function on \<open>sched_state\<close>. Configuration: SMP,
  \<open>RT_MUTEXES\<close>, no \<open>RT_GROUP_SCHED\<close>, no \<open>HRTICK\<close>, no \<open>NO_HZ_FULL\<close>, no IRQ or
  steal-time accounting. Locks are not state: every handler runs under the locks it
  takes, as one step. Scheduler feature bits (\<open>sched_feat\<close>), \<open>HZ\<close>, the hardware clock and the
  resource limits of a task are fields the environment sets.
\<close>

type_synonym tid = nat
type_synonym cpu = nat

section \<open>Constants\<close>

text \<open>Priority ranges of the kernel ABI: 0..99 are real-time, 100..139 are nice -20..19.\<close>

definition MAX_USER_RT_PRIO :: int where "MAX_USER_RT_PRIO = 100"
definition MAX_RT_PRIO :: int where "MAX_RT_PRIO = 100"
definition MAX_DL_PRIO :: int where "MAX_DL_PRIO = 0"
definition MIN_NICE :: int where "MIN_NICE = -20"
definition MAX_NICE :: int where "MAX_NICE = 19"
definition DEFAULT_PRIO :: int where "DEFAULT_PRIO = 120"

definition NICE_TO_PRIO :: "int \<Rightarrow> int" where "NICE_TO_PRIO n = n + DEFAULT_PRIO"
definition PRIO_TO_NICE :: "int \<Rightarrow> int" where "PRIO_TO_NICE p = p - DEFAULT_PRIO"

definition rt_prio :: "int \<Rightarrow> bool" where "rt_prio p \<longleftrightarrow> p < MAX_RT_PRIO"
definition dl_prio :: "int \<Rightarrow> bool" where "dl_prio p \<longleftrightarrow> p < MAX_DL_PRIO"

lemmas prio_consts = MAX_USER_RT_PRIO_def MAX_RT_PRIO_def MAX_DL_PRIO_def MIN_NICE_def MAX_NICE_def
  DEFAULT_PRIO_def NICE_TO_PRIO_def PRIO_TO_NICE_def rt_prio_def dl_prio_def

definition SCHED_NORMAL :: int where "SCHED_NORMAL = 0"
definition SCHED_FIFO :: int where "SCHED_FIFO = 1"
definition SCHED_RR :: int where "SCHED_RR = 2"
definition SCHED_BATCH :: int where "SCHED_BATCH = 3"
definition SCHED_IDLE :: int where "SCHED_IDLE = 5"
definition SCHED_DEADLINE :: int where "SCHED_DEADLINE = 6"
definition SCHED_TS :: int where "SCHED_TS = 10"

lemmas policy_consts = SCHED_NORMAL_def SCHED_FIFO_def SCHED_RR_def SCHED_BATCH_def SCHED_IDLE_def
  SCHED_DEADLINE_def SCHED_TS_def

definition SCHED_RESET_ON_FORK :: u32 where "SCHED_RESET_ON_FORK = 0x40000000"
definition SCHED_FLAG_RESET_ON_FORK :: u64 where "SCHED_FLAG_RESET_ON_FORK = 1"
definition SCHED_FLAG_RECLAIM :: u64 where "SCHED_FLAG_RECLAIM = 2"
definition SCHED_FLAG_DL_OVERRUN :: u64 where "SCHED_FLAG_DL_OVERRUN = 4"
definition SCHED_FLAG_ALL :: u64 where
  "SCHED_FLAG_ALL = SCHED_FLAG_RESET_ON_FORK OR SCHED_FLAG_RECLAIM OR SCHED_FLAG_DL_OVERRUN"
definition SCHED_FLAG_SUGOV :: u64 where "SCHED_FLAG_SUGOV = 0x10000000"

definition DEQUEUE_SLEEP :: u32 where "DEQUEUE_SLEEP = 1"
definition DEQUEUE_SAVE :: u32 where "DEQUEUE_SAVE = 2"
definition DEQUEUE_MOVE :: u32 where "DEQUEUE_MOVE = 4"
definition DEQUEUE_NOCLOCK :: u32 where "DEQUEUE_NOCLOCK = 8"
definition ENQUEUE_WAKEUP :: u32 where "ENQUEUE_WAKEUP = 1"
definition ENQUEUE_RESTORE :: u32 where "ENQUEUE_RESTORE = 2"
definition ENQUEUE_MOVE :: u32 where "ENQUEUE_MOVE = 4"
definition ENQUEUE_NOCLOCK :: u32 where "ENQUEUE_NOCLOCK = 8"
definition ENQUEUE_HEAD :: u32 where "ENQUEUE_HEAD = 0x10"
definition ENQUEUE_REPLENISH :: u32 where "ENQUEUE_REPLENISH = 0x20"
definition ENQUEUE_MIGRATED :: u32 where "ENQUEUE_MIGRATED = 0x40"

lemmas queue_flags = DEQUEUE_SLEEP_def DEQUEUE_SAVE_def DEQUEUE_MOVE_def DEQUEUE_NOCLOCK_def
  ENQUEUE_WAKEUP_def ENQUEUE_RESTORE_def ENQUEUE_MOVE_def ENQUEUE_NOCLOCK_def ENQUEUE_HEAD_def
  ENQUEUE_REPLENISH_def ENQUEUE_MIGRATED_def

definition WF_SYNC :: u32 where "WF_SYNC = 1"
definition WF_FORK :: u32 where "WF_FORK = 2"
definition WF_MIGRATED :: u32 where "WF_MIGRATED = 4"

definition TASK_RUNNING :: u64 where "TASK_RUNNING = 0"
definition TASK_INTERRUPTIBLE :: u64 where "TASK_INTERRUPTIBLE = 1"
definition TASK_UNINTERRUPTIBLE :: u64 where "TASK_UNINTERRUPTIBLE = 2"
definition TASK_WAKING :: u64 where "TASK_WAKING = 0x200"
definition TASK_NOLOAD :: u64 where "TASK_NOLOAD = 0x400"
definition TASK_NEW :: u64 where "TASK_NEW = 0x800"
definition TASK_NORMAL :: u64 where "TASK_NORMAL = TASK_INTERRUPTIBLE OR TASK_UNINTERRUPTIBLE"

lemmas task_states = TASK_RUNNING_def TASK_INTERRUPTIBLE_def TASK_UNINTERRUPTIBLE_def
  TASK_WAKING_def TASK_NOLOAD_def TASK_NEW_def TASK_NORMAL_def

definition PF_IDLE :: u32 where "PF_IDLE = 2"
definition PF_WQ_WORKER :: u32 where "PF_WQ_WORKER = 0x20"
definition PF_FROZEN :: u32 where "PF_FROZEN = 0x10000"
definition PF_KTHREAD :: u32 where "PF_KTHREAD = 0x200000"
definition PF_NO_SETAFFINITY :: u32 where "PF_NO_SETAFFINITY = 0x4000000"

definition SD_BALANCE_EXEC :: u32 where "SD_BALANCE_EXEC = 4"
definition SD_BALANCE_FORK :: u32 where "SD_BALANCE_FORK = 8"
definition SD_BALANCE_WAKE :: u32 where "SD_BALANCE_WAKE = 0x10"

definition EPERM :: int where "EPERM = 1"
definition ESRCH :: int where "ESRCH = 3"
definition E2BIG :: int where "E2BIG = 7"
definition EAGAIN :: int where "EAGAIN = 11"
definition EFAULT :: int where "EFAULT = 14"
definition EBUSY :: int where "EBUSY = 16"
definition EINVAL :: int where "EINVAL = 22"

lemmas errnos = EPERM_def ESRCH_def E2BIG_def EAGAIN_def EFAULT_def EBUSY_def EINVAL_def

definition TASK_ON_RQ_QUEUED :: int where "TASK_ON_RQ_QUEUED = 1"
definition TASK_ON_RQ_MIGRATING :: int where "TASK_ON_RQ_MIGRATING = 2"

definition RUNTIME_INF :: u64 where "RUNTIME_INF = NOT 0"
definition NSEC_PER_USEC :: u64 where "NSEC_PER_USEC = 1000"

definition RLIM_INFINITY :: u64 where "RLIM_INFINITY = NOT 0"
definition RLIMIT_NICE :: nat where "RLIMIT_NICE = 13"
definition RLIMIT_RTPRIO :: nat where "RLIMIT_RTPRIO = 14"
definition RLIMIT_RTTIME :: nat where "RLIMIT_RTTIME = 15"
definition USEC_PER_SEC :: u64 where "USEC_PER_SEC = 1000000"

definition RQCF_REQ_SKIP :: u32 where "RQCF_REQ_SKIP = 1"
definition RQCF_ACT_SKIP :: u32 where "RQCF_ACT_SKIP = 2"

section \<open>Policies\<close>

definition idle_policy :: "int \<Rightarrow> bool" where
  "idle_policy policy \<longleftrightarrow> policy = SCHED_IDLE"
definition fair_policy :: "int \<Rightarrow> bool" where
  "fair_policy policy \<longleftrightarrow> policy = SCHED_NORMAL \<or> policy = SCHED_BATCH"
definition rt_policy :: "int \<Rightarrow> bool" where
  "rt_policy policy \<longleftrightarrow> policy = SCHED_FIFO \<or> policy = SCHED_RR"
definition dl_policy :: "int \<Rightarrow> bool" where
  "dl_policy policy \<longleftrightarrow> policy = SCHED_DEADLINE"
definition ts_policy :: "int \<Rightarrow> bool" where
  "ts_policy policy \<longleftrightarrow> policy = SCHED_TS"
definition valid_policy :: "int \<Rightarrow> bool" where
  "valid_policy policy \<longleftrightarrow> idle_policy policy \<or> fair_policy policy \<or>
     rt_policy policy \<or> dl_policy policy \<or> ts_policy policy"

lemmas policy_defs = idle_policy_def fair_policy_def rt_policy_def dl_policy_def ts_policy_def
  valid_policy_def

section \<open>Tasks and run queues\<close>

text \<open>
  The scheduling classes, in the order \<open>for_each_class\<close> walks them (the \<open>.next\<close>
  chain stop, dl, rt, ts, fair, idle; rt and ts are code of the repository), and the class of
  the stand-in task of \<open>migrate_tasks\<close>, which is not in the chain.
\<close>

datatype sched_class = Stop_class | Dl_class | Rt_class | Ts_class | Fair_class | Idle_class | Fake_class

text \<open>
  The state of the embedded list node of a \<open>sched_ts_entity\<close>: pointing to itself
  after \<open>INIT_LIST_HEAD\<close>, a member of some list, or poisoned by \<open>list_del\<close>.
\<close>

datatype lnode = Self_linked | On_list | Poisoned

record task_struct =
  p_pid :: int
  p_state :: u64
  p_flags :: u32
  p_on_rq :: int
  p_on_cpu :: bool
  p_cpu :: cpu
  p_wake_cpu :: cpu
  p_prio :: int
  p_static_prio :: int
  p_normal_prio :: int
  p_rt_priority :: u32
  p_policy :: int
  p_class :: sched_class
  p_cpus_allowed :: "cpu list"
  p_nr_cpus_allowed :: int
  p_ts_node :: lnode
  p_ts_time_slice :: u32
  p_rt_timeout :: u64
  p_rt_stamp :: u64
  p_rt_time_slice :: u32
  p_rt_on_rq :: bool
  p_rt_on_list :: bool
  p_exec_start :: u64
  p_sum_exec :: u64
  p_weight :: u64
  p_inv_weight :: u32
  p_reset_on_fork :: bool
  p_contributes :: bool
  p_in_iowait :: bool
  p_need_resched :: bool
  p_polling :: bool
  p_has_mm :: bool
  p_pi_top :: "tid option"
  p_dl_boosted :: bool
  p_nvcsw :: u64
  p_nivcsw :: u64
  p_rlim :: "nat \<Rightarrow> u64"
  p_rlim_max :: "nat \<Rightarrow> u64"
  p_sched_exp :: u64
  p_remote_wakeup :: bool
  p_nr_migrations :: u64
  p_uid :: u32
  p_euid :: u32

record rt_rq =
  rt_queue :: "tid list list"
  rt_bitmap :: "bool list"
  rt_nr_running :: u32
  rr_nr_running :: u32
  rt_highest_curr :: int
  rt_highest_next :: int
  rt_nr_migratory :: u64
  rt_nr_total :: u64
  rt_overloaded :: bool
  rt_pushable :: "(int \<times> tid) list"
  rt_queued :: bool
  rt_throttled :: bool
  rt_time :: u64
  rt_runtime :: u64

datatype balance_cb = Push_rt_tasks | Pull_rt_task

record rq =
  rq_nr_running :: u32
  rq_cfs_h_nr :: u32
  rq_dl_nr :: u64
  rq_rt :: rt_rq
  rq_ts :: "tid list list"
  rq_curr :: tid
  rq_idle :: tid
  rq_stop :: "tid option"
  rq_nr_switches :: u64
  rq_nr_unint :: u64
  rq_nr_iowait :: int
  rq_clock :: u64
  rq_clock_task :: u64
  rq_clock_flags :: u32
  rq_online :: bool
  rq_preempt_resched :: bool
  rq_callbacks :: "balance_cb list"
  rq_wake_list :: "tid list"
  rq_idle_stamp :: u64
  rq_avg_idle :: u64
  rq_max_idle_cost :: u64

record root_domain =
  rd_span :: "cpu list"
  rd_online :: "cpu list"
  rd_overload :: bool
  rd_rto_count :: int
  rd_rto_mask :: "cpu list"
  rd_rto_cpu :: int
  rd_rto_loop :: u32
  rd_rto_loop_next :: u32
  rd_rto_loop_start :: int
  rd_cpupri :: "cpu \<Rightarrow> int"

record rt_bandwidth =
  rtb_period :: u64
  rtb_runtime :: u64
  rtb_active :: bool

record sched_state =
  tasks :: "tid \<Rightarrow> task_struct"
  rqs :: "cpu \<Rightarrow> rq"
  rd :: root_domain
  def_rt_b :: rt_bandwidth
  sysctl_rt_period :: u32
  sysctl_rt_runtime :: int
  rr_timeslice :: u32
  hw_clock :: "cpu \<Rightarrow> u64"
  jiffies :: u64
  this_cpu :: cpu
  nr_cpus :: nat
  cpu_online_mask :: "cpu list"
  cpu_active_mask :: "cpu list"
  ipis :: "cpu list"
  scheduler_running :: bool
  feat_rt_runtime_share :: bool
  feat_rt_push_ipi :: bool
  feat_ttwu_queue :: bool
  cfg_hz :: u64

definition upd_task :: "tid \<Rightarrow> (task_struct \<Rightarrow> task_struct) \<Rightarrow> sched_state \<Rightarrow> sched_state" where
  "upd_task p f st = st\<lparr>tasks := (tasks st)(p := f (tasks st p))\<rparr>"

definition upd_rq :: "cpu \<Rightarrow> (rq \<Rightarrow> rq) \<Rightarrow> sched_state \<Rightarrow> sched_state" where
  "upd_rq c f st = st\<lparr>rqs := (rqs st)(c := f (rqs st c))\<rparr>"

definition upd_rt :: "cpu \<Rightarrow> (rt_rq \<Rightarrow> rt_rq) \<Rightarrow> sched_state \<Rightarrow> sched_state" where
  "upd_rt c f = upd_rq c (\<lambda>r. r\<lparr>rq_rt := f (rq_rt r)\<rparr>)"

lemma upd_task_sel [st_simps]:
  "tasks (upd_task p f st) q = (if q = p then f (tasks st p) else tasks st q)"
  "rqs (upd_task p f st) = rqs st"
  "rd (upd_task p f st) = rd st"
  "def_rt_b (upd_task p f st) = def_rt_b st"
  "this_cpu (upd_task p f st) = this_cpu st"
  "hw_clock (upd_task p f st) = hw_clock st"
  "nr_cpus (upd_task p f st) = nr_cpus st"
  "jiffies (upd_task p f st) = jiffies st"
  "rr_timeslice (upd_task p f st) = rr_timeslice st"
  "sysctl_rt_runtime (upd_task p f st) = sysctl_rt_runtime st"
  "cpu_online_mask (upd_task p f st) = cpu_online_mask st"
  "cpu_active_mask (upd_task p f st) = cpu_active_mask st"
  "ipis (upd_task p f st) = ipis st"
  "scheduler_running (upd_task p f st) = scheduler_running st"
  "feat_rt_runtime_share (upd_task p f st) = feat_rt_runtime_share st"
  "feat_rt_push_ipi (upd_task p f st) = feat_rt_push_ipi st"
  "feat_ttwu_queue (upd_task p f st) = feat_ttwu_queue st"
  "cfg_hz (upd_task p f st) = cfg_hz st"
  "sysctl_rt_period (upd_task p f st) = sysctl_rt_period st"
  by (simp_all add: upd_task_def)

lemma upd_rq_sel [st_simps]:
  "tasks (upd_rq c f st) = tasks st"
  "rqs (upd_rq c f st) d = (if d = c then f (rqs st c) else rqs st d)"
  "rd (upd_rq c f st) = rd st"
  "def_rt_b (upd_rq c f st) = def_rt_b st"
  "this_cpu (upd_rq c f st) = this_cpu st"
  "hw_clock (upd_rq c f st) = hw_clock st"
  "nr_cpus (upd_rq c f st) = nr_cpus st"
  "jiffies (upd_rq c f st) = jiffies st"
  "rr_timeslice (upd_rq c f st) = rr_timeslice st"
  "sysctl_rt_runtime (upd_rq c f st) = sysctl_rt_runtime st"
  "cpu_online_mask (upd_rq c f st) = cpu_online_mask st"
  "cpu_active_mask (upd_rq c f st) = cpu_active_mask st"
  "ipis (upd_rq c f st) = ipis st"
  "scheduler_running (upd_rq c f st) = scheduler_running st"
  "feat_rt_runtime_share (upd_rq c f st) = feat_rt_runtime_share st"
  "feat_rt_push_ipi (upd_rq c f st) = feat_rt_push_ipi st"
  "feat_ttwu_queue (upd_rq c f st) = feat_ttwu_queue st"
  "cfg_hz (upd_rq c f st) = cfg_hz st"
  "sysctl_rt_period (upd_rq c f st) = sysctl_rt_period st"
  by (simp_all add: upd_rq_def)

lemma upd_rt_sel [st_simps]:
  "tasks (upd_rt c f st) = tasks st"
  "rqs (upd_rt c f st) d = (if d = c then (rqs st c)\<lparr>rq_rt := f (rq_rt (rqs st c))\<rparr> else rqs st d)"
  "rd (upd_rt c f st) = rd st"
  "def_rt_b (upd_rt c f st) = def_rt_b st"
  "this_cpu (upd_rt c f st) = this_cpu st"
  "hw_clock (upd_rt c f st) = hw_clock st"
  "nr_cpus (upd_rt c f st) = nr_cpus st"
  "jiffies (upd_rt c f st) = jiffies st"
  "rr_timeslice (upd_rt c f st) = rr_timeslice st"
  "sysctl_rt_runtime (upd_rt c f st) = sysctl_rt_runtime st"
  "cpu_online_mask (upd_rt c f st) = cpu_online_mask st"
  "cpu_active_mask (upd_rt c f st) = cpu_active_mask st"
  "ipis (upd_rt c f st) = ipis st"
  "scheduler_running (upd_rt c f st) = scheduler_running st"
  "feat_rt_runtime_share (upd_rt c f st) = feat_rt_runtime_share st"
  "feat_rt_push_ipi (upd_rt c f st) = feat_rt_push_ipi st"
  "feat_ttwu_queue (upd_rt c f st) = feat_ttwu_queue st"
  "cfg_hz (upd_rt c f st) = cfg_hz st"
  "sysctl_rt_period (upd_rt c f st) = sysctl_rt_period st"
  by (simp_all add: upd_rt_def upd_rq_sel)

section \<open>Accessors of sched.h\<close>

abbreviation curr_of :: "sched_state \<Rightarrow> cpu \<Rightarrow> tid" where
  "curr_of st c \<equiv> rq_curr (rqs st c)"

abbreviation prio_of :: "sched_state \<Rightarrow> tid \<Rightarrow> int" where
  "prio_of st p \<equiv> p_prio (tasks st p)"

definition task_has_rt_policy :: "task_struct \<Rightarrow> bool" where
  "task_has_rt_policy t \<longleftrightarrow> rt_policy (p_policy t)"
definition task_has_dl_policy :: "task_struct \<Rightarrow> bool" where
  "task_has_dl_policy t \<longleftrightarrow> dl_policy (p_policy t)"

definition rt_task :: "task_struct \<Rightarrow> bool" where "rt_task t \<longleftrightarrow> rt_prio (p_prio t)"
definition dl_task :: "task_struct \<Rightarrow> bool" where "dl_task t \<longleftrightarrow> dl_prio (p_prio t)"

definition is_idle_task :: "task_struct \<Rightarrow> bool" where "is_idle_task t \<longleftrightarrow> has_flag (p_flags t) PF_IDLE"

definition task_current :: "sched_state \<Rightarrow> cpu \<Rightarrow> tid \<Rightarrow> bool" where
  "task_current st c p \<longleftrightarrow> curr_of st c = p"
definition task_running :: "sched_state \<Rightarrow> tid \<Rightarrow> bool" where
  "task_running st p \<longleftrightarrow> p_on_cpu (tasks st p)"
definition task_on_rq_queued :: "sched_state \<Rightarrow> tid \<Rightarrow> bool" where
  "task_on_rq_queued st p \<longleftrightarrow> p_on_rq (tasks st p) = TASK_ON_RQ_QUEUED"

definition task_contributes_to_load :: "task_struct \<Rightarrow> bool" where
  "task_contributes_to_load t \<longleftrightarrow> has_flag (p_state t) TASK_UNINTERRUPTIBLE \<and>
     \<not> has_flag (p_flags t) PF_FROZEN \<and> \<not> has_flag (p_state t) TASK_NOLOAD"

definition set_task_cpu_raw :: "tid \<Rightarrow> cpu \<Rightarrow> sched_state \<Rightarrow> sched_state" where
  "set_task_cpu_raw p c = upd_task p (\<lambda>t. t\<lparr>p_cpu := c, p_wake_cpu := c\<rparr>)"

definition add_nr_running :: "cpu \<Rightarrow> u32 \<Rightarrow> sched_state \<Rightarrow> sched_state" where
  "add_nr_running c n st =
    (let prev_nr = rq_nr_running (rqs st c);
         st = upd_rq c (\<lambda>r. r\<lparr>rq_nr_running := prev_nr + n\<rparr>) st
     in if prev_nr < 2 \<and> prev_nr + n \<ge> 2 then st\<lparr>rd := (rd st)\<lparr>rd_overload := True\<rparr>\<rparr> else st)"

definition sub_nr_running :: "cpu \<Rightarrow> u32 \<Rightarrow> sched_state \<Rightarrow> sched_state" where
  "sub_nr_running c n = upd_rq c (\<lambda>r. r\<lparr>rq_nr_running := rq_nr_running r - n\<rparr>)"

definition rq_clock_skip_update :: "cpu \<Rightarrow> sched_state \<Rightarrow> sched_state" where
  "rq_clock_skip_update c = upd_rq c (\<lambda>r. r\<lparr>rq_clock_flags := rq_clock_flags r OR RQCF_REQ_SKIP\<rparr>)"

definition rq_clock_cancel_skipupdate :: "cpu \<Rightarrow> sched_state \<Rightarrow> sched_state" where
  "rq_clock_cancel_skipupdate c =
     upd_rq c (\<lambda>r. r\<lparr>rq_clock_flags := rq_clock_flags r AND NOT RQCF_REQ_SKIP\<rparr>)"

definition global_rt_period :: "sched_state \<Rightarrow> u64" where
  "global_rt_period st = ucast (sysctl_rt_period st) * NSEC_PER_USEC"

definition global_rt_runtime :: "sched_state \<Rightarrow> u64" where
  "global_rt_runtime st =
     (if sysctl_rt_runtime st < 0 then RUNTIME_INF else word_of_int (sysctl_rt_runtime st) * NSEC_PER_USEC)"

definition rt_bandwidth_enabled :: "sched_state \<Rightarrow> bool" where
  "rt_bandwidth_enabled st \<longleftrightarrow> sysctl_rt_runtime st \<ge> 0"

section \<open>The run-queue clock and rescheduling (core.c)\<close>

definition update_rq_clock_task :: "cpu \<Rightarrow> u64 \<Rightarrow> sched_state \<Rightarrow> sched_state" where
  "update_rq_clock_task c delta = upd_rq c (\<lambda>r. r\<lparr>rq_clock_task := rq_clock_task r + delta\<rparr>)"

definition update_rq_clock :: "cpu \<Rightarrow> sched_state \<Rightarrow> sched_state" where
  "update_rq_clock c st =
    (if has_flag (rq_clock_flags (rqs st c)) RQCF_ACT_SKIP then st
     else let delta = hw_clock st c - rq_clock (rqs st c) in
       if sint delta < 0 then st
       else update_rq_clock_task c delta
              (upd_rq c (\<lambda>r. r\<lparr>rq_clock := rq_clock r + delta\<rparr>) st))"

definition resched_curr :: "cpu \<Rightarrow> sched_state \<Rightarrow> sched_state" where
  "resched_curr c st =
    (let curr = curr_of st c in
     if p_need_resched (tasks st curr) then st
     else if c = this_cpu st
       then upd_rq c (\<lambda>r. r\<lparr>rq_preempt_resched := True\<rparr>) (upd_task curr (\<lambda>t. t\<lparr>p_need_resched := True\<rparr>) st)
     else let st' = upd_task curr (\<lambda>t. t\<lparr>p_need_resched := True\<rparr>) st in
       if \<not> p_polling (tasks st curr) then st'\<lparr>ipis := ipis st' @ [c]\<rparr> else st')"

definition resched_cpu :: "cpu \<Rightarrow> sched_state \<Rightarrow> sched_state" where
  "resched_cpu c st = (if c \<in> set (cpu_online_mask st) \<or> c = this_cpu st then resched_curr c st else st)"

lemma resched_curr_frame [st_simps]:
  "p_prio (tasks (resched_curr c st) q) = p_prio (tasks st q)"
  "p_class (tasks (resched_curr c st) q) = p_class (tasks st q)"
  "p_policy (tasks (resched_curr c st) q) = p_policy (tasks st q)"
  "p_cpu (tasks (resched_curr c st) q) = p_cpu (tasks st q)"
  "p_on_rq (tasks (resched_curr c st) q) = p_on_rq (tasks st q)"
  "p_state (tasks (resched_curr c st) q) = p_state (tasks st q)"
  "p_ts_node (tasks (resched_curr c st) q) = p_ts_node (tasks st q)"
  "p_ts_time_slice (tasks (resched_curr c st) q) = p_ts_time_slice (tasks st q)"
  "p_rt_on_rq (tasks (resched_curr c st) q) = p_rt_on_rq (tasks st q)"
  "p_rt_on_list (tasks (resched_curr c st) q) = p_rt_on_list (tasks st q)"
  "rq_ts (rqs (resched_curr c st) d) = rq_ts (rqs st d)"
  "rq_rt (rqs (resched_curr c st) d) = rq_rt (rqs st d)"
  "rq_curr (rqs (resched_curr c st) d) = rq_curr (rqs st d)"
  "rq_nr_running (rqs (resched_curr c st) d) = rq_nr_running (rqs st d)"
  "rd (resched_curr c st) = rd st"
  "def_rt_b (resched_curr c st) = def_rt_b st"
  by (auto simp: resched_curr_def Let_def upd_task_def upd_rq_def)

lemma resched_curr_sets: "p_need_resched (tasks (resched_curr c st) (curr_of st c))"
  by (auto simp: resched_curr_def Let_def st_simps)

section \<open>Blank objects\<close>

text \<open>
  A task and a run queue as the boot code leaves them before anything is queued
  (\<open>sched_init\<close>, \<open>__sched_fork\<close>): a nice-0 task with its list nodes initialised, empty
  queues with the delimiter bit of the rt bitmap set.
\<close>

definition blank_task :: task_struct where
  "blank_task = \<lparr>p_pid = 0, p_state = 0, p_flags = 0, p_on_rq = 0, p_on_cpu = False, p_cpu = 0,
     p_wake_cpu = 0, p_prio = 120, p_static_prio = 120, p_normal_prio = 120, p_rt_priority = 0,
     p_policy = SCHED_NORMAL, p_class = Fair_class, p_cpus_allowed = [0, 1], p_nr_cpus_allowed = 2,
     p_ts_node = Self_linked, p_ts_time_slice = 12, p_rt_timeout = 0, p_rt_stamp = 0,
     p_rt_time_slice = 100, p_rt_on_rq = False, p_rt_on_list = False, p_exec_start = 0, p_sum_exec = 0,
     p_weight = 0, p_inv_weight = 0, p_reset_on_fork = False, p_contributes = False,
     p_in_iowait = False, p_need_resched = False, p_polling = False, p_has_mm = True, p_pi_top = None,
     p_dl_boosted = False, p_nvcsw = 0, p_nivcsw = 0, p_rlim = (\<lambda>_. RLIM_INFINITY), p_rlim_max = (\<lambda>_. RLIM_INFINITY), p_sched_exp = 0,
     p_remote_wakeup = False, p_nr_migrations = 0, p_uid = 0, p_euid = 0\<rparr>"

definition blank_rt_rq :: rt_rq where
  "blank_rt_rq = \<lparr>rt_queue = replicate 100 [], rt_bitmap = replicate 100 False @ [True],
     rt_nr_running = 0, rr_nr_running = 0, rt_highest_curr = 100, rt_highest_next = 100,
     rt_nr_migratory = 0, rt_nr_total = 0, rt_overloaded = False, rt_pushable = [], rt_queued = False,
     rt_throttled = False, rt_time = 0, rt_runtime = 950000000\<rparr>"

definition blank_rq :: rq where
  "blank_rq = \<lparr>rq_nr_running = 0, rq_cfs_h_nr = 0, rq_dl_nr = 0, rq_rt = blank_rt_rq,
     rq_ts = replicate 40 [], rq_curr = 0, rq_idle = 0, rq_stop = None, rq_nr_switches = 0,
     rq_nr_unint = 0, rq_nr_iowait = 0, rq_clock = 0, rq_clock_task = 0, rq_clock_flags = 0,
     rq_online = True, rq_preempt_resched = False, rq_callbacks = [],
     rq_wake_list = [], rq_idle_stamp = 0, rq_avg_idle = 0, rq_max_idle_cost = 500000\<rparr>"

definition blank_state :: sched_state where
  "blank_state = \<lparr>tasks = (\<lambda>p. blank_task\<lparr>p_pid := int p\<rparr>), rqs = (\<lambda>_. blank_rq),
     rd = \<lparr>rd_span = [0, 1], rd_online = [0, 1], rd_overload = False, rd_rto_count = 0, rd_rto_mask = [], rd_rto_cpu = -1,
       rd_rto_loop = 0, rd_rto_loop_next = 0, rd_rto_loop_start = 0, rd_cpupri = (\<lambda>_. 0)\<rparr>,
     def_rt_b = \<lparr>rtb_period = 1000000000, rtb_runtime = 950000000, rtb_active = False\<rparr>,
     sysctl_rt_period = 1000000, sysctl_rt_runtime = 950000, rr_timeslice = 100,
     hw_clock = (\<lambda>_. 0), jiffies = 0, this_cpu = 0, nr_cpus = 2, cpu_online_mask = [0, 1],
     cpu_active_mask = [0, 1], ipis = [], scheduler_running = True,
     feat_rt_runtime_share = True, feat_rt_push_ipi = False, feat_ttwu_queue = False, cfg_hz = 1000\<rparr>"

lemmas blank_defs = blank_state_def blank_rq_def blank_rt_rq_def blank_task_def

end
