(* ===== verification/Sched_Class.thy ===== *)
theory Sched_Class
  imports Sched_Types
begin

text \<open>
  The interface between the core scheduler and the queues of a scheduling class: what
  \<open>core.c\<close> relies on when it takes a task off one run queue and puts it on another
  (\<open>move_queued_task\<close>, \<open>push_rt_task\<close>, \<open>pull_rt_task\<close>) or off and on the same one
  (\<open>__sched_setscheduler\<close>, \<open>set_user_nice\<close>). The client lemmas are proved once here
  and hold for every class that meets the contract.
\<close>

locale class_queue =
  fixes enq :: "cpu \<Rightarrow> tid \<Rightarrow> u32 \<Rightarrow> sched_state \<Rightarrow> sched_state option"
    and deq :: "cpu \<Rightarrow> tid \<Rightarrow> u32 \<Rightarrow> sched_state \<Rightarrow> sched_state option"
    and queued :: "sched_state \<Rightarrow> cpu \<Rightarrow> tid \<Rightarrow> bool"
    and ready :: "sched_state \<Rightarrow> cpu \<Rightarrow> tid \<Rightarrow> bool"
    and okf :: "u32 \<Rightarrow> bool"
    and wf :: "sched_state \<Rightarrow> bool"
  assumes enq_total: "wf st \<Longrightarrow> ready st c p \<Longrightarrow> okf f \<Longrightarrow> \<exists>st'. enq c p f st = Some st'"
    and enq_wf: "wf st \<Longrightarrow> ready st c p \<Longrightarrow> okf f \<Longrightarrow> enq c p f st = Some st' \<Longrightarrow> wf st'"
    and enq_queued: "wf st \<Longrightarrow> ready st c p \<Longrightarrow> okf f \<Longrightarrow> enq c p f st = Some st' \<Longrightarrow>
           queued st' d x \<longleftrightarrow> queued st d x \<or> (d = c \<and> x = p)"
    and enq_ready: "wf st \<Longrightarrow> ready st c p \<Longrightarrow> okf f \<Longrightarrow> enq c p f st = Some st' \<Longrightarrow> x \<noteq> p \<Longrightarrow>
           ready st' d x \<longleftrightarrow> ready st d x"
    and deq_total: "wf st \<Longrightarrow> queued st c p \<Longrightarrow> okf f \<Longrightarrow> \<exists>st'. deq c p f st = Some st'"
    and deq_wf: "wf st \<Longrightarrow> queued st c p \<Longrightarrow> okf f \<Longrightarrow> deq c p f st = Some st' \<Longrightarrow> wf st'"
    and deq_queued: "wf st \<Longrightarrow> queued st c p \<Longrightarrow> okf f \<Longrightarrow> deq c p f st = Some st' \<Longrightarrow>
           queued st' d x \<longleftrightarrow> queued st d x \<and> x \<noteq> p"
    and deq_ready: "wf st \<Longrightarrow> queued st c p \<Longrightarrow> okf f \<Longrightarrow> deq c p f st = Some st' \<Longrightarrow> ready st' c p"
    and ready_unqueued: "wf st \<Longrightarrow> ready st c p \<Longrightarrow> \<not> queued st d p"
    and queued_once: "wf st \<Longrightarrow> queued st c p \<Longrightarrow> queued st d p \<Longrightarrow> c = d"
begin

definition requeue :: "cpu \<Rightarrow> tid \<Rightarrow> u32 \<Rightarrow> u32 \<Rightarrow> sched_state \<Rightarrow> sched_state option" where
  "requeue c p f g st = do { st \<leftarrow> deq c p f st; enq c p g st }"

text \<open>Taking a queued task off and putting it back never fails and keeps who is queued where.\<close>

lemma requeue_total:
  assumes "wf st" "queued st c p" "okf f" "okf g"
  obtains st' where "requeue c p f g st = Some st'" "wf st'" "\<And>d x. queued st' d x \<longleftrightarrow> queued st d x"
proof -
  obtain s1 where s1: "deq c p f st = Some s1" using deq_total assms by blast
  note w = deq_wf [OF assms(1-3) s1] and r = deq_ready [OF assms(1-3) s1]
  obtain s2 where s2: "enq c p g s1 = Some s2" using enq_total w r assms by blast
  have "queued s2 d x \<longleftrightarrow> queued st d x" for d x
    using enq_queued [OF w r assms(4) s2, of d x] deq_queued [OF assms(1-3) s1, of d x]
      queued_once [OF assms(1,2)] assms(2) by blast
  with that s1 s2 enq_wf [OF w r assms(4) s2] show thesis by (auto simp: requeue_def)
qed

fun enq_all :: "cpu \<Rightarrow> u32 \<Rightarrow> tid list \<Rightarrow> sched_state \<Rightarrow> sched_state option" where
  "enq_all c f [] st = Some st"
| "enq_all c f (p # ps) st = do { st \<leftarrow> enq c p f st; enq_all c f ps st }"

text \<open>Enqueueing a batch of distinct ready tasks queues exactly them, in addition.\<close>

lemma enq_all_total:
  assumes "wf st" "distinct ps" "\<And>p. p \<in> set ps \<Longrightarrow> ready st c p" "okf f"
  shows "\<exists>st'. enq_all c f ps st = Some st' \<and> wf st' \<and>
     (\<forall>d x. queued st' d x \<longleftrightarrow> queued st d x \<or> (d = c \<and> x \<in> set ps))"
  using assms(1-3)
proof (induction ps arbitrary: st)
  case Nil
  then show ?case by simp
next
  case (Cons p ps)
  then have rp: "ready st c p" by simp
  obtain s1 where s1: "enq c p f st = Some s1" using enq_total [OF Cons.prems(1) rp assms(4)] by blast
  have w: "wf s1" using enq_wf [OF Cons.prems(1) rp assms(4) s1] .
  have r: "ready s1 c q" if "q \<in> set ps" for q
    using enq_ready [OF Cons.prems(1) rp assms(4) s1, of q c] that Cons.prems(2,3) by auto
  from Cons.IH [OF w _ r] Cons.prems(2) obtain s2 where
    s2: "enq_all c f ps s1 = Some s2" "wf s2" "\<forall>d x. queued s2 d x \<longleftrightarrow> queued s1 d x \<or> (d = c \<and> x \<in> set ps)"
    by auto
  with s1 enq_queued [OF Cons.prems(1) rp assms(4) s1] show ?case by auto
qed

end

end
