(* ===== verification/Sched_TS.thy ===== *)
theory Sched_TS
  imports Sched_Class
begin

text \<open>
  The \<open>SCHED_TS\<close> class of \<open>kernel/sched/ts.c\<close>: forty FIFO queues per CPU, indexed by
  the level \<open>139 - prio\<close>. Every operation of the class table is one definition, in the
  order of the source. The kernel log lines (\<open>printk\<close>) are not state. The intrusive
  list operations of \<open>linux/list.h\<close> act on the node alone, whatever run queue it is
  on; using a poisoned node, linking a linked one, or indexing \<open>queue\<close> outside its
  forty entries is a fault (\<open>None\<close>).
\<close>

section \<open>Model\<close>

definition SleepPrioLUT :: "int list" where
  "SleepPrioLUT = replicate 10 30 @ replicate 10 31 @ [32, 33, 34, 35, 36, 36, 37, 37, 38, 38] @ replicate 10 39"

definition init_ts_rq :: "cpu \<Rightarrow> sched_state \<Rightarrow> sched_state" where
  "init_ts_rq c = upd_rq c (\<lambda>r. r\<lparr>rq_ts := replicate 40 []\<rparr>)"

subsection \<open>The list operations on \<open>sched_ts_entity.list\<close>\<close>

definition ts_unlink :: "tid \<Rightarrow> sched_state \<Rightarrow> sched_state" where
  "ts_unlink p st = st\<lparr>rqs := (\<lambda>d. (rqs st d)\<lparr>rq_ts := qs_del p (rq_ts (rqs st d))\<rparr>)\<rparr>"

definition ts_list_del :: "tid \<Rightarrow> sched_state \<Rightarrow> sched_state option" where
  "ts_list_del p st =
    (if p_ts_node (tasks st p) = Poisoned then None
     else Some (upd_task p (\<lambda>t. t\<lparr>p_ts_node := Poisoned\<rparr>) (ts_unlink p st)))"

definition ts_list_add_tail :: "cpu \<Rightarrow> int \<Rightarrow> tid \<Rightarrow> sched_state \<Rightarrow> sched_state option" where
  "ts_list_add_tail c i p st =
    (if in_bounds i (rq_ts (rqs st c)) \<and> p_ts_node (tasks st p) \<noteq> On_list
     then Some (upd_task p (\<lambda>t. t\<lparr>p_ts_node := On_list\<rparr>)
            (upd_rq c (\<lambda>r. r\<lparr>rq_ts := qs_add_tail (nat i) p (rq_ts r)\<rparr>) st))
     else None)"

definition ts_list_move_tail :: "cpu \<Rightarrow> int \<Rightarrow> tid \<Rightarrow> sched_state \<Rightarrow> sched_state option" where
  "ts_list_move_tail c i p st = do {
     st \<leftarrow> ts_list_del p st;
     ts_list_add_tail c i p st
   }"

subsection \<open>The operations of the class\<close>

definition enqueue_task_ts :: "cpu \<Rightarrow> tid \<Rightarrow> u32 \<Rightarrow> sched_state \<Rightarrow> sched_state option" where
  "enqueue_task_ts c p flags st = do {
     st \<leftarrow> (if has_flag flags ENQUEUE_WAKEUP
            then do {
              v \<leftarrow> aread SleepPrioLUT (139 - prio_of st p);
              Some (upd_task p (\<lambda>t. t\<lparr>p_prio := 139 - v\<rparr>) st)
            }
            else Some st);
     ts_list_add_tail c (139 - prio_of st p) p st
   }"

definition dequeue_task_ts :: "cpu \<Rightarrow> tid \<Rightarrow> u32 \<Rightarrow> sched_state \<Rightarrow> sched_state option" where
  "dequeue_task_ts c p flags st = ts_list_del p st"

definition yield_task_ts :: "cpu \<Rightarrow> sched_state \<Rightarrow> sched_state option" where
  "yield_task_ts c st =
    (let curr = curr_of st c in ts_list_move_tail c (139 - prio_of st curr) curr st)"

definition check_preempt_curr_ts :: "cpu \<Rightarrow> tid \<Rightarrow> u32 \<Rightarrow> sched_state \<Rightarrow> sched_state" where
  "check_preempt_curr_ts c p flags st =
    (if prio_of st p < prio_of st (curr_of st c) then resched_curr c st else st)"

text \<open>
  The loop of \<open>pick_next_task_ts\<close>: the highest non-empty queue below \<open>n\<close>. The call of
  \<open>put_prev_task\<close> (\<open>sched.h\<close>) dispatches on the class of \<open>prev\<close> and is a parameter
  here; the head of queue \<open>i\<close> is read after it, and an empty queue then would be taken for
  a task (a fault).
\<close>

fun pick_ts_loop :: "tid list list \<Rightarrow> nat \<Rightarrow> nat option" where
  "pick_ts_loop qs 0 = None"
| "pick_ts_loop qs (Suc i) = (if qs ! i \<noteq> [] then Some i else pick_ts_loop qs i)"

definition pick_next_task_ts ::
  "(cpu \<Rightarrow> tid \<Rightarrow> sched_state \<Rightarrow> sched_state option) \<Rightarrow> cpu \<Rightarrow> tid \<Rightarrow> sched_state \<Rightarrow> (tid option \<times> sched_state) option"
where
  "pick_next_task_ts put_prev c prev st =
    (case pick_ts_loop (rq_ts (rqs st c)) 40 of
       None \<Rightarrow> Some (None, st)
     | Some i \<Rightarrow> do {
         st \<leftarrow> put_prev c prev st;
         (case rq_ts (rqs st c) ! i of [] \<Rightarrow> None | p # _ \<Rightarrow> Some (Some p, st))
       })"

definition put_prev_task_ts :: "cpu \<Rightarrow> tid \<Rightarrow> sched_state \<Rightarrow> sched_state" where
  "put_prev_task_ts c p st = st"

definition set_curr_task_ts :: "cpu \<Rightarrow> sched_state \<Rightarrow> sched_state" where
  "set_curr_task_ts c st = st"

definition task_tick_ts :: "cpu \<Rightarrow> tid \<Rightarrow> sched_state \<Rightarrow> sched_state option" where
  "task_tick_ts c p st =
    (if p_policy (tasks st p) \<noteq> SCHED_TS then Some st
     else
       let slice = p_ts_time_slice (tasks st p) - 1;
           st = upd_task p (\<lambda>t. t\<lparr>p_ts_time_slice := slice\<rparr>) st
       in if slice \<noteq> 0 then Some st
          else
            let now_prio = 139 - prio_of st p;
                after_prio = (if now_prio > 10 then now_prio - 10 else 0);
                st = upd_task p (\<lambda>t. t\<lparr>p_prio := 139 - after_prio,
                        p_ts_time_slice := word_of_int ((4 - after_prio div 10) * 4)\<rparr>) st
            in do {
              st \<leftarrow> ts_list_move_tail c after_prio p st;
              Some (resched_curr c st)
            })"

text \<open>C division truncates towards zero; the argument is a level, which is never negative.\<close>

definition get_rr_interval_ts :: "cpu \<Rightarrow> tid \<Rightarrow> sched_state \<Rightarrow> u32" where
  "get_rr_interval_ts c p st =
    (let n = 139 - prio_of st p; q = (if n < 0 then - ((- n) div 10) else n div 10)
     in word_of_int ((4 - q) * 4))"

definition prio_changed_ts :: "cpu \<Rightarrow> tid \<Rightarrow> int \<Rightarrow> sched_state \<Rightarrow> sched_state" where
  "prio_changed_ts c p oldprio st = st"

definition switched_to_ts :: "cpu \<Rightarrow> tid \<Rightarrow> sched_state \<Rightarrow> sched_state" where
  "switched_to_ts c p st = st"

definition update_curr_ts :: "cpu \<Rightarrow> sched_state \<Rightarrow> sched_state" where
  "update_curr_ts c st = st"

definition select_task_rq_ts :: "tid \<Rightarrow> cpu \<Rightarrow> sched_state \<Rightarrow> cpu" where
  "select_task_rq_ts p c st = p_cpu (tasks st p)"

section \<open>Well-formed TS run queues\<close>

text \<open>
  \<open>ts_wf\<close>: every run queue has its forty queues, a task is linked at most once, a task
  in queue \<open>i\<close> of a CPU has priority \<open>139 - i\<close> and a node marked linked, and every
  node marked linked is in a queue of exactly one CPU. Executable for a given set of
  CPUs and tasks, stated here over all of them.
\<close>

definition ts_level :: "sched_state \<Rightarrow> tid \<Rightarrow> int" where
  "ts_level st p = 139 - prio_of st p"

definition ts_linked :: "sched_state \<Rightarrow> cpu \<Rightarrow> tid \<Rightarrow> bool" where
  "ts_linked st c p \<longleftrightarrow> qs_mem p (rq_ts (rqs st c))"

definition ts_wf :: "sched_state \<Rightarrow> bool" where
  "ts_wf st \<longleftrightarrow>
    (\<forall>c. length (rq_ts (rqs st c)) = 40 \<and> qs_ok (rq_ts (rqs st c))) \<and>
    (\<forall>c i p. i < 40 \<longrightarrow> p \<in> set (rq_ts (rqs st c) ! i) \<longrightarrow> ts_level st p = int i) \<and>
    (\<forall>p. p_ts_node (tasks st p) = On_list \<longleftrightarrow> (\<exists>c. ts_linked st c p)) \<and>
    (\<forall>c d p. ts_linked st c p \<longrightarrow> ts_linked st d p \<longrightarrow> c = d)"

lemma ts_wfD:
  assumes "ts_wf st"
  shows "length (rq_ts (rqs st c)) = 40" "qs_ok (rq_ts (rqs st c))"
    "i < 40 \<Longrightarrow> p \<in> set (rq_ts (rqs st c) ! i) \<Longrightarrow> ts_level st p = int i"
    "p_ts_node (tasks st p) = On_list \<longleftrightarrow> (\<exists>c. ts_linked st c p)"
    "ts_linked st c p \<Longrightarrow> ts_linked st d p \<Longrightarrow> c = d"
  using assms unfolding ts_wf_def by blast+

lemma ts_wfI:
  assumes "\<And>c. length (rq_ts (rqs st c)) = 40" "\<And>c. qs_ok (rq_ts (rqs st c))"
    "\<And>c i p. i < 40 \<Longrightarrow> p \<in> set (rq_ts (rqs st c) ! i) \<Longrightarrow> ts_level st p = int i"
    "\<And>p. p_ts_node (tasks st p) = On_list \<longleftrightarrow> (\<exists>c. ts_linked st c p)"
    "\<And>c d p. ts_linked st c p \<Longrightarrow> ts_linked st d p \<Longrightarrow> c = d"
  shows "ts_wf st"
  using assms unfolding ts_wf_def by blast


lemma ts_unlink_sel [st_simps]:
  "tasks (ts_unlink p st) = tasks st"
  "rq_ts (rqs (ts_unlink p st) d) = qs_del p (rq_ts (rqs st d))"
  "rq_curr (rqs (ts_unlink p st) d) = rq_curr (rqs st d)"
  "rq_rt (rqs (ts_unlink p st) d) = rq_rt (rqs st d)"
  "rq_nr_running (rqs (ts_unlink p st) d) = rq_nr_running (rqs st d)"
  "rd (ts_unlink p st) = rd st"
  "this_cpu (ts_unlink p st) = this_cpu st"
  by (simp_all add: ts_unlink_def)

lemma ts_list_del_Some:
  "ts_list_del p st = Some st' \<longleftrightarrow> p_ts_node (tasks st p) \<noteq> Poisoned \<and>
     st' = upd_task p (\<lambda>t. t\<lparr>p_ts_node := Poisoned\<rparr>) (ts_unlink p st)"
  by (auto simp: ts_list_del_def)

lemma ts_list_add_tail_Some:
  "ts_list_add_tail c i p st = Some st' \<longleftrightarrow>
     in_bounds i (rq_ts (rqs st c)) \<and> p_ts_node (tasks st p) \<noteq> On_list \<and>
     st' = upd_task p (\<lambda>t. t\<lparr>p_ts_node := On_list\<rparr>)
            (upd_rq c (\<lambda>r. r\<lparr>rq_ts := qs_add_tail (nat i) p (rq_ts r)\<rparr>) st)"
  by (auto simp: ts_list_add_tail_def)

lemma ts_not_linked: "ts_wf st \<Longrightarrow> p_ts_node (tasks st p) \<noteq> On_list \<Longrightarrow> \<not> ts_linked st c p"
  using ts_wfD(4) by blast

text \<open>Unlinking keeps the queues well formed, whatever the priority becomes meanwhile.\<close>

lemma ts_wf_unlinked:
  assumes wf: "ts_wf st"
    and q: "\<And>c. rq_ts (rqs st' c) = qs_del p (rq_ts (rqs st c))"
    and n: "p_ts_node (tasks st' p) \<noteq> On_list"
    and o: "\<And>x. x \<noteq> p \<Longrightarrow> p_ts_node (tasks st' x) = p_ts_node (tasks st x) \<and> prio_of st' x = prio_of st x"
  shows "ts_wf st'" and "\<not> ts_linked st' c p"
proof -
  have lnk: "ts_linked st' c x \<longleftrightarrow> x \<noteq> p \<and> ts_linked st c x" for c x
    by (simp add: ts_linked_def q qs_mem_del)
  show "ts_wf st'"
  proof (rule ts_wfI)
    fix c i x assume i: "i < (40::nat)" and x: "x \<in> set (rq_ts (rqs st' c) ! i)"
    then have "x \<noteq> p" "x \<in> set (rq_ts (rqs st c) ! i)"
      by (simp_all add: q nth_qs_del ts_wfD(1) [OF wf])
    with ts_wfD(3) [OF wf i] o show "ts_level st' x = int i"
      by (simp add: ts_level_def)
  next
    fix x
    show "p_ts_node (tasks st' x) = On_list \<longleftrightarrow> (\<exists>c. ts_linked st' c x)"
      using ts_wfD(4) [OF wf, of x] n o [of x] by (cases "x = p") (auto simp: lnk)
  next
    fix c d x assume "ts_linked st' c x" "ts_linked st' d x"
    with ts_wfD(5) [OF wf] show "c = d" by (auto simp: lnk)
  qed (simp_all add: q ts_wfD [OF wf] qs_ok_del)
  show "\<not> ts_linked st' c p" by (simp add: lnk)
qed

text \<open>Appending an unlinked task to the queue of its level keeps the queues well formed.\<close>

lemma ts_wf_appended:
  assumes wf: "ts_wf st" and n0: "p_ts_node (tasks st p) \<noteq> On_list" and l: "ts_level st' p = int l" "l < 40"
    and q: "\<And>d. rq_ts (rqs st' d) = (if d = c then qs_add_tail l p (rq_ts (rqs st c)) else rq_ts (rqs st d))"
    and n: "p_ts_node (tasks st' p) = On_list"
    and o: "\<And>x. x \<noteq> p \<Longrightarrow> p_ts_node (tasks st' x) = p_ts_node (tasks st x) \<and> prio_of st' x = prio_of st x"
  shows "ts_wf st'" and "ts_linked st' d x \<longleftrightarrow> ts_linked st d x \<or> (d = c \<and> x = p)"
proof -
  note un = ts_not_linked [OF wf n0]
  have lnk: "ts_linked st' d x \<longleftrightarrow> ts_linked st d x \<or> (d = c \<and> x = p)" for d x
    using l by (auto simp: ts_linked_def q qs_mem_add_tail ts_wfD(1) [OF wf])
  show "ts_wf st'"
  proof (rule ts_wfI)
    fix d
    show "qs_ok (rq_ts (rqs st' d))"
      using un [of c] l by (auto simp: q ts_wfD [OF wf] ts_linked_def intro!: qs_ok_add_tail)
  next
    fix d i x assume i: "i < (40::nat)" and x: "x \<in> set (rq_ts (rqs st' d) ! i)"
    then consider "x = p" "i = l" | "x \<in> set (rq_ts (rqs st d) ! i)"
      by (auto simp: q nth_qs_add_tail ts_wfD(1) [OF wf] split: if_splits)
    then show "ts_level st' x = int i"
    proof cases
      case 2
      with i un [of d] have "x \<noteq> p"
        using ts_wfD(1) [OF wf, of d] by (auto simp: ts_linked_def qs_mem_nth)
      with ts_wfD(3) [OF wf i 2] o show ?thesis by (simp add: ts_level_def)
    qed (use l in simp)
  next
    fix x
    show "p_ts_node (tasks st' x) = On_list \<longleftrightarrow> (\<exists>d. ts_linked st' d x)"
      using ts_wfD(4) [OF wf, of x] n o [of x] by (cases "x = p") (auto simp: lnk)
  next
    fix d e x assume "ts_linked st' d x" "ts_linked st' e x"
    with un show "d = e" by (auto simp: lnk dest: ts_wfD(5) [OF wf])
  qed (simp add: q ts_wfD [OF wf])
  show "ts_linked st' d x \<longleftrightarrow> ts_linked st d x \<or> (d = c \<and> x = p)" by (rule lnk)
qed


section \<open>Behaviour of the operations\<close>

definition ts_ready :: "sched_state \<Rightarrow> tid \<Rightarrow> bool" where
  "ts_ready st p \<longleftrightarrow> p_ts_node (tasks st p) \<noteq> On_list \<and> 100 \<le> prio_of st p \<and> prio_of st p \<le> 139"

lemma ts_readyD:
  assumes "ts_ready st p"
  shows "0 \<le> ts_level st p" "ts_level st p < 40" "p_ts_node (tasks st p) \<noteq> On_list"
  using assms by (auto simp: ts_ready_def ts_level_def)

lemma SleepPrioLUT_all: "length SleepPrioLUT = 40"
  "\<forall>i \<in> set [0..<40]. int i \<le> SleepPrioLUT ! i \<and> 30 \<le> SleepPrioLUT ! i \<and> SleepPrioLUT ! i \<le> 39"
  by code_simp+

lemma SleepPrioLUT_bounds:
  assumes "0 \<le> i" "i < 40"
  shows "i \<le> SleepPrioLUT ! nat i" "30 \<le> SleepPrioLUT ! nat i" "SleepPrioLUT ! nat i \<le> 39"
  using SleepPrioLUT_all(2) [rule_format, of "nat i"] assms by auto

text \<open>The level a task is queued at: its own, or on a wake-up the one of the sleep table.\<close>

definition ts_enq_level :: "u32 \<Rightarrow> sched_state \<Rightarrow> tid \<Rightarrow> int" where
  "ts_enq_level flags st p =
     (if has_flag flags ENQUEUE_WAKEUP then SleepPrioLUT ! nat (ts_level st p) else ts_level st p)"

lemma ts_enq_level_bounds:
  assumes "ts_ready st p"
  shows "0 \<le> ts_enq_level f st p" "ts_enq_level f st p < 40" "ts_level st p \<le> ts_enq_level f st p"
  using SleepPrioLUT_bounds [OF ts_readyD(1,2) [OF assms]] ts_readyD(1,2) [OF assms]
  by (auto simp: ts_enq_level_def)

text \<open>What \<open>enqueue_task_ts\<close> returns, in closed form.\<close>

lemma enqueue_task_ts_eq:
  assumes wf: "ts_wf st" and r: "ts_ready st p"
  shows "enqueue_task_ts c p f st = Some
    (upd_task p (\<lambda>t. t\<lparr>p_ts_node := On_list\<rparr>)
      (upd_rq c (\<lambda>q. q\<lparr>rq_ts := qs_add_tail (nat (ts_enq_level f st p)) p (rq_ts q)\<rparr>)
        (upd_task p (\<lambda>t. t\<lparr>p_prio := 139 - ts_enq_level f st p\<rparr>) st)))"
proof -
  have self: "upd_task p (\<lambda>t. t\<lparr>p_prio := prio_of st p\<rparr>) st = st"
    by (simp add: upd_task_def)
  have b: "99 < prio_of st p" "prio_of st p \<le> 139" using r by (auto simp: ts_ready_def)
  show ?thesis
    using b ts_readyD(3) [OF r] ts_enq_level_bounds [OF r, of f] ts_wfD(1) [OF wf, of c]
    by (cases "has_flag f ENQUEUE_WAKEUP")
      (simp_all add: enqueue_task_ts_def ts_enq_level_def ts_list_add_tail_def in_bounds_def st_simps
        SleepPrioLUT_all(1) self aread_def ts_level_def nat_less_iff)
qed

lemma enqueue_task_ts_spec:
  assumes wf: "ts_wf st" and r: "ts_ready st p" and e: "enqueue_task_ts c p f st = Some st'"
  shows "ts_wf st'" "ts_linked st' d x \<longleftrightarrow> ts_linked st d x \<or> (d = c \<and> x = p)"
    "ts_level st' p = ts_enq_level f st p"
    "rq_ts (rqs st' c) = qs_add_tail (nat (ts_enq_level f st p)) p (rq_ts (rqs st c))"
proof -
  note l = ts_enq_level_bounds [OF r, of f]
  note eq = e [unfolded enqueue_task_ts_eq [OF wf r] option.inject, symmetric]
  show lev: "ts_level st' p = ts_enq_level f st p"
    by (simp add: eq ts_level_def st_simps)
  have lev': "ts_level st' p = int (nat (ts_enq_level f st p))" "nat (ts_enq_level f st p) < 40"
    using l lev by auto
  have q: "rq_ts (rqs st' d) = (if d = c then qs_add_tail (nat (ts_enq_level f st p)) p (rq_ts (rqs st c)) else rq_ts (rqs st d))" for d
    by (simp add: eq st_simps)
  have rest: "p_ts_node (tasks st' p) = On_list"
    "x \<noteq> p \<Longrightarrow> p_ts_node (tasks st' x) = p_ts_node (tasks st x) \<and> prio_of st' x = prio_of st x" for x
    by (simp_all add: eq st_simps)
  show "ts_wf st'" "ts_linked st' d x \<longleftrightarrow> ts_linked st d x \<or> (d = c \<and> x = p)"
    using ts_wf_appended [OF wf ts_readyD(3) [OF r] lev' q rest] by blast+
  show "rq_ts (rqs st' c) = qs_add_tail (nat (ts_enq_level f st p)) p (rq_ts (rqs st c))"
    by (simp add: q)
qed

lemma ts_linked_node: "ts_wf st \<Longrightarrow> ts_linked st c p \<Longrightarrow> p_ts_node (tasks st p) = On_list"
  using ts_wfD(4) by blast

lemma ts_linked_level:
  assumes "ts_wf st" "ts_linked st c p"
  shows "0 \<le> ts_level st p" "ts_level st p < 40" "p \<in> set (rq_ts (rqs st c) ! nat (ts_level st p))"
proof -
  from assms(2) ts_wfD(1) [OF assms(1)] obtain i where i: "i < 40" "p \<in> set (rq_ts (rqs st c) ! i)"
    by (auto simp: ts_linked_def qs_mem_nth)
  with ts_wfD(3) [OF assms(1)] have "ts_level st p = int i" by blast
  with i show "0 \<le> ts_level st p" "ts_level st p < 40" "p \<in> set (rq_ts (rqs st c) ! nat (ts_level st p))"
    by auto
qed

lemma dequeue_task_ts_spec:
  assumes wf: "ts_wf st" and l: "ts_linked st c p" and e: "dequeue_task_ts c' p f st = Some st'"
  shows "ts_wf st'" "ts_linked st' d x \<longleftrightarrow> ts_linked st d x \<and> x \<noteq> p" "ts_ready st' p"
    "rq_ts (rqs st' d) = qs_del p (rq_ts (rqs st d))"
proof -
  from e have eq: "st' = upd_task p (\<lambda>t. t\<lparr>p_ts_node := Poisoned\<rparr>) (ts_unlink p st)"
    by (simp add: dequeue_task_ts_def ts_list_del_Some)
  have q: "rq_ts (rqs st' d) = qs_del p (rq_ts (rqs st d))" for d
    by (simp add: eq st_simps)
  show "ts_wf st'"
    by (rule ts_wf_unlinked(1) [OF wf q]) (simp_all add: eq st_simps)
  show "ts_linked st' d x \<longleftrightarrow> ts_linked st d x \<and> x \<noteq> p"
    by (auto simp: ts_linked_def q qs_mem_del)
  show "ts_ready st' p"
    using ts_linked_level(1,2) [OF wf l] by (auto simp: ts_ready_def eq st_simps ts_level_def)
  show "rq_ts (rqs st' d) = qs_del p (rq_ts (rqs st d))" by (rule q)
qed

lemma dequeue_task_ts_total:
  "ts_wf st \<Longrightarrow> ts_linked st c p \<Longrightarrow> \<exists>st'. dequeue_task_ts c' p f st = Some st'"
  using ts_linked_node by (fastforce simp: dequeue_task_ts_def ts_list_del_def)


subsection \<open>Picking\<close>

lemma pick_ts_loop_Some:
  "pick_ts_loop qs n = Some i \<Longrightarrow> i < n \<and> qs ! i \<noteq> [] \<and> (\<forall>j. i < j \<longrightarrow> j < n \<longrightarrow> qs ! j = [])"
  by (induction n) (auto split: if_splits simp: less_Suc_eq)

lemma pick_ts_loop_None: "pick_ts_loop qs n = None \<longleftrightarrow> (\<forall>j < n. qs ! j = [])"
  by (induction n) (auto simp: less_Suc_eq)

lemma pick_ts_loop_linked:
  assumes wf: "ts_wf st"
  shows "pick_ts_loop (rq_ts (rqs st c)) 40 = None \<longleftrightarrow> (\<forall>p. \<not> ts_linked st c p)"
  unfolding pick_ts_loop_None
  by (auto simp: ts_linked_def qs_mem_nth ts_wfD(1) [OF wf]) (metis list.set_intros(1) neq_Nil_conv)

text \<open>The head of the queue the loop finds: highest level, first in, among all linked tasks.\<close>

lemma pick_ts_head:
  assumes wf: "ts_wf st" and i: "pick_ts_loop (rq_ts (rqs st c)) 40 = Some i"
  obtains p rest where "rq_ts (rqs st c) ! i = p # rest" "ts_linked st c p" "ts_level st p = int i"
    "\<And>q. ts_linked st c q \<Longrightarrow> ts_level st q \<le> int i"
proof -
  from pick_ts_loop_Some [OF i] obtain p rest where p: "i < 40" "rq_ts (rqs st c) ! i = p # rest"
    and e: "\<And>j. i < j \<Longrightarrow> j < 40 \<Longrightarrow> rq_ts (rqs st c) ! j = []"
    by (auto simp: neq_Nil_conv)
  have lp: "ts_linked st c p"
    using p ts_wfD(1) [OF wf, of c] by (auto simp: ts_linked_def qs_mem_nth)
  have "ts_level st q \<le> int i" if "ts_linked st c q" for q
    using ts_linked_level [OF wf that] e [of "nat (ts_level st q)"] by fastforce
  with p lp ts_wfD(3) [OF wf p(1), of p c] that show thesis by simp
qed

subsection \<open>Moving a linked task\<close>

lemma ts_list_move_tail_spec:
  assumes wf: "ts_wf st0" and l: "ts_linked st0 c p" and i: "0 \<le> i" "i < 40" "prio_of st p = 139 - i"
    and same: "rqs st = rqs st0" "p_ts_node (tasks st p) = p_ts_node (tasks st0 p)"
      "\<And>x. x \<noteq> p \<Longrightarrow> tasks st x = tasks st0 x"
  obtains st' where "ts_list_move_tail c i p st = Some st'" "ts_wf st'"
    "\<And>d x. ts_linked st' d x \<longleftrightarrow> ts_linked st0 d x"
    "rq_ts (rqs st' c) = qs_add_tail (nat i) p (qs_del p (rq_ts (rqs st0 c)))"
    "tasks st' = (tasks st)(p := (tasks st p)\<lparr>p_ts_node := On_list\<rparr>)"
    "\<And>d. rq_curr (rqs st' d) = rq_curr (rqs st0 d)"
proof -
  let ?u = "upd_task p (\<lambda>t. t\<lparr>p_ts_node := Poisoned\<rparr>) (ts_unlink p st)"
  let ?v = "upd_task p (\<lambda>t. t\<lparr>p_ts_node := On_list\<rparr>)
              (upd_rq c (\<lambda>r. r\<lparr>rq_ts := qs_add_tail (nat i) p (rq_ts r)\<rparr>) ?u)"
  have del: "ts_list_del p st = Some ?u"
    using ts_linked_node [OF wf l] same by (simp add: ts_list_del_Some)
  have wfu: "ts_wf ?u"
    by (rule ts_wf_unlinked(1) [OF wf, of _ p]) (simp_all add: st_simps same)
  have add: "ts_list_add_tail c i p ?u = Some ?v"
    using i ts_wfD(1) [OF wfu, of c] by (simp add: ts_list_add_tail_Some in_bounds_def st_simps)
  have lu: "ts_linked ?u d x \<longleftrightarrow> ts_linked st0 d x \<and> x \<noteq> p" for d x
    by (auto simp: ts_linked_def st_simps qs_mem_del same)
  have app: "ts_wf ?v" "ts_linked ?v d x \<longleftrightarrow> ts_linked ?u d x \<or> (d = c \<and> x = p)" for d x
    by (rule ts_wf_appended [OF wfu, where p = p and c = c and l = "nat i"],
        use i in \<open>simp_all add: st_simps ts_level_def\<close>)+
  show thesis
  proof (rule that)
    show "ts_list_move_tail c i p st = Some ?v" by (simp add: ts_list_move_tail_def del add)
    show "ts_wf ?v" by (rule app)
    show "ts_linked ?v d x \<longleftrightarrow> ts_linked st0 d x" for d x
      using app(2) [of d x] lu [of d x] l ts_wfD(5) [OF wf l] by blast
    show "rq_ts (rqs ?v c) = qs_add_tail (nat i) p (qs_del p (rq_ts (rqs st0 c)))"
      by (simp add: st_simps same)
    show "tasks ?v = (tasks st)(p := (tasks st p)\<lparr>p_ts_node := On_list\<rparr>)"
      by (rule ext) (simp add: st_simps)
    show "rq_curr (rqs ?v d) = rq_curr (rqs st0 d)" for d by (simp add: st_simps same)
  qed
qed

subsection \<open>The tick\<close>

definition ts_slice_ok :: "sched_state \<Rightarrow> tid \<Rightarrow> bool" where
  "ts_slice_ok st p \<longleftrightarrow> 1 \<le> unat (p_ts_time_slice (tasks st p)) \<and> unat (p_ts_time_slice (tasks st p)) \<le> 16"

definition ts_demote :: "int \<Rightarrow> int" where
  "ts_demote l = (if l > 10 then l - 10 else 0)"

definition ts_slice_for :: "int \<Rightarrow> nat" where
  "ts_slice_for l = nat ((4 - l div 10) * 4)"

lemma ts_demote_bounds: "0 \<le> l \<Longrightarrow> l < 40 \<Longrightarrow> 0 \<le> ts_demote l \<and> ts_demote l < 30"
  by (auto simp: ts_demote_def)

lemma level_div_bounds: "0 \<le> l \<Longrightarrow> l < 40 \<Longrightarrow> 0 \<le> l div 10 \<and> l div (10::int) \<le> 3"
  by linarith

lemma ts_slice_for_bounds: "0 \<le> l \<Longrightarrow> l < 40 \<Longrightarrow> 4 \<le> ts_slice_for l \<and> ts_slice_for l \<le> 16"
  using level_div_bounds [of l] by (simp add: ts_slice_for_def le_nat_iff nat_le_iff)

lemma ts_slice_word:
  assumes "0 \<le> l" "l < 40" shows "unat (word_of_int ((4 - l div 10) * 4) :: u32) = ts_slice_for l"
  unfolding ts_slice_for_def using level_div_bounds [OF assms] by (intro word_of_int_small_pos) simp_all

lemma task_tick_ts_running:
  assumes "p_policy (tasks st p) = SCHED_TS" "unat (p_ts_time_slice (tasks st p)) \<ge> 2"
  shows "task_tick_ts c p st = Some (upd_task p (\<lambda>t. t\<lparr>p_ts_time_slice := p_ts_time_slice (tasks st p) - 1\<rparr>) st)"
proof -
  have "p_ts_time_slice (tasks st p) \<noteq> 0" using assms(2) by auto
  then have "unat (p_ts_time_slice (tasks st p) - 1) \<noteq> 0" using assms(2) by (simp add: unat_minus_one)
  then have "p_ts_time_slice (tasks st p) - 1 \<noteq> 0" by auto
  with assms(1) show ?thesis by (simp add: task_tick_ts_def Let_def)
qed

lemma task_tick_ts_expired:
  assumes wf: "ts_wf st" and l: "ts_linked st c p" and pol: "p_policy (tasks st p) = SCHED_TS"
    and sl: "p_ts_time_slice (tasks st p) = 1"
  obtains st' where "task_tick_ts c p st = Some st'" "ts_wf st'"
    "\<And>d x. ts_linked st' d x \<longleftrightarrow> ts_linked st d x" "ts_level st' p = ts_demote (ts_level st p)"
    "unat (p_ts_time_slice (tasks st' p)) = ts_slice_for (ts_level st' p)"
    "p_policy (tasks st' p) = SCHED_TS"
    "rq_ts (rqs st' c) = qs_add_tail (nat (ts_level st' p)) p (qs_del p (rq_ts (rqs st c)))"
    "p_need_resched (tasks st' (curr_of st c))"
proof -
  let ?a = "ts_demote (ts_level st p)"
  let ?w = "upd_task p (\<lambda>t. t\<lparr>p_prio := 139 - ?a, p_ts_time_slice := word_of_int ((4 - ?a div 10) * 4)\<rparr>)
              (upd_task p (\<lambda>t. t\<lparr>p_ts_time_slice := 0\<rparr>) st)"
  note lev = ts_linked_level [OF wf l]
  note a = ts_demote_bounds [OF lev(1,2)]
  obtain st1 where m: "ts_list_move_tail c ?a p ?w = Some st1" "ts_wf st1"
    "\<And>d x. ts_linked st1 d x \<longleftrightarrow> ts_linked st d x"
    "rq_ts (rqs st1 c) = qs_add_tail (nat ?a) p (qs_del p (rq_ts (rqs st c)))"
    "tasks st1 = (tasks ?w)(p := (tasks ?w p)\<lparr>p_ts_node := On_list\<rparr>)"
    "\<And>d. rq_curr (rqs st1 d) = rq_curr (rqs st d)"
    by (rule ts_list_move_tail_spec [OF wf l, of ?a ?w]) (use a in \<open>simp_all add: st_simps\<close>)
  have tick: "task_tick_ts c p st = Some (resched_curr c st1)"
    using m(1) by (simp add: task_tick_ts_def Let_def pol sl st_simps ts_demote_def ts_level_def)
  let ?st' = "resched_curr c st1"
  have lev': "ts_level ?st' p = ?a" by (simp add: ts_level_def st_simps m(5))
  have "unat (word_of_int ((4 - ?a div 10) * 4) :: u32) = ts_slice_for ?a"
    by (rule ts_slice_word) (use a in auto)
  then have sl': "unat (p_ts_time_slice (tasks ?st' p)) = ts_slice_for (ts_level ?st' p)"
    unfolding lev' by (simp add: st_simps m(5))
  have lk: "ts_linked ?st' d x \<longleftrightarrow> ts_linked st1 d x" for d x by (simp add: ts_linked_def st_simps)
  have wf': "ts_wf ?st'" using m(2) unfolding ts_wf_def lk by (simp add: ts_level_def st_simps)
  show thesis
    by (rule that [OF tick wf' _ lev' sl'])
      (use lk m(3,4) lev' resched_curr_sets [of c st1] in \<open>simp_all add: st_simps m(5,6) pol\<close>)
qed


section \<open>The class contract\<close>

lemma enqueue_task_ts_ready_other:
  "ts_wf st \<Longrightarrow> ts_ready st p \<Longrightarrow> enqueue_task_ts c p f st = Some st' \<Longrightarrow> x \<noteq> p \<Longrightarrow>
     ts_ready st' x = ts_ready st x"
  by (auto simp: enqueue_task_ts_eq ts_ready_def st_simps)

interpretation ts_queue: class_queue enqueue_task_ts dequeue_task_ts ts_linked "\<lambda>st c p. ts_ready st p" "\<lambda>_. True" ts_wf
proof (unfold_locales, goal_cases)
  case (1 st c p f)
  then show ?case by (simp add: enqueue_task_ts_eq)
next
  case (2 st c p f st')
  then show ?case by (intro enqueue_task_ts_spec(1) [OF _ _ 2(4)])
next
  case (3 st c p f st' d x)
  then show ?case by (intro enqueue_task_ts_spec(2) [OF _ _ 3(4)])
next
  case (4 st c p f st' x d)
  then show ?case by (intro enqueue_task_ts_ready_other [OF _ _ 4(4)])
next
  case (5 st c p f)
  then show ?case by (intro dequeue_task_ts_total [OF 5(1,2)])
next
  case (6 st c p f st')
  then show ?case by (intro dequeue_task_ts_spec(1) [OF 6(1,2,4)])
next
  case (7 st c p f st' d x)
  then show ?case by (intro dequeue_task_ts_spec(2) [OF 7(1,2,4)])
next
  case (8 st c p f st')
  then show ?case by (intro dequeue_task_ts_spec(3) [OF 8(1,2,4)])
next
  case (9 st c p d)
  then show ?case by (simp add: ts_not_linked ts_readyD(3))
next
  case (10 st c p d)
  then show ?case by (rule ts_wfD(5))
qed

end
