(* ===== verification/Sched_RT_Model.thy ===== *)
theory Sched_RT_Model
  imports Sched_Class
begin

text \<open>
  The real-time class of \<open>kernel/sched/rt.c\<close> (SMP, no group scheduling), in the order of
  the source: bandwidth control and runtime balancing, the priority array with its bitmap,
  overload and pushable-task accounting, and the handlers of the class. Without group
  scheduling a \<open>sched_rt_entity\<close> is the task it is embedded in, \<open>for_each_sched_rt_entity\<close>
  runs once, and \<open>rt_rq_of_se\<close> is the run queue of the CPU of the task. \<open>WARN_ON\<close>
  conditions are not state; \<open>BUG_ON\<close>, an index outside the priority array and linking a
  linked entity are faults. \<open>cpupri\<close> and \<open>plist\<close> are libraries outside the repository:
  \<open>cpupri_set\<close> is recorded as the last priority set for a CPU, a \<open>plist\<close> is a list sorted
  by priority with equal priorities in insertion order.
\<close>

section \<open>Bandwidth: set-up\<close>

definition init_rt_bandwidth :: "u64 \<Rightarrow> u64 \<Rightarrow> rt_bandwidth" where
  "init_rt_bandwidth period runtime = \<lparr>rtb_period = period, rtb_runtime = runtime, rtb_active = False\<rparr>"

definition start_rt_bandwidth :: "sched_state \<Rightarrow> sched_state" where
  "start_rt_bandwidth st =
    (if \<not> rt_bandwidth_enabled st \<or> rtb_runtime (def_rt_b st) = RUNTIME_INF then st
     else if \<not> rtb_active (def_rt_b st) then st\<lparr>def_rt_b := (def_rt_b st)\<lparr>rtb_active := True\<rparr>\<rparr>
     else st)"

definition init_rt_rq :: "cpu \<Rightarrow> sched_state \<Rightarrow> sched_state" where
  "init_rt_rq c = upd_rt c (\<lambda>r. r\<lparr>rt_queue := replicate (nat MAX_RT_PRIO) [],
     rt_bitmap := replicate (nat MAX_RT_PRIO) False @ [True], rt_highest_curr := MAX_RT_PRIO,
     rt_highest_next := MAX_RT_PRIO, rt_nr_migratory := 0, rt_overloaded := False, rt_pushable := [],
     rt_queued := False, rt_time := 0, rt_throttled := False, rt_runtime := 0\<rparr>)"

section \<open>Overload and pushable tasks\<close>

definition rt_rq_of_se :: "sched_state \<Rightarrow> tid \<Rightarrow> cpu" where
  "rt_rq_of_se st p = p_cpu (tasks st p)"

definition need_pull_rt_task :: "cpu \<Rightarrow> tid \<Rightarrow> sched_state \<Rightarrow> bool" where
  "need_pull_rt_task c prev st \<longleftrightarrow> rt_highest_curr (rq_rt (rqs st c)) > prio_of st prev"

definition rt_set_overload :: "cpu \<Rightarrow> sched_state \<Rightarrow> sched_state" where
  "rt_set_overload c st =
    (if \<not> rq_online (rqs st c) then st
     else st\<lparr>rd := (rd st)\<lparr>rd_rto_mask := insort_insert c (rd_rto_mask (rd st)), rd_rto_count := rd_rto_count (rd st) + 1\<rparr>\<rparr>)"

definition rt_clear_overload :: "cpu \<Rightarrow> sched_state \<Rightarrow> sched_state" where
  "rt_clear_overload c st =
    (if \<not> rq_online (rqs st c) then st
     else st\<lparr>rd := (rd st)\<lparr>rd_rto_count := rd_rto_count (rd st) - 1, rd_rto_mask := removeAll c (rd_rto_mask (rd st))\<rparr>\<rparr>)"

definition update_rt_migration :: "cpu \<Rightarrow> sched_state \<Rightarrow> sched_state" where
  "update_rt_migration c st =
    (let rt = rq_rt (rqs st c) in
     if rt_nr_migratory rt \<noteq> 0 \<and> rt_nr_total rt > 1 then
       (if \<not> rt_overloaded rt then upd_rt c (\<lambda>r. r\<lparr>rt_overloaded := True\<rparr>) (rt_set_overload c st) else st)
     else if rt_overloaded rt then upd_rt c (\<lambda>r. r\<lparr>rt_overloaded := False\<rparr>) (rt_clear_overload c st)
     else st)"

definition inc_rt_migration :: "tid \<Rightarrow> cpu \<Rightarrow> sched_state \<Rightarrow> sched_state" where
  "inc_rt_migration p c st =
    update_rt_migration c (upd_rt c (\<lambda>r. r\<lparr>rt_nr_total := rt_nr_total r + 1,
      rt_nr_migratory := (if p_nr_cpus_allowed (tasks st p) > 1 then rt_nr_migratory r + 1 else rt_nr_migratory r)\<rparr>) st)"

definition dec_rt_migration :: "tid \<Rightarrow> cpu \<Rightarrow> sched_state \<Rightarrow> sched_state" where
  "dec_rt_migration p c st =
    update_rt_migration c (upd_rt c (\<lambda>r. r\<lparr>rt_nr_total := rt_nr_total r - 1,
      rt_nr_migratory := (if p_nr_cpus_allowed (tasks st p) > 1 then rt_nr_migratory r - 1 else rt_nr_migratory r)\<rparr>) st)"

definition has_pushable_tasks :: "cpu \<Rightarrow> sched_state \<Rightarrow> bool" where
  "has_pushable_tasks c st \<longleftrightarrow> rt_pushable (rq_rt (rqs st c)) \<noteq> []"

text \<open>
  \<open>rq_callbacks\<close> is \<open>rq->balance_callback\<close> in the order \<open>__balance_callback\<close> runs it. The guard
  \<open>head->next\<close> of \<open>queue_balance_callback\<close> does not see a callback that ends the list: queueing it
  again links the list into a cycle, which the runner cuts at the first visit, so the callback
  runs once more at the end.
\<close>

definition queue_balance_callback :: "cpu \<Rightarrow> balance_cb \<Rightarrow> sched_state \<Rightarrow> sched_state" where
  "queue_balance_callback c cb st =
    (if cb \<in> set (butlast (rq_callbacks (rqs st c))) then st
     else upd_rq c (\<lambda>r. r\<lparr>rq_callbacks := cb # rq_callbacks r\<rparr>) st)"

definition rt_queue_push_tasks :: "cpu \<Rightarrow> sched_state \<Rightarrow> sched_state" where
  "rt_queue_push_tasks c st =
    (if \<not> has_pushable_tasks c st then st else queue_balance_callback c Push_rt_tasks st)"

definition rt_queue_pull_task :: "cpu \<Rightarrow> sched_state \<Rightarrow> sched_state" where
  "rt_queue_pull_task c st = queue_balance_callback c Pull_rt_task st"

definition plist_del :: "tid \<Rightarrow> (int \<times> tid) list \<Rightarrow> (int \<times> tid) list" where
  "plist_del p xs = filter (\<lambda>(k, q). q \<noteq> p) xs"

definition plist_add :: "int \<Rightarrow> tid \<Rightarrow> (int \<times> tid) list \<Rightarrow> (int \<times> tid) list" where
  "plist_add k p xs = takeWhile (\<lambda>(j, q). j \<le> k) xs @ (k, p) # dropWhile (\<lambda>(j, q). j \<le> k) xs"

definition enqueue_pushable_task :: "cpu \<Rightarrow> tid \<Rightarrow> sched_state \<Rightarrow> sched_state" where
  "enqueue_pushable_task c p st = upd_rt c (\<lambda>r. r\<lparr>
     rt_pushable := plist_add (prio_of st p) p (plist_del p (rt_pushable r)),
     rt_highest_next := (if prio_of st p < rt_highest_next r then prio_of st p else rt_highest_next r)\<rparr>) st"

definition dequeue_pushable_task :: "cpu \<Rightarrow> tid \<Rightarrow> sched_state \<Rightarrow> sched_state" where
  "dequeue_pushable_task c p st = upd_rt c (\<lambda>r. let ps = plist_del p (rt_pushable r) in r\<lparr>
     rt_pushable := ps,
     rt_highest_next := (case ps of (k, q) # _ \<Rightarrow> prio_of st q | [] \<Rightarrow> MAX_RT_PRIO)\<rparr>) st"

section \<open>The top-level queue and throttling\<close>

definition dequeue_top_rt_rq :: "cpu \<Rightarrow> sched_state \<Rightarrow> sched_state option" where
  "dequeue_top_rt_rq c st =
    (let rt = rq_rt (rqs st c) in
     if \<not> rt_queued rt then Some st
     else if rq_nr_running (rqs st c) = 0 then None
     else Some (upd_rt c (\<lambda>r. r\<lparr>rt_queued := False\<rparr>) (sub_nr_running c (rt_nr_running rt) st)))"

definition rt_rq_throttled :: "rt_rq \<Rightarrow> bool" where
  "rt_rq_throttled rt \<longleftrightarrow> rt_throttled rt"

definition enqueue_top_rt_rq :: "cpu \<Rightarrow> sched_state \<Rightarrow> sched_state" where
  "enqueue_top_rt_rq c st =
    (let rt = rq_rt (rqs st c) in
     if rt_queued rt then st
     else if rt_rq_throttled rt then st
     else if rt_nr_running rt \<noteq> 0
       then upd_rt c (\<lambda>r. r\<lparr>rt_queued := True\<rparr>) (add_nr_running c (rt_nr_running rt) st)
     else st)"

definition sched_rt_rq_enqueue :: "cpu \<Rightarrow> sched_state \<Rightarrow> sched_state" where
  "sched_rt_rq_enqueue c st =
    (if rt_nr_running (rq_rt (rqs st c)) = 0 then st else resched_curr c (enqueue_top_rt_rq c st))"

definition sched_rt_rq_dequeue :: "cpu \<Rightarrow> sched_state \<Rightarrow> sched_state option" where
  "sched_rt_rq_dequeue c st = dequeue_top_rt_rq c st"

section \<open>Sharing runtime between CPUs\<close>

abbreviation runtime_of :: "sched_state \<Rightarrow> cpu \<Rightarrow> u64" where
  "runtime_of st c \<equiv> rt_runtime (rq_rt (rqs st c))"

abbreviation time_of :: "sched_state \<Rightarrow> cpu \<Rightarrow> u64" where
  "time_of st c \<equiv> rt_time (rq_rt (rqs st c))"

definition add_runtime :: "cpu \<Rightarrow> u64 \<Rightarrow> sched_state \<Rightarrow> sched_state" where
  "add_runtime c d = upd_rt c (\<lambda>r. r\<lparr>rt_runtime := rt_runtime r + d\<rparr>)"

fun balance_loop :: "u64 \<Rightarrow> u64 \<Rightarrow> cpu \<Rightarrow> cpu list \<Rightarrow> sched_state \<Rightarrow> sched_state" where
  "balance_loop period weight me [] st = st"
| "balance_loop period weight me (i # is) st =
    (if i = me then balance_loop period weight me is st
     else if runtime_of st i = RUNTIME_INF then balance_loop period weight me is st
     else let diff = runtime_of st i - time_of st i in
       if sint diff > 0 then
         let diff = diff div weight;
             diff = (if runtime_of st me + diff > period then period - runtime_of st me else diff);
             st = add_runtime me diff (add_runtime i (- diff) st)
         in if runtime_of st me = period then st else balance_loop period weight me is st
       else balance_loop period weight me is st)"

definition do_balance_runtime :: "cpu \<Rightarrow> sched_state \<Rightarrow> sched_state" where
  "do_balance_runtime c st =
     balance_loop (rtb_period (def_rt_b st)) (of_nat (length (rd_span (rd st)))) c (rd_span (rd st)) st"

definition balance_runtime :: "cpu \<Rightarrow> sched_state \<Rightarrow> sched_state" where
  "balance_runtime c st =
    (if \<not> feat_rt_runtime_share st then st
     else if time_of st c > runtime_of st c then do_balance_runtime c st else st)"

text \<open>The greedy reclaim loop of \<open>__disable_runtime\<close>: the runtime still wanted, and the state.\<close>

fun reclaim_loop :: "cpu \<Rightarrow> u64 \<Rightarrow> cpu list \<Rightarrow> sched_state \<Rightarrow> u64 \<times> sched_state" where
  "reclaim_loop me want [] st = (want, st)"
| "reclaim_loop me want (i # is) st =
    (if i = me \<or> runtime_of st i = RUNTIME_INF then reclaim_loop me want is st
     else
       let (want, st) =
         (if sint want > 0
          then let diff = (if sint (runtime_of st i) < sint want then runtime_of st i else want)
               in (want - diff, add_runtime i (- diff) st)
          else (want - want, add_runtime i (- want) st))
       in if want = 0 then (want, st) else reclaim_loop me want is st)"

definition disable_runtime :: "cpu \<Rightarrow> sched_state \<Rightarrow> sched_state option" where
  "disable_runtime c st =
    (if \<not> scheduler_running st then Some st
     else do {
       st \<leftarrow> (if runtime_of st c = RUNTIME_INF \<or> runtime_of st c = rtb_runtime (def_rt_b st) then Some st
              else let (want, st) = reclaim_loop c (rtb_runtime (def_rt_b st) - runtime_of st c) (rd_span (rd st)) st
                   in if want \<noteq> 0 then None else Some st);
       Some (sched_rt_rq_enqueue c (upd_rt c (\<lambda>r. r\<lparr>rt_runtime := RUNTIME_INF, rt_throttled := False\<rparr>) st))
     })"

definition enable_runtime :: "cpu \<Rightarrow> sched_state \<Rightarrow> sched_state" where
  "enable_runtime c st =
    (if \<not> scheduler_running st then st
     else upd_rt c (\<lambda>r. r\<lparr>rt_runtime := rtb_runtime (def_rt_b st), rt_time := 0, rt_throttled := False\<rparr>) st)"

definition sched_rt_bandwidth_account :: "bool \<Rightarrow> cpu \<Rightarrow> sched_state \<Rightarrow> bool" where
  "sched_rt_bandwidth_account hrtimer_is_active c st \<longleftrightarrow>
     hrtimer_is_active \<or> time_of st c < rtb_runtime (def_rt_b st)"

section \<open>The period timer\<close>

text \<open>
  One CPU of the loop of \<open>do_sched_rt_period_timer\<close>; \<open>idle\<close> and \<open>throttled\<close> are the two
  local flags of the function.
\<close>

definition period_timer_cpu :: "u64 \<Rightarrow> cpu \<Rightarrow> bool \<times> bool \<times> sched_state \<Rightarrow> bool \<times> bool \<times> sched_state" where
  "period_timer_cpu overrun i = (\<lambda>(idle, throttled, st).
    let st = (if \<not> feat_rt_runtime_share st \<and> runtime_of st i \<noteq> RUNTIME_INF
              then upd_rt i (\<lambda>r. r\<lparr>rt_runtime := rtb_runtime (def_rt_b st)\<rparr>) st else st)
    in if time_of st i = 0 \<and> rt_nr_running (rq_rt (rqs st i)) = 0 then (idle, throttled, st)
    else
      let st = update_rq_clock i st;
          (enqueue, idle, st) =
            (if time_of st i \<noteq> 0 then
               let st = (if rt_throttled (rq_rt (rqs st i)) then balance_runtime i st else st);
                   runtime = runtime_of st i;
                   st = upd_rt i (\<lambda>r. r\<lparr>rt_time := rt_time r - min (rt_time r) (overrun * runtime)\<rparr>) st;
                   (enqueue, st) =
                     (if rt_throttled (rq_rt (rqs st i)) \<and> time_of st i < runtime
                      then (True,
                        let st = upd_rt i (\<lambda>r. r\<lparr>rt_throttled := False\<rparr>) st
                        in if rt_nr_running (rq_rt (rqs st i)) \<noteq> 0 \<and> curr_of st i = rq_idle (rqs st i)
                           then rq_clock_cancel_skipupdate i st else st)
                      else (False, st));
                   idle = (if time_of st i \<noteq> 0 \<or> rt_nr_running (rq_rt (rqs st i)) \<noteq> 0 then False else idle)
               in (enqueue, idle, st)
             else if rt_nr_running (rq_rt (rqs st i)) \<noteq> 0
               then (\<not> rt_rq_throttled (rq_rt (rqs st i)), False, st)
             else (False, idle, st));
          throttled = (if rt_throttled (rq_rt (rqs st i)) then True else throttled)
      in (idle, throttled, if enqueue then sched_rt_rq_enqueue i st else st))"

definition do_sched_rt_period_timer :: "u64 \<Rightarrow> sched_state \<Rightarrow> bool \<times> sched_state" where
  "do_sched_rt_period_timer overrun st =
    (let (idle, throttled, st) = fold (period_timer_cpu overrun) (cpu_online_mask st) (True, False, st)
     in if \<not> throttled \<and> (\<not> rt_bandwidth_enabled st \<or> rtb_runtime (def_rt_b st) = RUNTIME_INF) then (True, st)
        else (idle, st))"

text \<open>
  \<open>sched_rt_period_timer\<close>: the timer loop over the overruns \<open>hrtimer_forward_now\<close> reports
  (a list, ended by the first 0), and whether the timer restarts.
\<close>

fun period_timer_loop :: "u64 list \<Rightarrow> bool \<Rightarrow> sched_state \<Rightarrow> bool \<times> sched_state" where
  "period_timer_loop [] idle st = (idle, st)"
| "period_timer_loop (n # ns) idle st =
    (if n = 0 then (idle, st)
     else let (idle, st) = do_sched_rt_period_timer n st in period_timer_loop ns idle st)"

definition sched_rt_period_timer :: "u64 list \<Rightarrow> sched_state \<Rightarrow> bool \<times> sched_state" where
  "sched_rt_period_timer overruns st =
    (let (idle, st) = period_timer_loop overruns False st
     in (\<not> idle, if idle then st\<lparr>def_rt_b := (def_rt_b st)\<lparr>rtb_active := False\<rparr>\<rparr> else st))"

section \<open>Accounting the current task\<close>

definition sched_rt_runtime_exceeded :: "cpu \<Rightarrow> sched_state \<Rightarrow> (bool \<times> sched_state) option" where
  "sched_rt_runtime_exceeded c st =
    (if rt_throttled (rq_rt (rqs st c)) then Some (rt_rq_throttled (rq_rt (rqs st c)), st)
     else if runtime_of st c \<ge> rtb_period (def_rt_b st) then Some (False, st)
     else
       let st = balance_runtime c st; runtime = runtime_of st c in
       if runtime = RUNTIME_INF then Some (False, st)
       else if time_of st c > runtime then
         let st = (if rtb_runtime (def_rt_b st) \<noteq> 0
                   then upd_rt c (\<lambda>r. r\<lparr>rt_throttled := True\<rparr>) st
                   else upd_rt c (\<lambda>r. r\<lparr>rt_time := 0\<rparr>) st)
         in if rt_rq_throttled (rq_rt (rqs st c))
            then do { st \<leftarrow> sched_rt_rq_dequeue c st; Some (True, st) }
            else Some (False, st)
       else Some (False, st))"

definition update_curr_rt :: "cpu \<Rightarrow> sched_state \<Rightarrow> sched_state option" where
  "update_curr_rt c st =
    (let curr = curr_of st c;
         now = rq_clock_task (rqs st c);
         delta_exec = now - p_exec_start (tasks st curr)
     in if p_class (tasks st curr) \<noteq> Rt_class then Some st
        else if sint delta_exec \<le> 0 then Some st
        else
          let st = upd_task curr (\<lambda>t. t\<lparr>p_sum_exec := p_sum_exec t + delta_exec, p_exec_start := now\<rparr>) st
          in if \<not> rt_bandwidth_enabled st then Some st
             else let d = rt_rq_of_se st curr in
               if runtime_of st d \<noteq> RUNTIME_INF then do {
                 (exceeded, st) \<leftarrow> sched_rt_runtime_exceeded d (upd_rt d (\<lambda>r. r\<lparr>rt_time := rt_time r + delta_exec\<rparr>) st);
                 Some (if exceeded then resched_curr c st else st)
               } else Some st)"

end
