(* ===== verification/Sched_RT_Queue.thy ===== *)
theory Sched_RT_Queue
  imports Sched_RT_Model
begin

text \<open>
  The priority array of the real-time class and the handlers of \<open>kernel/sched/rt.c\<close> that
  work on one run queue: linking and unlinking entities, the counters kept beside the array,
  enqueue, dequeue, requeue, the pick, the tick. \<open>list_del_init\<close> unlinks the node from
  whatever list it is on; \<open>list_add\<close> and \<open>list_add_tail\<close> of a node that is linked and an
  index outside the hundred queues are faults. \<open>cpupri_set\<close> is recorded in \<open>rd_cpupri\<close>.
  The load average of the class (\<open>update_rt_rq_load_avg\<close>) is not state of the model.
\<close>

abbreviation rtq :: "sched_state \<Rightarrow> cpu \<Rightarrow> rt_rq" where
  "rtq st c \<equiv> rq_rt (rqs st c)"

section \<open>The priority array\<close>

definition rt_se_prio :: "sched_state \<Rightarrow> tid \<Rightarrow> int" where
  "rt_se_prio st p = prio_of st p"

text \<open>\<open>sched_find_first_bit\<close>: the index of the first set bit.\<close>

definition sched_find_first_bit :: "bool list \<Rightarrow> nat" where
  "sched_find_first_bit bm = length (takeWhile Not bm)"

definition rt_unlink :: "tid \<Rightarrow> sched_state \<Rightarrow> sched_state" where
  "rt_unlink p st = st\<lparr>rqs := (\<lambda>d. (rqs st d)\<lparr>rq_rt := (rtq st d)\<lparr>rt_queue := qs_del p (rt_queue (rtq st d))\<rparr>\<rparr>)\<rparr>"

definition rt_link :: "bool \<Rightarrow> cpu \<Rightarrow> int \<Rightarrow> tid \<Rightarrow> sched_state \<Rightarrow> sched_state option" where
  "rt_link head c i p st =
    (if in_bounds i (rt_queue (rtq st c))
     then Some (upd_rt c (\<lambda>r. r\<lparr>rt_queue :=
            (if head then qs_add else qs_add_tail) (nat i) p (rt_queue r)\<rparr>) st)
     else None)"

definition cpupri_set :: "cpu \<Rightarrow> int \<Rightarrow> sched_state \<Rightarrow> sched_state" where
  "cpupri_set c prio st = st\<lparr>rd := (rd st)\<lparr>rd_cpupri := (rd_cpupri (rd st))(c := prio)\<rparr>\<rparr>"

definition inc_rt_prio_smp :: "cpu \<Rightarrow> int \<Rightarrow> int \<Rightarrow> sched_state \<Rightarrow> sched_state" where
  "inc_rt_prio_smp c prio prev_prio st =
    (if rq_online (rqs st c) \<and> prio < prev_prio then cpupri_set c prio st else st)"

definition dec_rt_prio_smp :: "cpu \<Rightarrow> int \<Rightarrow> int \<Rightarrow> sched_state \<Rightarrow> sched_state" where
  "dec_rt_prio_smp c prio prev_prio st =
    (if rq_online (rqs st c) \<and> rt_highest_curr (rtq st c) \<noteq> prev_prio
     then cpupri_set c (rt_highest_curr (rtq st c)) st else st)"

definition inc_rt_prio :: "cpu \<Rightarrow> int \<Rightarrow> sched_state \<Rightarrow> sched_state" where
  "inc_rt_prio c prio st =
    (let prev_prio = rt_highest_curr (rtq st c);
         st = (if prio < prev_prio then upd_rt c (\<lambda>r. r\<lparr>rt_highest_curr := prio\<rparr>) st else st)
     in inc_rt_prio_smp c prio prev_prio st)"

definition dec_rt_prio :: "cpu \<Rightarrow> int \<Rightarrow> sched_state \<Rightarrow> sched_state" where
  "dec_rt_prio c prio st =
    (let prev_prio = rt_highest_curr (rtq st c);
         st = (if rt_nr_running (rtq st c) \<noteq> 0
               then (if prio = prev_prio
                     then upd_rt c (\<lambda>r. r\<lparr>rt_highest_curr := int (sched_find_first_bit (rt_bitmap r))\<rparr>) st
                     else st)
               else upd_rt c (\<lambda>r. r\<lparr>rt_highest_curr := MAX_RT_PRIO\<rparr>) st)
     in dec_rt_prio_smp c prio prev_prio st)"

definition inc_rt_group :: "tid \<Rightarrow> cpu \<Rightarrow> sched_state \<Rightarrow> sched_state" where
  "inc_rt_group p c st = start_rt_bandwidth st"

definition rt_se_nr_running :: "sched_state \<Rightarrow> tid \<Rightarrow> u32" where
  "rt_se_nr_running st p = 1"

definition rt_se_rr_nr_running :: "sched_state \<Rightarrow> tid \<Rightarrow> u32" where
  "rt_se_rr_nr_running st p = (if p_policy (tasks st p) = SCHED_RR then 1 else 0)"

definition inc_rt_tasks :: "tid \<Rightarrow> cpu \<Rightarrow> sched_state \<Rightarrow> sched_state" where
  "inc_rt_tasks p c st =
    (let prio = rt_se_prio st p;
         st = upd_rt c (\<lambda>r. r\<lparr>rt_nr_running := rt_nr_running r + rt_se_nr_running st p,
                             rr_nr_running := rr_nr_running r + rt_se_rr_nr_running st p\<rparr>) st
     in inc_rt_group p c (inc_rt_migration p c (inc_rt_prio c prio st)))"

definition dec_rt_tasks :: "tid \<Rightarrow> cpu \<Rightarrow> sched_state \<Rightarrow> sched_state" where
  "dec_rt_tasks p c st =
    (let st = upd_rt c (\<lambda>r. r\<lparr>rt_nr_running := rt_nr_running r - rt_se_nr_running st p,
                             rr_nr_running := rr_nr_running r - rt_se_rr_nr_running st p\<rparr>) st
     in dec_rt_migration p c (dec_rt_prio c (rt_se_prio st p) st))"

definition move_entity :: "u32 \<Rightarrow> bool" where
  "move_entity flags \<longleftrightarrow> \<not> (flags AND (DEQUEUE_SAVE OR DEQUEUE_MOVE) = DEQUEUE_SAVE)"

definition delist_rt_entity :: "tid \<Rightarrow> cpu \<Rightarrow> sched_state \<Rightarrow> sched_state option" where
  "delist_rt_entity p c st =
    (let st = rt_unlink p st; prio = rt_se_prio st p in
     if \<not> in_bounds prio (rt_queue (rtq st c)) then None
     else
       let st = (if rt_queue (rtq st c) ! nat prio = []
                 then upd_rt c (\<lambda>r. r\<lparr>rt_bitmap := (rt_bitmap r)[nat prio := False]\<rparr>) st else st)
       in Some (upd_task p (\<lambda>t. t\<lparr>p_rt_on_list := False\<rparr>) st))"

definition enqueue_rt_entity_raw :: "tid \<Rightarrow> u32 \<Rightarrow> sched_state \<Rightarrow> sched_state option" where
  "enqueue_rt_entity_raw p flags st =
    (let c = rt_rq_of_se st p; prio = rt_se_prio st p in do {
       st \<leftarrow> (if move_entity flags
              then if p_rt_on_list (tasks st p) then None
                   else do {
                     st \<leftarrow> rt_link (has_flag flags ENQUEUE_HEAD) c prio p st;
                     let st = upd_rt c (\<lambda>r. r\<lparr>rt_bitmap := (rt_bitmap r)[nat prio := True]\<rparr>) st;
                     Some (upd_task p (\<lambda>t. t\<lparr>p_rt_on_list := True\<rparr>) st)
                   }
              else Some st);
       Some (inc_rt_tasks p c (upd_task p (\<lambda>t. t\<lparr>p_rt_on_rq := True\<rparr>) st))
     })"

definition dequeue_rt_entity_raw :: "tid \<Rightarrow> u32 \<Rightarrow> sched_state \<Rightarrow> sched_state option" where
  "dequeue_rt_entity_raw p flags st =
    (let c = rt_rq_of_se st p in do {
       st \<leftarrow> (if move_entity flags then delist_rt_entity p c st else Some st);
       Some (dec_rt_tasks p c (upd_task p (\<lambda>t. t\<lparr>p_rt_on_rq := False\<rparr>) st))
     })"

definition dequeue_rt_stack :: "tid \<Rightarrow> u32 \<Rightarrow> sched_state \<Rightarrow> sched_state option" where
  "dequeue_rt_stack p flags st = do {
     st \<leftarrow> dequeue_top_rt_rq (rt_rq_of_se st p) st;
     if p_rt_on_rq (tasks st p) then dequeue_rt_entity_raw p flags st else Some st
   }"

definition enqueue_rt_entity :: "tid \<Rightarrow> u32 \<Rightarrow> sched_state \<Rightarrow> sched_state option" where
  "enqueue_rt_entity p flags st =
    (let c = rt_rq_of_se st p in do {
       st \<leftarrow> dequeue_rt_stack p flags st;
       st \<leftarrow> enqueue_rt_entity_raw p flags st;
       Some (enqueue_top_rt_rq c st)
     })"

definition dequeue_rt_entity :: "tid \<Rightarrow> u32 \<Rightarrow> sched_state \<Rightarrow> sched_state option" where
  "dequeue_rt_entity p flags st =
    (let c = rt_rq_of_se st p in do {
       st \<leftarrow> dequeue_rt_stack p flags st;
       Some (enqueue_top_rt_rq c st)
     })"

section \<open>The handlers of one run queue\<close>

definition enqueue_task_rt :: "cpu \<Rightarrow> tid \<Rightarrow> u32 \<Rightarrow> sched_state \<Rightarrow> sched_state option" where
  "enqueue_task_rt c p flags st =
    (let st = (if has_flag flags ENQUEUE_WAKEUP then upd_task p (\<lambda>t. t\<lparr>p_rt_timeout := 0\<rparr>) st else st) in do {
       st \<leftarrow> enqueue_rt_entity p flags st;
       Some (if \<not> task_current st c p \<and> p_nr_cpus_allowed (tasks st p) > 1
             then enqueue_pushable_task c p st else st)
     })"

definition dequeue_task_rt :: "cpu \<Rightarrow> tid \<Rightarrow> u32 \<Rightarrow> sched_state \<Rightarrow> sched_state option" where
  "dequeue_task_rt c p flags st = do {
     st \<leftarrow> update_curr_rt c st;
     st \<leftarrow> dequeue_rt_entity p flags st;
     Some (dequeue_pushable_task c p st)
   }"

definition requeue_rt_entity :: "cpu \<Rightarrow> tid \<Rightarrow> bool \<Rightarrow> sched_state \<Rightarrow> sched_state option" where
  "requeue_rt_entity c p head st =
    (if p_rt_on_rq (tasks st p) then rt_link head c (rt_se_prio st p) p (rt_unlink p st) else Some st)"

definition requeue_task_rt :: "cpu \<Rightarrow> tid \<Rightarrow> bool \<Rightarrow> sched_state \<Rightarrow> sched_state option" where
  "requeue_task_rt c p head st = requeue_rt_entity (rt_rq_of_se st p) p head st"

definition yield_task_rt :: "cpu \<Rightarrow> sched_state \<Rightarrow> sched_state option" where
  "yield_task_rt c st = requeue_task_rt c (curr_of st c) False st"

definition pick_next_rt_entity :: "cpu \<Rightarrow> sched_state \<Rightarrow> tid option" where
  "pick_next_rt_entity c st =
    (let idx = sched_find_first_bit (rt_bitmap (rtq st c)) in
     if int idx \<ge> MAX_RT_PRIO then None
     else if \<not> in_bounds (int idx) (rt_queue (rtq st c)) then None
     else case rt_queue (rtq st c) ! idx of [] \<Rightarrow> None | p # _ \<Rightarrow> Some p)"

definition pick_next_task_rt_raw :: "cpu \<Rightarrow> sched_state \<Rightarrow> (tid \<times> sched_state) option" where
  "pick_next_task_rt_raw c st = do {
     p \<leftarrow> pick_next_rt_entity c st;
     Some (p, upd_task p (\<lambda>t. t\<lparr>p_exec_start := rq_clock_task (rqs st c)\<rparr>) st)
   }"

definition put_prev_task_rt :: "cpu \<Rightarrow> tid \<Rightarrow> sched_state \<Rightarrow> sched_state option" where
  "put_prev_task_rt c p st = do {
     st \<leftarrow> update_curr_rt c st;
     Some (if p_rt_on_rq (tasks st p) \<and> p_nr_cpus_allowed (tasks st p) > 1
           then enqueue_pushable_task c p st else st)
   }"

definition set_curr_task_rt :: "cpu \<Rightarrow> sched_state \<Rightarrow> sched_state" where
  "set_curr_task_rt c st =
    (let p = curr_of st c in
     dequeue_pushable_task c p (upd_task p (\<lambda>t. t\<lparr>p_exec_start := rq_clock_task (rqs st c)\<rparr>) st))"

definition switched_from_rt :: "cpu \<Rightarrow> tid \<Rightarrow> sched_state \<Rightarrow> sched_state" where
  "switched_from_rt c p st =
    (if \<not> task_on_rq_queued st p \<or> rt_nr_running (rtq st c) \<noteq> 0 then st else rt_queue_pull_task c st)"

definition switched_to_rt :: "cpu \<Rightarrow> tid \<Rightarrow> sched_state \<Rightarrow> sched_state" where
  "switched_to_rt c p st =
    (if task_on_rq_queued st p \<and> curr_of st c \<noteq> p then
       let st = (if p_nr_cpus_allowed (tasks st p) > 1 \<and> rt_overloaded (rtq st c)
                 then rt_queue_push_tasks c st else st)
       in if prio_of st p < prio_of st (curr_of st c) \<and> c \<in> set (cpu_online_mask st) then resched_curr c st else st
     else st)"

definition prio_changed_rt :: "cpu \<Rightarrow> tid \<Rightarrow> int \<Rightarrow> sched_state \<Rightarrow> sched_state" where
  "prio_changed_rt c p oldprio st =
    (if \<not> task_on_rq_queued st p then st
     else if curr_of st c = p then
       let st = (if oldprio < prio_of st p then rt_queue_pull_task c st else st)
       in if prio_of st p > rt_highest_curr (rtq st c) then resched_curr c st else st
     else if prio_of st p < prio_of st (curr_of st c) then resched_curr c st
     else st)"

definition watchdog :: "cpu \<Rightarrow> tid \<Rightarrow> sched_state \<Rightarrow> sched_state" where
  "watchdog c p st =
    (let soft = p_rlim (tasks st p) RLIMIT_RTTIME; hard = p_rlim_max (tasks st p) RLIMIT_RTTIME in
     if soft \<noteq> RLIM_INFINITY then
       let st = (if p_rt_stamp (tasks st p) \<noteq> jiffies st
                 then upd_task p (\<lambda>t. t\<lparr>p_rt_timeout := p_rt_timeout t + 1, p_rt_stamp := jiffies st\<rparr>) st
                 else st);
           d = USEC_PER_SEC div cfg_hz st;
           next = (min soft hard + d - 1) div d
       in if p_rt_timeout (tasks st p) > next
          then upd_task p (\<lambda>t. t\<lparr>p_sched_exp := p_sum_exec t\<rparr>) st else st
     else st)"

text \<open>
  \<open>run_list.prev \<noteq> run_list.next\<close>: the entity is linked and is not alone on its queue.
\<close>

definition rt_has_company :: "cpu \<Rightarrow> tid \<Rightarrow> sched_state \<Rightarrow> bool" where
  "rt_has_company c p st \<longleftrightarrow> list_ex (\<lambda>q. p \<in> set q \<and> q \<noteq> [p]) (rt_queue (rtq st c))"

definition task_tick_rt :: "cpu \<Rightarrow> tid \<Rightarrow> sched_state \<Rightarrow> sched_state option" where
  "task_tick_rt c p st = do {
     st \<leftarrow> update_curr_rt c st;
     let st = watchdog c p st;
     if p_policy (tasks st p) \<noteq> SCHED_RR then Some st
     else
       let slice = p_rt_time_slice (tasks st p) - 1;
           st = upd_task p (\<lambda>t. t\<lparr>p_rt_time_slice := slice\<rparr>) st
       in if slice \<noteq> 0 then Some st
          else
            let st = upd_task p (\<lambda>t. t\<lparr>p_rt_time_slice := rr_timeslice st\<rparr>) st
            in if rt_has_company (rt_rq_of_se st p) p st
               then do { st \<leftarrow> requeue_task_rt c p False st; Some (resched_curr c st) }
               else Some st
   }"

definition get_rr_interval_rt :: "cpu \<Rightarrow> tid \<Rightarrow> sched_state \<Rightarrow> u32" where
  "get_rr_interval_rt c p st = (if p_policy (tasks st p) = SCHED_RR then rr_timeslice st else 0)"

end
