(* ===== verification/Sched_RT_Inv.thy ===== *)
theory Sched_RT_Inv
  imports Sched_RT_Queue
begin

text \<open>
  The invariant of the real-time run queues and its preservation. \<open>rt_wf\<close> ties the priority
  array to its bitmap, its counters and the cached highest priority, to the flags of the
  entities and to the share of the class in \<open>rq->nr_running\<close>. Frame facts say which helper
  leaves which part alone; the enqueue and the dequeue of a task are then computed on the
  array alone. The theory ends with the interpretation of the class contract.
\<close>

section \<open>The array and its bitmap\<close>

definition rt_array_ok :: "'a list list \<Rightarrow> bool list \<Rightarrow> bool" where
  "rt_array_ok qs bm \<longleftrightarrow> length qs = 100 \<and> length bm = 101 \<and> bm ! 100 \<and>
     (\<forall>i < 100. bm ! i \<longleftrightarrow> qs ! i \<noteq> []) \<and> qs_ok qs"

lemma rt_array_okD:
  assumes "rt_array_ok qs bm"
  shows "length qs = 100" "length bm = 101" "bm ! 100" "i < 100 \<Longrightarrow> bm ! i \<longleftrightarrow> qs ! i \<noteq> []" "qs_ok qs"
  using assms by (auto simp: rt_array_ok_def)

lemma find_first_bit_eqI:
  assumes "n < length bm" "bm ! n" "\<And>i. i < n \<Longrightarrow> \<not> bm ! i"
  shows "sched_find_first_bit bm = n"
proof -
  have "takeWhile Not bm = take n bm" by (rule takeWhile_eq_take_P_nth) (use assms in auto)
  then show ?thesis using assms(1) by (simp add: sched_find_first_bit_def)
qed

lemma rt_array_first:
  assumes "rt_array_ok qs bm" shows "sched_find_first_bit bm = first_q qs"
proof (rule find_first_bit_eqI)
  note d = rt_array_okD [OF assms]
  show "first_q qs < length bm" using first_q_le [of qs] d by simp
  show "bm ! first_q qs"
  proof (cases "first_q qs < 100")
    case True
    then show ?thesis using first_q_at [of qs] d by simp
  next
    case False
    then show ?thesis using first_q_le [of qs] d by simp
  qed
  show "\<not> bm ! i" if "i < first_q qs" for i
    using first_q_before [OF that] that first_q_le [of qs] d by simp
qed

lemma rt_array_insert:
  assumes ok: "rt_array_ok qs bm" and i: "i < 100" and x: "\<not> qs_mem x qs"
    and q: "qs' = qs_add i x qs \<or> qs' = qs_add_tail i x qs"
  shows "rt_array_ok qs' (bm[i := True])" "first_q qs' = min i (first_q qs)"
    "length (concat qs') = Suc (length (concat qs))" "qs_mem y qs' \<longleftrightarrow> y = x \<or> qs_mem y qs"
    "j < 100 \<Longrightarrow> y \<in> set (qs' ! j) \<longleftrightarrow> (j = i \<and> y = x) \<or> y \<in> set (qs ! j)"
proof -
  note d = rt_array_okD [OF ok]
  have len: "length qs' = 100" using q d by auto
  have nth: "qs' ! j = qs ! j" if "j < 100" "j \<noteq> i" for j
    using q nth_qs_add [of j qs i x] nth_qs_add_tail [of j qs i x] that d(1) by auto
  have ne: "qs' ! i \<noteq> []" using q nth_qs_add [of i qs i x] nth_qs_add_tail [of i qs i x] i d(1) by auto
  have "qs_ok qs'" using q qs_ok_add [OF d(5) x, of i] qs_ok_add_tail [OF d(5) x, of i] d(1) i by auto
  moreover have "bm[i := True] ! j \<longleftrightarrow> qs' ! j \<noteq> []" if "j < 100" for j
    using nth [OF that] ne d(2,4) that by (cases "j = i") simp_all
  ultimately show "rt_array_ok qs' (bm[i := True])"
    using len d(2,3) i by (simp add: rt_array_ok_def)
  show "first_q qs' = min i (first_q qs)"
    by (rule first_q_insert) (use i d(1) len ne nth in simp_all)
  show "length (concat qs') = Suc (length (concat qs))"
    using q length_concat_add [of i qs x] i d(1) by auto
  show "qs_mem y qs' \<longleftrightarrow> y = x \<or> qs_mem y qs"
    using q qs_mem_add [of i qs y x] qs_mem_add_tail [of i qs y x] i d(1) by auto
  show "y \<in> set (qs' ! j) \<longleftrightarrow> (j = i \<and> y = x) \<or> y \<in> set (qs ! j)" if "j < 100"
    using q nth_qs_add [of j qs i x] nth_qs_add_tail [of j qs i x] that d(1) by (auto split: if_splits)
qed

lemma rt_array_delete:
  assumes ok: "rt_array_ok qs bm" and i: "i < 100" and x: "x \<in> set (qs ! i)"
  shows "rt_array_ok (qs_del x qs) (if qs_del x qs ! i = [] then bm[i := False] else bm)"
    "i \<noteq> first_q qs \<Longrightarrow> first_q (qs_del x qs) = first_q qs"
    "length (concat (qs_del x qs)) = length (concat qs) - 1"
proof -
  note d = rt_array_okD [OF ok]
  have nth: "qs_del x qs ! j = qs ! j" if "j < 100" "j \<noteq> i" for j
  proof -
    have "x \<notin> set (qs ! j)" using qs_ok_unique [OF d(5), of j i x] that i x d(1) by auto
    then show ?thesis using that d by (simp add: q_simps)
  qed
  show "rt_array_ok (qs_del x qs) (if qs_del x qs ! i = [] then bm[i := False] else bm)"
    unfolding rt_array_ok_def using d nth i x
    by (auto simp: nth_list_update qs_ok_del split: if_splits)
      (metis list.set(1) empty_iff)+
  show "first_q (qs_del x qs) = first_q qs" if ne: "i \<noteq> first_q qs"
  proof (rule first_q_eqI)
    show "first_q qs \<le> length (qs_del x qs)" using first_q_le [of qs] by simp
    show "qs_del x qs ! j = []" if "j < first_q qs" for j
      using first_q_before [OF that] that first_q_le [of qs] by (simp add: q_simps)
    show "qs_del x qs ! first_q qs \<noteq> []" if "first_q qs < length (qs_del x qs)"
      using first_q_at [of qs] that ne nth d by simp
  qed
  show "length (concat (qs_del x qs)) = length (concat qs) - 1"
    by (rule length_concat_del) (use d i x in \<open>auto simp: qs_mem_nth\<close>)
qed

section \<open>Frames of the helpers\<close>

text \<open>
  What the accounting helpers leave alone: the tasks, the priority arrays, the counter and
  the queued flag of the class, and \<open>rq->nr_running\<close>.
\<close>

definition rt_core :: "sched_state \<Rightarrow> cpu \<Rightarrow> tid list list \<times> bool list \<times> u32 \<times> int \<times> bool \<times> bool \<times> u32 \<times> tid" where
  "rt_core st c = (rt_queue (rtq st c), rt_bitmap (rtq st c), rt_nr_running (rtq st c),
     rt_highest_curr (rtq st c), rt_queued (rtq st c), rt_throttled (rtq st c), rq_nr_running (rqs st c),
     rq_curr (rqs st c))"

lemma rt_core_fields:
  assumes "rt_core st' c = rt_core st c"
  shows "rt_queue (rtq st' c) = rt_queue (rtq st c)" "rt_bitmap (rtq st' c) = rt_bitmap (rtq st c)"
    "rt_nr_running (rtq st' c) = rt_nr_running (rtq st c)"
    "rt_highest_curr (rtq st' c) = rt_highest_curr (rtq st c)"
    "rt_queued (rtq st' c) = rt_queued (rtq st c)" "rt_throttled (rtq st' c) = rt_throttled (rtq st c)"
    "rq_nr_running (rqs st' c) = rq_nr_running (rqs st c)" "rq_curr (rqs st' c) = rq_curr (rqs st c)"
  using assms by (simp_all add: rt_core_def)

lemma rt_core_eqD:
  assumes "rt_core st c = (qs, bm, n, h, q, th, m, u)"
  shows "rt_queue (rtq st c) = qs" "rt_bitmap (rtq st c) = bm" "rt_nr_running (rtq st c) = n"
    "rt_highest_curr (rtq st c) = h" "rt_queued (rtq st c) = q" "rt_throttled (rtq st c) = th"
    "rq_nr_running (rqs st c) = m" "rq_curr (rqs st c) = u"
  using assms by (simp_all add: rt_core_def)

lemma overload_frame:
  "tasks (rt_set_overload c st) = tasks st" "rqs (rt_set_overload c st) = rqs st"
  "tasks (rt_clear_overload c st) = tasks st" "rqs (rt_clear_overload c st) = rqs st"
  "tasks (start_rt_bandwidth st) = tasks st" "rqs (start_rt_bandwidth st) = rqs st"
  "tasks (cpupri_set c v st) = tasks st" "rqs (cpupri_set c v st) = rqs st"
  by (simp_all add: rt_set_overload_def rt_clear_overload_def start_rt_bandwidth_def cpupri_set_def)

lemma bandwidth_core: "rt_core (start_rt_bandwidth st) c = rt_core st c"
  by (simp add: rt_core_def overload_frame)

lemma migration_frame:
  "tasks (inc_rt_migration p c st) = tasks st" "rt_core (inc_rt_migration p c st) d = rt_core st d"
  "tasks (dec_rt_migration p c st) = tasks st" "rt_core (dec_rt_migration p c st) d = rt_core st d"
  by (simp_all add: inc_rt_migration_def dec_rt_migration_def update_rt_migration_def Let_def rt_core_def
      overload_frame st_simps)

lemma pushable_frame:
  "tasks (enqueue_pushable_task c p st) = tasks st" "rt_core (enqueue_pushable_task c p st) d = rt_core st d"
  "tasks (dequeue_pushable_task c p st) = tasks st" "rt_core (dequeue_pushable_task c p st) d = rt_core st d"
  by (simp_all add: enqueue_pushable_task_def dequeue_pushable_task_def rt_core_def st_simps Let_def)

lemma prio_frame:
  "tasks (inc_rt_prio c k st) = tasks st"
  "rt_core (inc_rt_prio c k st) d = (if d = c then rt_core
     (upd_rt c (\<lambda>r. r\<lparr>rt_highest_curr := min k (rt_highest_curr r)\<rparr>) st) c else rt_core st d)"
  "tasks (dec_rt_prio c k st) = tasks st"
  "rt_core (dec_rt_prio c k st) d = (if d = c then rt_core
     (upd_rt c (\<lambda>r. r\<lparr>rt_highest_curr :=
        (if rt_nr_running r = 0 then MAX_RT_PRIO
         else if k = rt_highest_curr r then int (sched_find_first_bit (rt_bitmap r))
         else rt_highest_curr r)\<rparr>) st) c else rt_core st d)"
  by (auto simp: inc_rt_prio_def dec_rt_prio_def inc_rt_prio_smp_def dec_rt_prio_smp_def Let_def rt_core_def
      overload_frame st_simps)

lemma rt_tasks_frame:
  "tasks (inc_rt_tasks p c st) = tasks st"
  "rt_core (inc_rt_tasks p c st) d = (if d = c then rt_core
     (upd_rt c (\<lambda>r. r\<lparr>rt_nr_running := rt_nr_running r + 1,
        rt_highest_curr := min (prio_of st p) (rt_highest_curr r)\<rparr>) st) c else rt_core st d)"
  "tasks (dec_rt_tasks p c st) = tasks st"
  "rt_core (dec_rt_tasks p c st) d = (if d = c then rt_core
     (upd_rt c (\<lambda>r. r\<lparr>rt_nr_running := rt_nr_running r - 1,
        rt_highest_curr :=
        (if rt_nr_running r - 1 = 0 then MAX_RT_PRIO
         else if prio_of st p = rt_highest_curr r then int (sched_find_first_bit (rt_bitmap r))
         else rt_highest_curr r)\<rparr>) st) c else rt_core st d)"
  by (simp_all add: inc_rt_tasks_def dec_rt_tasks_def Let_def inc_rt_group_def bandwidth_core migration_frame
      prio_frame overload_frame rt_se_prio_def rt_se_nr_running_def st_simps)
    (simp_all add: rt_core_def st_simps)


section \<open>The invariant\<close>

text \<open>
  \<open>MAX_TASKS\<close> is the kernel's bound on live tasks (the \<open>PID_MAX_LIMIT\<close> of 64-bit kernels);
  it keeps the 32-bit counters from wrapping. \<open>rt_rest\<close> is the part of
  \<open>rq->nr_running\<close> that does not stem from the real-time class.
\<close>

definition MAX_TASKS :: nat where "MAX_TASKS = 4194304"

definition rt_linked :: "sched_state \<Rightarrow> cpu \<Rightarrow> tid \<Rightarrow> bool" where
  "rt_linked st c p \<longleftrightarrow> qs_mem p (rt_queue (rtq st c))"

definition rt_rest :: "sched_state \<Rightarrow> cpu \<Rightarrow> u32" where
  "rt_rest st c = rq_nr_running (rqs st c) - (if rt_queued (rtq st c) then rt_nr_running (rtq st c) else 0)"

definition rt_top_ok :: "sched_state \<Rightarrow> cpu \<Rightarrow> bool" where
  "rt_top_ok st c \<longleftrightarrow> (rt_queued (rtq st c) \<longleftrightarrow> \<not> rt_throttled (rtq st c) \<and> rt_nr_running (rtq st c) \<noteq> 0)"

definition rt_counts_ok :: "sched_state \<Rightarrow> cpu \<Rightarrow> bool" where
  "rt_counts_ok st c \<longleftrightarrow>
     rt_nr_running (rtq st c) = of_nat (length (concat (rt_queue (rtq st c)))) \<and>
     rt_highest_curr (rtq st c) = int (first_q (rt_queue (rtq st c))) \<and>
     unat (rt_rest st c) \<le> MAX_TASKS"

definition rt_members_ok :: "sched_state \<Rightarrow> bool" where
  "rt_members_ok st \<longleftrightarrow>
     (\<forall>c i p. i < 100 \<longrightarrow> p \<in> set (rt_queue (rtq st c) ! i) \<longrightarrow>
        prio_of st p = int i \<and> p < MAX_TASKS \<and> p_cpu (tasks st p) = c) \<and>
     (\<forall>p. p_rt_on_list (tasks st p) \<longleftrightarrow> rt_linked st (p_cpu (tasks st p)) p) \<and>
     (\<forall>p. p_rt_on_rq (tasks st p) = p_rt_on_list (tasks st p))"

definition rt_wf :: "sched_state \<Rightarrow> bool" where
  "rt_wf st \<longleftrightarrow> (\<forall>c. rt_array_ok (rt_queue (rtq st c)) (rt_bitmap (rtq st c)) \<and> rt_counts_ok st c \<and> rt_top_ok st c) \<and>
     rt_members_ok st"

text \<open>A task that may be enqueued: off the queue, with a real-time priority, assigned to the CPU.\<close>

definition rt_ready :: "sched_state \<Rightarrow> cpu \<Rightarrow> tid \<Rightarrow> bool" where
  "rt_ready st c p \<longleftrightarrow> \<not> p_rt_on_list (tasks st p) \<and> \<not> p_rt_on_rq (tasks st p) \<and>
     0 \<le> prio_of st p \<and> prio_of st p < 100 \<and> p_cpu (tasks st p) = c \<and> p < MAX_TASKS"

lemma rt_wfD:
  assumes "rt_wf st"
  shows "rt_array_ok (rt_queue (rtq st c)) (rt_bitmap (rtq st c))" "rt_counts_ok st c" "rt_top_ok st c"
    "i < 100 \<Longrightarrow> p \<in> set (rt_queue (rtq st c) ! i) \<Longrightarrow> prio_of st p = int i \<and> p < MAX_TASKS \<and> p_cpu (tasks st p) = c"
    "p_rt_on_list (tasks st p) \<longleftrightarrow> rt_linked st (p_cpu (tasks st p)) p"
    "p_rt_on_rq (tasks st p) = p_rt_on_list (tasks st p)"
  using assms unfolding rt_wf_def rt_members_ok_def by blast+

lemma rt_linkedD:
  assumes wf: "rt_wf st" and l: "rt_linked st c p"
  shows "p_cpu (tasks st p) = c" "0 \<le> prio_of st p" "prio_of st p < 100" "p < MAX_TASKS"
    "p_rt_on_list (tasks st p)" "p_rt_on_rq (tasks st p)"
    "p \<in> set (rt_queue (rtq st c) ! nat (prio_of st p))"
proof -
  from l rt_array_okD(1) [OF rt_wfD(1) [OF wf, of c]] obtain i where i: "i < 100" "p \<in> set (rt_queue (rtq st c) ! i)"
    by (auto simp: rt_linked_def qs_mem_nth)
  note m = rt_wfD(4) [OF wf i]
  then show c: "p_cpu (tasks st p) = c" "0 \<le> prio_of st p" "prio_of st p < 100" "p < MAX_TASKS"
    "p \<in> set (rt_queue (rtq st c) ! nat (prio_of st p))" using i by simp_all
  show "p_rt_on_list (tasks st p)" using rt_wfD(5) [OF wf, of p] l c(1) by simp
  then show "p_rt_on_rq (tasks st p)" using rt_wfD(6) [OF wf] by simp
qed

lemma rt_ready_unlinked:
  assumes "rt_wf st" "rt_ready st c p" shows "\<not> rt_linked st d p"
  using rt_linkedD(5) [OF assms(1), of d p] assms(2) by (auto simp: rt_ready_def)

lemma rt_linked_bound:
  assumes "rt_wf st" shows "length (concat (rt_queue (rtq st c))) \<le> MAX_TASKS"
proof -
  have "distinct (concat (rt_queue (rtq st c)))"
    using qs_ok_distinct_concat rt_array_okD(5) [OF rt_wfD(1) [OF assms]] by blast
  then have "length (concat (rt_queue (rtq st c))) = card (set (concat (rt_queue (rtq st c))))"
    by (metis distinct_card)
  also have "set (concat (rt_queue (rtq st c))) \<subseteq> {..<MAX_TASKS}"
    using rt_linkedD(4) [OF assms, of c] by (auto simp: rt_linked_def qs_mem_def)
  then have "card (set (concat (rt_queue (rtq st c)))) \<le> MAX_TASKS"
    using card_mono [of "{..<MAX_TASKS}"] by fastforce
  finally show ?thesis .
qed

text \<open>The counter is zero exactly when the array is empty, and never wraps.\<close>

lemma rt_nr_unat:
  assumes "rt_wf st" shows "unat (rt_nr_running (rtq st c)) = length (concat (rt_queue (rtq st c)))"
proof -
  have "length (concat (rt_queue (rtq st c))) < 2 ^ LENGTH(32)"
    using rt_linked_bound [OF assms, of c] by (simp add: MAX_TASKS_def)
  then have "unat (of_nat (length (concat (rt_queue (rtq st c)))) :: u32) = length (concat (rt_queue (rtq st c)))"
    by (rule unat_of_nat_small)
  then show ?thesis using rt_wfD(2) [OF assms, of c] by (simp add: rt_counts_ok_def)
qed

lemma rt_nr_zero:
  assumes "rt_wf st" shows "rt_nr_running (rtq st c) = 0 \<longleftrightarrow> concat (rt_queue (rtq st c)) = []"
  using rt_nr_unat [OF assms, of c] by (metis length_0_conv unat_eq_zero)

text \<open>\<open>BUG_ON(!rq->nr_running)\<close> cannot fire: a queued class has at least one task counted.\<close>

lemma rt_queued_nr_running:
  assumes wf: "rt_wf st" and q: "rt_queued (rtq st c)"
  shows "rq_nr_running (rqs st c) \<noteq> 0"
proof -
  have n: "unat (rt_nr_running (rtq st c)) \<noteq> 0"
    using rt_wfD(3) [OF wf, of c] q by (simp add: rt_top_ok_def unat_eq_zero)
  have "unat (rt_rest st c) + unat (rt_nr_running (rtq st c)) < 2 ^ LENGTH(32)"
    using rt_wfD(2) [OF wf, of c] rt_nr_unat [OF wf, of c] rt_linked_bound [OF wf, of c]
    by (simp add: rt_counts_ok_def MAX_TASKS_def del: length_concat)
  then have "unat (rt_rest st c + rt_nr_running (rtq st c)) \<noteq> 0"
    using n by (simp add: unat_plus_if_size word_size)
  then show ?thesis using q by (auto simp: rt_rest_def)
qed

section \<open>Enqueue and dequeue\<close>

text \<open>Rebuilding the invariant after one array changed.\<close>

lemma rt_wfI_update:
  assumes wf: "rt_wf st" and rest: "\<And>d. d \<noteq> c \<Longrightarrow> rt_core st' d = rt_core st d"
    and arr: "rt_array_ok (rt_queue (rtq st' c)) (rt_bitmap (rtq st' c))"
    and cnt: "rt_nr_running (rtq st' c) = of_nat (length (concat (rt_queue (rtq st' c))))"
      "rt_highest_curr (rtq st' c) = int (first_q (rt_queue (rtq st' c)))"
    and r: "rt_rest st' c = rt_rest st c" and top: "rt_top_ok st' c" and m: "rt_members_ok st'"
  shows "rt_wf st'"
proof -
  have "rt_array_ok (rt_queue (rtq st' d)) (rt_bitmap (rtq st' d)) \<and> rt_counts_ok st' d \<and> rt_top_ok st' d" for d
  proof (cases "d = c")
    case True
    then show ?thesis
      using arr cnt r top rt_wfD(2) [OF wf, of c] by (simp add: rt_counts_ok_def del: length_concat)
  next
    case False
    note f = rt_core_fields [OF rest [OF False]]
    show ?thesis
      using rt_wfD(1-3) [OF wf, of d] unfolding rt_counts_ok_def rt_top_ok_def rt_rest_def f by blast
  qed
  then show ?thesis using m by (simp add: rt_wf_def)
qed

definition rt_same_tasks :: "sched_state \<Rightarrow> sched_state \<Rightarrow> tid \<Rightarrow> bool" where
  "rt_same_tasks st st' x \<longleftrightarrow> prio_of st' x = prio_of st x \<and> p_cpu (tasks st' x) = p_cpu (tasks st x) \<and>
     p_rt_on_list (tasks st' x) = p_rt_on_list (tasks st x) \<and> p_rt_on_rq (tasks st' x) = p_rt_on_rq (tasks st x)"

lemma rt_members_insert:
  assumes wf: "rt_wf st" and r: "rt_ready st c p" and i: "prio_of st p = int i" "i < 100"
    and q: "rt_queue (rtq st' c) = qs_add i p (rt_queue (rtq st c)) \<or>
            rt_queue (rtq st' c) = qs_add_tail i p (rt_queue (rtq st c))"
      "\<And>d. d \<noteq> c \<Longrightarrow> rt_queue (rtq st' d) = rt_queue (rtq st d)"
    and t: "\<And>x. x \<noteq> p \<Longrightarrow> rt_same_tasks st st' x"
      "prio_of st' p = prio_of st p" "p_cpu (tasks st' p) = c" "p_rt_on_list (tasks st' p)" "p_rt_on_rq (tasks st' p)"
  shows "rt_members_ok st'" "rt_linked st' d x \<longleftrightarrow> rt_linked st d x \<or> (d = c \<and> x = p)"
proof -
  have un: "\<not> qs_mem p (rt_queue (rtq st c))"
    using rt_ready_unlinked [OF wf r, of c] by (simp add: rt_linked_def)
  note ins = rt_array_insert [OF rt_wfD(1) [OF wf, of c] i(2) un q(1)]
  have mem: "y \<in> set (rt_queue (rtq st' d) ! j) \<longleftrightarrow> (d = c \<and> j = i \<and> y = p) \<or> y \<in> set (rt_queue (rtq st d) ! j)"
    if "j < 100" for y d j
    using ins(5) [OF that, of y] q(2) by (cases "d = c") auto
  show lk: "rt_linked st' d x \<longleftrightarrow> rt_linked st d x \<or> (d = c \<and> x = p)" for d x
    using ins(4) [of x] q(2) by (cases "d = c") (auto simp: rt_linked_def)
  have a: "prio_of st' y = int j \<and> y < MAX_TASKS \<and> p_cpu (tasks st' y) = d"
    if "j < 100" "y \<in> set (rt_queue (rtq st' d) ! j)" for d j y
  proof (cases "y = p")
    case True
    then have "d = c \<and> j = i"
      using mem [OF that(1), of p d] that un rt_ready_unlinked [OF wf r, of d] rt_array_okD(1) [OF rt_wfD(1) [OF wf, of d]]
      by (auto simp: rt_linked_def qs_mem_nth)
    then show ?thesis using True t i r by (simp add: rt_ready_def)
  next
    case False
    then show ?thesis
      using mem [OF that(1), of y d] that rt_wfD(4) [OF wf that(1), of y d] t(1) [OF False] by (simp add: rt_same_tasks_def)
  qed
  have b: "p_rt_on_list (tasks st' y) \<longleftrightarrow> rt_linked st' (p_cpu (tasks st' y)) y" for y
    using t lk rt_wfD(5) [OF wf, of y] by (cases "y = p") (auto simp: rt_same_tasks_def)
  have e: "p_rt_on_rq (tasks st' y) = p_rt_on_list (tasks st' y)" for y
    using t rt_wfD(6) [OF wf, of y] by (cases "y = p") (auto simp: rt_same_tasks_def)
  show "rt_members_ok st'" using a b e by (simp add: rt_members_ok_def)
qed

lemma rt_members_delete:
  assumes wf: "rt_wf st" and l: "rt_linked st c p"
    and q: "\<And>d. rt_queue (rtq st' d) = qs_del p (rt_queue (rtq st d))"
    and t: "\<And>x. x \<noteq> p \<Longrightarrow> rt_same_tasks st st' x" "p_cpu (tasks st' p) = c"
      "\<not> p_rt_on_list (tasks st' p)" "\<not> p_rt_on_rq (tasks st' p)"
  shows "rt_members_ok st'" "rt_linked st' d x \<longleftrightarrow> rt_linked st d x \<and> x \<noteq> p"
proof -
  show lk: "rt_linked st' d x \<longleftrightarrow> rt_linked st d x \<and> x \<noteq> p" for d x
    by (auto simp: rt_linked_def q qs_mem_del)
  have a: "prio_of st' y = int j \<and> y < MAX_TASKS \<and> p_cpu (tasks st' y) = d"
    if "j < 100" "y \<in> set (rt_queue (rtq st' d) ! j)" for d j y
  proof -
    have "y \<noteq> p" "y \<in> set (rt_queue (rtq st d) ! j)"
      using that rt_array_okD(1) [OF rt_wfD(1) [OF wf, of d]] by (auto simp: q q_simps)
    then show ?thesis using rt_wfD(4) [OF wf that(1), of y d] t(1) [of y] by (simp add: rt_same_tasks_def)
  qed
  have b: "p_rt_on_list (tasks st' y) \<longleftrightarrow> rt_linked st' (p_cpu (tasks st' y)) y" for y
    using t lk rt_wfD(5) [OF wf, of y] by (cases "y = p") (auto simp: rt_same_tasks_def)
  have e: "p_rt_on_rq (tasks st' y) = p_rt_on_list (tasks st' y)" for y
    using t rt_wfD(6) [OF wf, of y] by (cases "y = p") (auto simp: rt_same_tasks_def)
  show "rt_members_ok st'" using a b e by (simp add: rt_members_ok_def)
qed

lemma nr_running_frame:
  "tasks (add_nr_running c n st) = tasks st"
  "rqs (add_nr_running c n st) d = (if d = c then (rqs st c)\<lparr>rq_nr_running := rq_nr_running (rqs st c) + n\<rparr> else rqs st d)"
  "tasks (sub_nr_running c n st) = tasks st"
  "rqs (sub_nr_running c n st) d = (if d = c then (rqs st c)\<lparr>rq_nr_running := rq_nr_running (rqs st c) - n\<rparr> else rqs st d)"
  by (simp_all add: add_nr_running_def sub_nr_running_def Let_def st_simps)

text \<open>Taking the class off the run queue and putting it back, seen from \<open>rt_core\<close>.\<close>

lemma dequeue_top_spec:
  assumes "rt_wf st"
  obtains st' where "dequeue_top_rt_rq c st = Some st'" "tasks st' = tasks st"
    "\<And>d. rt_core st' d = (if d = c then rt_core
       (upd_rq c (\<lambda>r. r\<lparr>rq_nr_running := rt_rest st c, rq_rt := (rq_rt r)\<lparr>rt_queued := False\<rparr>\<rparr>) st) c else rt_core st d)"
proof (cases "rt_queued (rtq st c)")
  case True
  with rt_queued_nr_running [OF assms True] show thesis
    by (intro that [of "upd_rt c (\<lambda>r. r\<lparr>rt_queued := False\<rparr>) (sub_nr_running c (rt_nr_running (rtq st c)) st)"])
      (simp_all add: dequeue_top_rt_rq_def Let_def rt_core_def nr_running_frame st_simps rt_rest_def)
next
  case False
  then show thesis
    by (intro that [of st]) (simp_all add: dequeue_top_rt_rq_def rt_core_def st_simps rt_rest_def)
qed

lemma enqueue_top_frame:
  "tasks (enqueue_top_rt_rq c st) = tasks st"
  "rt_core (enqueue_top_rt_rq c st) d = (if d = c \<and> \<not> rt_queued (rtq st c) \<and> \<not> rt_throttled (rtq st c) \<and> rt_nr_running (rtq st c) \<noteq> 0
     then rt_core (upd_rq c (\<lambda>r. r\<lparr>rq_nr_running := rq_nr_running r + rt_nr_running (rq_rt r),
        rq_rt := (rq_rt r)\<lparr>rt_queued := True\<rparr>\<rparr>) st) c else rt_core st d)"
  by (auto simp: enqueue_top_rt_rq_def Let_def rt_rq_throttled_def rt_core_def nr_running_frame st_simps)

text \<open>
  The enqueue of a ready task: what the composition of \<open>dequeue_rt_stack\<close>, the insertion,
  the counters and \<open>enqueue_top_rt_rq\<close> leaves behind.
\<close>

definition rt_ins :: "bool \<Rightarrow> nat \<Rightarrow> tid \<Rightarrow> tid list list \<Rightarrow> tid list list" where
  "rt_ins head = (if head then qs_add else qs_add_tail)"

lemma enqueue_rt_entity_spec:
  assumes wf: "rt_wf st" and r: "rt_ready st c p" and f: "move_entity f"
  obtains st' where "enqueue_rt_entity p f st = Some st'"
    "tasks st' = (tasks st)(p := (tasks st p)\<lparr>p_rt_on_list := True, p_rt_on_rq := True\<rparr>)"
    "\<And>d. d \<noteq> c \<Longrightarrow> rt_core st' d = rt_core st d"
    "rt_queue (rtq st' c) = rt_ins (has_flag f ENQUEUE_HEAD) (nat (prio_of st p)) p (rt_queue (rtq st c))"
    "rt_bitmap (rtq st' c) = (rt_bitmap (rtq st c))[nat (prio_of st p) := True]"
    "rt_nr_running (rtq st' c) = rt_nr_running (rtq st c) + 1"
    "rt_highest_curr (rtq st' c) = min (prio_of st p) (rt_highest_curr (rtq st c))"
    "rt_rest st' c = rt_rest st c" "rt_top_ok st' c" "rq_curr (rqs st' c) = rq_curr (rqs st c)"
proof -
  note [simp] = fun_upd_def
  obtain s1 where s1: "dequeue_top_rt_rq c st = Some s1" "tasks s1 = tasks st"
    "\<And>d. rt_core s1 d = (if d = c then rt_core
       (upd_rq c (\<lambda>r. r\<lparr>rq_nr_running := rt_rest st c, rq_rt := (rq_rt r)\<lparr>rt_queued := False\<rparr>\<rparr>) st) c else rt_core st d)"
    using dequeue_top_spec [OF wf] by blast
  have c1: "rt_core s1 c = (rt_queue (rtq st c), rt_bitmap (rtq st c), rt_nr_running (rtq st c),
     rt_highest_curr (rtq st c), False, rt_throttled (rtq st c), rt_rest st c, rq_curr (rqs st c))"
    using s1(3) [of c] by (simp add: rt_core_def st_simps)
  have ready: "\<not> p_rt_on_list (tasks st p)" "\<not> p_rt_on_rq (tasks st p)" "0 \<le> prio_of st p" "prio_of st p < 100" "p_cpu (tasks st p) = c"
    using r by (auto simp: rt_ready_def)
  have stack: "dequeue_rt_stack p f st = Some s1"
    by (simp add: dequeue_rt_stack_def rt_rq_of_se_def ready s1(1,2))
  have bnd: "in_bounds (prio_of st p) (rt_queue (rtq s1 c))"
    using c1 rt_array_okD(1) [OF rt_wfD(1) [OF wf, of c]] ready by (simp add: rt_core_def in_bounds_def)
  let ?s2 = "upd_task p (\<lambda>t. t\<lparr>p_rt_on_rq := True\<rparr>) (upd_task p (\<lambda>t. t\<lparr>p_rt_on_list := True\<rparr>)
     (upd_rt c (\<lambda>r. r\<lparr>rt_bitmap := (rt_bitmap r)[nat (prio_of st p) := True]\<rparr>)
       (upd_rt c (\<lambda>r. r\<lparr>rt_queue := rt_ins (has_flag f ENQUEUE_HEAD) (nat (prio_of st p)) p (rt_queue r)\<rparr>) s1)))"
  let ?s3 = "enqueue_top_rt_rq c (inc_rt_tasks p c ?s2)"
  have raw: "enqueue_rt_entity_raw p f s1 = Some (inc_rt_tasks p c ?s2)"
    by (simp add: enqueue_rt_entity_raw_def Let_def f ready s1(2) rt_rq_of_se_def rt_se_prio_def rt_link_def bnd rt_ins_def)
  have eq: "enqueue_rt_entity p f st = Some ?s3"
    by (simp add: enqueue_rt_entity_def Let_def stack raw rt_rq_of_se_def ready)
  have pr: "prio_of ?s2 p = prio_of st p" by (simp add: st_simps s1(2))
  have c2: "rt_core (inc_rt_tasks p c ?s2) c = (rt_ins (has_flag f ENQUEUE_HEAD) (nat (prio_of st p)) p (rt_queue (rtq st c)),
     (rt_bitmap (rtq st c))[nat (prio_of st p) := True], rt_nr_running (rtq st c) + 1,
     min (prio_of st p) (rt_highest_curr (rtq st c)), False, rt_throttled (rtq st c), rt_rest st c, rq_curr (rqs st c))"
    unfolding rt_tasks_frame pr using c1 by (simp add: rt_core_def st_simps)
  note g = rt_core_eqD [OF c2]
  have d2: "rt_core ?s3 d = rt_core st d" if "d \<noteq> c" for d
    using that s1(3) [of d] by (simp add: enqueue_top_frame rt_tasks_frame) (simp add: rt_core_def st_simps)
  have c3: "rt_core ?s3 c = (let q = (\<not> rt_throttled (rtq st c) \<and> rt_nr_running (rtq st c) + 1 \<noteq> 0) in
     (rt_ins (has_flag f ENQUEUE_HEAD) (nat (prio_of st p)) p (rt_queue (rtq st c)),
     (rt_bitmap (rtq st c))[nat (prio_of st p) := True], rt_nr_running (rtq st c) + 1,
     min (prio_of st p) (rt_highest_curr (rtq st c)), q, rt_throttled (rtq st c),
     rt_rest st c + (if q then rt_nr_running (rtq st c) + 1 else 0), rq_curr (rqs st c)))"
    unfolding enqueue_top_frame using g by (auto simp: rt_core_def st_simps Let_def)
  note h = rt_core_eqD [OF c3 [unfolded Let_def]]
  show thesis
  proof (rule that [OF eq])
    show "tasks ?s3 = (tasks st)(p := (tasks st p)\<lparr>p_rt_on_list := True, p_rt_on_rq := True\<rparr>)"
      by (rule ext) (simp add: enqueue_top_frame rt_tasks_frame st_simps s1(2))
    show "rt_rest ?s3 c = rt_rest st c" unfolding rt_rest_def [of ?s3] using h by auto
    show "rt_top_ok ?s3 c" unfolding rt_top_ok_def using h by auto
  qed (use d2 h in simp_all)
qed

lemma rt_unlink_sel [st_simps]:
  "tasks (rt_unlink p st) = tasks st"
  "rt_queue (rtq (rt_unlink p st) d) = qs_del p (rt_queue (rtq st d))"
  "rt_bitmap (rtq (rt_unlink p st) d) = rt_bitmap (rtq st d)"
  "rt_nr_running (rtq (rt_unlink p st) d) = rt_nr_running (rtq st d)"
  "rt_highest_curr (rtq (rt_unlink p st) d) = rt_highest_curr (rtq st d)"
  "rt_queued (rtq (rt_unlink p st) d) = rt_queued (rtq st d)"
  "rt_throttled (rtq (rt_unlink p st) d) = rt_throttled (rtq st d)"
  "rq_nr_running (rqs (rt_unlink p st) d) = rq_nr_running (rqs st d)"
  "rq_curr (rqs (rt_unlink p st) d) = rq_curr (rqs st d)"
  by (simp_all add: rt_unlink_def)

definition rt_clear :: "nat \<Rightarrow> tid list list \<Rightarrow> bool list \<Rightarrow> bool list" where
  "rt_clear i qs bm = (if qs ! i = [] then bm[i := False] else bm)"

lemma dequeue_rt_entity_spec:
  assumes wf: "rt_wf st" and l: "rt_linked st c p" and f: "move_entity f"
  obtains st' where "dequeue_rt_entity p f st = Some st'"
    "tasks st' = (tasks st)(p := (tasks st p)\<lparr>p_rt_on_list := False, p_rt_on_rq := False\<rparr>)"
    "\<And>d. d \<noteq> c \<Longrightarrow> rt_core st' d = rt_core st d"
    "rt_queue (rtq st' c) = qs_del p (rt_queue (rtq st c))"
    "rt_bitmap (rtq st' c) = rt_clear (nat (prio_of st p)) (qs_del p (rt_queue (rtq st c))) (rt_bitmap (rtq st c))"
    "rt_nr_running (rtq st' c) = rt_nr_running (rtq st c) - 1"
    "rt_highest_curr (rtq st' c) = (if rt_nr_running (rtq st c) - 1 = 0 then MAX_RT_PRIO
        else if prio_of st p = rt_highest_curr (rtq st c) then int (sched_find_first_bit (rt_bitmap (rtq st' c)))
        else rt_highest_curr (rtq st c))"
    "rt_rest st' c = rt_rest st c" "rt_top_ok st' c" "rq_curr (rqs st' c) = rq_curr (rqs st c)"
proof -
  obtain s1 where s1: "dequeue_top_rt_rq c st = Some s1" "tasks s1 = tasks st"
    "\<And>d. rt_core s1 d = (if d = c then rt_core
       (upd_rq c (\<lambda>r. r\<lparr>rq_nr_running := rt_rest st c, rq_rt := (rq_rt r)\<lparr>rt_queued := False\<rparr>\<rparr>) st) c else rt_core st d)"
    using dequeue_top_spec [OF wf] by blast
  have c1: "rt_core s1 c = (rt_queue (rtq st c), rt_bitmap (rtq st c), rt_nr_running (rtq st c),
     rt_highest_curr (rtq st c), False, rt_throttled (rtq st c), rt_rest st c, rq_curr (rqs st c))"
    using s1(3) [of c] by (simp add: rt_core_def st_simps)
  note e1 = rt_core_eqD [OF c1] and on = rt_linkedD [OF wf l]
  let ?i = "nat (prio_of st p)" and ?qs = "qs_del p (rt_queue (rtq st c))"
  have bnd: "in_bounds (prio_of st p) (rt_queue (rtq (rt_unlink p s1) c))"
    using rt_array_okD(1) [OF rt_wfD(1) [OF wf, of c]] on by (simp add: in_bounds_def st_simps e1)
  let ?s2 = "upd_task p (\<lambda>t. t\<lparr>p_rt_on_rq := False\<rparr>) (upd_task p (\<lambda>t. t\<lparr>p_rt_on_list := False\<rparr>)
     (if ?qs ! ?i = [] then upd_rt c (\<lambda>r. r\<lparr>rt_bitmap := (rt_bitmap r)[?i := False]\<rparr>) (rt_unlink p s1) else rt_unlink p s1))"
  let ?s3 = "enqueue_top_rt_rq c (dec_rt_tasks p c ?s2)"
  have raw: "dequeue_rt_entity_raw p f s1 = Some (dec_rt_tasks p c ?s2)"
    using bnd by (simp add: dequeue_rt_entity_raw_def delist_rt_entity_def Let_def f on s1(2) rt_rq_of_se_def rt_se_prio_def e1 st_simps)
  have eq: "dequeue_rt_entity p f st = Some ?s3"
    by (simp add: dequeue_rt_entity_def dequeue_rt_stack_def Let_def raw rt_rq_of_se_def on s1(1,2))
  have pr: "prio_of ?s2 p = prio_of st p" by (simp add: st_simps s1(2))
  let ?hi = "if rt_nr_running (rtq st c) - 1 = 0 then MAX_RT_PRIO
        else if prio_of st p = rt_highest_curr (rtq st c) then int (sched_find_first_bit (rt_clear ?i ?qs (rt_bitmap (rtq st c))))
        else rt_highest_curr (rtq st c)"
  have c2: "rt_core (dec_rt_tasks p c ?s2) c = (?qs, rt_clear ?i ?qs (rt_bitmap (rtq st c)), rt_nr_running (rtq st c) - 1,
     ?hi, False, rt_throttled (rtq st c), rt_rest st c, rq_curr (rqs st c))"
    unfolding rt_tasks_frame pr by (simp add: rt_core_def st_simps rt_clear_def e1)
  note g = rt_core_eqD [OF c2]
  have d2: "rt_core ?s3 d = rt_core st d" if "d \<noteq> c" for d
  proof -
    have "\<not> qs_mem p (rt_queue (rtq st d))" using on(1) rt_linkedD(1) [OF wf, of d p] that by (auto simp: rt_linked_def)
    then show ?thesis
      using that s1(3) [of d] by (simp add: enqueue_top_frame rt_tasks_frame) (simp add: rt_core_def st_simps qs_del_absent)
  qed
  have c3: "rt_core ?s3 c = (let q = (\<not> rt_throttled (rtq st c) \<and> rt_nr_running (rtq st c) - 1 \<noteq> 0) in
     (?qs, rt_clear ?i ?qs (rt_bitmap (rtq st c)), rt_nr_running (rtq st c) - 1, ?hi, q, rt_throttled (rtq st c),
     rt_rest st c + (if q then rt_nr_running (rtq st c) - 1 else 0), rq_curr (rqs st c)))"
    unfolding enqueue_top_frame using g by (auto simp: rt_core_def st_simps Let_def)
  note h = rt_core_eqD [OF c3 [unfolded Let_def]]
  show thesis
  proof (rule that [OF eq])
    show "tasks ?s3 = (tasks st)(p := (tasks st p)\<lparr>p_rt_on_list := False, p_rt_on_rq := False\<rparr>)"
      by (rule ext) (simp add: enqueue_top_frame rt_tasks_frame st_simps s1(2))
    show "rt_rest ?s3 c = rt_rest st c" unfolding rt_rest_def [of ?s3] using h by auto
    show "rt_top_ok ?s3 c" unfolding rt_top_ok_def using h by auto
    show "rt_highest_curr (rtq ?s3 c) = (if rt_nr_running (rtq st c) - 1 = 0 then MAX_RT_PRIO
        else if prio_of st p = rt_highest_curr (rtq st c) then int (sched_find_first_bit (rt_bitmap (rtq ?s3 c)))
        else rt_highest_curr (rtq st c))"
      unfolding h(2) by (rule h(4))
  qed (erule d2, (rule h(1-3,8))+)
qed

text \<open>
  The \<open>rt_wf\<close> half of both: the array, its counters and its members stay consistent.
\<close>

lemma enqueue_rt_entity_wf:
  assumes wf: "rt_wf st" and r: "rt_ready st c p" and f: "move_entity f"
  obtains st' where "enqueue_rt_entity p f st = Some st'" "rt_wf st'"
    "\<And>d x. rt_linked st' d x \<longleftrightarrow> rt_linked st d x \<or> (d = c \<and> x = p)"
    "tasks st' = (tasks st)(p := (tasks st p)\<lparr>p_rt_on_list := True, p_rt_on_rq := True\<rparr>)"
    "rt_queue (rtq st' c) = rt_ins (has_flag f ENQUEUE_HEAD) (nat (prio_of st p)) p (rt_queue (rtq st c))"
    "\<And>d. rq_curr (rqs st' d) = rq_curr (rqs st d)" "\<And>d. d \<noteq> c \<Longrightarrow> rt_queue (rtq st' d) = rt_queue (rtq st d)"
proof -
  obtain st' where s: "enqueue_rt_entity p f st = Some st'"
    "tasks st' = (tasks st)(p := (tasks st p)\<lparr>p_rt_on_list := True, p_rt_on_rq := True\<rparr>)"
    "\<And>d. d \<noteq> c \<Longrightarrow> rt_core st' d = rt_core st d"
    "rt_queue (rtq st' c) = rt_ins (has_flag f ENQUEUE_HEAD) (nat (prio_of st p)) p (rt_queue (rtq st c))"
    "rt_bitmap (rtq st' c) = (rt_bitmap (rtq st c))[nat (prio_of st p) := True]"
    "rt_nr_running (rtq st' c) = rt_nr_running (rtq st c) + 1"
    "rt_highest_curr (rtq st' c) = min (prio_of st p) (rt_highest_curr (rtq st c))"
    "rt_rest st' c = rt_rest st c" "rt_top_ok st' c" "rq_curr (rqs st' c) = rq_curr (rqs st c)"
    using enqueue_rt_entity_spec [OF wf r f] by blast
  let ?i = "nat (prio_of st p)"
  have i: "prio_of st p = int ?i" "?i < 100" and cpu: "p_cpu (tasks st p) = c" using r by (auto simp: rt_ready_def)
  have q: "rt_queue (rtq st' c) = qs_add ?i p (rt_queue (rtq st c)) \<or> rt_queue (rtq st' c) = qs_add_tail ?i p (rt_queue (rtq st c))"
    using s(4) by (auto simp: rt_ins_def)
  have un: "\<not> qs_mem p (rt_queue (rtq st c))"
    using rt_ready_unlinked [OF wf r, of c] by (simp add: rt_linked_def)
  note ins = rt_array_insert [OF rt_wfD(1) [OF wf, of c] i(2) un q]
  have cf: "\<And>d. d \<noteq> c \<Longrightarrow> rt_queue (rtq st' d) = rt_queue (rtq st d)" by (rule rt_core_fields(1) [OF s(3)])
  have m1: "rt_members_ok st'"
    by (rule rt_members_insert(1) [OF wf r i q cf]) (auto simp: s(2) rt_same_tasks_def cpu)
  have m2: "rt_linked st' d x \<longleftrightarrow> rt_linked st d x \<or> (d = c \<and> x = p)" for d x
    by (rule rt_members_insert(2) [OF wf r i q cf]) (auto simp: s(2) rt_same_tasks_def cpu)
  note m = m1 m2
  note cnt = rt_wfD(2) [OF wf, of c, unfolded rt_counts_ok_def]
  have "rt_wf st'"
  proof (rule rt_wfI_update [OF wf s(3)])
    show "rt_array_ok (rt_queue (rtq st' c)) (rt_bitmap (rtq st' c))" using ins(1) by (simp add: s(5))
    show "rt_nr_running (rtq st' c) = of_nat (length (concat (rt_queue (rtq st' c))))"
      unfolding ins(3) s(6) using cnt by simp
    show "rt_highest_curr (rtq st' c) = int (first_q (rt_queue (rtq st' c)))"
      unfolding ins(2) s(7) using cnt r by (auto simp: min_def rt_ready_def)
  qed (use s m in simp_all)
  moreover have "rq_curr (rqs st' d) = rq_curr (rqs st d)" for d
    using rt_core_fields(8) [OF s(3)] s(10) by (cases "d = c") auto
  ultimately show thesis using that [OF s(1) _ m(2) s(2,4)] cf by blast
qed

lemma dequeue_rt_entity_wf:
  assumes wf: "rt_wf st" and l: "rt_linked st c p" and f: "move_entity f"
  obtains st' where "dequeue_rt_entity p f st = Some st'" "rt_wf st'"
    "\<And>d x. rt_linked st' d x \<longleftrightarrow> rt_linked st d x \<and> x \<noteq> p"
    "tasks st' = (tasks st)(p := (tasks st p)\<lparr>p_rt_on_list := False, p_rt_on_rq := False\<rparr>)"
    "\<And>d. rt_queue (rtq st' d) = qs_del p (rt_queue (rtq st d))"
    "\<And>d. rq_curr (rqs st' d) = rq_curr (rqs st d)"
proof -
  obtain st' where s: "dequeue_rt_entity p f st = Some st'"
    "tasks st' = (tasks st)(p := (tasks st p)\<lparr>p_rt_on_list := False, p_rt_on_rq := False\<rparr>)"
    "\<And>d. d \<noteq> c \<Longrightarrow> rt_core st' d = rt_core st d"
    "rt_queue (rtq st' c) = qs_del p (rt_queue (rtq st c))"
    "rt_bitmap (rtq st' c) = rt_clear (nat (prio_of st p)) (qs_del p (rt_queue (rtq st c))) (rt_bitmap (rtq st c))"
    "rt_nr_running (rtq st' c) = rt_nr_running (rtq st c) - 1"
    "rt_highest_curr (rtq st' c) = (if rt_nr_running (rtq st c) - 1 = 0 then MAX_RT_PRIO
        else if prio_of st p = rt_highest_curr (rtq st c) then int (sched_find_first_bit (rt_bitmap (rtq st' c)))
        else rt_highest_curr (rtq st c))"
    "rt_rest st' c = rt_rest st c" "rt_top_ok st' c" "rq_curr (rqs st' c) = rq_curr (rqs st c)"
    using dequeue_rt_entity_spec [OF wf l f] by blast
  note on = rt_linkedD [OF wf l]
  let ?i = "nat (prio_of st p)" and ?qs = "rt_queue (rtq st c)"
  have i: "?i < 100" using on by simp
  note del = rt_array_delete [OF rt_wfD(1) [OF wf, of c] i on(7)]
  have arr: "rt_array_ok (rt_queue (rtq st' c)) (rt_bitmap (rtq st' c))"
    using del(1) by (simp add: s(4,5) rt_clear_def)
  have q: "rt_queue (rtq st' d) = qs_del p (rt_queue (rtq st d))" for d
  proof (cases "d = c")
    case False
    then have "\<not> qs_mem p (rt_queue (rtq st d))" using on(1) rt_linkedD(1) [OF wf, of d p] by (auto simp: rt_linked_def)
    then show ?thesis using rt_core_fields(1) [OF s(3) [OF False]] by (simp add: qs_del_absent)
  qed (simp add: s(4))
  have m1: "rt_members_ok st'"
    by (rule rt_members_delete(1) [OF wf l q]) (auto simp: s(2) rt_same_tasks_def on)
  have m2: "rt_linked st' d x \<longleftrightarrow> rt_linked st d x \<and> x \<noteq> p" for d x
    by (rule rt_members_delete(2) [OF wf l q]) (auto simp: s(2) rt_same_tasks_def on)
  note m = m1 m2
  note cnt = rt_wfD(2) [OF wf, of c, unfolded rt_counts_ok_def]
  have ne: "length (concat ?qs) \<noteq> 0"
    using l by (cases "concat ?qs") (simp_all add: rt_linked_def qs_mem_def del: length_concat set_concat concat_eq_Nil_conv)
  have nr: "rt_nr_running (rtq st' c) = of_nat (length (concat (rt_queue (rtq st' c))))"
    unfolding s(4,6) del(3) using cnt ne by (simp add: of_nat_diff Suc_le_eq del: length_concat)
  have wf': "rt_wf st'"
  proof (rule rt_wfI_update [OF wf s(3) arr nr])
    have bound: "length (concat (rt_queue (rtq st' c))) < 2 ^ LENGTH(32)"
      using rt_linked_bound [OF wf, of c] del(3) by (simp add: s(4) MAX_TASKS_def del: length_concat)
    have z: "rt_nr_running (rtq st c) - 1 = 0 \<longleftrightarrow> concat (rt_queue (rtq st' c)) = []"
      using unat_of_nat_small [OF bound] nr s(6) by (metis length_0_conv unat_eq_zero)
    have fq: "first_q (rt_queue (rtq st' c)) = 100 \<longleftrightarrow> concat (rt_queue (rtq st' c)) = []"
      using first_q_none [of "rt_queue (rtq st' c)"] rt_array_okD(1) [OF arr] by simp
    show "rt_highest_curr (rtq st' c) = int (first_q (rt_queue (rtq st' c)))"
    proof (cases "prio_of st p = rt_highest_curr (rtq st c)")
      case True
      then show ?thesis unfolding s(7) z using fq rt_array_first [OF arr] by (simp add: MAX_RT_PRIO_def)
    next
      case False
      then have "?i \<noteq> first_q ?qs" using cnt on by auto
      with del(2) show ?thesis unfolding s(7) z using fq False cnt s(4) by (simp add: MAX_RT_PRIO_def)
    qed
  qed (use s m in simp_all)
  have "rq_curr (rqs st' d) = rq_curr (rqs st d)" for d
    using rt_core_fields(8) [OF s(3)] s(10) by (cases "d = c") auto
  then show thesis using that [OF s(1) wf' m(2) s(2) q] by blast
qed

section \<open>Accounting keeps the invariant\<close>

text \<open>
  \<open>rt_quiet\<close>: a step that leaves the arrays, the counters, the members and the share of the
  other classes alone, and keeps the top-level flag consistent where it was.
\<close>

definition rt_quiet :: "sched_state \<Rightarrow> sched_state \<Rightarrow> bool" where
  "rt_quiet st st' \<longleftrightarrow> (\<forall>c. rt_queue (rtq st' c) = rt_queue (rtq st c) \<and> rt_bitmap (rtq st' c) = rt_bitmap (rtq st c) \<and>
      rt_nr_running (rtq st' c) = rt_nr_running (rtq st c) \<and> rt_highest_curr (rtq st' c) = rt_highest_curr (rtq st c) \<and>
      rt_rest st' c = rt_rest st c \<and> rq_curr (rqs st' c) = rq_curr (rqs st c) \<and> (rt_top_ok st c \<longrightarrow> rt_top_ok st' c)) \<and>
    (\<forall>x. rt_same_tasks st st' x)"

lemma rt_quiet_refl [simp]: "rt_quiet st st"
  by (simp add: rt_quiet_def rt_same_tasks_def)

lemma rt_quiet_trans: "rt_quiet a b \<Longrightarrow> rt_quiet b c \<Longrightarrow> rt_quiet a c"
  unfolding rt_quiet_def rt_same_tasks_def by auto

lemma rt_quietD:
  assumes "rt_quiet st st'"
  shows "rt_queue (rtq st' c) = rt_queue (rtq st c)" "rt_linked st' c p \<longleftrightarrow> rt_linked st c p"
    "rq_curr (rqs st' c) = rq_curr (rqs st c)" "rt_same_tasks st st' x" "rt_ready st' c p \<longleftrightarrow> rt_ready st c p"
  using assms by (auto simp: rt_quiet_def rt_linked_def rt_ready_def rt_same_tasks_def)

lemma rt_quiet_wf: "rt_quiet st st' \<Longrightarrow> rt_wf st \<Longrightarrow> rt_wf st'"
  unfolding rt_quiet_def rt_wf_def rt_counts_ok_def rt_members_ok_def rt_linked_def rt_same_tasks_def by auto

lemma rt_quietI:
  assumes "\<And>d. rt_core st' d = rt_core st d" "\<And>x. rt_same_tasks st st' x"
  shows "rt_quiet st st'"
  using assms(2) rt_core_fields [OF assms(1)] by (simp add: rt_quiet_def rt_rest_def rt_top_ok_def)

lemma upd_task_quiet:
  "rt_same_tasks st (upd_task p f st) p \<Longrightarrow> rt_quiet st (upd_task p f st)"
  by (rule rt_quietI) (auto simp: rt_core_def st_simps rt_same_tasks_def)

lemma resched_quiet: "rt_quiet st (resched_curr c st)"
  by (rule rt_quietI) (simp_all add: rt_core_def st_simps rt_same_tasks_def)

lemma balance_loop_frame:
  "tasks (balance_loop period w me is st) = tasks st \<and> (\<forall>d. rt_core (balance_loop period w me is st) d = rt_core st d)"
proof (induction "is" arbitrary: st)
  case (Cons i "is")
  have step: "tasks (add_runtime a x (add_runtime b y st)) = tasks st"
    "rt_core (add_runtime a x (add_runtime b y st)) d = rt_core st d" for a x b y d
    by (simp_all add: add_runtime_def st_simps rt_core_def)
  show ?case
    by (simp add: Let_def Cons.IH step)
qed simp

lemma balance_runtime_frame:
  "tasks (balance_runtime c st) = tasks st" "rt_core (balance_runtime c st) d = rt_core st d"
  by (simp_all add: balance_runtime_def do_balance_runtime_def balance_loop_frame)

lemma balance_runtime_quiet: "rt_quiet st (balance_runtime c st)"
  by (rule rt_quietI) (simp_all add: balance_runtime_frame rt_same_tasks_def)

text \<open>Throttling: the flag is set and the class leaves the run queue in one go.\<close>

lemma throttle_quiet:
  assumes wf: "rt_wf st"
  obtains st' where "sched_rt_rq_dequeue c (upd_rt c (\<lambda>r. r\<lparr>rt_throttled := True\<rparr>) st) = Some st'"
    "rt_quiet st st'" "rt_throttled (rtq st' c)" "\<not> rt_queued (rtq st' c)"
proof (cases "rt_queued (rtq st c)")
  case True
  let ?u = "upd_rt c (\<lambda>r. r\<lparr>rt_throttled := True\<rparr>) st"
  let ?s = "upd_rt c (\<lambda>r. r\<lparr>rt_queued := False\<rparr>) (sub_nr_running c (rt_nr_running (rtq st c)) ?u)"
  have "sched_rt_rq_dequeue c ?u = Some ?s"
    using True rt_queued_nr_running [OF wf True] by (simp add: sched_rt_rq_dequeue_def dequeue_top_rt_rq_def Let_def st_simps)
  moreover have "rt_quiet st ?s"
    unfolding rt_quiet_def using True
    by (auto simp: rt_rest_def rt_top_ok_def nr_running_frame st_simps rt_same_tasks_def)
  ultimately show thesis by (rule that) (simp_all add: st_simps nr_running_frame)
next
  case False
  let ?u = "upd_rt c (\<lambda>r. r\<lparr>rt_throttled := True\<rparr>) st"
  have "sched_rt_rq_dequeue c ?u = Some ?u"
    using False by (simp add: sched_rt_rq_dequeue_def dequeue_top_rt_rq_def Let_def st_simps)
  moreover have "rt_quiet st ?u"
    unfolding rt_quiet_def using False by (auto simp: rt_rest_def rt_top_ok_def st_simps rt_same_tasks_def)
  ultimately show thesis by (rule that) (use False in \<open>simp_all add: st_simps\<close>)
qed

lemma runtime_exceeded_quiet:
  assumes wf: "rt_wf st"
  obtains b st' where "sched_rt_runtime_exceeded c st = Some (b, st')" "rt_quiet st st'"
    "b \<Longrightarrow> rt_throttled (rtq st' c)"
proof (cases "rt_throttled (rtq st c) \<or> runtime_of st c \<ge> rtb_period (def_rt_b st)")
  case True
  then show thesis
    by (intro that [of "rt_throttled (rtq st c)" st]) (auto simp: sched_rt_runtime_exceeded_def rt_rq_throttled_def)
next
  case False
  let ?b = "balance_runtime c st"
  have thr: "\<not> rt_throttled (rtq ?b c)"
    using False rt_core_fields(6) [OF balance_runtime_frame(2), of c st c] by simp
  have wfb: "rt_wf ?b" by (rule rt_quiet_wf [OF balance_runtime_quiet wf])
  obtain s where s: "sched_rt_rq_dequeue c (upd_rt c (\<lambda>r. r\<lparr>rt_throttled := True\<rparr>) ?b) = Some s"
    "rt_quiet ?b s" "rt_throttled (rtq s c)" using throttle_quiet [OF wfb] by blast
  have z: "rt_quiet ?b (upd_rt c (\<lambda>r. r\<lparr>rt_time := 0\<rparr>) ?b)"
    by (rule rt_quietI) (simp_all add: rt_core_def st_simps rt_same_tasks_def)
  note q = rt_quiet_trans [OF balance_runtime_quiet]
  consider (off) "runtime_of ?b c = RUNTIME_INF \<or> \<not> time_of ?b c > runtime_of ?b c"
    | (zero) "runtime_of ?b c \<noteq> RUNTIME_INF" "time_of ?b c > runtime_of ?b c" "rtb_runtime (def_rt_b ?b) = 0"
    | (thr) "runtime_of ?b c \<noteq> RUNTIME_INF" "time_of ?b c > runtime_of ?b c" "rtb_runtime (def_rt_b ?b) \<noteq> 0"
    by blast
  then show thesis
  proof cases
    case off
    then show thesis
      using False by (intro that [of False ?b]) (auto simp: sched_rt_runtime_exceeded_def Let_def balance_runtime_quiet)
  next
    case zero
    then show thesis
      using False thr by (intro that [OF _ q [OF z], of False])
        (simp_all add: sched_rt_runtime_exceeded_def Let_def rt_rq_throttled_def st_simps)
  next
    case thr
    then show thesis
      using False s(1,3) by (intro that [OF _ q [OF s(2)], of True])
        (simp_all add: sched_rt_runtime_exceeded_def Let_def rt_rq_throttled_def st_simps)
  qed
qed

lemma update_curr_rt_quiet:
  assumes wf: "rt_wf st"
  obtains st' where "update_curr_rt c st = Some st'" "rt_quiet st st'"
proof -
  define curr where "curr = curr_of st c"
  define now where "now = rq_clock_task (rqs st c)"
  define delta where "delta = now - p_exec_start (tasks st curr)"
  let ?u = "upd_task curr (\<lambda>t. t\<lparr>p_sum_exec := p_sum_exec t + delta, p_exec_start := now\<rparr>) st"
  let ?d = "p_cpu (tasks st curr)"
  let ?v = "upd_rt ?d (\<lambda>r. r\<lparr>rt_time := rt_time r + delta\<rparr>) ?u"
  have u: "rt_quiet st ?u" by (rule upd_task_quiet) (simp add: rt_same_tasks_def st_simps)
  have v: "rt_quiet st ?v"
    by (rule rt_quiet_trans [OF u], rule rt_quietI) (simp_all add: rt_core_def st_simps rt_same_tasks_def)
  obtain b s where s: "sched_rt_runtime_exceeded ?d ?v = Some (b, s)" "rt_quiet ?v s"
    using runtime_exceeded_quiet [OF rt_quiet_wf [OF v wf]] by blast
  note qs = rt_quiet_trans [OF v s(2)]
  have en: "rt_bandwidth_enabled ?u = rt_bandwidth_enabled st" by (simp add: rt_bandwidth_enabled_def st_simps)
  have un: "update_curr_rt c st = Some
     (if p_class (tasks st curr) \<noteq> Rt_class \<or> sint delta \<le> 0 then st
      else if \<not> rt_bandwidth_enabled st \<or> runtime_of st ?d = RUNTIME_INF then ?u
      else if b then resched_curr c s else s)"
    using s(1) unfolding update_curr_rt_def Let_def curr_def [symmetric] now_def [symmetric] delta_def [symmetric]
    by (simp add: en rt_rq_of_se_def st_simps)
  show thesis
    by (rule that [OF un]) (use u qs rt_quiet_trans [OF qs resched_quiet] in auto)
qed

section \<open>The class contract\<close>

lemma pushable_quiet:
  "rt_quiet st (enqueue_pushable_task c p st)" "rt_quiet st (dequeue_pushable_task c p st)"
  by (rule rt_quietI; simp add: pushable_frame rt_same_tasks_def)+

lemma enqueue_task_rt_spec:
  assumes wf: "rt_wf st" and r: "rt_ready st c p" and f: "move_entity f"
  obtains st' where "enqueue_task_rt c p f st = Some st'" "rt_wf st'"
    "\<And>d x. rt_linked st' d x \<longleftrightarrow> rt_linked st d x \<or> (d = c \<and> x = p)"
    "rt_queue (rtq st' c) = rt_ins (has_flag f ENQUEUE_HEAD) (nat (prio_of st p)) p (rt_queue (rtq st c))"
    "\<And>d. d \<noteq> c \<Longrightarrow> rt_queue (rtq st' d) = rt_queue (rtq st d)"
    "\<And>x. x \<noteq> p \<Longrightarrow> rt_same_tasks st st' x" "prio_of st' p = prio_of st p" "p_cpu (tasks st' p) = c"
    "\<And>d. rq_curr (rqs st' d) = rq_curr (rqs st d)"
proof -
  let ?u = "if has_flag f ENQUEUE_WAKEUP then upd_task p (\<lambda>t. t\<lparr>p_rt_timeout := 0\<rparr>) st else st"
  have u: "rt_quiet st ?u" using upd_task_quiet [of st p] by (simp add: rt_same_tasks_def st_simps)
  note ud = rt_quietD [OF u]
  have pu: "prio_of ?u p = prio_of st p" by (simp add: st_simps)
  obtain s where s: "enqueue_rt_entity p f ?u = Some s" "rt_wf s"
    "\<And>d x. rt_linked s d x \<longleftrightarrow> rt_linked ?u d x \<or> (d = c \<and> x = p)"
    "tasks s = (tasks ?u)(p := (tasks ?u p)\<lparr>p_rt_on_list := True, p_rt_on_rq := True\<rparr>)"
    "rt_queue (rtq s c) = rt_ins (has_flag f ENQUEUE_HEAD) (nat (prio_of ?u p)) p (rt_queue (rtq ?u c))"
    "\<And>d. rq_curr (rqs s d) = rq_curr (rqs ?u d)" "\<And>d. d \<noteq> c \<Longrightarrow> rt_queue (rtq s d) = rt_queue (rtq ?u d)"
    using enqueue_rt_entity_wf [OF rt_quiet_wf [OF u wf] iffD2 [OF ud(5) r] f] by blast
  define st' where "st' = (if \<not> task_current s c p \<and> p_nr_cpus_allowed (tasks s p) > 1 then enqueue_pushable_task c p s else s)"
  have q: "rt_quiet s st'" using pushable_quiet by (simp add: st'_def)
  note qd = rt_quietD [OF q]
  have cpu: "p_cpu (tasks st p) = c" using r by (simp add: rt_ready_def)
  have same: "rt_same_tasks ?u s x" if "x \<noteq> p" for x using that by (simp add: s(4) rt_same_tasks_def)
  show thesis
  proof (rule that [of st'])
    show "enqueue_task_rt c p f st = Some st'"
      using s(1) by (simp add: enqueue_task_rt_def Let_def st'_def)
    show "rt_wf st'" by (rule rt_quiet_wf [OF q s(2)])
    show "rt_linked st' d x \<longleftrightarrow> rt_linked st d x \<or> (d = c \<and> x = p)" for d x by (simp only: qd(2) s(3) ud(2))
    show "rt_queue (rtq st' c) = rt_ins (has_flag f ENQUEUE_HEAD) (nat (prio_of st p)) p (rt_queue (rtq st c))"
      by (simp only: qd(1) s(5) ud(1) pu)
    show "rt_queue (rtq st' d) = rt_queue (rtq st d)" if "d \<noteq> c" for d by (simp only: qd(1) s(7) [OF that] ud(1))
    show "rt_same_tasks st st' x" if "x \<noteq> p" for x
      using qd(4) [of x] same [OF that] ud(4) [of x] by (simp add: rt_same_tasks_def)
    show "prio_of st' p = prio_of st p" "p_cpu (tasks st' p) = c"
      using qd(4) [of p] cpu by (simp_all add: rt_same_tasks_def s(4) st_simps)
    show "rq_curr (rqs st' d) = rq_curr (rqs st d)" for d by (simp only: qd(3) s(6) ud(3))
  qed
qed

lemma dequeue_task_rt_spec:
  assumes wf: "rt_wf st" and l: "rt_linked st c p" and f: "move_entity f"
  obtains st' where "dequeue_task_rt c' p f st = Some st'" "rt_wf st'"
    "\<And>d x. rt_linked st' d x \<longleftrightarrow> rt_linked st d x \<and> x \<noteq> p" "rt_ready st' c p"
    "\<And>d. rt_queue (rtq st' d) = qs_del p (rt_queue (rtq st d))"
    "\<And>x. x \<noteq> p \<Longrightarrow> rt_same_tasks st st' x" "prio_of st' p = prio_of st p"
    "\<And>d. rq_curr (rqs st' d) = rq_curr (rqs st d)"
proof -
  obtain u where u: "update_curr_rt c' st = Some u" "rt_quiet st u" using update_curr_rt_quiet [OF wf] by blast
  note ud = rt_quietD [OF u(2)]
  have wfu: "rt_wf u" by (rule rt_quiet_wf [OF u(2) wf])
  have lu: "rt_linked u c p" using l ud(2) by simp
  obtain s where s: "dequeue_rt_entity p f u = Some s" "rt_wf s"
    "\<And>d x. rt_linked s d x \<longleftrightarrow> rt_linked u d x \<and> x \<noteq> p"
    "tasks s = (tasks u)(p := (tasks u p)\<lparr>p_rt_on_list := False, p_rt_on_rq := False\<rparr>)"
    "\<And>d. rt_queue (rtq s d) = qs_del p (rt_queue (rtq u d))" "\<And>d. rq_curr (rqs s d) = rq_curr (rqs u d)"
    using dequeue_rt_entity_wf [OF wfu lu f] by blast
  define st' where "st' = dequeue_pushable_task c' p s"
  have q: "rt_quiet s st'" using pushable_quiet by (simp add: st'_def)
  note qd = rt_quietD [OF q] and on = rt_linkedD [OF wfu lu]
  have same: "rt_same_tasks u s x" if "x \<noteq> p" for x using that by (simp add: s(4) rt_same_tasks_def)
  show thesis
  proof (rule that [of st'])
    show "dequeue_task_rt c' p f st = Some st'" by (simp add: dequeue_task_rt_def u(1) s(1) st'_def)
    show "rt_wf st'" by (rule rt_quiet_wf [OF q s(2)])
    show "rt_linked st' d x \<longleftrightarrow> rt_linked st d x \<and> x \<noteq> p" for d x by (simp only: qd(2) s(3) ud(2))
    show "rt_ready st' c p" unfolding qd(5) using on by (simp add: rt_ready_def s(4))
    show "rt_queue (rtq st' d) = qs_del p (rt_queue (rtq st d))" for d by (simp only: qd(1) s(5) ud(1))
    show "rt_same_tasks st st' x" if "x \<noteq> p" for x
      using qd(4) [of x] same [OF that] ud(4) [of x] by (simp add: rt_same_tasks_def)
    show "prio_of st' p = prio_of st p" using qd(4) [of p] ud(4) [of p] by (simp add: rt_same_tasks_def s(4))
    show "rq_curr (rqs st' d) = rq_curr (rqs st d)" for d by (simp only: qd(3) s(6) ud(3))
  qed
qed

interpretation rt_class: class_queue enqueue_task_rt dequeue_task_rt rt_linked rt_ready move_entity rt_wf
proof (unfold_locales, goal_cases)
  case (1 st c p f)
  then show ?case using enqueue_task_rt_spec [OF 1] by metis
next
  case (2 st c p f st')
  obtain s where "enqueue_task_rt c p f st = Some s" "rt_wf s"
    using enqueue_task_rt_spec [OF 2(1-3)] by metis
  then show ?case using 2(4) by simp
next
  case (3 st c p f st' d x)
  obtain s where "enqueue_task_rt c p f st = Some s" "rt_linked s d x \<longleftrightarrow> rt_linked st d x \<or> (d = c \<and> x = p)"
    using enqueue_task_rt_spec [OF 3(1-3)] by metis
  then show ?case using 3(4) by simp
next
  case (4 st c p f st' x d)
  obtain s where "enqueue_task_rt c p f st = Some s" "rt_same_tasks st s x"
    using enqueue_task_rt_spec [OF 4(1-3)] 4(5) by metis
  with 4(4) show ?case by (simp add: rt_ready_def rt_same_tasks_def)
next
  case (5 st c p f)
  then show ?case using dequeue_task_rt_spec [OF 5, of c] by metis
next
  case (6 st c p f st')
  obtain s where "dequeue_task_rt c p f st = Some s" "rt_wf s"
    using dequeue_task_rt_spec [OF 6(1-3), of c] by metis
  then show ?case using 6(4) by simp
next
  case (7 st c p f st' d x)
  obtain s where "dequeue_task_rt c p f st = Some s" "rt_linked s d x \<longleftrightarrow> rt_linked st d x \<and> x \<noteq> p"
    using dequeue_task_rt_spec [OF 7(1-3), of c] by metis
  then show ?case using 7(4) by simp
next
  case (8 st c p f st')
  obtain s where "dequeue_task_rt c p f st = Some s" "rt_ready s c p"
    using dequeue_task_rt_spec [OF 8(1-3), of c] by metis
  then show ?case using 8(4) by simp
next
  case (9 st c p d)
  then show ?case by (rule rt_ready_unlinked)
next
  case (10 st c p d)
  then show ?case using rt_linkedD(1) by blast
qed

end
