(* ===== verification/Sched_Dispatch.thy ===== *)
theory Sched_Dispatch
  imports Sched_TS Sched_RT_Inv
begin

text \<open>
  How \<open>core.c\<close> reaches the scheduling classes, and the balancing half of \<open>rt.c\<close> that calls
  back into \<open>core.c\<close>. The stop, deadline, fair and idle classes, \<open>cpupri_find\<close>, the
  scheduling domains, cpusets, NUMA nodes, signals and workqueues are code outside the repository: they are
  fields of \<open>kernel_env\<close>, an argument of every definition that reaches them. An optional
  hook of a class (\<open>NULL\<close> in its table) is an option. \<open>double_lock_balance\<close> may drop the
  lock of the run queue; what happens then is the environment's, so it is a field too: it says
  whether the lock was dropped and gives the state afterwards. Run-queue statistics of
  \<open>schedstat\<close> and \<open>sched_info\<close> are not state. A CPU mask is an ascending list of CPUs.
\<close>

datatype pick_result = Picked tid | No_task | Retry_task

record class_ops =
  co_enqueue :: "cpu \<Rightarrow> tid \<Rightarrow> u32 \<Rightarrow> sched_state \<Rightarrow> sched_state option"
  co_dequeue :: "cpu \<Rightarrow> tid \<Rightarrow> u32 \<Rightarrow> sched_state \<Rightarrow> sched_state option"
  co_yield :: "cpu \<Rightarrow> sched_state \<Rightarrow> sched_state option"
  co_check_preempt :: "cpu \<Rightarrow> tid \<Rightarrow> u32 \<Rightarrow> sched_state \<Rightarrow> sched_state option"
  co_pick :: "cpu \<Rightarrow> tid \<Rightarrow> sched_state \<Rightarrow> (pick_result \<times> sched_state) option"
  co_put_prev :: "cpu \<Rightarrow> tid \<Rightarrow> sched_state \<Rightarrow> sched_state option"
  co_select :: "tid \<Rightarrow> cpu \<Rightarrow> u32 \<Rightarrow> u32 \<Rightarrow> sched_state \<Rightarrow> cpu"
  co_migrate :: "(tid \<Rightarrow> cpu \<Rightarrow> sched_state \<Rightarrow> sched_state) option"
  co_task_woken :: "(cpu \<Rightarrow> tid \<Rightarrow> sched_state \<Rightarrow> sched_state option) option"
  co_set_cpus_allowed :: "tid \<Rightarrow> cpu list \<Rightarrow> sched_state \<Rightarrow> sched_state"
  co_set_curr :: "cpu \<Rightarrow> sched_state \<Rightarrow> sched_state option"
  co_tick :: "cpu \<Rightarrow> tid \<Rightarrow> sched_state \<Rightarrow> sched_state option"
  co_task_fork :: "(tid \<Rightarrow> sched_state \<Rightarrow> sched_state) option"
  co_switched_from :: "(cpu \<Rightarrow> tid \<Rightarrow> sched_state \<Rightarrow> sched_state) option"
  co_switched_to :: "cpu \<Rightarrow> tid \<Rightarrow> sched_state \<Rightarrow> sched_state"
  co_prio_changed :: "cpu \<Rightarrow> tid \<Rightarrow> int \<Rightarrow> sched_state \<Rightarrow> sched_state"
  co_rr_interval :: "(cpu \<Rightarrow> tid \<Rightarrow> sched_state \<Rightarrow> u32) option"

record kernel_env =
  ext_class :: "sched_class \<Rightarrow> class_ops"
  env_cpupri_find :: "tid \<Rightarrow> sched_state \<Rightarrow> cpu list option"
  env_domains :: "cpu \<Rightarrow> (bool \<times> cpu list) list"
  env_lock_balance :: "cpu \<Rightarrow> cpu \<Rightarrow> sched_state \<Rightarrow> bool \<times> sched_state"
  env_node_mask :: "cpu \<Rightarrow> cpu list option"
  env_cpuset_fallback :: "tid \<Rightarrow> sched_state \<Rightarrow> sched_state"
  env_share_cache :: "cpu \<Rightarrow> cpu \<Rightarrow> bool"
  env_possible_mask :: "cpu list"
  env_reweight :: "tid \<Rightarrow> int \<Rightarrow> sched_state \<Rightarrow> sched_state"
  env_signal_pending :: "tid \<Rightarrow> sched_state \<Rightarrow> bool"
  env_worker_sleeping :: "tid \<Rightarrow> sched_state \<Rightarrow> tid option \<times> sched_state"
  env_worker_waking :: "tid \<Rightarrow> cpu \<Rightarrow> sched_state \<Rightarrow> sched_state"

text \<open>
  A small environment for examples: the other classes keep no queue, the idle class picks the
  idle task, no CPU has a domain, locks are never dropped.
\<close>

definition blank_class :: class_ops where
  "blank_class = \<lparr>co_enqueue = (\<lambda>c p fl st. Some st), co_dequeue = (\<lambda>c p fl st. Some st), co_yield = (\<lambda>c st. Some st),
     co_check_preempt = (\<lambda>c p fl st. Some st), co_pick = (\<lambda>c prev st. Some (No_task, st)),
     co_put_prev = (\<lambda>c prev st. Some st), co_select = (\<lambda>p c sd fl st. c), co_migrate = None, co_task_woken = None,
     co_set_cpus_allowed = (\<lambda>p m st. upd_task p (\<lambda>t. t\<lparr>p_cpus_allowed := m, p_nr_cpus_allowed := int (length m)\<rparr>) st),
     co_set_curr = (\<lambda>c st. Some st), co_tick = (\<lambda>c p st. Some st), co_task_fork = None, co_switched_from = None,
     co_switched_to = (\<lambda>c p st. st), co_prio_changed = (\<lambda>c p old st. st), co_rr_interval = None\<rparr>"

definition blank_env :: kernel_env where
  "blank_env = \<lparr>ext_class = (\<lambda>cl. if cl = Idle_class then blank_class\<lparr>co_pick := (\<lambda>c prev st. Some (Picked (rq_idle (rqs st c)), st))\<rparr> else blank_class),
     env_cpupri_find = (\<lambda>p st. None), env_domains = (\<lambda>c. []), env_lock_balance = (\<lambda>c d st. (False, st)),
     env_node_mask = (\<lambda>c. None), env_cpuset_fallback = (\<lambda>p st. st), env_share_cache = (\<lambda>c d. True),
     env_possible_mask = [0, 1], env_reweight = (\<lambda>p i st. st), env_signal_pending = (\<lambda>p st. False),
     env_worker_sleeping = (\<lambda>p st. (None, st)), env_worker_waking = (\<lambda>p c st. st)\<rparr>"

lemmas blank_env_defs = blank_class_def blank_env_def

section \<open>Queueing through the class\<close>

definition class_enqueue :: "kernel_env \<Rightarrow> sched_class \<Rightarrow> cpu \<Rightarrow> tid \<Rightarrow> u32 \<Rightarrow> sched_state \<Rightarrow> sched_state option" where
  "class_enqueue env cl = (case cl of Rt_class \<Rightarrow> enqueue_task_rt | Ts_class \<Rightarrow> enqueue_task_ts
     | _ \<Rightarrow> co_enqueue (ext_class env cl))"

definition class_dequeue :: "kernel_env \<Rightarrow> sched_class \<Rightarrow> cpu \<Rightarrow> tid \<Rightarrow> u32 \<Rightarrow> sched_state \<Rightarrow> sched_state option" where
  "class_dequeue env cl = (case cl of Rt_class \<Rightarrow> dequeue_task_rt | Ts_class \<Rightarrow> dequeue_task_ts
     | _ \<Rightarrow> co_dequeue (ext_class env cl))"

definition enqueue_task :: "kernel_env \<Rightarrow> cpu \<Rightarrow> tid \<Rightarrow> u32 \<Rightarrow> sched_state \<Rightarrow> sched_state option" where
  "enqueue_task env c p flags st =
    (let st = (if \<not> has_flag flags ENQUEUE_NOCLOCK then update_rq_clock c st else st)
     in class_enqueue env (p_class (tasks st p)) c p flags st)"

definition dequeue_task :: "kernel_env \<Rightarrow> cpu \<Rightarrow> tid \<Rightarrow> u32 \<Rightarrow> sched_state \<Rightarrow> sched_state option" where
  "dequeue_task env c p flags st =
    (let st = (if \<not> has_flag flags DEQUEUE_NOCLOCK then update_rq_clock c st else st)
     in class_dequeue env (p_class (tasks st p)) c p flags st)"

definition activate_task :: "kernel_env \<Rightarrow> cpu \<Rightarrow> tid \<Rightarrow> u32 \<Rightarrow> sched_state \<Rightarrow> sched_state option" where
  "activate_task env c p flags st =
    enqueue_task env c p flags
      (if task_contributes_to_load (tasks st p) then upd_rq c (\<lambda>r. r\<lparr>rq_nr_unint := rq_nr_unint r - 1\<rparr>) st else st)"

definition deactivate_task :: "kernel_env \<Rightarrow> cpu \<Rightarrow> tid \<Rightarrow> u32 \<Rightarrow> sched_state \<Rightarrow> sched_state option" where
  "deactivate_task env c p flags st =
    dequeue_task env c p flags
      (if task_contributes_to_load (tasks st p) then upd_rq c (\<lambda>r. r\<lparr>rq_nr_unint := rq_nr_unint r + 1\<rparr>) st else st)"

text \<open>\<open>set_task_cpu\<close>; neither rt nor ts has a \<open>migrate_task_rq\<close> hook.\<close>

definition class_migrate :: "kernel_env \<Rightarrow> sched_class \<Rightarrow> (tid \<Rightarrow> cpu \<Rightarrow> sched_state \<Rightarrow> sched_state) option" where
  "class_migrate env cl = (case cl of Rt_class \<Rightarrow> None | Ts_class \<Rightarrow> None | _ \<Rightarrow> co_migrate (ext_class env cl))"

definition set_task_cpu :: "kernel_env \<Rightarrow> tid \<Rightarrow> cpu \<Rightarrow> sched_state \<Rightarrow> sched_state" where
  "set_task_cpu env p new_cpu st =
    (let st = (if p_cpu (tasks st p) \<noteq> new_cpu then
                 let st = (case class_migrate env (p_class (tasks st p)) of Some f \<Rightarrow> f p new_cpu st | None \<Rightarrow> st)
                 in upd_task p (\<lambda>t. t\<lparr>p_nr_migrations := p_nr_migrations t + 1\<rparr>) st
               else st)
     in set_task_cpu_raw p new_cpu st)"

text \<open>The class of the stand-in task of \<open>migrate_tasks\<close> has this hook only.\<close>

definition put_prev_task_fake :: "cpu \<Rightarrow> tid \<Rightarrow> sched_state \<Rightarrow> sched_state" where
  "put_prev_task_fake c prev st = st"

definition put_prev_task :: "kernel_env \<Rightarrow> cpu \<Rightarrow> tid \<Rightarrow> sched_state \<Rightarrow> sched_state option" where
  "put_prev_task env c prev st =
    (case p_class (tasks st prev) of Rt_class \<Rightarrow> put_prev_task_rt c prev st
     | Ts_class \<Rightarrow> Some (put_prev_task_ts c prev st)
     | Fake_class \<Rightarrow> Some (put_prev_task_fake c prev st)
     | cl \<Rightarrow> co_put_prev (ext_class env cl) c prev st)"

definition set_curr_task :: "kernel_env \<Rightarrow> cpu \<Rightarrow> tid \<Rightarrow> sched_state \<Rightarrow> sched_state option" where
  "set_curr_task env c p st =
    (case p_class (tasks st p) of Rt_class \<Rightarrow> Some (set_curr_task_rt c st)
     | Ts_class \<Rightarrow> Some (set_curr_task_ts c st)
     | cl \<Rightarrow> co_set_curr (ext_class env cl) c st)"

section \<open>Placing and preempting real-time tasks\<close>

text \<open>The walk of \<open>find_lowest_rq\<close> over the domains of a CPU; \<open>this\<close> is -1 when this CPU is not a candidate.\<close>

fun lowest_in_domains :: "int \<Rightarrow> cpu list \<Rightarrow> (bool \<times> cpu list) list \<Rightarrow> int option" where
  "lowest_in_domains this cmask [] = None"
| "lowest_in_domains this cmask ((affine, span) # sds) =
    (if affine then
       if this \<noteq> -1 \<and> nat this \<in> set span then Some this
       else case filter (\<lambda>c. c \<in> set span) cmask of
              best # _ \<Rightarrow> Some (int best)
            | [] \<Rightarrow> lowest_in_domains this cmask sds
     else lowest_in_domains this cmask sds)"

definition find_lowest_rq :: "kernel_env \<Rightarrow> tid \<Rightarrow> sched_state \<Rightarrow> int" where
  "find_lowest_rq env p st =
    (if p_nr_cpus_allowed (tasks st p) = 1 then -1
     else case env_cpupri_find env p st of None \<Rightarrow> -1
     | Some cmask \<Rightarrow>
         let cpu = p_cpu (tasks st p) in
         if cpu \<in> set cmask then int cpu
         else
           let this = (if this_cpu st \<in> set cmask then int (this_cpu st) else -1) in
           (case lowest_in_domains this cmask (env_domains env cpu) of
              Some t \<Rightarrow> t
            | None \<Rightarrow> if this \<noteq> -1 then this else (case cmask of c # _ \<Rightarrow> int c | [] \<Rightarrow> -1)))"

definition select_task_rq_rt :: "kernel_env \<Rightarrow> tid \<Rightarrow> cpu \<Rightarrow> u32 \<Rightarrow> u32 \<Rightarrow> sched_state \<Rightarrow> cpu" where
  "select_task_rq_rt env p cpu sd_flag flags st =
    (if sd_flag \<noteq> SD_BALANCE_WAKE \<and> sd_flag \<noteq> SD_BALANCE_FORK then cpu
     else
       let curr = curr_of st cpu in
       if rt_task (tasks st curr) \<and> (p_nr_cpus_allowed (tasks st curr) < 2 \<or> prio_of st curr \<le> prio_of st p)
       then let target = find_lowest_rq env p st in
            if target \<noteq> -1 \<and> prio_of st p < rt_highest_curr (rtq st (nat target)) then nat target else cpu
       else cpu)"

definition check_preempt_equal_prio :: "kernel_env \<Rightarrow> cpu \<Rightarrow> tid \<Rightarrow> sched_state \<Rightarrow> sched_state option" where
  "check_preempt_equal_prio env c p st =
    (if p_nr_cpus_allowed (tasks st (curr_of st c)) = 1 \<or> env_cpupri_find env (curr_of st c) st = None then Some st
     else if p_nr_cpus_allowed (tasks st p) \<noteq> 1 \<and> env_cpupri_find env p st \<noteq> None then Some st
     else do { st \<leftarrow> requeue_task_rt c p True st; Some (resched_curr c st) })"

definition check_preempt_curr_rt :: "kernel_env \<Rightarrow> cpu \<Rightarrow> tid \<Rightarrow> u32 \<Rightarrow> sched_state \<Rightarrow> sched_state option" where
  "check_preempt_curr_rt env c p flags st =
    (if prio_of st p < prio_of st (curr_of st c) then Some (resched_curr c st)
     else if prio_of st p = prio_of st (curr_of st c) \<and> \<not> p_need_resched (tasks st (curr_of st c))
       then check_preempt_equal_prio env c p st
     else Some st)"

section \<open>Pushing real-time tasks\<close>

definition pick_rt_task :: "tid \<Rightarrow> cpu \<Rightarrow> sched_state \<Rightarrow> bool" where
  "pick_rt_task p cpu st \<longleftrightarrow> \<not> task_running st p \<and> cpu \<in> set (p_cpus_allowed (tasks st p))"

definition pick_highest_pushable_task :: "cpu \<Rightarrow> cpu \<Rightarrow> sched_state \<Rightarrow> tid option" where
  "pick_highest_pushable_task c cpu st =
    (if \<not> has_pushable_tasks c st then None
     else find (\<lambda>p. pick_rt_task p cpu st) (map snd (rt_pushable (rtq st c))))"

text \<open>
  The retry loop of \<open>find_lock_lowest_rq\<close> (\<open>RT_MAX_TRIES\<close> is 3): the CPU found, or none.
\<close>

fun find_lock_lowest_rq :: "nat \<Rightarrow> kernel_env \<Rightarrow> tid \<Rightarrow> cpu \<Rightarrow> sched_state \<Rightarrow> cpu option \<times> sched_state" where
  "find_lock_lowest_rq 0 env p c st = (None, st)"
| "find_lock_lowest_rq (Suc tries) env p c st =
    (let cpu = find_lowest_rq env p st in
     if cpu = -1 \<or> cpu = int c then (None, st)
     else if rt_highest_curr (rtq st (nat cpu)) \<le> prio_of st p then (None, st)
     else
       let (dropped, st) = env_lock_balance env c (nat cpu) st in
       if dropped \<and> (p_cpu (tasks st p) \<noteq> c \<or> nat cpu \<notin> set (p_cpus_allowed (tasks st p)) \<or>
            task_running st p \<or> \<not> rt_task (tasks st p) \<or> \<not> task_on_rq_queued st p)
       then (None, st)
       else if rt_highest_curr (rtq st (nat cpu)) > prio_of st p then (Some (nat cpu), st)
       else find_lock_lowest_rq tries env p c st)"

definition pick_next_pushable_task :: "cpu \<Rightarrow> sched_state \<Rightarrow> tid option option" where
  "pick_next_pushable_task c st =
    (case rt_pushable (rtq st c) of [] \<Rightarrow> Some None
     | (k, p) # _ \<Rightarrow>
         if p_cpu (tasks st p) \<noteq> c \<or> task_current st c p \<or> p_nr_cpus_allowed (tasks st p) \<le> 1 \<or>
            \<not> task_on_rq_queued st p \<or> \<not> rt_task (tasks st p)
         then None else Some (Some p))"

text \<open>
  \<open>push_rt_task\<close> from its \<open>retry\<close> label on. Nothing bounds the number of retries in the code,
  so the loop is a partial function: not returning is \<open>None\<close>, like a fault.
\<close>

partial_function (option) push_retry ::
  "kernel_env \<Rightarrow> cpu \<Rightarrow> tid \<Rightarrow> sched_state \<Rightarrow> (bool \<times> sched_state) option" where
  "push_retry env c next_task st =
    (if next_task = curr_of st c then Some (False, st)
     else if prio_of st next_task < prio_of st (curr_of st c) then Some (False, resched_curr c st)
     else
       let r = find_lock_lowest_rq 3 env next_task c st; st = snd r in
       case fst r of
         None \<Rightarrow> Option.bind (pick_next_pushable_task c st) (\<lambda>task.
           case task of None \<Rightarrow> Some (False, st)
           | Some t \<Rightarrow> if t = next_task then Some (False, st) else push_retry env c t st)
       | Some d \<Rightarrow> do {
           st \<leftarrow> deactivate_task env c next_task 0 st;
           st \<leftarrow> activate_task env d next_task 0 (set_task_cpu env next_task d st);
           Some (True, resched_curr d st)
         })"

definition push_rt_task :: "kernel_env \<Rightarrow> cpu \<Rightarrow> sched_state \<Rightarrow> (bool \<times> sched_state) option" where
  "push_rt_task env c st =
    (if \<not> rt_overloaded (rtq st c) then Some (False, st)
     else do {
       next_task \<leftarrow> pick_next_pushable_task c st;
       case next_task of None \<Rightarrow> Some (False, st) | Some p \<Rightarrow> push_retry env c p st
     })"

partial_function (option) push_rt_tasks :: "kernel_env \<Rightarrow> cpu \<Rightarrow> sched_state \<Rightarrow> sched_state option" where
  "push_rt_tasks env c st =
    Option.bind (push_rt_task env c st) (\<lambda>r. if fst r then push_rt_tasks env c (snd r) else Some (snd r))"

section \<open>The push IPI\<close>

definition cpumask_next :: "int \<Rightarrow> cpu list \<Rightarrow> nat \<Rightarrow> int" where
  "cpumask_next n cmask limit = (case filter (\<lambda>c. int c > n) cmask of [] \<Rightarrow> int limit | c # _ \<Rightarrow> int c)"

function rto_next_cpu :: "nat \<Rightarrow> root_domain \<Rightarrow> int \<times> root_domain" where
  "rto_next_cpu ids d =
    (let cpu = cpumask_next (rd_rto_cpu d) (rd_rto_mask d) ids in
     if cpu < int ids then (cpu, d\<lparr>rd_rto_cpu := cpu\<rparr>)
     else if rd_rto_loop d = rd_rto_loop_next d then (-1, d\<lparr>rd_rto_cpu := -1\<rparr>)
     else rto_next_cpu ids (d\<lparr>rd_rto_cpu := -1, rd_rto_loop := rd_rto_loop_next d\<rparr>))"
  by pat_completeness auto
termination
  by (relation "measure (\<lambda>(ids, d). if rd_rto_loop d = rd_rto_loop_next d then 0 else (1::nat))") auto

declare rto_next_cpu.simps [simp del]

text \<open>\<open>tell_cpu_to_push\<close>: the state, and the CPU the push work is queued on.\<close>

definition tell_cpu_to_push :: "sched_state \<Rightarrow> cpu option \<times> sched_state" where
  "tell_cpu_to_push st =
    (let d = (rd st)\<lparr>rd_rto_loop_next := rd_rto_loop_next (rd st) + 1\<rparr> in
     if rd_rto_loop_start d \<noteq> 0 then (None, st\<lparr>rd := d\<rparr>)
     else let (cpu, d) = (if rd_rto_cpu d < 0 then rto_next_cpu (nr_cpus st) d else (-1, d))
          in (if cpu \<ge> 0 then Some (nat cpu) else None, st\<lparr>rd := d\<lparr>rd_rto_loop_start := 0\<rparr>\<rparr>))"

definition rto_push_irq_work_func :: "kernel_env \<Rightarrow> sched_state \<Rightarrow> (cpu option \<times> sched_state) option" where
  "rto_push_irq_work_func env st = do {
     st \<leftarrow> (if has_pushable_tasks (this_cpu st) st then push_rt_tasks env (this_cpu st) st else Some st);
     let (cpu, d) = rto_next_cpu (nr_cpus st) (rd st);
     Some (if cpu < 0 then None else Some (nat cpu), st\<lparr>rd := d\<rparr>)
   }"

section \<open>Pulling real-time tasks\<close>

definition pull_from :: "kernel_env \<Rightarrow> cpu \<Rightarrow> cpu \<Rightarrow> bool \<times> sched_state \<Rightarrow> (bool \<times> sched_state) option" where
  "pull_from env this cpu = (\<lambda>(resched, st).
    if this = cpu then Some (resched, st)
    else if rt_highest_next (rtq st cpu) \<ge> rt_highest_curr (rtq st this) then Some (resched, st)
    else
      let st = snd (env_lock_balance env this cpu st) in
      case pick_highest_pushable_task cpu this st of
        None \<Rightarrow> Some (resched, st)
      | Some p \<Rightarrow>
          if prio_of st p < rt_highest_curr (rtq st this) \<and> \<not> prio_of st p < prio_of st (curr_of st cpu)
          then do {
            st \<leftarrow> deactivate_task env cpu p 0 st;
            st \<leftarrow> activate_task env this p 0 (set_task_cpu env p this st);
            Some (True, st)
          }
          else Some (resched, st))"

fun pull_loop :: "kernel_env \<Rightarrow> cpu \<Rightarrow> cpu list \<Rightarrow> bool \<times> sched_state \<Rightarrow> (bool \<times> sched_state) option" where
  "pull_loop env this [] s = Some s"
| "pull_loop env this (cpu # cpus) s = do { s \<leftarrow> pull_from env this cpu s; pull_loop env this cpus s }"

text \<open>The CPU the push work is queued on (\<open>irq_work_queue_on\<close>) is recorded in \<open>ipis\<close>.\<close>

definition pull_rt_task :: "kernel_env \<Rightarrow> cpu \<Rightarrow> sched_state \<Rightarrow> sched_state option" where
  "pull_rt_task env this st =
    (if rd_rto_count (rd st) = 0 then Some st
     else if rd_rto_count (rd st) = 1 \<and> this \<in> set (rd_rto_mask (rd st)) then Some st
     else if feat_rt_push_ipi st then
       (case tell_cpu_to_push st of (None, st) \<Rightarrow> Some st
        | (Some cpu, st) \<Rightarrow> Some (st\<lparr>ipis := ipis st @ [cpu]\<rparr>))
     else do {
       (resched, st) \<leftarrow> pull_loop env this (rd_rto_mask (rd st)) (False, st);
       Some (if resched then resched_curr this st else st)
     })"

section \<open>The pick and the remaining hooks\<close>

definition pick_next_task_rt :: "kernel_env \<Rightarrow> cpu \<Rightarrow> tid \<Rightarrow> sched_state \<Rightarrow> (pick_result \<times> sched_state) option" where
  "pick_next_task_rt env c prev st = do {
     (retry, st) \<leftarrow> (if need_pull_rt_task c prev st then do {
         st \<leftarrow> pull_rt_task env c st;
         Some ((case rq_stop (rqs st c) of Some s \<Rightarrow> task_on_rq_queued st s | None \<Rightarrow> False) \<or> rq_dl_nr (rqs st c) \<noteq> 0, st)
       } else Some (False, st));
     if retry then Some (Retry_task, st)
     else do {
       st \<leftarrow> (if p_class (tasks st prev) = Rt_class then update_curr_rt c st else Some st);
       if \<not> rt_queued (rtq st c) then Some (No_task, st)
       else do {
         st \<leftarrow> put_prev_task env c prev st;
         (p, st) \<leftarrow> pick_next_task_rt_raw c st;
         Some (Picked p, rt_queue_push_tasks c (dequeue_pushable_task c p st))
       }
     }
   }"

definition task_woken_rt :: "kernel_env \<Rightarrow> cpu \<Rightarrow> tid \<Rightarrow> sched_state \<Rightarrow> sched_state option" where
  "task_woken_rt env c p st =
    (let curr = tasks st (curr_of st c) in
     if \<not> task_running st p \<and> \<not> p_need_resched curr \<and> p_nr_cpus_allowed (tasks st p) > 1 \<and>
        (dl_task curr \<or> rt_task curr) \<and> (p_nr_cpus_allowed curr < 2 \<or> p_prio curr \<le> prio_of st p)
     then push_rt_tasks env c st else Some st)"

definition rq_online_rt :: "cpu \<Rightarrow> sched_state \<Rightarrow> sched_state" where
  "rq_online_rt c st =
    (let st = (if rt_overloaded (rtq st c) then rt_set_overload c st else st);
         st = enable_runtime c st
     in cpupri_set c (rt_highest_curr (rtq st c)) st)"

text \<open>\<open>CPUPRI_INVALID\<close> is -1.\<close>

definition rq_offline_rt :: "cpu \<Rightarrow> sched_state \<Rightarrow> sched_state option" where
  "rq_offline_rt c st = do {
     st \<leftarrow> disable_runtime c (if rt_overloaded (rtq st c) then rt_clear_overload c st else st);
     Some (cpupri_set c (-1) st)
   }"

end
