(* ===== verification/Sched_Core.thy ===== *)
theory Sched_Core
  imports Sched_Dispatch
begin

text \<open>
  The core scheduler (\<open>kernel/sched/core.c\<close>): priorities and load weights, preemption
  checks, migration and CPU affinity, wake-ups, fork, the tick, the choice of the next task and
  \<open>__schedule\<close>. A function that returns an \<open>int\<close> in C returns the number and the state here,
  errors as negative numbers. Waiting in \<open>try_to_wake_up\<close> for a task that is still on a CPU is
  \<open>None\<close>: within one step nobody clears the flag. \<open>stop_one_cpu\<close> runs its function at once,
  with the stopper's CPU as the current one.
\<close>

section \<open>Load weights and priorities\<close>

definition sched_prio_to_weight :: "u64 list" where
  "sched_prio_to_weight = [88761, 71755, 56483, 46273, 36291, 29154, 23254, 18705, 14949, 11916,
     9548, 7620, 6100, 4904, 3906, 3121, 2501, 1991, 1586, 1277, 1024, 820, 655, 526, 423, 335, 272,
     215, 172, 137, 110, 87, 70, 56, 45, 36, 29, 23, 18, 15]"

definition sched_prio_to_wmult :: "u32 list" where
  "sched_prio_to_wmult = [48388, 59856, 76040, 92818, 118348, 147320, 184698, 229616, 287308, 360437,
     449829, 563644, 704093, 875809, 1099582, 1376151, 1717300, 2157191, 2708050, 3363326, 4194304,
     5237765, 6557202, 8165337, 10153587, 12820798, 15790321, 19976592, 24970740, 31350126, 39045157,
     49367440, 61356676, 76695844, 95443717, 119304647, 148102320, 186737708, 238609294, 286331153]"

text \<open>64-bit: \<open>scale_load\<close> shifts by \<open>SCHED_FIXEDPOINT_SHIFT\<close>.\<close>

definition scale_load :: "u64 \<Rightarrow> u64" where "scale_load w = push_bit 10 w"

definition set_load_weight :: "kernel_env \<Rightarrow> tid \<Rightarrow> bool \<Rightarrow> sched_state \<Rightarrow> sched_state option" where
  "set_load_weight env p update_load st =
    (let prio = p_static_prio (tasks st p) - MAX_RT_PRIO in
     if idle_policy (p_policy (tasks st p))
     then Some (upd_task p (\<lambda>t. t\<lparr>p_weight := scale_load 3, p_inv_weight := 1431655765\<rparr>) st)
     else if update_load \<and> p_class (tasks st p) = Fair_class then Some (env_reweight env p prio st)
     else do {
       w \<leftarrow> aread sched_prio_to_weight prio;
       m \<leftarrow> aread sched_prio_to_wmult prio;
       Some (upd_task p (\<lambda>t. t\<lparr>p_weight := scale_load w, p_inv_weight := m\<rparr>) st)
     })"

definition normal_prio_raw :: "task_struct \<Rightarrow> int" where
  "normal_prio_raw t = p_static_prio t"

definition normal_prio :: "task_struct \<Rightarrow> int" where
  "normal_prio t =
    (if task_has_dl_policy t then MAX_DL_PRIO - 1
     else if task_has_rt_policy t then MAX_RT_PRIO - 1 - uint (p_rt_priority t)
     else normal_prio_raw t)"

text \<open>\<open>effective_prio\<close> stores the normal priority and returns the priority to use.\<close>

definition effective_prio :: "tid \<Rightarrow> sched_state \<Rightarrow> int \<times> sched_state" where
  "effective_prio p st =
    (let st = upd_task p (\<lambda>t. t\<lparr>p_normal_prio := normal_prio t\<rparr>) st in
     (if \<not> rt_prio (prio_of st p) then p_normal_prio (tasks st p) else prio_of st p, st))"

definition task_curr :: "sched_state \<Rightarrow> tid \<Rightarrow> bool" where
  "task_curr st p \<longleftrightarrow> curr_of st (p_cpu (tasks st p)) = p"

section \<open>Class changes and preemption\<close>

definition class_switched_from :: "kernel_env \<Rightarrow> sched_class \<Rightarrow> (cpu \<Rightarrow> tid \<Rightarrow> sched_state \<Rightarrow> sched_state) option" where
  "class_switched_from env cl = (case cl of Rt_class \<Rightarrow> Some switched_from_rt | Ts_class \<Rightarrow> None
     | _ \<Rightarrow> co_switched_from (ext_class env cl))"

definition class_switched_to :: "kernel_env \<Rightarrow> sched_class \<Rightarrow> cpu \<Rightarrow> tid \<Rightarrow> sched_state \<Rightarrow> sched_state" where
  "class_switched_to env cl = (case cl of Rt_class \<Rightarrow> switched_to_rt | Ts_class \<Rightarrow> switched_to_ts
     | _ \<Rightarrow> co_switched_to (ext_class env cl))"

definition class_prio_changed :: "kernel_env \<Rightarrow> sched_class \<Rightarrow> cpu \<Rightarrow> tid \<Rightarrow> int \<Rightarrow> sched_state \<Rightarrow> sched_state" where
  "class_prio_changed env cl = (case cl of Rt_class \<Rightarrow> prio_changed_rt | Ts_class \<Rightarrow> prio_changed_ts
     | _ \<Rightarrow> co_prio_changed (ext_class env cl))"

definition check_class_changed :: "kernel_env \<Rightarrow> cpu \<Rightarrow> tid \<Rightarrow> sched_class \<Rightarrow> int \<Rightarrow> sched_state \<Rightarrow> sched_state" where
  "check_class_changed env c p prev_class oldprio st =
    (if prev_class \<noteq> p_class (tasks st p) then
       let st = (case class_switched_from env prev_class of Some f \<Rightarrow> f c p st | None \<Rightarrow> st)
       in class_switched_to env (p_class (tasks st p)) c p st
     else if oldprio \<noteq> prio_of st p \<or> dl_task (tasks st p)
       then class_prio_changed env (p_class (tasks st p)) c p oldprio st
     else st)"

definition all_classes :: "sched_class list" where
  "all_classes = [Stop_class, Dl_class, Rt_class, Ts_class, Fair_class, Idle_class]"

definition class_check_preempt :: "kernel_env \<Rightarrow> sched_class \<Rightarrow> cpu \<Rightarrow> tid \<Rightarrow> u32 \<Rightarrow> sched_state \<Rightarrow> sched_state option" where
  "class_check_preempt env cl c p flags st = (case cl of Rt_class \<Rightarrow> check_preempt_curr_rt env c p flags st
     | Ts_class \<Rightarrow> Some (check_preempt_curr_ts c p flags st)
     | _ \<Rightarrow> co_check_preempt (ext_class env cl) c p flags st)"

text \<open>The class walk of \<open>check_preempt_curr\<close>: does the class of the task come before that of current?\<close>

fun class_before :: "sched_class list \<Rightarrow> sched_class \<Rightarrow> sched_class \<Rightarrow> bool" where
  "class_before [] cur cl = False"
| "class_before (k # ks) cur cl = (if k = cur then False else if k = cl then True else class_before ks cur cl)"

definition check_preempt_curr :: "kernel_env \<Rightarrow> cpu \<Rightarrow> tid \<Rightarrow> u32 \<Rightarrow> sched_state \<Rightarrow> sched_state option" where
  "check_preempt_curr env c p flags st = do {
     st \<leftarrow> (let cur = p_class (tasks st (curr_of st c)); cl = p_class (tasks st p) in
            if cl = cur then class_check_preempt env cur c p flags st
            else Some (if class_before all_classes cur cl then resched_curr c st else st));
     Some (if task_on_rq_queued st (curr_of st c) \<and> p_need_resched (tasks st (curr_of st c))
           then rq_clock_skip_update c st else st)
   }"

section \<open>Migration and affinity\<close>

definition is_per_cpu_kthread :: "sched_state \<Rightarrow> tid \<Rightarrow> bool" where
  "is_per_cpu_kthread st p \<longleftrightarrow> has_flag (p_flags (tasks st p)) PF_KTHREAD \<and> p_nr_cpus_allowed (tasks st p) = 1"

definition is_cpu_allowed :: "sched_state \<Rightarrow> tid \<Rightarrow> cpu \<Rightarrow> bool" where
  "is_cpu_allowed st p cpu \<longleftrightarrow> cpu \<in> set (p_cpus_allowed (tasks st p)) \<and>
     (if is_per_cpu_kthread st p then cpu \<in> set (cpu_online_mask st) else cpu \<in> set (cpu_active_mask st))"

definition move_queued_task :: "kernel_env \<Rightarrow> cpu \<Rightarrow> tid \<Rightarrow> cpu \<Rightarrow> sched_state \<Rightarrow> sched_state option" where
  "move_queued_task env c p new_cpu st = do {
     st \<leftarrow> dequeue_task env c p DEQUEUE_NOCLOCK (upd_task p (\<lambda>t. t\<lparr>p_on_rq := TASK_ON_RQ_MIGRATING\<rparr>) st);
     let st = set_task_cpu env p new_cpu st;
     guard (p_cpu (tasks st p) = new_cpu);
     st \<leftarrow> enqueue_task env new_cpu p 0 st;
     check_preempt_curr env new_cpu p 0 (upd_task p (\<lambda>t. t\<lparr>p_on_rq := TASK_ON_RQ_QUEUED\<rparr>) st)
   }"

definition migrate_task_raw :: "kernel_env \<Rightarrow> cpu \<Rightarrow> tid \<Rightarrow> cpu \<Rightarrow> sched_state \<Rightarrow> sched_state option" where
  "migrate_task_raw env c p dest_cpu st =
    (if \<not> is_cpu_allowed st p dest_cpu then Some st
     else move_queued_task env c p dest_cpu (update_rq_clock c st))"

definition set_cpus_allowed_common :: "tid \<Rightarrow> cpu list \<Rightarrow> sched_state \<Rightarrow> sched_state" where
  "set_cpus_allowed_common p new_mask =
     upd_task p (\<lambda>t. t\<lparr>p_cpus_allowed := new_mask, p_nr_cpus_allowed := int (length new_mask)\<rparr>)"

definition class_set_cpus_allowed :: "kernel_env \<Rightarrow> sched_class \<Rightarrow> tid \<Rightarrow> cpu list \<Rightarrow> sched_state \<Rightarrow> sched_state" where
  "class_set_cpus_allowed env cl = (case cl of Rt_class \<Rightarrow> set_cpus_allowed_common
     | Ts_class \<Rightarrow> set_cpus_allowed_common | _ \<Rightarrow> co_set_cpus_allowed (ext_class env cl))"

definition do_set_cpus_allowed :: "kernel_env \<Rightarrow> tid \<Rightarrow> cpu list \<Rightarrow> sched_state \<Rightarrow> sched_state option" where
  "do_set_cpus_allowed env p new_mask st =
    (let c = p_cpu (tasks st p); queued = task_on_rq_queued st p; running = task_current st c p in do {
       st \<leftarrow> (if queued then dequeue_task env c p (DEQUEUE_SAVE OR DEQUEUE_NOCLOCK) st else Some st);
       st \<leftarrow> (if running then put_prev_task env c p st else Some st);
       let st = class_set_cpus_allowed env (p_class (tasks st p)) p new_mask st;
       st \<leftarrow> (if queued then enqueue_task env c p (ENQUEUE_RESTORE OR ENQUEUE_NOCLOCK) st else Some st);
       if running then set_curr_task env c p st else Some st
     })"

section \<open>Wake-ups\<close>

definition class_task_woken :: "kernel_env \<Rightarrow> sched_class \<Rightarrow> (cpu \<Rightarrow> tid \<Rightarrow> sched_state \<Rightarrow> sched_state option) option" where
  "class_task_woken env cl = (case cl of Rt_class \<Rightarrow> Some (task_woken_rt env) | Ts_class \<Rightarrow> None
     | _ \<Rightarrow> co_task_woken (ext_class env cl))"

definition run_task_woken :: "kernel_env \<Rightarrow> cpu \<Rightarrow> tid \<Rightarrow> sched_state \<Rightarrow> sched_state option" where
  "run_task_woken env c p st =
    (case class_task_woken env (p_class (tasks st p)) of Some f \<Rightarrow> f c p st | None \<Rightarrow> Some st)"

definition update_avg :: "u64 \<Rightarrow> u64 \<Rightarrow> u64" where
  "update_avg avg sample = avg + signed_drop_bit 3 (sample - avg)"

definition ttwu_activate :: "kernel_env \<Rightarrow> cpu \<Rightarrow> tid \<Rightarrow> u32 \<Rightarrow> sched_state \<Rightarrow> sched_state option" where
  "ttwu_activate env c p en_flags st = do {
     st \<leftarrow> activate_task env c p en_flags st;
     let st = upd_task p (\<lambda>t. t\<lparr>p_on_rq := TASK_ON_RQ_QUEUED\<rparr>) st;
     Some (if has_flag (p_flags (tasks st p)) PF_WQ_WORKER then env_worker_waking env p c st else st)
   }"

definition ttwu_do_wakeup :: "kernel_env \<Rightarrow> cpu \<Rightarrow> tid \<Rightarrow> u32 \<Rightarrow> sched_state \<Rightarrow> sched_state option" where
  "ttwu_do_wakeup env c p wake_flags st = do {
     st \<leftarrow> check_preempt_curr env c p wake_flags st;
     st \<leftarrow> run_task_woken env c p (upd_task p (\<lambda>t. t\<lparr>p_state := TASK_RUNNING\<rparr>) st);
     Some (if rq_idle_stamp (rqs st c) \<noteq> 0
           then let delta = rq_clock (rqs st c) - rq_idle_stamp (rqs st c);
                    mx = 2 * rq_max_idle_cost (rqs st c);
                    avg = update_avg (rq_avg_idle (rqs st c)) delta
                in upd_rq c (\<lambda>r. r\<lparr>rq_avg_idle := (if avg > mx then mx else avg), rq_idle_stamp := 0\<rparr>) st
           else st)
   }"

definition ttwu_do_activate :: "kernel_env \<Rightarrow> cpu \<Rightarrow> tid \<Rightarrow> u32 \<Rightarrow> sched_state \<Rightarrow> sched_state option" where
  "ttwu_do_activate env c p wake_flags st =
    (let st = (if p_contributes (tasks st p) then upd_rq c (\<lambda>r. r\<lparr>rq_nr_unint := rq_nr_unint r - 1\<rparr>) st else st);
         en_flags = ENQUEUE_WAKEUP OR ENQUEUE_NOCLOCK;
         en_flags = (if has_flag wake_flags WF_MIGRATED then en_flags OR ENQUEUE_MIGRATED else en_flags)
     in do {
       st \<leftarrow> ttwu_activate env c p en_flags st;
       ttwu_do_wakeup env c p wake_flags st
     })"

definition ttwu_remote :: "kernel_env \<Rightarrow> tid \<Rightarrow> u32 \<Rightarrow> sched_state \<Rightarrow> (bool \<times> sched_state) option" where
  "ttwu_remote env p wake_flags st =
    (let c = p_cpu (tasks st p) in
     if task_on_rq_queued st p then do {
       st \<leftarrow> ttwu_do_wakeup env c p wake_flags (update_rq_clock c st);
       Some (True, st)
     } else Some (False, st))"

text \<open>The wake list of a CPU is drained in list order, the most recently added task first.\<close>

fun ttwu_pending_loop :: "kernel_env \<Rightarrow> cpu \<Rightarrow> tid list \<Rightarrow> sched_state \<Rightarrow> sched_state option" where
  "ttwu_pending_loop env c [] st = Some st"
| "ttwu_pending_loop env c (p # ps) st = do {
     st \<leftarrow> ttwu_do_activate env c p (if p_remote_wakeup (tasks st p) then WF_MIGRATED else 0) st;
     ttwu_pending_loop env c ps st
   }"

definition sched_ttwu_pending :: "kernel_env \<Rightarrow> sched_state \<Rightarrow> sched_state option" where
  "sched_ttwu_pending env st =
    (let c = this_cpu st; l = rq_wake_list (rqs st c) in
     if l = [] then Some st
     else ttwu_pending_loop env c l (update_rq_clock c (upd_rq c (\<lambda>r. r\<lparr>rq_wake_list := []\<rparr>) st)))"

definition set_nr_if_polling :: "tid \<Rightarrow> sched_state \<Rightarrow> bool \<times> sched_state" where
  "set_nr_if_polling p st =
    (if \<not> p_polling (tasks st p) then (False, st)
     else if p_need_resched (tasks st p) then (True, st)
     else (True, upd_task p (\<lambda>t. t\<lparr>p_need_resched := True\<rparr>) st))"

definition ttwu_queue_remote :: "tid \<Rightarrow> cpu \<Rightarrow> u32 \<Rightarrow> sched_state \<Rightarrow> sched_state" where
  "ttwu_queue_remote p c wake_flags st =
    (let st = upd_task p (\<lambda>t. t\<lparr>p_remote_wakeup := has_flag wake_flags WF_MIGRATED\<rparr>) st;
         empty = (rq_wake_list (rqs st c) = []);
         st = upd_rq c (\<lambda>r. r\<lparr>rq_wake_list := p # rq_wake_list r\<rparr>) st
     in if empty
        then (case set_nr_if_polling (rq_idle (rqs st c)) st of
                (True, st) \<Rightarrow> st | (False, st) \<Rightarrow> st\<lparr>ipis := ipis st @ [c]\<rparr>)
        else st)"

definition wake_up_if_idle :: "cpu \<Rightarrow> sched_state \<Rightarrow> sched_state" where
  "wake_up_if_idle c st =
    (if \<not> is_idle_task (tasks st (curr_of st c)) then st
     else case set_nr_if_polling (rq_idle (rqs st c)) st of
            (True, st) \<Rightarrow> st | (False, st) \<Rightarrow> st\<lparr>ipis := ipis st @ [c]\<rparr>)"

definition ttwu_queue :: "kernel_env \<Rightarrow> tid \<Rightarrow> cpu \<Rightarrow> u32 \<Rightarrow> sched_state \<Rightarrow> sched_state option" where
  "ttwu_queue env p c wake_flags st =
    (if feat_ttwu_queue st \<and> \<not> env_share_cache env (this_cpu st) c
     then Some (ttwu_queue_remote p c wake_flags st)
     else ttwu_do_activate env c p wake_flags (update_rq_clock c st))"

text \<open>
  \<open>select_fallback_rq\<close>: the node of the CPU first, then any allowed CPU, widening the mask
  twice (the cpuset's, then all possible CPUs) before giving up in \<open>BUG()\<close>.
\<close>

definition first_allowed :: "sched_state \<Rightarrow> tid \<Rightarrow> cpu option" where
  "first_allowed st p = find (is_cpu_allowed st p) (p_cpus_allowed (tasks st p))"

definition select_fallback_rq :: "kernel_env \<Rightarrow> cpu \<Rightarrow> tid \<Rightarrow> sched_state \<Rightarrow> (cpu \<times> sched_state) option" where
  "select_fallback_rq env c p st =
    (case (case env_node_mask env c of None \<Rightarrow> None
           | Some m \<Rightarrow> find (\<lambda>d. d \<in> set (cpu_active_mask st) \<and> d \<in> set (p_cpus_allowed (tasks st p))) m) of
       Some d \<Rightarrow> Some (d, st)
     | None \<Rightarrow>
       case first_allowed st p of Some d \<Rightarrow> Some (d, st)
       | None \<Rightarrow>
         let st = env_cpuset_fallback env p st in
         case first_allowed st p of Some d \<Rightarrow> Some (d, st)
         | None \<Rightarrow> do {
             st \<leftarrow> do_set_cpus_allowed env p (env_possible_mask env) st;
             d \<leftarrow> first_allowed st p;
             Some (d, st)
           })"

definition class_select :: "kernel_env \<Rightarrow> sched_class \<Rightarrow> tid \<Rightarrow> cpu \<Rightarrow> u32 \<Rightarrow> u32 \<Rightarrow> sched_state \<Rightarrow> cpu" where
  "class_select env cl p c sd_flags wake_flags st = (case cl of
       Rt_class \<Rightarrow> select_task_rq_rt env p c sd_flags wake_flags st
     | Ts_class \<Rightarrow> select_task_rq_ts p c st
     | _ \<Rightarrow> co_select (ext_class env cl) p c sd_flags wake_flags st)"

definition select_task_rq :: "kernel_env \<Rightarrow> tid \<Rightarrow> cpu \<Rightarrow> u32 \<Rightarrow> u32 \<Rightarrow> sched_state \<Rightarrow> (cpu \<times> sched_state) option" where
  "select_task_rq env p c sd_flags wake_flags st =
    (let c = (if p_nr_cpus_allowed (tasks st p) > 1
              then class_select env (p_class (tasks st p)) p c sd_flags wake_flags st
              else (case p_cpus_allowed (tasks st p) of d # _ \<Rightarrow> d | [] \<Rightarrow> nr_cpus st))
     in if \<not> is_cpu_allowed st p c then select_fallback_rq env (p_cpu (tasks st p)) p st else Some (c, st))"

definition end_iowait :: "tid \<Rightarrow> sched_state \<Rightarrow> sched_state" where
  "end_iowait p st =
    (if p_in_iowait (tasks st p)
     then upd_rq (p_cpu (tasks st p)) (\<lambda>r. r\<lparr>rq_nr_iowait := rq_nr_iowait r - 1\<rparr>) st else st)"

definition try_to_wake_up :: "kernel_env \<Rightarrow> tid \<Rightarrow> u64 \<Rightarrow> u32 \<Rightarrow> sched_state \<Rightarrow> (bool \<times> sched_state) option" where
  "try_to_wake_up env p state wake_flags st =
    (if \<not> has_flag (p_state (tasks st p)) state then Some (False, st)
     else do {
       (woken, st) \<leftarrow> (if p_on_rq (tasks st p) \<noteq> 0 then ttwu_remote env p wake_flags st else Some (False, st));
       if woken then Some (True, st)
       else if p_on_cpu (tasks st p) then None
       else
         let st = end_iowait p (upd_task p (\<lambda>t. t\<lparr>p_contributes := task_contributes_to_load t, p_state := TASK_WAKING\<rparr>) st)
         in do {
           (cpu, st) \<leftarrow> select_task_rq env p (p_wake_cpu (tasks st p)) SD_BALANCE_WAKE wake_flags st;
           let (wake_flags, st) = (if p_cpu (tasks st p) \<noteq> cpu
                                   then (wake_flags OR WF_MIGRATED, set_task_cpu env p cpu st)
                                   else (wake_flags, st));
           st \<leftarrow> ttwu_queue env p cpu wake_flags st;
           Some (True, st)
         }
     })"

definition try_to_wake_up_local :: "kernel_env \<Rightarrow> tid \<Rightarrow> sched_state \<Rightarrow> sched_state option" where
  "try_to_wake_up_local env p st =
    (let c = p_cpu (tasks st p) in
     if c \<noteq> this_cpu st \<or> p = curr_of st (this_cpu st) then Some st
     else if \<not> has_flag (p_state (tasks st p)) TASK_NORMAL then Some st
     else do {
       st \<leftarrow> (if \<not> task_on_rq_queued st p
              then ttwu_activate env c p (ENQUEUE_WAKEUP OR ENQUEUE_NOCLOCK) (end_iowait p st) else Some st);
       ttwu_do_wakeup env c p 0 st
     })"

definition wake_up_process :: "kernel_env \<Rightarrow> tid \<Rightarrow> sched_state \<Rightarrow> (bool \<times> sched_state) option" where
  "wake_up_process env p st = try_to_wake_up env p TASK_NORMAL 0 st"

definition wake_up_state :: "kernel_env \<Rightarrow> tid \<Rightarrow> u64 \<Rightarrow> sched_state \<Rightarrow> (bool \<times> sched_state) option" where
  "wake_up_state env p state st = try_to_wake_up env p state 0 st"

section \<open>The stopper and affinity changes\<close>

definition migration_cpu_stop :: "kernel_env \<Rightarrow> tid \<Rightarrow> cpu \<Rightarrow> sched_state \<Rightarrow> sched_state option" where
  "migration_cpu_stop env p dest_cpu st = do {
     let c = this_cpu st;
     st \<leftarrow> sched_ttwu_pending env st;
     if p_cpu (tasks st p) = c
     then if task_on_rq_queued st p then migrate_task_raw env c p dest_cpu st
          else Some (upd_task p (\<lambda>t. t\<lparr>p_wake_cpu := dest_cpu\<rparr>) st)
     else Some st
   }"

definition set_cpus_allowed_ptr_raw :: "kernel_env \<Rightarrow> tid \<Rightarrow> cpu list \<Rightarrow> bool \<Rightarrow> sched_state \<Rightarrow> (int \<times> sched_state) option" where
  "set_cpus_allowed_ptr_raw env p new_mask check st =
    (let c = p_cpu (tasks st p);
         st = update_rq_clock c st;
         valid = (if has_flag (p_flags (tasks st p)) PF_KTHREAD then cpu_online_mask st else cpu_active_mask st)
     in if check \<and> has_flag (p_flags (tasks st p)) PF_NO_SETAFFINITY then Some (- EINVAL, st)
        else if p_cpus_allowed (tasks st p) = new_mask then Some (0, st)
        else case filter (\<lambda>d. d \<in> set new_mask) valid of
          [] \<Rightarrow> Some (- EINVAL, st)
        | dest_cpu # _ \<Rightarrow> do {
            st \<leftarrow> do_set_cpus_allowed env p new_mask st;
            if p_cpu (tasks st p) \<in> set new_mask then Some (0, st)
            else if task_running st p \<or> p_state (tasks st p) = TASK_WAKING then do {
              let me = this_cpu st;
              st \<leftarrow> migration_cpu_stop env p dest_cpu (st\<lparr>this_cpu := c\<rparr>);
              Some (0, st\<lparr>this_cpu := me\<rparr>)
            }
            else if task_on_rq_queued st p then do {
              st \<leftarrow> move_queued_task env c p dest_cpu st;
              Some (0, st)
            }
            else Some (0, st)
          })"

definition set_cpus_allowed_ptr :: "kernel_env \<Rightarrow> tid \<Rightarrow> cpu list \<Rightarrow> sched_state \<Rightarrow> (int \<times> sched_state) option" where
  "set_cpus_allowed_ptr env p new_mask st = set_cpus_allowed_ptr_raw env p new_mask False st"

definition migrate_swap_task_raw :: "kernel_env \<Rightarrow> tid \<Rightarrow> cpu \<Rightarrow> sched_state \<Rightarrow> sched_state option" where
  "migrate_swap_task_raw env p cpu st =
    (if task_on_rq_queued st p then do {
       let src = p_cpu (tasks st p);
       st \<leftarrow> deactivate_task env src p 0 (upd_task p (\<lambda>t. t\<lparr>p_on_rq := TASK_ON_RQ_MIGRATING\<rparr>) st);
       st \<leftarrow> activate_task env cpu p 0 (set_task_cpu env p cpu st);
       check_preempt_curr env cpu p 0 (upd_task p (\<lambda>t. t\<lparr>p_on_rq := TASK_ON_RQ_QUEUED\<rparr>) st)
     } else Some (upd_task p (\<lambda>t. t\<lparr>p_wake_cpu := cpu\<rparr>) st))"

definition migrate_swap_stop :: "kernel_env \<Rightarrow> tid \<Rightarrow> tid \<Rightarrow> cpu \<Rightarrow> cpu \<Rightarrow> sched_state \<Rightarrow> (int \<times> sched_state) option" where
  "migrate_swap_stop env src_task dst_task src_cpu dst_cpu st =
    (if src_cpu \<notin> set (cpu_active_mask st) \<or> dst_cpu \<notin> set (cpu_active_mask st) then Some (- EAGAIN, st)
     else if p_cpu (tasks st dst_task) \<noteq> dst_cpu \<or> p_cpu (tasks st src_task) \<noteq> src_cpu \<or>
          dst_cpu \<notin> set (p_cpus_allowed (tasks st src_task)) \<or> src_cpu \<notin> set (p_cpus_allowed (tasks st dst_task))
       then Some (- EAGAIN, st)
     else do {
       st \<leftarrow> migrate_swap_task_raw env src_task dst_cpu st;
       st \<leftarrow> migrate_swap_task_raw env dst_task src_cpu st;
       Some (0, st)
     })"

definition migrate_swap :: "kernel_env \<Rightarrow> tid \<Rightarrow> tid \<Rightarrow> cpu \<Rightarrow> cpu \<Rightarrow> sched_state \<Rightarrow> (int \<times> sched_state) option" where
  "migrate_swap env cu p target_cpu curr_cpu st =
    (if curr_cpu = target_cpu \<or> curr_cpu \<notin> set (cpu_active_mask st) \<or> target_cpu \<notin> set (cpu_active_mask st) \<or>
        target_cpu \<notin> set (p_cpus_allowed (tasks st cu)) \<or> curr_cpu \<notin> set (p_cpus_allowed (tasks st p))
     then Some (- EINVAL, st)
     else migrate_swap_stop env cu p curr_cpu target_cpu st)"

definition kick_process :: "tid \<Rightarrow> sched_state \<Rightarrow> sched_state" where
  "kick_process p st =
    (let c = p_cpu (tasks st p) in
     if c \<noteq> this_cpu st \<and> task_curr st p then st\<lparr>ipis := ipis st @ [c]\<rparr> else st)"

section \<open>Fork\<close>

text \<open>The parent's \<open>task_struct\<close> was copied to the child before; \<open>cur\<close> is the parent.\<close>

definition sched_fork_raw :: "tid \<Rightarrow> sched_state \<Rightarrow> sched_state" where
  "sched_fork_raw p st = upd_task p (\<lambda>t. t\<lparr>p_on_rq := 0, p_exec_start := 0, p_sum_exec := 0,
     p_nr_migrations := 0, p_ts_node := Self_linked, p_ts_time_slice := 12, p_rt_timeout := 0,
     p_rt_time_slice := rr_timeslice st, p_rt_on_rq := False, p_rt_on_list := False\<rparr>) st"

definition class_task_fork :: "kernel_env \<Rightarrow> sched_class \<Rightarrow> (tid \<Rightarrow> sched_state \<Rightarrow> sched_state) option" where
  "class_task_fork env cl = (case cl of Rt_class \<Rightarrow> None | Ts_class \<Rightarrow> None | _ \<Rightarrow> co_task_fork (ext_class env cl))"

definition sched_fork :: "kernel_env \<Rightarrow> tid \<Rightarrow> sched_state \<Rightarrow> (int \<times> sched_state) option" where
  "sched_fork env p st = do {
     let cur = curr_of st (this_cpu st);
     let st = sched_fork_raw p st;
     let st = upd_task p (\<lambda>t. t\<lparr>p_state := TASK_NEW, p_prio := p_normal_prio (tasks st cur)\<rparr>) st;
     st \<leftarrow> (if p_reset_on_fork (tasks st p) then do {
         let st = upd_task p (\<lambda>t.
           if task_has_dl_policy t \<or> task_has_rt_policy t
           then t\<lparr>p_policy := SCHED_NORMAL, p_static_prio := NICE_TO_PRIO 0, p_rt_priority := 0\<rparr>
           else if PRIO_TO_NICE (p_static_prio t) < 0 then t\<lparr>p_static_prio := NICE_TO_PRIO 0\<rparr>
           else t) st;
         let st = upd_task p (\<lambda>t. t\<lparr>p_prio := normal_prio_raw t, p_normal_prio := normal_prio_raw t\<rparr>) st;
         st \<leftarrow> set_load_weight env p False st;
         Some (upd_task p (\<lambda>t. t\<lparr>p_reset_on_fork := False\<rparr>) st)
       } else Some st);
     if dl_prio (prio_of st p) then Some (- EAGAIN, st)
     else
       let cl = (if rt_prio (prio_of st p) then Rt_class
                 else if ts_policy (p_policy (tasks st p)) then Ts_class else Fair_class);
           st = set_task_cpu_raw p (this_cpu st) (upd_task p (\<lambda>t. t\<lparr>p_class := cl\<rparr>) st);
           st = (case class_task_fork env cl of Some f \<Rightarrow> f p st | None \<Rightarrow> st)
       in Some (0, upd_task p (\<lambda>t. t\<lparr>p_on_cpu := False\<rparr>) st)
   }"

definition wake_up_new_task :: "kernel_env \<Rightarrow> tid \<Rightarrow> sched_state \<Rightarrow> sched_state option" where
  "wake_up_new_task env p st = do {
     let st = upd_task p (\<lambda>t. t\<lparr>p_state := TASK_RUNNING\<rparr>) st;
     (cpu, st) \<leftarrow> select_task_rq env p (p_cpu (tasks st p)) SD_BALANCE_FORK 0 st;
     let st = update_rq_clock cpu (set_task_cpu_raw p cpu st);
     st \<leftarrow> activate_task env cpu p ENQUEUE_NOCLOCK st;
     st \<leftarrow> check_preempt_curr env cpu p WF_FORK (upd_task p (\<lambda>t. t\<lparr>p_on_rq := TASK_ON_RQ_QUEUED\<rparr>) st);
     run_task_woken env cpu p st
   }"

section \<open>The tick and the schedule\<close>

definition class_tick :: "kernel_env \<Rightarrow> sched_class \<Rightarrow> cpu \<Rightarrow> tid \<Rightarrow> sched_state \<Rightarrow> sched_state option" where
  "class_tick env cl = (case cl of Rt_class \<Rightarrow> task_tick_rt | Ts_class \<Rightarrow> task_tick_ts | _ \<Rightarrow> co_tick (ext_class env cl))"

definition scheduler_tick :: "kernel_env \<Rightarrow> sched_state \<Rightarrow> sched_state option" where
  "scheduler_tick env st =
    (let c = this_cpu st; p = curr_of st c; st = update_rq_clock c st
     in class_tick env (p_class (tasks st p)) c p st)"

definition class_pick :: "kernel_env \<Rightarrow> sched_class \<Rightarrow> cpu \<Rightarrow> tid \<Rightarrow> sched_state \<Rightarrow> (pick_result \<times> sched_state) option" where
  "class_pick env cl c prev st = (case cl of Rt_class \<Rightarrow> pick_next_task_rt env c prev st
     | Ts_class \<Rightarrow> do {
         (r, st) \<leftarrow> pick_next_task_ts (put_prev_task env) c prev st;
         Some (case r of Some p \<Rightarrow> Picked p | None \<Rightarrow> No_task, st)
       }
     | _ \<Rightarrow> co_pick (ext_class env cl) c prev st)"

text \<open>One walk over the classes: the first result that is not \<open>NULL\<close>; none is the final \<open>BUG()\<close>.\<close>

fun pick_walk :: "kernel_env \<Rightarrow> sched_class list \<Rightarrow> cpu \<Rightarrow> tid \<Rightarrow> sched_state \<Rightarrow> (pick_result \<times> sched_state) option" where
  "pick_walk env [] c prev st = None"
| "pick_walk env (cl # cls) c prev st = do {
     (r, st) \<leftarrow> class_pick env cl c prev st;
     case r of No_task \<Rightarrow> pick_walk env cls c prev st | _ \<Rightarrow> Some (r, st)
   }"

partial_function (option) pick_again :: "kernel_env \<Rightarrow> cpu \<Rightarrow> tid \<Rightarrow> sched_state \<Rightarrow> (tid \<times> sched_state) option" where
  "pick_again env c prev st =
    Option.bind (pick_walk env all_classes c prev st) (\<lambda>r.
      case fst r of Picked p \<Rightarrow> Some (p, snd r) | Retry_task \<Rightarrow> pick_again env c prev (snd r) | No_task \<Rightarrow> None)"

definition pick_next_task :: "kernel_env \<Rightarrow> cpu \<Rightarrow> tid \<Rightarrow> sched_state \<Rightarrow> (tid \<times> sched_state) option" where
  "pick_next_task env c prev st =
    (if (p_class (tasks st prev) = Idle_class \<or> p_class (tasks st prev) = Fair_class) \<and>
        rq_nr_running (rqs st c) = rq_cfs_h_nr (rqs st c)
     then do {
       (r, st) \<leftarrow> class_pick env Fair_class c prev st;
       case r of Picked p \<Rightarrow> Some (p, st)
       | Retry_task \<Rightarrow> pick_again env c prev st
       | No_task \<Rightarrow> do {
           (r, st) \<leftarrow> class_pick env Idle_class c prev st;
           case r of Picked p \<Rightarrow> Some (p, st) | _ \<Rightarrow> None
         }
     }
     else pick_again env c prev st)"

definition clear_clock_flags :: "cpu \<Rightarrow> sched_state \<Rightarrow> sched_state" where
  "clear_clock_flags c =
     upd_rq c (\<lambda>r. r\<lparr>rq_clock_flags := rq_clock_flags r AND NOT (RQCF_ACT_SKIP OR RQCF_REQ_SKIP)\<rparr>)"

definition context_switch :: "cpu \<Rightarrow> tid \<Rightarrow> tid \<Rightarrow> sched_state \<Rightarrow> sched_state" where
  "context_switch c prev nxt st =
     upd_task prev (\<lambda>t. t\<lparr>p_on_cpu := False\<rparr>)
       (clear_clock_flags c (upd_task nxt (\<lambda>t. t\<lparr>p_on_cpu := True\<rparr>) st))"

fun balance_callbacks :: "kernel_env \<Rightarrow> cpu \<Rightarrow> balance_cb list \<Rightarrow> sched_state \<Rightarrow> sched_state option" where
  "balance_callbacks env c [] st = Some st"
| "balance_callbacks env c (cb # cbs) st = do {
     st \<leftarrow> (case cb of Push_rt_tasks \<Rightarrow> push_rt_tasks env c st | Pull_rt_task \<Rightarrow> pull_rt_task env c st);
     balance_callbacks env c cbs st
   }"

definition balance_callback :: "kernel_env \<Rightarrow> cpu \<Rightarrow> sched_state \<Rightarrow> sched_state option" where
  "balance_callback env c st =
     balance_callbacks env c (rq_callbacks (rqs st c)) (upd_rq c (\<lambda>r. r\<lparr>rq_callbacks := []\<rparr>) st)"

text \<open>The part of \<open>__schedule\<close> that takes a task that is no longer runnable off its run queue.\<close>

definition schedule_deactivate :: "kernel_env \<Rightarrow> cpu \<Rightarrow> tid \<Rightarrow> sched_state \<Rightarrow> sched_state option" where
  "schedule_deactivate env c prev st =
    (if env_signal_pending env prev st then Some (upd_task prev (\<lambda>t. t\<lparr>p_state := TASK_RUNNING\<rparr>) st)
     else do {
       st \<leftarrow> deactivate_task env c prev (DEQUEUE_SLEEP OR DEQUEUE_NOCLOCK) st;
       let st = upd_task prev (\<lambda>t. t\<lparr>p_on_rq := 0\<rparr>) st;
       let st = (if p_in_iowait (tasks st prev)
                 then upd_rq c (\<lambda>r. r\<lparr>rq_nr_iowait := rq_nr_iowait r + 1\<rparr>) st else st);
       if has_flag (p_flags (tasks st prev)) PF_WQ_WORKER
       then (case env_worker_sleeping env prev st of
               (Some w, st) \<Rightarrow> try_to_wake_up_local env w st | (None, st) \<Rightarrow> Some st)
       else Some st
     })"

definition schedule_raw :: "kernel_env \<Rightarrow> bool \<Rightarrow> sched_state \<Rightarrow> sched_state option" where
  "schedule_raw env preempt st = do {
     let c = this_cpu st;
     let prev = curr_of st c;
     let st = update_rq_clock c (upd_rq c (\<lambda>r. r\<lparr>rq_clock_flags := push_bit 1 (rq_clock_flags r)\<rparr>) st);
     let voluntary = (\<not> preempt \<and> p_state (tasks st prev) \<noteq> 0);
     st \<leftarrow> (if voluntary then schedule_deactivate env c prev st else Some st);
     (nxt, st) \<leftarrow> pick_next_task env c prev st;
     let st = upd_rq c (\<lambda>r. r\<lparr>rq_preempt_resched := False\<rparr>) (upd_task prev (\<lambda>t. t\<lparr>p_need_resched := False\<rparr>) st);
     let st = (if prev \<noteq> nxt
               then context_switch c prev nxt
                 (upd_task prev (\<lambda>t. if voluntary then t\<lparr>p_nvcsw := p_nvcsw t + 1\<rparr> else t\<lparr>p_nivcsw := p_nivcsw t + 1\<rparr>)
                   (upd_rq c (\<lambda>r. r\<lparr>rq_nr_switches := rq_nr_switches r + 1, rq_curr := nxt\<rparr>) st))
               else clear_clock_flags c st);
     balance_callback env c st
   }"

end
