(* ===== verification/Sched_TS_Props.thy ===== *)
theory Sched_TS_Props
  imports Sched_TS
begin

text \<open>
  What the \<open>SCHED_TS\<close> class promises. The abstract view of a run queue is its dispatch
  order \<open>ts_order\<close>: one list of tasks, highest level first and first-come first-served
  inside a level. Enqueueing is a stable insertion into that list, dequeueing a removal,
  picking takes the head; a tick keeps time slices between 1 and 16 and lets a CPU-bound
  task sink to level 0.
\<close>

section \<open>Dispatch order\<close>

definition ts_order :: "sched_state \<Rightarrow> cpu \<Rightarrow> tid list" where
  "ts_order st c = concat (rev (rq_ts (rqs st c)))"

text \<open>Stable insertion behind every task of the same or a higher level.\<close>

definition insert_level :: "(tid \<Rightarrow> int) \<Rightarrow> int \<Rightarrow> tid \<Rightarrow> tid list \<Rightarrow> tid list" where
  "insert_level lev l p xs = takeWhile (\<lambda>q. l \<le> lev q) xs @ p # dropWhile (\<lambda>q. l \<le> lev q) xs"

lemma set_ts_order: "p \<in> set (ts_order st c) \<longleftrightarrow> ts_linked st c p"
  by (auto simp: ts_order_def ts_linked_def qs_mem_def)

lemma concat_rev_split:
  "l < length qs \<Longrightarrow> concat (rev qs) = concat (rev (drop (Suc l) qs)) @ qs ! l @ concat (rev (take l qs))"
  by (subst id_take_nth_drop [of l qs]) (auto simp del: append_take_drop_id)

lemma concat_rev_add_tail:
  assumes "l < length qs"
  shows "concat (rev (qs_add_tail l p qs)) =
    concat (rev (drop (Suc l) qs)) @ (qs ! l @ [p]) @ concat (rev (take l qs))"
  using concat_rev_split [of l "qs_add_tail l p qs"] assms by (simp add: qs_add_tail_def)

lemma in_concat_drop: "x \<in> set (concat (rev (drop n qs))) \<Longrightarrow> \<exists>i. n \<le> i \<and> i < length qs \<and> x \<in> set (qs ! i)"
  by (auto simp: in_set_conv_nth) (metis add.commute le_add1 less_diff_conv nth_mem)

lemma in_concat_take: "x \<in> set (concat (rev (take n qs))) \<Longrightarrow> \<exists>i. i < n \<and> i < length qs \<and> x \<in> set (qs ! i)"
  by (auto simp: in_set_conv_nth) (metis nth_mem)

lemma concat_rev_insert:
  assumes l: "l < length qs"
    and lev: "\<And>i x. i < length qs \<Longrightarrow> x \<in> set (qs ! i) \<Longrightarrow> lev x = int i"
  shows "concat (rev (qs_add_tail l p qs)) = insert_level lev (int l) p (concat (rev qs))"
proof -
  let ?hi = "concat (rev (drop (Suc l) qs)) @ qs ! l" and ?lo = "concat (rev (take l qs))"
  have hi: "\<forall>x \<in> set ?hi. int l \<le> lev x"
  proof
    fix x assume "x \<in> set ?hi"
    then consider "x \<in> set (concat (rev (drop (Suc l) qs)))" | "x \<in> set (qs ! l)" by auto
    then show "int l \<le> lev x"
    proof cases
      case 1
      from in_concat_drop [OF this] lev show ?thesis by auto
    qed (use l lev in auto)
  qed
  have lo: "\<forall>x \<in> set ?lo. \<not> int l \<le> lev x"
  proof
    fix x assume "x \<in> set ?lo"
    from in_concat_take [OF this] lev show "\<not> int l \<le> lev x" by auto
  qed
  have "concat (rev qs) = ?hi @ ?lo" using concat_rev_split [OF l] by simp
  then show ?thesis
    by (simp only: concat_rev_add_tail [OF l] insert_level_def takeWhile_split [OF hi lo]) simp
qed

lemma ts_order_enqueue:
  assumes wf: "ts_wf st" and r: "ts_ready st p" and e: "enqueue_task_ts c p f st = Some st'"
  shows "ts_order st' c = insert_level (ts_level st) (ts_enq_level f st p) p (ts_order st c)"
proof -
  let ?l = "nat (ts_enq_level f st p)"
  have l: "?l < length (rq_ts (rqs st c))" "int ?l = ts_enq_level f st p"
    using ts_enq_level_bounds [OF r, of f] ts_wfD(1) [OF wf] by auto
  have "ts_order st' c = concat (rev (qs_add_tail ?l p (rq_ts (rqs st c))))"
    by (simp add: ts_order_def enqueue_task_ts_spec(4) [OF wf r e])
  also have "\<dots> = insert_level (ts_level st) (int ?l) p (concat (rev (rq_ts (rqs st c))))"
    by (rule concat_rev_insert [OF l(1)]) (use ts_wfD(1,3) [OF wf] in auto)
  finally show ?thesis unfolding l(2) ts_order_def .
qed

lemma concat_rev_del: "concat (rev (qs_del p qs)) = removeAll p (concat (rev qs))"
  by (induction qs) (simp_all add: qs_del_def)

lemma ts_order_dequeue:
  assumes "ts_wf st" "ts_linked st c p" "dequeue_task_ts c' p f st = Some st'"
  shows "ts_order st' d = removeAll p (ts_order st d)"
  by (simp add: ts_order_def dequeue_task_ts_spec(4) [OF assms] concat_rev_del)

lemma concat_rev_hd:
  assumes "i < length qs" "qs ! i = p # rest" "\<And>j. i < j \<Longrightarrow> j < length qs \<Longrightarrow> qs ! j = []"
  shows "\<exists>xs. concat (rev qs) = p # xs"
proof -
  have "\<forall>q \<in> set (drop (Suc i) qs). q = []"
    using assms(3) by (auto simp: in_set_conv_nth)
  then have "concat (rev (drop (Suc i) qs)) = []" by simp
  with concat_rev_split [OF assms(1)] assms(2) show ?thesis by (metis append_Cons append_Nil)
qed

lemma pick_ts_order:
  assumes wf: "ts_wf st"
  shows "pick_ts_loop (rq_ts (rqs st c)) 40 = None \<longleftrightarrow> ts_order st c = []"
    "pick_ts_loop (rq_ts (rqs st c)) 40 = Some i \<Longrightarrow>
       \<exists>rest xs. rq_ts (rqs st c) ! i = hd (ts_order st c) # rest \<and> ts_order st c = hd (ts_order st c) # xs"
proof -
  show "pick_ts_loop (rq_ts (rqs st c)) 40 = None \<longleftrightarrow> ts_order st c = []"
    unfolding pick_ts_loop_linked [OF wf] set_ts_order [symmetric] by simp
next
  assume i: "pick_ts_loop (rq_ts (rqs st c)) 40 = Some i"
  note pick = pick_ts_loop_Some [OF i]
  then obtain p rest where p: "rq_ts (rqs st c) ! i = p # rest" by (auto simp: neq_Nil_conv)
  with concat_rev_hd [of i "rq_ts (rqs st c)" p rest] pick ts_wfD(1) [OF wf]
  show "\<exists>rest xs. rq_ts (rqs st c) ! i = hd (ts_order st c) # rest \<and> ts_order st c = hd (ts_order st c) # xs"
    by (auto simp: ts_order_def)
qed

section \<open>A CPU-bound task\<close>

fun ts_ticks :: "nat \<Rightarrow> cpu \<Rightarrow> tid \<Rightarrow> sched_state \<Rightarrow> sched_state option" where
  "ts_ticks 0 c p st = Some st"
| "ts_ticks (Suc n) c p st = do { st \<leftarrow> task_tick_ts c p st; ts_ticks n c p st }"

lemma ts_ticks_add: "ts_ticks (m + n) c p st = do { st \<leftarrow> ts_ticks m c p st; ts_ticks n c p st }"
proof (induction m arbitrary: st)
  case (Suc m)
  then show ?case by (cases "task_tick_ts c p st") simp_all
qed simp

definition ts_on_cpu :: "sched_state \<Rightarrow> cpu \<Rightarrow> tid \<Rightarrow> bool" where
  "ts_on_cpu st c p \<longleftrightarrow> ts_wf st \<and> ts_linked st c p \<and> p_policy (tasks st p) = SCHED_TS \<and> ts_slice_ok st p"

lemma ts_on_cpu_running:
  assumes "ts_on_cpu st c p" "unat (p_ts_time_slice (tasks st p)) \<ge> 2"
  obtains st' where "task_tick_ts c p st = Some st'" "ts_on_cpu st' c p" "ts_level st' p = ts_level st p"
    "unat (p_ts_time_slice (tasks st' p)) = unat (p_ts_time_slice (tasks st p)) - 1"
proof -
  have pol: "p_policy (tasks st p) = SCHED_TS" and wf: "ts_wf st" using assms(1) by (simp_all add: ts_on_cpu_def)
  let ?st' = "upd_task p (\<lambda>t. t\<lparr>p_ts_time_slice := p_ts_time_slice (tasks st p) - 1\<rparr>) st"
  have lv: "ts_level ?st' x = ts_level st x" and lk: "ts_linked ?st' d x = ts_linked st d x" for d x
    by (simp_all add: ts_level_def ts_linked_def st_simps)
  have w: "ts_wf ?st'" using wf unfolding ts_wf_def lv lk by (simp add: st_simps)
  have "p_ts_time_slice (tasks st p) \<noteq> 0" using assms(2) by auto
  then have u: "unat (p_ts_time_slice (tasks ?st' p)) = unat (p_ts_time_slice (tasks st p)) - 1"
    by (simp add: st_simps unat_minus_one)
  show thesis
    by (rule that [OF task_tick_ts_running [OF pol assms(2)] _ lv u])
      (use assms w lk u in \<open>auto simp: ts_on_cpu_def ts_slice_ok_def st_simps\<close>)
qed

lemma ts_on_cpu_expired:
  assumes "ts_on_cpu st c p" "p_ts_time_slice (tasks st p) = 1"
  obtains st' where "task_tick_ts c p st = Some st'" "ts_on_cpu st' c p"
    "ts_level st' p = ts_demote (ts_level st p)"
    "unat (p_ts_time_slice (tasks st' p)) = ts_slice_for (ts_level st' p)"
proof -
  have a: "ts_wf st" "ts_linked st c p" "p_policy (tasks st p) = SCHED_TS"
    using assms(1) by (simp_all add: ts_on_cpu_def)
  note lev = ts_demote_bounds [OF ts_linked_level(1,2) [OF a(1,2)]]
  obtain st' where st': "task_tick_ts c p st = Some st'" "ts_wf st'"
    "\<And>d x. ts_linked st' d x \<longleftrightarrow> ts_linked st d x" "ts_level st' p = ts_demote (ts_level st p)"
    "unat (p_ts_time_slice (tasks st' p)) = ts_slice_for (ts_level st' p)" "p_policy (tasks st' p) = SCHED_TS"
    by (rule task_tick_ts_expired [OF a assms(2)]) (rule that; assumption)
  moreover from this lev have "ts_slice_ok st' p"
    using ts_slice_for_bounds [of "ts_level st' p"] by (auto simp: ts_slice_ok_def)
  ultimately show thesis using that a by (auto simp: ts_on_cpu_def)
qed

text \<open>After as many ticks as its slice has left, the task is one step down.\<close>

lemma ts_ticks_slice:
  assumes "ts_on_cpu st c p" "unat (p_ts_time_slice (tasks st p)) = Suc n"
  shows "\<exists>st'. ts_ticks (Suc n) c p st = Some st' \<and> ts_on_cpu st' c p \<and>
     ts_level st' p = ts_demote (ts_level st p) \<and> unat (p_ts_time_slice (tasks st' p)) = ts_slice_for (ts_level st' p)"
  using assms
proof (induction n arbitrary: st)
  case 0
  then have "p_ts_time_slice (tasks st p) = 1" by (simp add: word_unat_eq_iff)
  from ts_on_cpu_expired [OF 0(1) this] show ?case by (metis bind.bind_lunit ts_ticks.simps)
next
  case (Suc n)
  obtain s1 where s1: "task_tick_ts c p st = Some s1" "ts_on_cpu s1 c p" "ts_level s1 p = ts_level st p"
    "unat (p_ts_time_slice (tasks s1 p)) = unat (p_ts_time_slice (tasks st p)) - 1"
    by (rule ts_on_cpu_running [OF Suc.prems(1)]) (use Suc.prems(2) in auto)
  with Suc.IH [of s1] Suc.prems(2) show ?case by simp
qed

lemma ts_slice_Suc:
  assumes "ts_on_cpu st c p"
  obtains n where "unat (p_ts_time_slice (tasks st p)) = Suc n" "Suc n \<le> 16"
proof -
  have "1 \<le> unat (p_ts_time_slice (tasks st p))" "unat (p_ts_time_slice (tasks st p)) \<le> 16"
    using assms by (simp_all add: ts_on_cpu_def ts_slice_ok_def)
  then show thesis using that by (cases "unat (p_ts_time_slice (tasks st p))") auto
qed

text \<open>From level \<open>l\<close> with a fresh slice, \<open>k\<close> expiries reach level 0 once \<open>l \<le> 10 k\<close>.\<close>

lemma ts_sink:
  assumes "ts_on_cpu st c p" "ts_level st p \<le> 10 * int k"
  shows "\<exists>n st'. n \<le> 16 * k \<and> ts_ticks n c p st = Some st' \<and> ts_on_cpu st' c p \<and> ts_level st' p = 0"
  using assms
proof (induction k arbitrary: st)
  case 0
  then have "ts_level st p = 0"
    using ts_linked_level(1) [of st c p] by (simp add: ts_on_cpu_def)
  with 0 show ?case by (intro exI [of _ 0] exI [of _ st]) simp
next
  case (Suc k)
  obtain n where n: "unat (p_ts_time_slice (tasks st p)) = Suc n" "Suc n \<le> 16"
    by (rule ts_slice_Suc [OF Suc.prems(1)])
  from ts_ticks_slice [OF Suc.prems(1) n(1)] obtain s1 where
    s1: "ts_ticks (Suc n) c p st = Some s1" "ts_on_cpu s1 c p" "ts_level s1 p = ts_demote (ts_level st p)"
    by blast
  have "ts_level s1 p \<le> 10 * int k" using s1(3) Suc.prems(2) by (auto simp: ts_demote_def)
  from Suc.IH [OF s1(2) this] obtain m s2 where
    "m \<le> 16 * k" "ts_ticks m c p s1 = Some s2" "ts_on_cpu s2 c p" "ts_level s2 p = 0" by blast
  moreover from this(2) s1(1) have "ts_ticks (Suc n + m) c p st = Some s2"
    unfolding ts_ticks_add by (simp del: ts_ticks.simps)
  moreover have "Suc n + m \<le> 16 * Suc k" using n(2) calculation(1) by simp
  ultimately show ?case by blast
qed


section \<open>A concrete run queue\<close>

text \<open>Three \<open>SCHED_TS\<close> tasks: 2 and 3 at level 20, 4 at level 5; then 2 and 3 queued on CPU 0.\<close>

definition ts_demo0 :: sched_state where
  "ts_demo0 = blank_state\<lparr>tasks := (\<lambda>p. blank_task\<lparr>p_pid := int p, p_policy := SCHED_TS, p_class := Ts_class,
     p_prio := (if p = 4 then 134 else 119)\<rparr>)\<rparr>"

definition ts_demo1 :: sched_state where "ts_demo1 = the (enqueue_task_ts 0 2 0 ts_demo0)"
definition ts_demo2 :: sched_state where "ts_demo2 = the (enqueue_task_ts 0 3 0 ts_demo1)"

lemma ts_demo0: "ts_wf ts_demo0" "ts_ready ts_demo0 p" "\<not> ts_linked ts_demo0 c p"
  by (auto simp: ts_wf_def ts_linked_def qs_mem_nth ts_demo0_def blank_defs ts_ready_def)

lemma ts_demo1: "enqueue_task_ts 0 2 0 ts_demo0 = Some ts_demo1" "ts_wf ts_demo1"
  "ts_ready ts_demo1 3" "ts_ready ts_demo1 4" "ts_linked ts_demo1 0 2"
proof -
  show e: "enqueue_task_ts 0 2 0 ts_demo0 = Some ts_demo1"
    unfolding ts_demo1_def using enqueue_task_ts_eq [OF ts_demo0(1,2)] by simp
  show "ts_wf ts_demo1" "ts_linked ts_demo1 0 2"
    using enqueue_task_ts_spec [OF ts_demo0(1,2) e] by simp_all
  show "ts_ready ts_demo1 3" "ts_ready ts_demo1 4"
    using enqueue_task_ts_ready_other [OF ts_demo0(1,2) e] ts_demo0(2) by simp_all
qed

lemma ts_demo1_fields: "prio_of ts_demo1 2 = 119" "p_policy (tasks ts_demo1 2) = SCHED_TS"
  "p_ts_time_slice (tasks ts_demo1 2) = 12" "curr_of ts_demo1 0 = 0" "prio_of ts_demo1 0 = 119"
  unfolding ts_demo1_def enqueue_task_ts_eq [OF ts_demo0(1,2)]
  by (simp_all add: st_simps ts_enq_level_def ts_level_def ts_demo0_def blank_defs)

lemma ts_demo2: "enqueue_task_ts 0 3 0 ts_demo1 = Some ts_demo2" "ts_wf ts_demo2"
  "ts_linked ts_demo2 0 2" "ts_linked ts_demo2 0 3"
proof -
  show e: "enqueue_task_ts 0 3 0 ts_demo1 = Some ts_demo2"
    unfolding ts_demo2_def using enqueue_task_ts_eq [OF ts_demo1(2,3)] by simp
  show "ts_wf ts_demo2" "ts_linked ts_demo2 0 2" "ts_linked ts_demo2 0 3"
    using enqueue_task_ts_spec [OF ts_demo1(2,3) e] ts_demo1(5) by simp_all
qed

section \<open>Properties\<close>

text \<open>
  C7: enqueueing refines stable insertion. On well-formed queues a task that is not linked
  and has a nice-range priority is always enqueued without fault; the queues stay well
  formed, exactly that task becomes linked, on that CPU, and the dispatch order is the old
  one with the task inserted behind every task of the same or a higher level, where its
  level is its own or, on a wake-up, the one of the sleep table.
\<close>

theorem ts_enqueue_refines_insertion:
  assumes "ts_wf st" "ts_ready st p"
  shows "\<exists>st'. enqueue_task_ts c p f st = Some st' \<and> ts_wf st' \<and>
    (\<forall>d x. ts_linked st' d x \<longleftrightarrow> ts_linked st d x \<or> (d = c \<and> x = p)) \<and>
    ts_level st' p = ts_enq_level f st p \<and>
    ts_order st' c = insert_level (ts_level st) (ts_enq_level f st p) p (ts_order st c)"
proof -
  obtain st' where e: "enqueue_task_ts c p f st = Some st'"
    using ts_queue.enq_total [OF assms(1), of p c f] assms(2) by auto
  with enqueue_task_ts_spec [OF assms e] ts_order_enqueue [OF assms e] show ?thesis by blast
qed

theorem ts_enqueue_refines_insertion_witness:
  "\<exists>st'. enqueue_task_ts 0 3 0 ts_demo1 = Some st' \<and> ts_wf st'"
  using ts_enqueue_refines_insertion [OF ts_demo1(2,3)] by blast

text \<open>
  a queued task is always dequeued without fault; the queues stay well formed, only that
  task is unlinked, the dispatch order loses exactly that task, and the task can be enqueued
  again.
\<close>

theorem ts_dequeue_refines_removal:
  assumes "ts_wf st" "ts_linked st c p"
  shows "\<exists>st'. dequeue_task_ts c p f st = Some st' \<and> ts_wf st' \<and> ts_ready st' p \<and>
    (\<forall>d x. ts_linked st' d x \<longleftrightarrow> ts_linked st d x \<and> x \<noteq> p) \<and>
    (\<forall>d. ts_order st' d = removeAll p (ts_order st d))"
proof -
  obtain st' where e: "dequeue_task_ts c p f st = Some st'"
    using ts_queue.deq_total [OF assms] by auto
  with dequeue_task_ts_spec [OF assms e] ts_order_dequeue [OF assms e] show ?thesis by blast
qed

theorem ts_dequeue_refines_removal_witness:
  "\<exists>st'. dequeue_task_ts 0 2 0 ts_demo2 = Some st' \<and> ts_wf st' \<and> \<not> ts_linked st' 0 2"
  using ts_dequeue_refines_removal [OF ts_demo2(2,3)] by blast

text \<open>
  enqueue then dequeue is a round trip. Unless it is a wake-up, dequeueing a task that was
  just enqueued restores every queue of every CPU and the priority of every task.
\<close>

theorem ts_enqueue_dequeue_roundtrip:
  assumes wf: "ts_wf st" and r: "ts_ready st p" and nw: "\<not> has_flag f ENQUEUE_WAKEUP"
  shows "\<exists>s1 s2. enqueue_task_ts c p f st = Some s1 \<and> dequeue_task_ts c p g s1 = Some s2 \<and>
    (\<forall>d. rq_ts (rqs s2 d) = rq_ts (rqs st d)) \<and> (\<forall>x. prio_of s2 x = prio_of st x)"
proof -
  obtain s1 where e: "enqueue_task_ts c p f st = Some s1"
    using ts_queue.enq_total [OF wf, of p c f] r by auto
  note s1 = enqueue_task_ts_spec [OF wf r e]
  have lp: "ts_linked s1 c p" using s1(2) by simp
  obtain s2 where d: "dequeue_task_ts c p g s1 = Some s2" using ts_queue.deq_total [OF s1(1) lp] by auto
  have eq: "s1 = the (enqueue_task_ts c p f st)" using e by simp
  have lev: "ts_enq_level f st p = ts_level st p" using nw by (simp add: ts_enq_level_def)
  have un: "\<not> qs_mem p (rq_ts (rqs st d))" for d
    using ts_not_linked [OF wf ts_readyD(3) [OF r], of d] by (simp add: ts_linked_def)
  have q1: "rq_ts (rqs s1 d) = (if d = c then qs_add_tail (nat (ts_level st p)) p (rq_ts (rqs st c)) else rq_ts (rqs st d))" for d
    unfolding eq enqueue_task_ts_eq [OF wf r] lev by (simp add: st_simps)
  have "rq_ts (rqs s2 d) = rq_ts (rqs st d)" for d
    unfolding dequeue_task_ts_spec(4) [OF s1(1) lp d] q1
    using ts_readyD(1,2) [OF r] ts_wfD(1) [OF wf, of c] un
    by (auto simp: qs_del_add_tail qs_del_absent nat_less_iff)
  moreover have "prio_of s2 x = prio_of st x" for x
    using d unfolding eq enqueue_task_ts_eq [OF wf r] lev
    by (auto simp: dequeue_task_ts_def ts_list_del_Some st_simps ts_level_def)
  ultimately show ?thesis using e d by blast
qed

theorem ts_enqueue_dequeue_roundtrip_witness:
  "\<exists>s1 s2. enqueue_task_ts 0 4 0 ts_demo1 = Some s1 \<and> dequeue_task_ts 0 4 0 s1 = Some s2 \<and>
     rq_ts (rqs s2 0) = rq_ts (rqs ts_demo1 0)"
  using ts_enqueue_dequeue_roundtrip [OF ts_demo1(2,4), of 0 0 0] by auto

text \<open>
  C24: picking is work conserving, highest level first and FIFO inside a level. If no
  \<open>SCHED_TS\<close> task is queued the class returns \<open>NULL\<close> and changes nothing; otherwise it calls
  \<open>put_prev_task\<close> and returns the head of the dispatch order, a queued task whose priority
  is the best of all queued ones, provided \<open>put_prev_task\<close> succeeds and leaves the TS queues
  of this CPU alone.
\<close>

theorem ts_pick_next_head:
  assumes wf: "ts_wf st" and pp: "put_prev c prev st = Some st1" and same: "rq_ts (rqs st1 c) = rq_ts (rqs st c)"
  shows "pick_next_task_ts put_prev c prev st =
      (if ts_order st c = [] then Some (None, st) else Some (Some (hd (ts_order st c)), st1)) \<and>
    (ts_order st c \<noteq> [] \<longrightarrow> ts_linked st c (hd (ts_order st c)) \<and>
      (\<forall>q. ts_linked st c q \<longrightarrow> prio_of st (hd (ts_order st c)) \<le> prio_of st q))"
proof (cases "pick_ts_loop (rq_ts (rqs st c)) 40")
  case None
  then show ?thesis using pick_ts_order(1) [OF wf, of c] by (simp add: pick_next_task_ts_def)
next
  case (Some i)
  from pick_ts_order(2) [OF wf Some] obtain rest xs where
    o: "rq_ts (rqs st c) ! i = hd (ts_order st c) # rest" "ts_order st c = hd (ts_order st c) # xs" by blast
  obtain p r where "rq_ts (rqs st c) ! i = p # r" "ts_linked st c p" "ts_level st p = int i"
    "\<And>q. ts_linked st c q \<Longrightarrow> ts_level st q \<le> int i" by (rule pick_ts_head [OF wf Some]) (rule that; assumption)
  with o Some pp same show ?thesis by (fastforce simp: pick_next_task_ts_def ts_level_def)
qed

theorem ts_pick_next_head_witness:
  "pick_next_task_ts (\<lambda>c p. Some \<circ> put_prev_task_ts c p) 0 0 ts_demo2 =
     (if ts_order ts_demo2 0 = [] then Some (None, ts_demo2) else Some (Some (hd (ts_order ts_demo2 0)), ts_demo2))"
  using ts_pick_next_head [OF ts_demo2(2), of "\<lambda>c p. Some \<circ> put_prev_task_ts c p" 0 0 ts_demo2]
  by (simp add: put_prev_task_ts_def)

text \<open>
  \<open>sched_yield\<close> of a running \<open>SCHED_TS\<close> task never faults and sends it behind every other
  task of its level: priorities and the set of queued tasks are unchanged, and its queue is
  the old one without the task, followed by the task.
\<close>

theorem ts_yield_goes_last:
  assumes wf: "ts_wf st" and l: "ts_linked st c (curr_of st c)"
  shows "\<exists>st'. yield_task_ts c st = Some st' \<and> ts_wf st' \<and> (\<forall>d x. ts_linked st' d x \<longleftrightarrow> ts_linked st d x) \<and>
    (\<forall>x. prio_of st' x = prio_of st x) \<and>
    rq_ts (rqs st' c) ! nat (ts_level st (curr_of st c)) =
      removeAll (curr_of st c) (rq_ts (rqs st c) ! nat (ts_level st (curr_of st c))) @ [curr_of st c]"
proof -
  let ?p = "curr_of st c"
  note lev = ts_linked_level [OF wf l]
  obtain st' where m: "ts_list_move_tail c (ts_level st ?p) ?p st = Some st'" "ts_wf st'"
    "\<And>d x. ts_linked st' d x \<longleftrightarrow> ts_linked st d x"
    "rq_ts (rqs st' c) = qs_add_tail (nat (ts_level st ?p)) ?p (qs_del ?p (rq_ts (rqs st c)))"
    "tasks st' = (tasks st)(?p := (tasks st ?p)\<lparr>p_ts_node := On_list\<rparr>)"
    by (rule ts_list_move_tail_spec [OF wf l, of "ts_level st ?p" st])
      (use lev in \<open>simp_all add: ts_level_def\<close>)
  moreover have "rq_ts (rqs st' c) ! nat (ts_level st ?p) = removeAll ?p (rq_ts (rqs st c) ! nat (ts_level st ?p)) @ [?p]"
    using lev ts_wfD(1) [OF wf, of c] by (simp add: m(4) q_simps nat_less_iff)
  ultimately show ?thesis by (auto simp: yield_task_ts_def ts_level_def Let_def)
qed

theorem ts_yield_goes_last_witness:
  "\<exists>st'. yield_task_ts 0 (upd_rq 0 (\<lambda>r. r\<lparr>rq_curr := 2\<rparr>) ts_demo2) = Some st' \<and> ts_wf st'"
proof -
  let ?s = "upd_rq 0 (\<lambda>r. r\<lparr>rq_curr := 2\<rparr>) ts_demo2"
  have l: "ts_linked ?s d x = ts_linked ts_demo2 d x" for d x by (simp add: ts_linked_def st_simps)
  have w: "ts_wf ?s" using ts_demo2(2) unfolding ts_wf_def l ts_level_def by (simp add: st_simps)
  have "ts_linked ?s 0 (curr_of ?s 0)" using ts_demo2(3) l by (simp add: st_simps)
  from ts_yield_goes_last [OF w this] show ?thesis by blast
qed

text \<open>
  a timer tick of a queued \<open>SCHED_TS\<close> task whose slice is between 1 and 16 never faults and
  keeps it so (the counter never wraps). While the slice has more than one tick left only the
  counter changes; when it expires the task drops ten levels (never below 0), gets the slice
  of its new level, is moved to the tail of that level's queue and the current task of the
  CPU is marked for rescheduling.
\<close>

theorem ts_tick_demotes:
  assumes "ts_on_cpu st c p"
  shows "\<exists>st'. task_tick_ts c p st = Some st' \<and> ts_on_cpu st' c p \<and>
    (\<forall>d x. ts_linked st' d x \<longleftrightarrow> ts_linked st d x) \<and>
    (if p_ts_time_slice (tasks st p) = 1
     then ts_level st' p = ts_demote (ts_level st p) \<and>
          unat (p_ts_time_slice (tasks st' p)) = ts_slice_for (ts_level st' p) \<and>
          rq_ts (rqs st' c) = qs_add_tail (nat (ts_level st' p)) p (qs_del p (rq_ts (rqs st c))) \<and>
          p_need_resched (tasks st' (curr_of st c))
     else ts_level st' p = ts_level st p \<and> p_ts_time_slice (tasks st' p) = p_ts_time_slice (tasks st p) - 1 \<and>
          rqs st' = rqs st)"
proof (cases "p_ts_time_slice (tasks st p) = 1")
  case True
  have a: "ts_wf st" "ts_linked st c p" "p_policy (tasks st p) = SCHED_TS"
    using assms by (simp_all add: ts_on_cpu_def)
  obtain st' where "task_tick_ts c p st = Some st'"
    "\<And>d x. ts_linked st' d x \<longleftrightarrow> ts_linked st d x"
    "rq_ts (rqs st' c) = qs_add_tail (nat (ts_level st' p)) p (qs_del p (rq_ts (rqs st c)))"
    "p_need_resched (tasks st' (curr_of st c))"
    by (rule task_tick_ts_expired [OF a True]) (rule that; assumption)
  moreover obtain s2 where "task_tick_ts c p st = Some s2" "ts_on_cpu s2 c p"
    "ts_level s2 p = ts_demote (ts_level st p)"
    "unat (p_ts_time_slice (tasks s2 p)) = ts_slice_for (ts_level s2 p)"
    by (rule ts_on_cpu_expired [OF assms True])
  ultimately show ?thesis using True by auto
next
  case False
  obtain n where n: "unat (p_ts_time_slice (tasks st p)) = Suc n" by (rule ts_slice_Suc [OF assms])
  with False have "unat (p_ts_time_slice (tasks st p)) \<ge> 2" by (cases n) (auto simp: word_unat_eq_iff)
  moreover from this obtain s2 where "task_tick_ts c p st = Some s2" "ts_on_cpu s2 c p"
    by (rule ts_on_cpu_running [OF assms]) (rule that; assumption)
  moreover have "p_policy (tasks st p) = SCHED_TS" using assms by (simp add: ts_on_cpu_def)
  ultimately show ?thesis using False task_tick_ts_running [of st p c]
    by (auto simp: ts_linked_def ts_level_def upd_task_def)
qed

lemma ts_demo1_on_cpu: "ts_on_cpu ts_demo1 0 2"
  by (simp add: ts_on_cpu_def ts_demo1 ts_slice_ok_def ts_demo1_fields)

theorem ts_tick_demotes_witness:
  "\<exists>st'. task_tick_ts 0 2 ts_demo1 = Some st' \<and> p_ts_time_slice (tasks st' 2) = 11"
  using ts_tick_demotes [OF ts_demo1_on_cpu] by (auto simp: ts_demo1_fields)

text \<open>
  C25: no \<open>SCHED_TS\<close> task keeps a high level by computing: a queued task with a valid slice that
  is ticked without sleeping reaches level 0 after at most 64 ticks, without a fault.
\<close>

theorem ts_cpu_bound_sinks:
  assumes "ts_on_cpu st c p"
  shows "\<exists>n st'. n \<le> 64 \<and> ts_ticks n c p st = Some st' \<and> ts_on_cpu st' c p \<and> ts_level st' p = 0"
proof -
  have "ts_level st p < 40" using ts_linked_level(2) assms by (auto simp: ts_on_cpu_def)
  then show ?thesis using ts_sink [OF assms, of 4] by auto
qed

theorem ts_cpu_bound_sinks_witness:
  "\<exists>n st'. n \<le> 64 \<and> ts_ticks n 0 2 ts_demo1 = Some st' \<and> ts_level st' 2 = 0"
  using ts_cpu_bound_sinks [OF ts_demo1_on_cpu] by blast

text \<open>
  sleeping pays off. A wake-up enqueue never lowers the level of a task and always
  lands it in levels 30 to 39, above every level a task has right after its slice expired.
\<close>

theorem ts_wakeup_boosts:
  assumes wf: "ts_wf st" and r: "ts_ready st p" and e: "enqueue_task_ts c p ENQUEUE_WAKEUP st = Some st'"
  shows "ts_level st p \<le> ts_level st' p \<and> 30 \<le> ts_level st' p \<and> ts_level st' p \<le> 39 \<and>
    (\<forall>l. 0 \<le> l \<and> l < 40 \<longrightarrow> ts_demote l < ts_level st' p)"
proof -
  have w: "has_flag ENQUEUE_WAKEUP ENQUEUE_WAKEUP" by (simp add: has_flag_def queue_flags)
  have "ts_level st' p = SleepPrioLUT ! nat (ts_level st p)"
    using enqueue_task_ts_spec(3) [OF wf r e] w by (simp add: ts_enq_level_def)
  with SleepPrioLUT_bounds [OF ts_readyD(1,2) [OF r]] ts_demote_bounds show ?thesis by force
qed

theorem ts_wakeup_boosts_witness:
  "30 \<le> ts_level (the (enqueue_task_ts 0 4 ENQUEUE_WAKEUP ts_demo1)) 4"
  using ts_wakeup_boosts [OF ts_demo1(2,4), of 0] enqueue_task_ts_eq [OF ts_demo1(2,4), of 0 ENQUEUE_WAKEUP]
  by simp

text \<open>
  \<open>sched_rr_get_interval\<close> of a \<open>SCHED_TS\<close> task in the nice range reports 4, 8, 12 or 16 ticks,
  the slice the tick handler hands out for the task's level.
\<close>

theorem ts_rr_interval_bounds:
  assumes "100 \<le> prio_of st p" "prio_of st p \<le> 139"
  shows "unat (get_rr_interval_ts c p st) = ts_slice_for (ts_level st p) \<and>
    4 \<le> unat (get_rr_interval_ts c p st) \<and> unat (get_rr_interval_ts c p st) \<le> 16"
proof -
  have l: "0 \<le> ts_level st p" "ts_level st p < 40" using assms by (auto simp: ts_level_def)
  have "get_rr_interval_ts c p st = word_of_int ((4 - ts_level st p div 10) * 4)"
    using l(1) by (simp add: get_rr_interval_ts_def ts_level_def Let_def)
  then show ?thesis using ts_slice_word [OF l] ts_slice_for_bounds [OF l] by simp
qed

theorem ts_rr_interval_bounds_witness: "4 \<le> unat (get_rr_interval_ts 0 2 ts_demo1)"
  using ts_rr_interval_bounds [of ts_demo1 2 0] by (simp add: ts_demo1_fields)

end
