(* ===== verification/Sched_RT_Props.thy ===== *)
theory Sched_RT_Props
  imports Sched_RT_Inv
begin

text \<open>
  What the real-time class promises on one run queue. The abstract view is the dispatch order
  \<open>rt_order\<close>: one list of tasks, lowest priority number first and first-come first-served
  inside a priority. Enqueueing is a stable insertion into it (in front of its equals with
  \<open>ENQUEUE_HEAD\<close>, behind them otherwise), dequeueing a removal, picking takes the head, a yield
  and the end of a round-robin slice put the task behind its equals.
\<close>

section \<open>Dispatch order\<close>

definition rt_order :: "sched_state \<Rightarrow> cpu \<Rightarrow> tid list" where
  "rt_order st c = concat (rt_queue (rtq st c))"

definition rt_insert :: "bool \<Rightarrow> (tid \<Rightarrow> int) \<Rightarrow> tid \<Rightarrow> tid list \<Rightarrow> tid list" where
  "rt_insert head prio p xs =
    takeWhile (\<lambda>q. if head then prio q < prio p else prio q \<le> prio p) xs @ p #
    dropWhile (\<lambda>q. if head then prio q < prio p else prio q \<le> prio p) xs"

lemma set_rt_order: "p \<in> set (rt_order st c) \<longleftrightarrow> rt_linked st c p"
  by (auto simp: rt_order_def rt_linked_def qs_mem_def)

lemma concat_split_nth:
  "l < length qs \<Longrightarrow> concat qs = concat (take l qs) @ qs ! l @ concat (drop (Suc l) qs)"
  by (subst id_take_nth_drop [of l qs]) (auto simp del: append_take_drop_id)

lemma in_concat_take_nth: "x \<in> set (concat (take n qs)) \<Longrightarrow> \<exists>i. i < n \<and> i < length qs \<and> x \<in> set (qs ! i)"
  by (auto simp: in_set_conv_nth) (metis nth_mem)

lemma in_concat_drop_nth: "x \<in> set (concat (drop n qs)) \<Longrightarrow> \<exists>i. n \<le> i \<and> i < length qs \<and> x \<in> set (qs ! i)"
  by (auto simp: in_set_conv_nth) (metis add.commute le_add1 less_diff_conv nth_mem)

lemma concat_insert:
  assumes l: "l < length qs" and p: "prio p = int l"
    and pr: "\<And>i x. i < length qs \<Longrightarrow> x \<in> set (qs ! i) \<Longrightarrow> prio x = int i"
  shows "concat (rt_ins head l p qs) = rt_insert head prio p (concat qs)"
proof -
  let ?lo = "concat (take l qs)" and ?hi = "concat (drop (Suc l) qs)"
  let ?P = "\<lambda>q. if head then prio q < prio p else prio q \<le> prio p"
  have lo: "\<forall>x \<in> set ?lo. prio x < prio p"
  proof
    fix x assume "x \<in> set ?lo"
    from in_concat_take_nth [OF this] pr p show "prio x < prio p" by auto
  qed
  have hi: "\<forall>x \<in> set ?hi. prio p < prio x"
  proof
    fix x assume "x \<in> set ?hi"
    from in_concat_drop_nth [OF this] pr p show "prio p < prio x" by auto
  qed
  have eq: "\<forall>x \<in> set (qs ! l). prio x = prio p" using pr [OF l] p by simp
  have new: "concat (rt_ins head l p qs) = ?lo @ (if head then p # qs ! l else qs ! l @ [p]) @ ?hi"
    using concat_split_nth [of l "rt_ins head l p qs"] l by (simp add: rt_ins_def qs_add_def qs_add_tail_def)
  have s: "concat qs = (if head then ?lo else ?lo @ qs ! l) @ (if head then qs ! l @ ?hi else ?hi)"
    using concat_split_nth [OF l] by simp
  have a: "\<forall>x \<in> set (if head then ?lo else ?lo @ qs ! l). ?P x" using lo eq by (auto simp: less_imp_le)
  have b: "\<forall>x \<in> set (if head then qs ! l @ ?hi else ?hi). \<not> ?P x" using hi eq by (auto simp del: set_concat)
  show ?thesis
    unfolding rt_insert_def s takeWhile_split [OF a b] new by simp
qed

lemma rt_order_insert:
  assumes wf: "rt_wf st" and p: "0 \<le> prio_of st p" "prio_of st p < 100"
    and qs: "rt_queue (rtq st' c) = rt_ins head (nat (prio_of st p)) p qs"
    and sub: "length qs = 100" "\<And>i x. i < 100 \<Longrightarrow> x \<in> set (qs ! i) \<Longrightarrow> x \<in> set (rt_queue (rtq st c) ! i)"
  shows "rt_order st' c = rt_insert head (prio_of st) p (concat qs)"
  unfolding rt_order_def qs
proof (rule concat_insert)
  show "prio_of st x = int i" if "i < length qs" "x \<in> set (qs ! i)" for i x
    using rt_wfD(4) [OF wf, of i x c] sub that by simp
qed (use p sub in auto)

section \<open>Enqueue, dequeue and pick\<close>

lemma enqueue_task_rt_order:
  assumes "rt_wf st" "rt_ready st c p" "move_entity f"
  obtains st' where "enqueue_task_rt c p f st = Some st'" "rt_wf st'"
    "rt_order st' c = rt_insert (has_flag f ENQUEUE_HEAD) (prio_of st) p (rt_order st c)"
    "\<And>d. d \<noteq> c \<Longrightarrow> rt_order st' d = rt_order st d"
    "\<And>x. x \<noteq> p \<Longrightarrow> rt_same_tasks st st' x" "prio_of st' p = prio_of st p" "\<And>d. rq_curr (rqs st' d) = rq_curr (rqs st d)"
proof -
  obtain st' where s: "enqueue_task_rt c p f st = Some st'" "rt_wf st'"
    "rt_queue (rtq st' c) = rt_ins (has_flag f ENQUEUE_HEAD) (nat (prio_of st p)) p (rt_queue (rtq st c))"
    "\<And>d. d \<noteq> c \<Longrightarrow> rt_queue (rtq st' d) = rt_queue (rtq st d)"
    "\<And>x. x \<noteq> p \<Longrightarrow> rt_same_tasks st st' x" "prio_of st' p = prio_of st p" "\<And>d. rq_curr (rqs st' d) = rq_curr (rqs st d)"
    using enqueue_task_rt_spec [OF assms] by metis
  have "rt_order st' c = rt_insert (has_flag f ENQUEUE_HEAD) (prio_of st) p (rt_order st c)"
    unfolding rt_order_def [of st]
    by (rule rt_order_insert [OF assms(1) _ _ s(3)])
      (use assms(2) rt_array_okD(1) [OF rt_wfD(1) [OF assms(1)]] in \<open>auto simp: rt_ready_def\<close>)
  with s that [of st'] show thesis by (auto simp: rt_order_def)
qed

lemma rt_ready_same: "rt_same_tasks st st' x \<Longrightarrow> rt_ready st' c x \<longleftrightarrow> rt_ready st c x"
  by (simp add: rt_ready_def rt_same_tasks_def)

subsection \<open>A concrete run queue\<close>

text \<open>
  Round-robin tasks at priority 50, task 4 at priority 10, each with one tick left; task 2, which
  is running, and then task 3 are queued on CPU 0.
\<close>

definition rt_demo0 :: sched_state where
  "rt_demo0 = blank_state\<lparr>tasks := (\<lambda>p. blank_task\<lparr>p_pid := int p, p_policy := SCHED_RR, p_class := Rt_class,
     p_prio := (if p = 4 then 10 else 50), p_rt_time_slice := 1\<rparr>), rqs := (\<lambda>_. blank_rq\<lparr>rq_curr := 2\<rparr>)\<rparr>"

definition rt_demo1 :: sched_state where "rt_demo1 = the (enqueue_task_rt 0 2 0 rt_demo0)"
definition rt_demo2 :: sched_state where "rt_demo2 = the (enqueue_task_rt 0 3 0 rt_demo1)"

lemma rt_demo0: "rt_wf rt_demo0" "p < MAX_TASKS \<Longrightarrow> rt_ready rt_demo0 0 p" "rt_order rt_demo0 c = []"
  "prio_of rt_demo0 p = (if p = 4 then 10 else 50)" "curr_of rt_demo0 c = 2"
proof -
  have f: "first_q (replicate 100 []) = 100" by (rule first_q_eqI) auto
  have a: "rt_array_ok (replicate 100 []) (replicate 100 False @ [True])"
    by (simp add: rt_array_ok_def nth_append)
  have "rt_counts_ok rt_demo0 c \<and> rt_top_ok rt_demo0 c" for c
    using f by (simp add: rt_counts_ok_def rt_top_ok_def rt_rest_def rt_demo0_def blank_defs MAX_TASKS_def)
  moreover have "rt_members_ok rt_demo0"
    by (simp add: rt_members_ok_def rt_linked_def qs_mem_def rt_demo0_def blank_defs)
  moreover have "rt_queue (rtq rt_demo0 c) = replicate 100 []" "rt_bitmap (rtq rt_demo0 c) = replicate 100 False @ [True]" for c
    by (simp_all add: rt_demo0_def blank_state_def blank_rq_def blank_rt_rq_def)
  ultimately show "rt_wf rt_demo0" using a by (simp add: rt_wf_def)
  show "rt_ready rt_demo0 0 p" if "p < MAX_TASKS"
    using that by (simp add: rt_ready_def rt_demo0_def blank_defs)
  show "rt_order rt_demo0 c = []" "prio_of rt_demo0 p = (if p = 4 then 10 else 50)" "curr_of rt_demo0 c = 2"
    by (simp_all add: rt_order_def rt_demo0_def blank_defs)
qed

lemma move_entity_0: "move_entity 0" by (simp add: move_entity_def queue_flags)

lemma rt_demo1: "enqueue_task_rt 0 2 0 rt_demo0 = Some rt_demo1" "rt_wf rt_demo1"
  "rt_order rt_demo1 0 = [2]" "x \<noteq> 2 \<Longrightarrow> rt_same_tasks rt_demo0 rt_demo1 x"
  "prio_of rt_demo1 x = (if x = 4 then 10 else 50)" "curr_of rt_demo1 0 = 2" "rt_linked rt_demo1 0 2"
proof -
  have "rt_ready rt_demo0 0 2" using rt_demo0(2) by (simp add: MAX_TASKS_def)
  from enqueue_task_rt_order [OF rt_demo0(1) this move_entity_0] obtain s where
    s: "enqueue_task_rt 0 2 0 rt_demo0 = Some s" "rt_wf s"
      "rt_order s 0 = rt_insert (has_flag 0 ENQUEUE_HEAD) (prio_of rt_demo0) 2 (rt_order rt_demo0 0)"
      "\<And>x. x \<noteq> 2 \<Longrightarrow> rt_same_tasks rt_demo0 s x" "prio_of s 2 = prio_of rt_demo0 2"
      "\<And>d. rq_curr (rqs s d) = rq_curr (rqs rt_demo0 d)" by metis
  have e: "rt_demo1 = s" using s(1) by (simp add: rt_demo1_def)
  show "enqueue_task_rt 0 2 0 rt_demo0 = Some rt_demo1" "rt_wf rt_demo1" "x \<noteq> 2 \<Longrightarrow> rt_same_tasks rt_demo0 rt_demo1 x"
    using s e by simp_all
  show o: "rt_order rt_demo1 0 = [2]" "curr_of rt_demo1 0 = 2"
    using s(3,6) e rt_demo0(3,5) by (simp_all add: rt_insert_def)
  show "rt_linked rt_demo1 0 2" using o set_rt_order [of 2 rt_demo1 0] by simp
  show "prio_of rt_demo1 x = (if x = 4 then 10 else 50)"
    using s(4) [of x] s(5) e rt_demo0(4) by (cases "x = 2") (auto simp: rt_same_tasks_def)
qed

lemma rt_demo1_ready: "rt_ready rt_demo1 0 3" "rt_ready rt_demo1 0 4"
  using rt_ready_same [OF rt_demo1(4), of 3] rt_ready_same [OF rt_demo1(4), of 4] rt_demo0(2)
  by (simp_all add: MAX_TASKS_def)

lemma rt_demo2: "enqueue_task_rt 0 3 0 rt_demo1 = Some rt_demo2" "rt_wf rt_demo2"
  "rt_order rt_demo2 0 = [2, 3]" "prio_of rt_demo2 x = (if x = 4 then 10 else 50)" "curr_of rt_demo2 0 = 2"
  "rt_linked rt_demo2 0 2" "rt_linked rt_demo2 0 3"
proof -
  from enqueue_task_rt_order [OF rt_demo1(2) rt_demo1_ready(1) move_entity_0] obtain s where
    s: "enqueue_task_rt 0 3 0 rt_demo1 = Some s" "rt_wf s"
      "rt_order s 0 = rt_insert (has_flag 0 ENQUEUE_HEAD) (prio_of rt_demo1) 3 (rt_order rt_demo1 0)"
      "\<And>x. x \<noteq> 3 \<Longrightarrow> rt_same_tasks rt_demo1 s x" "prio_of s 3 = prio_of rt_demo1 3"
      "\<And>d. rq_curr (rqs s d) = rq_curr (rqs rt_demo1 d)" by metis
  have e: "rt_demo2 = s" using s(1) by (simp add: rt_demo2_def)
  show "enqueue_task_rt 0 3 0 rt_demo1 = Some rt_demo2" "rt_wf rt_demo2"
    using s e by simp_all
  show o: "rt_order rt_demo2 0 = [2, 3]" "curr_of rt_demo2 0 = 2"
    using s(3,6) e rt_demo1(3,5,6) by (simp_all add: rt_insert_def)
  show "rt_linked rt_demo2 0 2" "rt_linked rt_demo2 0 3"
    using o set_rt_order [of 2 rt_demo2 0] set_rt_order [of 3 rt_demo2 0] by simp_all
  show "prio_of rt_demo2 x = (if x = 4 then 10 else 50)"
    using s(4) [of x] s(5) e rt_demo1(5) by (cases "x = 3") (auto simp: rt_same_tasks_def)
qed

text \<open>
  C8: In every consistent state, \<open>enqueue_task_rt\<close> of a task that is off the queues never
  reaches a \<open>BUG\<close> or corrupts a list, keeps the invariant (array, bitmap, counters, cached
  highest priority, share of \<open>nr_running\<close>), and its effect on the dispatch order is a stable
  insertion by priority: behind the tasks of equal priority, or in front of them with
  \<open>ENQUEUE_HEAD\<close>; other CPUs are untouched.
\<close>

theorem rt_enqueue_refines_insertion:
  assumes "rt_wf st" "rt_ready st c p" "move_entity f"
  shows "\<exists>st'. enqueue_task_rt c p f st = Some st' \<and> rt_wf st' \<and>
    rt_order st' c = rt_insert (has_flag f ENQUEUE_HEAD) (prio_of st) p (rt_order st c) \<and>
    (\<forall>d. d \<noteq> c \<longrightarrow> rt_order st' d = rt_order st d)"
  using enqueue_task_rt_order [OF assms] by metis

theorem rt_enqueue_refines_insertion_witness:
  "\<exists>st'. enqueue_task_rt 0 4 0 rt_demo1 = Some st' \<and> rt_order st' 0 = [4, 2]"
  using rt_enqueue_refines_insertion [OF rt_demo1(2) rt_demo1_ready(2) move_entity_0] rt_demo1(3,5)
  by (auto simp: rt_insert_def)



lemma concat_first:
  assumes "first_q qs < length qs" shows "concat qs = qs ! first_q qs @ concat (drop (Suc (first_q qs)) qs)"
proof -
  have "\<forall>q \<in> set (take (first_q qs) qs). q = []"
    using assms by (auto simp: in_set_conv_nth first_q_before)
  then have "concat (take (first_q qs) qs) = []" by simp
  then show ?thesis using concat_split_nth [OF assms] by simp
qed

lemma rt_order_sorted:
  assumes wf: "rt_wf st" shows "sorted (map (prio_of st) (rt_order st c))"
proof -
  have "sorted (map f (concat qs))" if "\<And>i x. i < length qs \<Longrightarrow> x \<in> set (qs ! i) \<Longrightarrow> f x = int (k + i)"
    for f :: "tid \<Rightarrow> int" and qs k
    using that
  proof (induction qs arbitrary: k)
    case (Cons q qs)
    have q: "f x = int k" if "x \<in> set q" for x using Cons.prems [of 0 x] that by simp
    have r: "f x = int (Suc k + i)" if "i < length qs" "x \<in> set (qs ! i)" for i x
      using Cons.prems [of "Suc i" x] that by simp
    have ge: "int k \<le> f y" if "y \<in> set (concat qs)" for y
      using that r by (force simp: in_set_conv_nth)
    have "map f q = replicate (length q) (int k)" using q by (simp add: map_replicate_const [symmetric])
    moreover have "sorted (replicate (length q) (int k))" by (simp add: sorted_replicate)
    moreover have "sorted (map f (concat qs))" by (rule Cons.IH [of "Suc k"]) (use r in blast)
    ultimately show ?case using ge q by (auto simp: sorted_append)
  qed simp
  from this [of _ "prio_of st" 0] show ?thesis
    using rt_wfD(4) [OF wf] rt_array_okD(1) [OF rt_wfD(1) [OF wf, of c]] by (simp add: rt_order_def)
qed

lemma pick_next_rt_entity_order:
  assumes wf: "rt_wf st" and ne: "rt_order st c \<noteq> []"
  shows "pick_next_rt_entity c st = Some (hd (rt_order st c))"
proof -
  let ?qs = "rt_queue (rtq st c)"
  note a = rt_wfD(1) [OF wf, of c]
  note d = rt_array_okD [OF a]
  have "first_q ?qs \<noteq> length ?qs" using ne first_q_none [of ?qs] by (simp add: rt_order_def)
  then have lt: "first_q ?qs < length ?qs" using first_q_le [of ?qs] by simp
  then obtain p rest where p: "?qs ! first_q ?qs = p # rest" using first_q_at [OF lt] by (meson neq_Nil_conv)
  then have "hd (rt_order st c) = p" using concat_first [OF lt] by (simp add: rt_order_def)
  then show ?thesis
    using rt_array_first [OF a] lt d(1) p
    by (simp add: pick_next_rt_entity_def Let_def in_bounds_def MAX_RT_PRIO_def)
qed

text \<open>
  C13: When the class has a queued task, \<open>_pick_next_task_rt\<close> does not reach its \<open>BUG_ON\<close> and
  returns the head of the dispatch order: no queued task has a higher priority, and among
  equals it is the one queued first. It stamps its start of execution and leaves the queues
  alone.
\<close>

theorem rt_pick_highest_first:
  assumes "rt_wf st" "rt_nr_running (rtq st c) \<noteq> 0"
  shows "\<exists>p st'. pick_next_task_rt_raw c st = Some (p, st') \<and> p = hd (rt_order st c) \<and> rt_linked st c p \<and>
    (\<forall>q. rt_linked st c q \<longrightarrow> prio_of st p \<le> prio_of st q) \<and>
    p_exec_start (tasks st' p) = rq_clock_task (rqs st c) \<and> rt_wf st' \<and> (\<forall>d. rt_order st' d = rt_order st d)"
proof -
  have ne: "rt_order st c \<noteq> []" using rt_nr_zero [OF assms(1), of c] assms(2) by (simp add: rt_order_def)
  define p where "p = hd (rt_order st c)"
  let ?st = "upd_task p (\<lambda>t. t\<lparr>p_exec_start := rq_clock_task (rqs st c)\<rparr>) st"
  have q: "rt_quiet st ?st" by (rule upd_task_quiet) (simp add: rt_same_tasks_def st_simps)
  obtain xs where xs: "rt_order st c = p # xs" using ne by (cases "rt_order st c") (auto simp: p_def)
  have "prio_of st p \<le> prio_of st y" if "rt_linked st c y" for y
    using that rt_order_sorted [OF assms(1), of c] xs set_rt_order [of y st c] by auto
  moreover have "pick_next_task_rt_raw c st = Some (p, ?st)"
    using pick_next_rt_entity_order [OF assms(1) ne] by (simp add: pick_next_task_rt_raw_def p_def)
  moreover have "rt_linked st c p" using xs set_rt_order [of p st c] by simp
  moreover have "rt_order ?st d = rt_order st d" for d using rt_quietD(1) [OF q] by (simp add: rt_order_def)
  ultimately show ?thesis using rt_quiet_wf [OF q assms(1)] xs by (auto simp: st_simps)
qed

theorem rt_pick_highest_first_witness: "\<exists>st'. pick_next_task_rt_raw 0 rt_demo2 = Some (2, st')"
proof -
  have "rt_nr_running (rtq rt_demo2 0) \<noteq> 0"
    using rt_nr_zero [OF rt_demo2(2), of 0] rt_demo2(3) by (simp add: rt_order_def [symmetric] del: concat_eq_Nil_conv)
  from rt_pick_highest_first [OF rt_demo2(2) this] rt_demo2(3) show ?thesis by auto
qed

section \<open>Requeueing\<close>

lemma rt_insert_same_prio: "(\<And>x. f x = g x) \<Longrightarrow> rt_insert h f p xs = rt_insert h g p xs"
  by (simp add: rt_insert_def)

lemma rt_link_sel:
  assumes "rt_link h c i p st = Some st'"
  shows "tasks st' = tasks st" "d \<noteq> c \<Longrightarrow> rt_core st' d = rt_core st d"
    "rt_queue (rtq st' c) = rt_ins h (nat i) p (rt_queue (rtq st c))"
    "rt_bitmap (rtq st' c) = rt_bitmap (rtq st c)" "rt_nr_running (rtq st' c) = rt_nr_running (rtq st c)"
    "rt_highest_curr (rtq st' c) = rt_highest_curr (rtq st c)" "rt_queued (rtq st' c) = rt_queued (rtq st c)"
    "rt_throttled (rtq st' c) = rt_throttled (rtq st c)" "rq_nr_running (rqs st' c) = rq_nr_running (rqs st c)"
    "rq_curr (rqs st' c) = rq_curr (rqs st c)"
  using assms by (auto simp: rt_link_def st_simps rt_core_def rt_ins_def split: if_splits)

text \<open>Taking a task off its queue and putting it back at either end changes neither bitmap nor counts.\<close>

lemma rt_array_requeue:
  fixes h :: bool
  assumes arr: "rt_array_ok qs bm" and i: "i < 100" and p: "p \<in> set (qs ! i)"
  defines "qs' \<equiv> rt_ins h i p (qs_del p qs)"
  shows "rt_array_ok qs' bm" "length (concat qs') = length (concat qs)" "first_q qs' = first_q qs"
    "j < 100 \<Longrightarrow> y \<in> set (qs' ! j) \<longleftrightarrow> y \<in> set (qs ! j)"
proof -
  note d = rt_array_okD [OF arr]
  define db where "db = (if qs_del p qs ! i = [] then bm[i := False] else bm)"
  have da: "rt_array_ok (qs_del p qs) db" using rt_array_delete(1) [OF arr i p] by (simp add: db_def)
  have "bm ! i" using d(4) [OF i] p by auto
  then have "bm[i := True] = bm" using list_update_id [of bm i] by simp
  then have dbm: "db[i := True] = bm" by (simp add: db_def)
  have un: "\<not> qs_mem p (qs_del p qs)" by (simp add: qs_mem_del)
  have q: "qs' = qs_add i p (qs_del p qs) \<or> qs' = qs_add_tail i p (qs_del p qs)" by (simp add: qs'_def rt_ins_def)
  note ins = rt_array_insert [OF da i un q]
  show ok: "rt_array_ok qs' bm" using ins(1) dbm by simp
  have "p \<in> set (concat qs)" using p i d(1) nth_mem [of i qs] by (simp only: set_concat) fastforce
  then have "length (concat qs) \<noteq> 0" by (metis empty_iff empty_set length_0_conv)
  then show "length (concat qs') = length (concat qs)"
    using rt_array_delete(3) [OF arr i p] ins(3) by (simp del: length_concat)
  show "first_q qs' = first_q qs" using rt_array_first [OF arr] rt_array_first [OF ok] by simp
  show "y \<in> set (qs' ! j) \<longleftrightarrow> y \<in> set (qs ! j)" if "j < 100"
  proof -
    have "j = i" if "p \<in> set (qs ! j)" using qs_ok_unique [OF d(5), of j i p] that p \<open>j < 100\<close> i d(1) by auto
    then show ?thesis using ins(5) [OF that] that d(1) p by (auto simp: q_simps)
  qed
qed

lemma requeue_task_rt_spec:
  assumes wf: "rt_wf st" and l: "rt_linked st c p"
  obtains st' where "requeue_task_rt c' p h st = Some st'" "rt_wf st'" "tasks st' = tasks st"
    "rt_order st' c = rt_insert h (prio_of st) p (removeAll p (rt_order st c))"
    "\<And>d. d \<noteq> c \<Longrightarrow> rt_order st' d = rt_order st d" "\<And>d. rq_curr (rqs st' d) = rq_curr (rqs st d)"
proof -
  note on = rt_linkedD [OF wf l]
  let ?i = "nat (prio_of st p)" and ?qs = "rt_queue (rtq st c)"
  note arr = rt_wfD(1) [OF wf, of c]
  note d = rt_array_okD [OF arr]
  have i: "?i < 100" using on by simp
  note re = rt_array_requeue [OF arr i on(7), where h = h]
  have unlinked: "rt_core (rt_unlink p st) e = rt_core st e" if "e \<noteq> c" for e
  proof -
    have "\<not> qs_mem p (rt_queue (rtq st e))" using on(1) that rt_linkedD(1) [OF wf, of e p] by (auto simp: rt_linked_def)
    then show ?thesis by (simp add: rt_core_def st_simps qs_del_absent)
  qed
  obtain st' where st': "rt_link h c (prio_of st p) p (rt_unlink p st) = Some st'"
    using on i d(1) by (simp add: rt_link_def in_bounds_def st_simps)
  note ls = rt_link_sel [OF st']
  have other: "rt_core st' e = rt_core st e" if "e \<noteq> c" for e using ls(2) [OF that] unlinked [OF that] by simp
  have q': "rt_queue (rtq st' c) = rt_ins h ?i p (qs_del p ?qs)" using ls(3) by (simp add: st_simps)
  have mem: "y \<in> set (rt_queue (rtq st' e) ! j) \<longleftrightarrow> y \<in> set (rt_queue (rtq st e) ! j)" if "j < 100" for e j y
    using q' re(4) [OF that, of y] rt_core_fields(1) [OF other, of e] by (cases "e = c") simp_all
  have l100: "length (rt_queue (rtq st' e)) = 100" "length (rt_queue (rtq st e)) = 100" for e
    using rt_array_okD(1) [OF rt_wfD(1) [OF wf, of e]] rt_array_okD(1) [OF re(1)] q' rt_core_fields(1) [OF other, of e]
    by (cases "e = c"; simp)+
  have linked: "rt_linked st' e y \<longleftrightarrow> rt_linked st e y" for e y
    by (simp add: rt_linked_def qs_mem_nth l100 mem cong: conj_cong)
  note cnt = rt_wfD(2,3) [OF wf, of c, unfolded rt_counts_ok_def rt_top_ok_def]
  have wf': "rt_wf st'"
  proof (rule rt_wfI_update [OF wf])
    show "rt_array_ok (rt_queue (rtq st' c)) (rt_bitmap (rtq st' c))"
      using re(1) ls(4) q' by (simp add: st_simps)
    show "rt_members_ok st'"
      unfolding rt_members_ok_def linked ls(1) using mem rt_wfD(4-6) [OF wf] by (simp add: st_simps)
  qed (use ls other re(2,3) q' cnt in \<open>simp_all add: st_simps rt_rest_def rt_top_ok_def del: length_concat\<close>)
  have "rt_order st' c = rt_insert h (prio_of st) p (concat (qs_del p ?qs))"
    by (rule rt_order_insert [OF wf on(2,3) q']) (use d(1) in \<open>auto simp: q_simps\<close>)
  then have ord: "rt_order st' c = rt_insert h (prio_of st) p (removeAll p (rt_order st c))"
    by (simp add: concat_qs_del rt_order_def)
  show thesis
  proof (rule that [OF _ wf' _ ord])
    show "requeue_task_rt c' p h st = Some st'"
      using on st' by (simp add: requeue_task_rt_def requeue_rt_entity_def rt_rq_of_se_def rt_se_prio_def)
    show "rt_order st' e = rt_order st e" if "e \<noteq> c" for e
      using rt_core_fields(1) [OF other [OF that]] by (simp add: rt_order_def)
    show "rq_curr (rqs st' e) = rq_curr (rqs st e)" for e
      using rt_core_fields(8) [OF other, of e] ls(10) by (cases "e = c") (simp_all add: st_simps)
  qed (simp add: ls(1) st_simps)
qed

text \<open>
  A real-time task that yields goes behind every task of its own priority, and so loses the
  CPU to the next one of them; the relative order of all other tasks is kept, and so is
  the invariant.
\<close>

theorem rt_yield_goes_last:
  assumes "rt_wf st" "rt_linked st c (curr_of st c)"
  shows "\<exists>st'. yield_task_rt c st = Some st' \<and> rt_wf st' \<and> tasks st' = tasks st \<and>
    rt_order st' c = rt_insert False (prio_of st) (curr_of st c) (removeAll (curr_of st c) (rt_order st c)) \<and>
    (\<forall>d. d \<noteq> c \<longrightarrow> rt_order st' d = rt_order st d)"
proof -
  obtain st' where "requeue_task_rt c (curr_of st c) False st = Some st'" "rt_wf st'" "tasks st' = tasks st"
    "rt_order st' c = rt_insert False (prio_of st) (curr_of st c) (removeAll (curr_of st c) (rt_order st c))"
    "\<And>d. d \<noteq> c \<Longrightarrow> rt_order st' d = rt_order st d"
    using requeue_task_rt_spec [OF assms, of c False] by metis
  then show ?thesis by (simp add: yield_task_rt_def)
qed

theorem rt_yield_goes_last_witness: "\<exists>st'. yield_task_rt 0 rt_demo2 = Some st' \<and> rt_order st' 0 = [3, 2]"
  using rt_yield_goes_last [of rt_demo2 0] rt_demo2 by (auto simp: rt_insert_def)

section \<open>The tick\<close>

text \<open>Accounting changes neither the policy nor the slice of a task.\<close>

definition rt_slice_frame :: "sched_state \<Rightarrow> sched_state \<Rightarrow> bool" where
  "rt_slice_frame st st' \<longleftrightarrow> rr_timeslice st' = rr_timeslice st \<and>
     (\<forall>q. p_policy (tasks st' q) = p_policy (tasks st q) \<and> p_rt_time_slice (tasks st' q) = p_rt_time_slice (tasks st q))"

lemma balance_loop_rr: "rr_timeslice (balance_loop period w me is st) = rr_timeslice st"
  by (induction "is" arbitrary: st) (simp_all add: Let_def add_runtime_def st_simps)

lemma runtime_exceeded_slice:
  assumes "sched_rt_runtime_exceeded c st = Some (b, s)"
  shows "rr_timeslice s = rr_timeslice st" "tasks s = tasks st"
proof -
  have fr: "rr_timeslice (balance_runtime c st) = rr_timeslice st"
    by (simp add: balance_runtime_def do_balance_runtime_def balance_loop_rr)
  have top: "dequeue_top_rt_rq c u = Some v \<Longrightarrow> rr_timeslice v = rr_timeslice u \<and> tasks v = tasks u" for u v
    by (auto simp: dequeue_top_rt_rq_def Let_def sub_nr_running_def st_simps split: if_splits)
  show "rr_timeslice s = rr_timeslice st" "tasks s = tasks st"
    using assms fr balance_runtime_frame(1) [of c st] top
    by (auto simp: sched_rt_runtime_exceeded_def Let_def sched_rt_rq_dequeue_def st_simps bind_eq_Some_conv split: if_splits)
qed

lemma resched_curr_slice: "rt_slice_frame st (resched_curr c st)"
  by (auto simp: rt_slice_frame_def resched_curr_def Let_def st_simps)

lemma update_curr_rt_slice:
  assumes "update_curr_rt c st = Some st'" shows "rt_slice_frame st st'"
proof -
  let ?t = "upd_task (curr_of st c) (\<lambda>t. t\<lparr>p_sum_exec := p_sum_exec t + (rq_clock_task (rqs st c) - p_exec_start (tasks st (curr_of st c))),
     p_exec_start := rq_clock_task (rqs st c)\<rparr>) st"
  have t: "rt_slice_frame st ?t" by (simp add: rt_slice_frame_def st_simps)
  have e: "rt_slice_frame ?t s \<and> rt_slice_frame ?t (resched_curr c s)"
    if "sched_rt_runtime_exceeded d (upd_rt d g ?t) = Some (b, s)" for d g b s
    using runtime_exceeded_slice [OF that] resched_curr_slice [of s c] by (simp add: rt_slice_frame_def st_simps)
  show ?thesis
    using assms t e unfolding update_curr_rt_def Let_def
    by (auto simp: bind_eq_Some_conv rt_slice_frame_def split: if_splits)
qed

lemma watchdog_quiet: "rt_quiet st (watchdog c p st)" "rt_slice_frame st (watchdog c p st)"
proof -
  show "rt_quiet st (watchdog c p st)"
    by (rule rt_quietI) (simp_all add: watchdog_def Let_def st_simps rt_core_def rt_same_tasks_def)
  show "rt_slice_frame st (watchdog c p st)"
    by (simp add: watchdog_def Let_def st_simps rt_slice_frame_def)
qed

lemma distinct_not_singleton:
  assumes "distinct xs" "p \<in> set xs" shows "xs \<noteq> [p] \<longleftrightarrow> (\<exists>q. q \<noteq> p \<and> q \<in> set xs)"
proof (cases xs)
  case (Cons a ys)
  then show ?thesis using assms by (cases ys) auto
qed (use assms in simp)

text \<open>The test of \<open>task_tick_rt\<close> for other entities on the queue.\<close>

lemma rt_has_company_iff:
  assumes wf: "rt_wf st" and l: "rt_linked st c p"
  shows "rt_has_company c p st \<longleftrightarrow> (\<exists>q. q \<noteq> p \<and> rt_linked st c q \<and> prio_of st q = prio_of st p)"
proof -
  let ?qs = "rt_queue (rtq st c)" and ?i = "nat (prio_of st p)"
  note on = rt_linkedD [OF wf l] and d = rt_array_okD [OF rt_wfD(1) [OF wf, of c]]
  have i: "?i < length ?qs" using on d(1) by simp
  have only: "q = ?qs ! ?i" if "q \<in> set ?qs" "p \<in> set q" for q
  proof -
    obtain j where j: "j < length ?qs" "q = ?qs ! j" using \<open>q \<in> set ?qs\<close> by (metis in_set_conv_nth)
    then show ?thesis using qs_ok_unique [OF d(5) j(1) i _ on(7)] that(2) by simp
  qed
  have "rt_has_company c p st \<longleftrightarrow> ?qs ! ?i \<noteq> [p]"
    unfolding rt_has_company_def list_ex_iff using only on(7) i nth_mem [OF i] by metis
  also have "\<dots> \<longleftrightarrow> (\<exists>q. q \<noteq> p \<and> q \<in> set (?qs ! ?i))"
    by (rule distinct_not_singleton [OF qs_ok_distinct [OF d(5) i] on(7)])
  also have "\<dots> \<longleftrightarrow> (\<exists>q. q \<noteq> p \<and> rt_linked st c q \<and> prio_of st q = prio_of st p)"
  proof -
    have "q \<in> set (?qs ! ?i) \<longleftrightarrow> rt_linked st c q \<and> prio_of st q = prio_of st p" for q
      using rt_linkedD(7) [OF wf, of c q] rt_wfD(4) [OF wf, of ?i q c] i d(1) on(2)
      by (auto simp: rt_linked_def qs_mem_nth cong: conj_cong) (metis)
    then show ?thesis by blast
  qed
  finally show ?thesis .
qed

text \<open>Putting a task that is alone at its priority behind its equals changes nothing.\<close>

lemma rt_insert_alone:
  assumes wf: "rt_wf st" and l: "rt_linked st c p" and alone: "\<not> rt_has_company c p st"
  shows "rt_insert False (prio_of st) p (removeAll p (rt_order st c)) = rt_order st c"
proof -
  let ?qs = "rt_queue (rtq st c)" and ?i = "nat (prio_of st p)"
  note on = rt_linkedD [OF wf l] and d = rt_array_okD [OF rt_wfD(1) [OF wf, of c]]
  have i: "?i < length ?qs" using on d(1) by simp
  have q: "?qs ! ?i = [p]" using alone on(7) nth_mem [OF i] by (auto simp: rt_has_company_def list_ex_iff)
  have o: "qs_del p ?qs ! j = ?qs ! j" if "j < length ?qs" "j \<noteq> ?i" for j
  proof -
    have "p \<notin> set (?qs ! j)" using that qs_ok_unique [OF d(5) that(1) i, of p] on(7) by blast
    then show ?thesis using that by (simp add: q_simps)
  qed
  have "rt_ins False ?i p (qs_del p ?qs) = ?qs"
    by (rule nth_equalityI) (use q o i in \<open>auto simp: rt_ins_def nth_qs_add_tail nth_qs_del\<close>)
  moreover have "concat (rt_ins False ?i p (qs_del p ?qs)) = rt_insert False (prio_of st) p (concat (qs_del p ?qs))"
  proof (rule concat_insert)
    show "prio_of st x = int j" if "j < length (qs_del p ?qs)" "x \<in> set (qs_del p ?qs ! j)" for j x
      using rt_wfD(4) [OF wf, of j x c] that d(1) by (simp add: q_simps)
  qed (use i on(2) in simp_all)
  ultimately show ?thesis by (simp add: rt_order_def concat_qs_del)
qed

text \<open>
  The tick of a queued \<open>SCHED_RR\<close> task. While its slice lasts, the slice shrinks by one and
  the dispatch order stays; when it ends, the slice is refilled to the configured one, the task
  goes behind its equals, and if it has any the running task is marked for rescheduling.
  The tick never faults and keeps the invariant.
\<close>

theorem rt_rr_tick:
  assumes "rt_wf st" "rt_linked st c p" "p_policy (tasks st p) = SCHED_RR"
  shows "\<exists>st'. task_tick_rt c p st = Some st' \<and> rt_wf st' \<and>
    (if p_rt_time_slice (tasks st p) \<noteq> 1
     then p_rt_time_slice (tasks st' p) = p_rt_time_slice (tasks st p) - 1 \<and> rt_order st' c = rt_order st c
     else p_rt_time_slice (tasks st' p) = rr_timeslice st \<and>
       rt_order st' c = rt_insert False (prio_of st) p (removeAll p (rt_order st c)) \<and>
       ((\<exists>q. q \<noteq> p \<and> rt_linked st c q \<and> prio_of st q = prio_of st p) \<longrightarrow> p_need_resched (tasks st' (curr_of st c))))"
proof -
  obtain u where u: "update_curr_rt c st = Some u" "rt_quiet st u" using update_curr_rt_quiet [OF assms(1)] by blast
  define w where "w = watchdog c p u"
  define k where "k = (if p_rt_time_slice (tasks st p) = 1 then rr_timeslice st else p_rt_time_slice (tasks st p) - 1)"
  define v where "v = upd_task p (\<lambda>t. t\<lparr>p_rt_time_slice := k\<rparr>) w"
  have fr: "rt_slice_frame st w" using update_curr_rt_slice [OF u(1)] watchdog_quiet(2) [of u c p] by (simp add: w_def rt_slice_frame_def)
  have qw: "rt_quiet st w" using rt_quiet_trans [OF u(2) watchdog_quiet(1)] by (simp add: w_def)
  have qv: "rt_quiet st v"
    by (rule rt_quiet_trans [OF qw]) (simp add: v_def upd_task_quiet rt_same_tasks_def st_simps)
  note wfv = rt_quiet_wf [OF qv assms(1)] and vd = rt_quietD [OF qv]
  have lv: "rt_linked v c p" using vd(2) assms(2) by simp
  have pr: "prio_of v = prio_of st" using vd(4) by (auto simp: rt_same_tasks_def fun_eq_iff)
  have pv: "prio_of v x = prio_of st x" for x using vd(4) [of x] by (simp add: rt_same_tasks_def)
  have cpu: "rt_rq_of_se v p = c" using rt_linkedD(1) [OF wfv lv] by (simp add: rt_rq_of_se_def)
  have sl: "p_rt_time_slice (tasks v p) = k" by (simp add: v_def st_simps)
  have ov: "rt_order v d = rt_order st d" for d using vd(1) by (simp add: rt_order_def)
  have vv: "upd_task p (\<lambda>t. t\<lparr>p_rt_time_slice := a\<rparr>) (upd_task p (\<lambda>t. t\<lparr>p_rt_time_slice := b\<rparr>) w) =
      upd_task p (\<lambda>t. t\<lparr>p_rt_time_slice := a\<rparr>) w" for a b by (simp add: upd_task_def)
  have tick: "task_tick_rt c p st = (if p_rt_time_slice (tasks st p) \<noteq> 1 then Some v
     else if rt_has_company c p v then do { s \<leftarrow> requeue_task_rt c p False v; Some (resched_curr c s) } else Some v)"
    using fr assms(3) u(1) cpu unfolding v_def
    by (cases "p_rt_time_slice (tasks st p) = 1")
      (simp_all add: task_tick_rt_def w_def [symmetric] Let_def rt_slice_frame_def st_simps k_def vv)
  note company = rt_has_company_iff [OF wfv lv, unfolded vd(2) pv]
  show ?thesis
  proof (cases "p_rt_time_slice (tasks st p) = 1 \<and> rt_has_company c p v")
    case True
    obtain s where s: "requeue_task_rt c p False v = Some s" "rt_wf s" "tasks s = tasks v"
      "rt_order s c = rt_insert False (prio_of v) p (removeAll p (rt_order v c))" "\<And>d. rq_curr (rqs s d) = rq_curr (rqs v d)"
      using requeue_task_rt_spec [OF wfv lv, of c False] by metis
    have "rt_order (resched_curr c s) c = rt_insert False (prio_of st) p (removeAll p (rt_order st c))"
      using s(4) by (simp add: rt_order_def [of "resched_curr c s"] st_simps ov pr) (simp add: rt_order_def)
    moreover have "p_rt_time_slice (tasks (resched_curr c s) p) = k"
      using resched_curr_slice [of s c] sl s(3) by (simp add: rt_slice_frame_def)
    moreover have "p_need_resched (tasks (resched_curr c s) (curr_of st c))"
      using resched_curr_sets [of c s] s(5) vd(3) by simp
    ultimately show ?thesis using True tick s(1) rt_quiet_wf [OF resched_quiet s(2)] by (simp add: k_def)
  next
    case False
    then have "task_tick_rt c p st = Some v" using tick by auto
    moreover have "rt_order st c = rt_insert False (prio_of st) p (removeAll p (rt_order st c))" if "\<not> rt_has_company c p v"
      using rt_insert_alone [OF wfv lv that] by (simp add: ov pr)
    ultimately show ?thesis using False wfv sl company ov by (auto simp: k_def)
  qed
qed

definition rt_demo3 :: sched_state where
  "rt_demo3 = upd_task 2 (\<lambda>t. t\<lparr>p_policy := SCHED_RR, p_rt_time_slice := 1\<rparr>) rt_demo2"

lemma rt_demo3: "rt_wf rt_demo3" "rt_linked rt_demo3 0 2" "rt_linked rt_demo3 0 3" "rt_order rt_demo3 0 = [2, 3]"
  "prio_of rt_demo3 x = (if x = 4 then 10 else 50)" "curr_of rt_demo3 0 = 2"
  "p_policy (tasks rt_demo3 2) = SCHED_RR" "p_rt_time_slice (tasks rt_demo3 2) = 1"
proof -
  have q: "rt_quiet rt_demo2 rt_demo3"
    unfolding rt_demo3_def by (rule upd_task_quiet) (simp add: rt_same_tasks_def st_simps)
  note d = rt_quietD [OF q]
  show "rt_wf rt_demo3" using rt_quiet_wf [OF q] rt_demo2(2) by simp
  show "rt_linked rt_demo3 0 2" "rt_linked rt_demo3 0 3" using d(2) rt_demo2(6,7) by simp_all
  show "rt_order rt_demo3 0 = [2, 3]" using d(1) rt_demo2(3) by (simp add: rt_order_def)
  show "prio_of rt_demo3 x = (if x = 4 then 10 else 50)" using d(4) [of x] rt_demo2(4) by (simp add: rt_same_tasks_def)
qed (use rt_demo2(5) in \<open>simp_all add: rt_demo3_def st_simps\<close>)

theorem rt_rr_tick_witness:
  "\<exists>st'. task_tick_rt 0 2 rt_demo3 = Some st' \<and> rt_order st' 0 = [3, 2] \<and> p_need_resched (tasks st' 2)"
proof -
  have "\<exists>q. q \<noteq> 2 \<and> rt_linked rt_demo3 0 q \<and> prio_of rt_demo3 q = prio_of rt_demo3 2"
    using rt_demo3(3,5) by (intro exI [of _ 3]) simp
  with rt_rr_tick [OF rt_demo3(1,2,7)] rt_demo3 show ?thesis by (auto simp: rt_insert_def)
qed

end
