(* ===== verification/Sched_Move.thy ===== *)
theory Sched_Move
  imports Sched_Core Sched_TS_Props Sched_RT_Props
begin

text \<open>
  Moving a queued task between CPUs (\<open>move_queued_task\<close>, and the \<open>deactivate_task\<close>,
  \<open>set_task_cpu\<close>, \<open>activate_task\<close> sequence of \<open>push_rt_task\<close>, \<open>pull_rt_task\<close> and
  \<open>__migrate_swap_task\<close>), for every class that meets the contract: the locale \<open>class_mover\<close>
  extends \<open>class_queue\<close> with what the core may touch without the class noticing, and is
  interpreted on the time-sharing and on the real-time class.
\<close>

section \<open>What the core may touch\<close>

definition class_view :: "task_struct \<Rightarrow> int \<times> sched_class \<times> lnode \<times> bool \<times> bool" where
  "class_view t = (p_prio t, p_class t, p_ts_node t, p_rt_on_rq t, p_rt_on_list t)"

definition queue_view :: "rq \<Rightarrow> rt_rq \<times> tid list list \<times> tid \<times> u32" where
  "queue_view r = (rq_rt r, rq_ts r, rq_curr r, rq_nr_running r)"

text \<open>A step of the core that leaves the queues and what the classes read of a task alone.\<close>

definition core_step :: "sched_state \<Rightarrow> sched_state \<Rightarrow> bool" where
  "core_step st st' \<longleftrightarrow> (\<forall>c. queue_view (rqs st' c) = queue_view (rqs st c)) \<and>
     (\<forall>x. class_view (tasks st' x) = class_view (tasks st x) \<and> p_cpu (tasks st' x) = p_cpu (tasks st x))"

text \<open>The same, but the task is assigned to another CPU.\<close>

definition cpu_step :: "tid \<Rightarrow> cpu \<Rightarrow> sched_state \<Rightarrow> sched_state \<Rightarrow> bool" where
  "cpu_step p d st st' \<longleftrightarrow> (\<forall>c. queue_view (rqs st' c) = queue_view (rqs st c)) \<and>
     (\<forall>x. class_view (tasks st' x) = class_view (tasks st x) \<and>
       p_cpu (tasks st' x) = (if x = p then d else p_cpu (tasks st x)))"

text \<open>What a class must leave alone.\<close>

definition class_kept :: "sched_state \<Rightarrow> sched_state \<Rightarrow> bool" where
  "class_kept st st' \<longleftrightarrow> (\<forall>x. p_class (tasks st' x) = p_class (tasks st x) \<and> p_on_rq (tasks st' x) = p_on_rq (tasks st x) \<and>
     p_cpu (tasks st' x) = p_cpu (tasks st x))"

lemma class_kept_refl [simp]: "class_kept st st" by (simp add: class_kept_def)
lemma class_kept_trans: "class_kept a b \<Longrightarrow> class_kept b c \<Longrightarrow> class_kept a c" by (simp add: class_kept_def)

lemma core_step_trans: "core_step a b \<Longrightarrow> core_step b c \<Longrightarrow> core_step a c"
  by (simp add: core_step_def)

lemma core_step_refl [simp]: "core_step st st" by (simp add: core_step_def)

lemma update_rq_clock_sel [st_simps]:
  "tasks (update_rq_clock c st) = tasks st" "queue_view (rqs (update_rq_clock c st) d) = queue_view (rqs st d)"
  by (auto simp: update_rq_clock_def update_rq_clock_task_def Let_def st_simps queue_view_def)

lemma clock_steps: "core_step st (update_rq_clock c st)" "class_kept st (update_rq_clock c st)"
  by (simp_all add: core_step_def class_kept_def st_simps)

lemma core_steps:
  "core_step st (resched_curr c st)" "class_kept st (resched_curr c st)"
  "core_step st (rq_clock_skip_update c st)" "class_kept st (rq_clock_skip_update c st)"
  "core_step st (upd_rq c (\<lambda>r. r\<lparr>rq_nr_unint := f r\<rparr>) st)" "class_kept st (upd_rq c (\<lambda>r. r\<lparr>rq_nr_unint := f r\<rparr>) st)"
  "core_step st (upd_task p (\<lambda>t. t\<lparr>p_on_rq := v\<rparr>) st)"
  by (auto simp: core_step_def class_kept_def st_simps class_view_def queue_view_def rq_clock_skip_update_def)

lemma set_task_cpu_step:
  assumes "class_migrate env (p_class (tasks st p)) = None"
  shows "cpu_step p d st (set_task_cpu env p d st)"
    "p_class (tasks (set_task_cpu env p d st) x) = p_class (tasks st x)"
    "p_on_rq (tasks (set_task_cpu env p d st) x) = p_on_rq (tasks st x)"
  using assms by (auto simp: set_task_cpu_def set_task_cpu_raw_def cpu_step_def class_view_def st_simps Let_def)

section \<open>The contract and the moves\<close>

locale class_mover = class_queue enq deq queued ready okf wf
  for enq deq queued ready okf wf +
  fixes cl :: sched_class
  assumes flags_ok: "okf 0" "okf DEQUEUE_NOCLOCK"
    and dispatch: "class_enqueue env cl = enq" "class_dequeue env cl = deq" "class_migrate env cl = None"
    and core_wf: "core_step st st' \<Longrightarrow> wf st \<Longrightarrow> wf st'"
    and core_queued: "core_step st st' \<Longrightarrow> queued st' c x \<longleftrightarrow> queued st c x"
    and core_ready: "core_step st st' \<Longrightarrow> ready st' c x \<longleftrightarrow> ready st c x"
    and cpu_wf: "cpu_step p d st st' \<Longrightarrow> wf st \<Longrightarrow> ready st c p \<Longrightarrow> wf st' \<and> ready st' d p"
    and cpu_queued: "cpu_step p d st st' \<Longrightarrow> queued st' c x \<longleftrightarrow> queued st c x"
    and enq_kept: "wf st \<Longrightarrow> ready st c p \<Longrightarrow> okf f \<Longrightarrow> enq c p f st = Some st' \<Longrightarrow> class_kept st st'"
    and deq_kept: "wf st \<Longrightarrow> queued st c p \<Longrightarrow> okf f \<Longrightarrow> deq c p f st = Some st' \<Longrightarrow> class_kept st st'"
    and preempt: "wf st \<Longrightarrow> queued st c p \<Longrightarrow>
      \<exists>st'. class_check_preempt env cl c p f st = Some st' \<and> wf st' \<and> class_kept st st' \<and> (\<forall>d x. queued st' d x \<longleftrightarrow> queued st d x)"
begin

lemma dequeue_total:
  assumes "wf st" "queued st c p" "okf f" "p_class (tasks st p) = cl"
  obtains st' where "dequeue_task env c p f st = Some st'" "wf st'" "ready st' c p" "class_kept st st'"
    "\<And>d x. queued st' d x \<longleftrightarrow> queued st d x \<and> x \<noteq> p"
proof -
  let ?u = "if \<not> has_flag f DEQUEUE_NOCLOCK then update_rq_clock c st else st"
  have u: "core_step st ?u" "class_kept st ?u" by (simp_all add: core_steps clock_steps)
  have w: "wf ?u" "queued ?u c p" using core_wf [OF u(1)] core_queued [OF u(1)] assms by simp_all
  obtain s where s: "deq c p f ?u = Some s" using deq_total [OF w assms(3)] by blast
  show thesis
  proof (rule that [of s])
    show "dequeue_task env c p f st = Some s"
      using s assms(4) dispatch by (auto simp: dequeue_task_def Let_def st_simps)
    show "queued s d x \<longleftrightarrow> queued st d x \<and> x \<noteq> p" for d x
      using deq_queued [OF w assms(3) s] core_queued [OF u(1)] by simp
  qed (use deq_wf [OF w assms(3) s] deq_ready [OF w assms(3) s] deq_kept [OF w assms(3) s] class_kept_trans [OF u(2)] in blast)+
qed

lemma enqueue_total:
  assumes "wf st" "ready st c p" "okf f" "p_class (tasks st p) = cl"
  obtains st' where "enqueue_task env c p f st = Some st'" "wf st'" "class_kept st st'"
    "\<And>d x. queued st' d x \<longleftrightarrow> queued st d x \<or> (d = c \<and> x = p)"
proof -
  let ?u = "if \<not> has_flag f ENQUEUE_NOCLOCK then update_rq_clock c st else st"
  have u: "core_step st ?u" "class_kept st ?u" by (simp_all add: core_steps clock_steps)
  have w: "wf ?u" "ready ?u c p" using core_wf [OF u(1)] core_ready [OF u(1)] assms by simp_all
  obtain s where s: "enq c p f ?u = Some s" using enq_total [OF w assms(3)] by blast
  show thesis
  proof (rule that [of s])
    show "enqueue_task env c p f st = Some s"
      using s assms(4) dispatch by (auto simp: enqueue_task_def Let_def st_simps)
    show "queued s d x \<longleftrightarrow> queued st d x \<or> (d = c \<and> x = p)" for d x
      using enq_queued [OF w assms(3) s] core_queued [OF u(1)] by simp
  qed (use enq_wf [OF w assms(3) s] enq_kept [OF w assms(3) s] class_kept_trans [OF u(2)] in blast)+
qed

lemma check_preempt_total:
  assumes "wf st" "queued st c p" "p_class (tasks st p) = cl"
  obtains st' where "check_preempt_curr env c p f st = Some st'" "wf st'" "class_kept st st'"
    "\<And>d x. queued st' d x \<longleftrightarrow> queued st d x"
proof -
  obtain u where u: "wf u" "class_kept st u" "\<And>d x. queued u d x \<longleftrightarrow> queued st d x"
    "(let cur = p_class (tasks st (curr_of st c)); k = p_class (tasks st p) in
       if k = cur then class_check_preempt env cur c p f st
       else Some (if class_before all_classes cur k then resched_curr c st else st)) = Some u"
  proof (cases "p_class (tasks st (curr_of st c)) = cl")
    case True
    then show thesis using preempt [OF assms(1,2)] assms(3) that by fastforce
  next
    case False
    show thesis
    proof (rule that)
      let ?u = "if class_before all_classes (p_class (tasks st (curr_of st c))) (p_class (tasks st p)) then resched_curr c st else st"
      show "wf ?u" "class_kept st ?u" "queued ?u d x \<longleftrightarrow> queued st d x" for d x
        using core_wf [OF core_steps(1)] core_queued [OF core_steps(1)] core_steps(2) assms(1) by simp_all
    qed (use False assms(3) in auto)
  qed
  define v where "v = (if task_on_rq_queued u (curr_of u c) \<and> p_need_resched (tasks u (curr_of u c)) then rq_clock_skip_update c u else u)"
  have v: "core_step u v" "class_kept u v" by (simp_all add: v_def core_steps)
  show thesis
  proof (rule that [of v])
    show "check_preempt_curr env c p f st = Some v" using u(4) by (simp add: check_preempt_curr_def v_def)
  qed (use u v core_wf [OF v(1)] core_queued [OF v(1)] class_kept_trans in blast)+
qed

lemma retarget:
  assumes "wf st" "ready st c p" "p_class (tasks st p) = cl"
  shows "wf (set_task_cpu env p d st)" "ready (set_task_cpu env p d st) d p"
    "queued (set_task_cpu env p d st) e x \<longleftrightarrow> queued st e x" "p_class (tasks (set_task_cpu env p d st) x) = p_class (tasks st x)"
    "p_cpu (tasks (set_task_cpu env p d st) x) = (if x = p then d else p_cpu (tasks st x))"
proof -
  have "class_migrate env (p_class (tasks st p)) = None" using dispatch assms(3) by simp
  note s = set_task_cpu_step [OF this]
  show "wf (set_task_cpu env p d st)" "ready (set_task_cpu env p d st) d p"
    using cpu_wf [OF s(1) assms(1,2)] by blast+
  show "queued (set_task_cpu env p d st) e x \<longleftrightarrow> queued st e x" by (rule cpu_queued [OF s(1)])
  show "p_class (tasks (set_task_cpu env p d st) x) = p_class (tasks st x)" by (rule s(2))
  show "p_cpu (tasks (set_task_cpu env p d st) x) = (if x = p then d else p_cpu (tasks st x))"
    using s(1) by (simp add: cpu_step_def)
qed

text \<open>\<open>moved p new st st'\<close>: the task is queued on the new CPU and nowhere else, all others are where they were.\<close>

definition moved :: "tid \<Rightarrow> cpu \<Rightarrow> sched_state \<Rightarrow> sched_state \<Rightarrow> bool" where
  "moved p new st st' \<longleftrightarrow> wf st' \<and> p_cpu (tasks st' p) = new \<and> (\<forall>x. p_class (tasks st' x) = p_class (tasks st x)) \<and>
     (\<forall>d x. queued st' d x \<longleftrightarrow> (if x = p then d = new else queued st d x))"

lemma move_queued_task_total:
  assumes "wf st" "queued st c p" "p_class (tasks st p) = cl"
  shows "\<exists>st'. move_queued_task env c p new st = Some st' \<and> moved p new st st' \<and> p_on_rq (tasks st' p) = TASK_ON_RQ_QUEUED"
proof -
  let ?u = "upd_task p (\<lambda>t. t\<lparr>p_on_rq := TASK_ON_RQ_MIGRATING\<rparr>) st"
  note u = core_steps(7) [of st p TASK_ON_RQ_MIGRATING]
  have wu: "wf ?u" "queued ?u c p" "p_class (tasks ?u p) = cl"
    using core_wf [OF u assms(1)] core_queued [OF u] assms(2,3) by (simp_all add: st_simps)
  obtain s where s: "dequeue_task env c p DEQUEUE_NOCLOCK ?u = Some s" "wf s" "ready s c p" "class_kept ?u s"
    "\<And>d x. queued s d x \<longleftrightarrow> queued ?u d x \<and> x \<noteq> p" using dequeue_total [OF wu(1,2) flags_ok(2) wu(3)] by blast
  have cls: "p_class (tasks s x) = p_class (tasks st x)" for x using s(4) by (simp add: class_kept_def st_simps)
  note r = retarget [OF s(2,3), unfolded cls, OF assms(3)]
  let ?v = "set_task_cpu env p new s"
  obtain w where w: "enqueue_task env new p 0 ?v = Some w" "wf w" "class_kept ?v w"
    "\<And>d x. queued w d x \<longleftrightarrow> queued ?v d x \<or> (d = new \<and> x = p)"
    using enqueue_total [OF r(1,2) flags_ok(1), of env] r(4) cls assms(3) by metis
  let ?w = "upd_task p (\<lambda>t. t\<lparr>p_on_rq := TASK_ON_RQ_QUEUED\<rparr>) w"
  note k = core_steps(7) [of w p TASK_ON_RQ_QUEUED]
  have qw: "queued ?w d x \<longleftrightarrow> (if x = p then d = new else queued st d x)" for d x
    using core_queued [OF k] w(4) r(3) s(5) core_queued [OF u] by auto
  have cw: "p_class (tasks ?w x) = p_class (tasks st x)" for x using w(3) r(4) cls by (simp add: class_kept_def st_simps)
  have "queued ?w new p" using qw by simp
  then obtain t where t: "check_preempt_curr env new p 0 ?w = Some t" "wf t" "class_kept ?w t" "\<And>d x. queued t d x \<longleftrightarrow> queued ?w d x"
    using check_preempt_total [OF core_wf [OF k w(2)], of new p env 0] cw assms(3) by metis
  have "move_queued_task env c p new st = Some t"
    using s(1) w(1) t(1) r(5) by (simp add: move_queued_task_def Let_def)
  moreover have "moved p new st t"
    using t(2-4) qw cw w(3) r(5) by (simp add: moved_def class_kept_def st_simps)
  moreover have "p_on_rq (tasks t p) = TASK_ON_RQ_QUEUED" using t(3) by (simp add: class_kept_def st_simps)
  ultimately show ?thesis by blast
qed

text \<open>The other sequence the balancing code uses.\<close>

lemma deactivate_activate_total:
  assumes "wf st" "queued st c p" "p_class (tasks st p) = cl"
  shows "\<exists>s t. deactivate_task env c p 0 st = Some s \<and> activate_task env new p 0 (set_task_cpu env p new s) = Some t \<and>
    moved p new st t"
proof -
  let ?u = "if task_contributes_to_load (tasks st p) then upd_rq c (\<lambda>r. r\<lparr>rq_nr_unint := rq_nr_unint r + 1\<rparr>) st else st"
  have u: "core_step st ?u" "class_kept st ?u" by (simp_all add: core_steps clock_steps)
  have qu: "queued ?u c p" "p_class (tasks ?u p) = cl" using core_queued [OF u(1)] u(2) assms(2,3) by (simp_all only: class_kept_def)
  obtain s where s: "dequeue_task env c p 0 ?u = Some s" "wf s" "ready s c p" "class_kept ?u s"
    "\<And>d x. queued s d x \<longleftrightarrow> queued ?u d x \<and> x \<noteq> p"
    using dequeue_total [OF core_wf [OF u(1) assms(1)] qu(1) flags_ok(1) qu(2)] by blast
  have cls: "p_class (tasks s x) = p_class (tasks st x)" for x using s(4) u(2) by (simp add: class_kept_def)
  note r = retarget [OF s(2,3), unfolded cls, OF assms(3)]
  let ?v = "set_task_cpu env p new s"
  let ?x = "if task_contributes_to_load (tasks ?v p) then upd_rq new (\<lambda>r. r\<lparr>rq_nr_unint := rq_nr_unint r - 1\<rparr>) ?v else ?v"
  have x: "core_step ?v ?x" "class_kept ?v ?x" by (simp_all add: core_steps clock_steps)
  have c: "p_class (tasks ?x p) = cl" using x(2) r(4) [of env new p] cls assms(3) by (simp only: class_kept_def)
  have rx: "ready ?x new p" using core_ready [OF x(1)] r(2) by blast
  obtain t where t: "enqueue_task env new p 0 ?x = Some t" "wf t" "class_kept ?x t"
    "\<And>d y. queued t d y \<longleftrightarrow> queued ?x d y \<or> (d = new \<and> y = p)"
    using enqueue_total [OF core_wf [OF x(1) r(1)] rx flags_ok(1) c] by blast
  have "queued t d y \<longleftrightarrow> (if y = p then d = new else queued st d y)" for d y
    using t(4) core_queued [OF x(1)] r(3) s(5) core_queued [OF u(1)] by auto
  then have "moved p new st t"
    using t(2,3) x(2) r(4,5) [of env new] cls unfolding moved_def class_kept_def by metis
  then show ?thesis using s(1) t(1) by (auto simp: deactivate_task_def activate_task_def)
qed

end

section \<open>The time-sharing class\<close>

lemma ts_views:
  assumes "\<And>c. queue_view (rqs st' c) = queue_view (rqs st c)" "\<And>x. class_view (tasks st' x) = class_view (tasks st x)"
  shows "ts_wf st' \<longleftrightarrow> ts_wf st" "ts_linked st' c x \<longleftrightarrow> ts_linked st c x" "ts_ready st' x \<longleftrightarrow> ts_ready st x"
  using assms by (simp_all add: ts_wf_def ts_linked_def ts_ready_def ts_level_def queue_view_def class_view_def)

lemma ts_kept:
  "enqueue_task_ts c p f st = Some st' \<Longrightarrow> class_kept st st'" "dequeue_task_ts c p f st = Some st' \<Longrightarrow> class_kept st st'"
  by (auto simp: enqueue_task_ts_def dequeue_task_ts_def ts_list_add_tail_def ts_list_del_def class_kept_def st_simps
      bind_eq_Some_conv split: if_splits)

lemma core_step_views:
  "core_step st st' \<Longrightarrow> queue_view (rqs st' c) = queue_view (rqs st c)" "core_step st st' \<Longrightarrow> class_view (tasks st' x) = class_view (tasks st x)"
  "cpu_step p d st st' \<Longrightarrow> queue_view (rqs st' c) = queue_view (rqs st c)" "cpu_step p d st st' \<Longrightarrow> class_view (tasks st' x) = class_view (tasks st x)"
  by (simp_all add: core_step_def cpu_step_def)

interpretation ts_mover: class_mover enqueue_task_ts dequeue_task_ts ts_linked "\<lambda>st c p. ts_ready st p" "\<lambda>_. True" ts_wf Ts_class
proof (unfold_locales, goal_cases)
  case (2 env) then show ?case by (simp add: class_enqueue_def)
next
  case (3 env) then show ?case by (simp add: class_dequeue_def)
next
  case (4 env) then show ?case by (simp add: class_migrate_def)
next
  case (5 st st') then show ?case using ts_views(1) core_step_views(1,2) by blast
next
  case (6 st st' c x) then show ?case using ts_views(2) core_step_views(1,2) by blast
next
  case (7 st st' c x) then show ?case using ts_views(3) core_step_views(1,2) by blast
next
  case (8 p d st st' c) then show ?case using ts_views(1,3) core_step_views(3,4) by blast
next
  case (9 p d st st' c x) then show ?case using ts_views(2) core_step_views(3,4) by blast
next
  case (10 st c p f st') then show ?case using ts_kept(1) by blast
next
  case (11 st c p f st') then show ?case using ts_kept(2) by blast
next
  case (12 st c p env f)
  note v = core_step_views(1,2) [OF core_steps(1) [of st c]]
  show ?case
    using 12 ts_views(1,2) [of "resched_curr c st" st, OF v] core_steps(2) [of st c]
    by (simp add: class_check_preempt_def check_preempt_curr_ts_def)
qed simp_all

section \<open>The real-time class\<close>

lemma rt_views:
  assumes "\<And>c. queue_view (rqs st' c) = queue_view (rqs st c)" "\<And>x. class_view (tasks st' x) = class_view (tasks st x)"
  shows "rt_linked st' c x \<longleftrightarrow> rt_linked st c x" "rt_core st' c = rt_core st c"
  using assms by (simp_all add: rt_linked_def rt_core_def queue_view_def)

lemma core_step_rt_quiet: "core_step st st' \<Longrightarrow> rt_quiet st st'"
  by (rule rt_quietI) (simp_all add: core_step_def rt_core_def rt_same_tasks_def queue_view_def class_view_def)

lemma cpu_step_rt:
  assumes s: "cpu_step p d st st'" and wf: "rt_wf st" and r: "rt_ready st c p"
  shows "rt_wf st'" "rt_ready st' d p"
proof -
  have core: "rt_core st' e = rt_core st e" for e using rt_views(2) core_step_views(3,4) [OF s] by blast
  note f = rt_core_fields [OF core]
  have lnk: "rt_linked st' e x \<longleftrightarrow> rt_linked st e x" for e x using rt_views(1) core_step_views(3,4) [OF s] by blast
  have t: "prio_of st' x = prio_of st x" "p_rt_on_list (tasks st' x) = p_rt_on_list (tasks st x)"
    "p_rt_on_rq (tasks st' x) = p_rt_on_rq (tasks st x)" "p_cpu (tasks st' x) = (if x = p then d else p_cpu (tasks st x))" for x
    using s by (simp_all add: cpu_step_def class_view_def)
  have off: "\<not> rt_linked st e p" for e using rt_ready_unlinked [OF wf r] .
  have notin: "x \<noteq> p" if "i < 100" "x \<in> set (rt_queue (rtq st e) ! i)" for i x e
    using off [of e] that rt_array_okD(1) [OF rt_wfD(1) [OF wf, of e]] by (auto simp: rt_linked_def qs_mem_nth)
  have "rt_members_ok st'"
    unfolding rt_members_ok_def lnk t f using notin rt_wfD(4-6) [OF wf] off r by (auto simp: rt_ready_def)
  then show "rt_wf st'"
    using wf unfolding rt_wf_def rt_counts_ok_def rt_top_ok_def rt_rest_def f by blast
  show "rt_ready st' d p" using r t by (simp add: rt_ready_def)
qed

lemma update_curr_rt_kept:
  assumes "update_curr_rt c st = Some st'" shows "class_kept st st'"
proof -
  let ?t = "upd_task (curr_of st c) (\<lambda>t. t\<lparr>p_sum_exec := p_sum_exec t + (rq_clock_task (rqs st c) - p_exec_start (tasks st (curr_of st c))),
     p_exec_start := rq_clock_task (rqs st c)\<rparr>) st"
  have t: "class_kept st ?t" by (simp add: class_kept_def st_simps)
  have e: "class_kept ?t s \<and> class_kept ?t (resched_curr c s)"
    if "sched_rt_runtime_exceeded d (upd_rt d g ?t) = Some (b, s)" for d g b s
    using runtime_exceeded_slice(2) [OF that] core_steps(2) [of s c] by (simp add: class_kept_def st_simps)
  show ?thesis
    using assms t e unfolding update_curr_rt_def Let_def
    by (auto simp: bind_eq_Some_conv class_kept_def split: if_splits)
qed

lemma enqueue_task_rt_kept:
  assumes "rt_wf st" "rt_ready st c p" "move_entity f" "enqueue_task_rt c p f st = Some st'"
  shows "class_kept st st'"
proof -
  let ?u = "if has_flag f ENQUEUE_WAKEUP then upd_task p (\<lambda>t. t\<lparr>p_rt_timeout := 0\<rparr>) st else st"
  have u: "rt_quiet st ?u" using upd_task_quiet [of st p] by (simp add: rt_same_tasks_def st_simps)
  obtain s where s: "enqueue_rt_entity p f ?u = Some s"
    "tasks s = (tasks ?u)(p := (tasks ?u p)\<lparr>p_rt_on_list := True, p_rt_on_rq := True\<rparr>)"
    by (rule enqueue_rt_entity_wf [OF rt_quiet_wf [OF u assms(1)] iffD2 [OF rt_quietD(5) [OF u] assms(2)] assms(3)])
  have "tasks st' = tasks s" using assms(4) s(1) by (auto simp: enqueue_task_rt_def Let_def pushable_frame split: if_splits)
  then show ?thesis using s(2) by (simp add: class_kept_def st_simps)
qed

lemma dequeue_task_rt_kept:
  assumes "rt_wf st" "rt_linked st c p" "move_entity f" "dequeue_task_rt d p f st = Some st'"
  shows "class_kept st st'"
proof -
  obtain u where u: "update_curr_rt d st = Some u" "rt_quiet st u" using update_curr_rt_quiet [OF assms(1)] by blast
  obtain s where s: "dequeue_rt_entity p f u = Some s" "tasks s = (tasks u)(p := (tasks u p)\<lparr>p_rt_on_list := False, p_rt_on_rq := False\<rparr>)"
    by (rule dequeue_rt_entity_wf [OF rt_quiet_wf [OF u(2) assms(1)] iffD2 [OF rt_quietD(2) [OF u(2)] assms(2)] assms(3)])
  have "tasks st' = tasks s" using assms(4) u(1) s(1) by (auto simp: dequeue_task_rt_def pushable_frame)
  then have "class_kept u st'" using s(2) by (simp add: class_kept_def)
  then show ?thesis using class_kept_trans [OF update_curr_rt_kept [OF u(1)]] by blast
qed

lemma set_rt_insert: "set (rt_insert h f p xs) = insert p (set xs)"
proof -
  have "set xs = set (takeWhile P xs) \<union> set (dropWhile P xs)" for P by (metis set_append takeWhile_dropWhile_id)
  then show ?thesis unfolding rt_insert_def by simp
qed

lemma requeue_task_rt_linked:
  assumes wf: "rt_wf st" and l: "rt_linked st c p"
  obtains st' where "requeue_task_rt c p h st = Some st'" "rt_wf st'" "class_kept st st'" "\<And>d x. rt_linked st' d x \<longleftrightarrow> rt_linked st d x"
proof -
  obtain s where s: "requeue_task_rt c p h st = Some s" "rt_wf s" "tasks s = tasks st"
    "rt_order s c = rt_insert h (prio_of st) p (removeAll p (rt_order st c))" "\<And>d. d \<noteq> c \<Longrightarrow> rt_order s d = rt_order st d"
    using requeue_task_rt_spec [OF wf l, of c] by blast
  have "set (rt_order s c) = set (rt_order st c)"
    using l set_rt_order [of p st c] by (auto simp: s(4) set_rt_insert)
  then have "rt_linked s d x \<longleftrightarrow> rt_linked st d x" for d x
    using s(5) by (cases "d = c") (auto simp: set_rt_order [symmetric])
  then show thesis using that [of s] s by (simp add: class_kept_def)
qed

lemma check_preempt_rt_total:
  assumes "rt_wf st" "rt_linked st c p"
  shows "\<exists>st'. check_preempt_curr_rt env c p f st = Some st' \<and> rt_wf st' \<and> class_kept st st' \<and> (\<forall>d x. rt_linked st' d x \<longleftrightarrow> rt_linked st d x)"
proof -
  obtain s where s: "requeue_task_rt c p True st = Some s" "rt_wf s" "class_kept st s" "\<And>d x. rt_linked s d x \<longleftrightarrow> rt_linked st d x"
    using requeue_task_rt_linked [OF assms] by blast
  have ok: "rt_wf (resched_curr c u) \<and> class_kept st (resched_curr c u) \<and> (\<forall>d x. rt_linked (resched_curr c u) d x \<longleftrightarrow> rt_linked st d x)"
    if "rt_wf u" "class_kept st u" "\<And>d x. rt_linked u d x \<longleftrightarrow> rt_linked st d x" for u
    using rt_quiet_wf [OF resched_quiet that(1)] class_kept_trans [OF that(2) core_steps(2)] rt_quietD(2) [OF resched_quiet] that(3) by simp
  show ?thesis
    using s ok [of s] ok [of st] assms(1) by (auto simp: check_preempt_curr_rt_def check_preempt_equal_prio_def)
qed

interpretation rt_mover: class_mover enqueue_task_rt dequeue_task_rt rt_linked rt_ready move_entity rt_wf Rt_class
proof (unfold_locales, goal_cases)
  case 1 then show ?case by (rule move_entity_0)
next
  case 2 then show ?case by (simp add: move_entity_def queue_flags)
next
  case (3 env) then show ?case by (simp add: class_enqueue_def)
next
  case (4 env) then show ?case by (simp add: class_dequeue_def)
next
  case (5 env) then show ?case by (simp add: class_migrate_def)
next
  case (6 st st') then show ?case using rt_quiet_wf core_step_rt_quiet by blast
next
  case (7 st st' c x) then show ?case using rt_quietD(2) core_step_rt_quiet by blast
next
  case (8 st st' c x) then show ?case using rt_quietD(5) core_step_rt_quiet by blast
next
  case (9 p d st st' c) then show ?case using cpu_step_rt by blast
next
  case (10 p d st st' c x) then show ?case using rt_views(1) core_step_views(3,4) by blast
next
  case (11 st c p f st') then show ?case by (rule enqueue_task_rt_kept)
next
  case (12 st c p f st') then show ?case by (rule dequeue_task_rt_kept)
next
  case (13 st c p env f) then show ?case unfolding class_check_preempt_def using check_preempt_rt_total by simp
qed

end
