(* ===== verification/Sched_Policy.thy ===== *)
theory Sched_Policy
  imports Sched_Core
begin

text \<open>
  Changing the priority and the policy of a task (\<open>core.c\<close>): priority inheritance, nice values,
  \<open>__sched_setscheduler\<close> and the system calls on top of it, yielding, affinity and the
  queries. Permissions, security hooks, the deadline class's admission test, user memory and
  the task lookup are parameters (\<open>policy_env\<close>). The recheck loop of \<open>__sched_setscheduler\<close>
  re-reads the policy after taking the lock; within one step nobody else changes it, so it
  never repeats.
\<close>

record sched_attr =
  sa_policy :: int
  sa_flags :: u64
  sa_nice :: int
  sa_priority :: u32

record policy_env =
  pe_core :: kernel_env
  pe_capable :: "sched_state \<Rightarrow> bool"
  pe_sec_setnice :: "tid \<Rightarrow> int \<Rightarrow> sched_state \<Rightarrow> int"
  pe_sec_setscheduler :: "tid \<Rightarrow> sched_state \<Rightarrow> int"
  pe_sec_getscheduler :: "tid \<Rightarrow> sched_state \<Rightarrow> int"
  pe_checkparam_dl :: "sched_attr \<Rightarrow> bool"
  pe_dl_param_changed :: "tid \<Rightarrow> sched_attr \<Rightarrow> sched_state \<Rightarrow> bool"
  pe_dl_bandwidth :: "tid \<Rightarrow> sched_state \<Rightarrow> bool"
  pe_dl_overflow :: "tid \<Rightarrow> int \<Rightarrow> sched_attr \<Rightarrow> sched_state \<Rightarrow> bool \<times> sched_state"
  pe_setparam_dl :: "tid \<Rightarrow> sched_attr \<Rightarrow> sched_state \<Rightarrow> sched_state"
  pe_dl_preempt :: "tid \<Rightarrow> tid \<Rightarrow> sched_state \<Rightarrow> bool"
  pe_adjust_pi :: "tid \<Rightarrow> sched_state \<Rightarrow> sched_state"
  pe_find_task :: "int \<Rightarrow> sched_state \<Rightarrow> tid option"
  pe_cpuset_allowed :: "tid \<Rightarrow> sched_state \<Rightarrow> cpu list"

section \<open>Priority inheritance\<close>

definition rt_effective_prio_raw :: "int option \<Rightarrow> int \<Rightarrow> int" where
  "rt_effective_prio_raw pi_prio prio = (case pi_prio of Some q \<Rightarrow> min prio q | None \<Rightarrow> prio)"

definition rt_effective_prio :: "sched_state \<Rightarrow> tid \<Rightarrow> int \<Rightarrow> int" where
  "rt_effective_prio st p prio = rt_effective_prio_raw (map_option (prio_of st) (p_pi_top (tasks st p))) prio"

text \<open>The class and the flags \<open>rt_mutex_setprio\<close> gives a task for its new priority.\<close>

definition setprio_class :: "policy_env \<Rightarrow> tid \<Rightarrow> tid option \<Rightarrow> int \<Rightarrow> int \<Rightarrow> u32 \<Rightarrow> sched_state \<Rightarrow> u32 \<times> sched_state" where
  "setprio_class env p pi_task prio oldprio flags st =
    (if dl_prio prio then
       if \<not> dl_prio (p_normal_prio (tasks st p)) \<or>
          (case pi_task of Some q \<Rightarrow> dl_prio (prio_of st q) \<and> pe_dl_preempt env q p st | None \<Rightarrow> False)
       then (flags OR ENQUEUE_REPLENISH, upd_task p (\<lambda>t. t\<lparr>p_dl_boosted := True, p_class := Dl_class\<rparr>) st)
       else (flags, upd_task p (\<lambda>t. t\<lparr>p_dl_boosted := False, p_class := Dl_class\<rparr>) st)
     else if rt_prio prio then
       (if oldprio < prio then flags OR ENQUEUE_HEAD else flags,
        upd_task p (\<lambda>t. t\<lparr>p_dl_boosted := (if dl_prio oldprio then False else p_dl_boosted t), p_class := Rt_class\<rparr>) st)
     else
       (flags, upd_task p (\<lambda>t. t\<lparr>p_dl_boosted := (if dl_prio oldprio then False else p_dl_boosted t),
          p_rt_timeout := (if rt_prio oldprio then 0 else p_rt_timeout t), p_class := Fair_class\<rparr>) st))"

definition rt_mutex_setprio :: "policy_env \<Rightarrow> tid \<Rightarrow> tid option \<Rightarrow> sched_state \<Rightarrow> sched_state option" where
  "rt_mutex_setprio env p pi_task st =
    (let k = pe_core env;
         prio = rt_effective_prio_raw (map_option (prio_of st) pi_task) (p_normal_prio (tasks st p))
     in if p_pi_top (tasks st p) = pi_task \<and> prio = prio_of st p \<and> \<not> dl_prio prio then Some st
     else
       let c = p_cpu (tasks st p);
           st = upd_task p (\<lambda>t. t\<lparr>p_pi_top := pi_task\<rparr>) (update_rq_clock c st)
       in if (prio = prio_of st p \<and> \<not> dl_prio prio) \<or> p = rq_idle (rqs st c) then balance_callback k c st
       else
         let oldprio = prio_of st p;
             flags = DEQUEUE_SAVE OR DEQUEUE_MOVE OR DEQUEUE_NOCLOCK;
             flags = (if oldprio = prio then flags AND NOT DEQUEUE_MOVE else flags);
             prev_class = p_class (tasks st p);
             queued = task_on_rq_queued st p;
             running = task_current st c p
         in do {
           st \<leftarrow> (if queued then dequeue_task k c p flags st else Some st);
           st \<leftarrow> (if running then put_prev_task k c p st else Some st);
           let (flags, st) = setprio_class env p pi_task prio oldprio flags st;
           let st = upd_task p (\<lambda>t. t\<lparr>p_prio := prio\<rparr>) st;
           st \<leftarrow> (if queued then enqueue_task k c p flags st else Some st);
           st \<leftarrow> (if running then set_curr_task k c p st else Some st);
           balance_callback k c (check_class_changed k c p prev_class oldprio st)
         })"

section \<open>Nice values\<close>

definition task_nice :: "task_struct \<Rightarrow> int" where
  "task_nice t = PRIO_TO_NICE (p_static_prio t)"

definition set_user_nice :: "kernel_env \<Rightarrow> tid \<Rightarrow> int \<Rightarrow> sched_state \<Rightarrow> sched_state option" where
  "set_user_nice env p nice st =
    (if task_nice (tasks st p) = nice \<or> nice < MIN_NICE \<or> nice > MAX_NICE then Some st
     else
       let c = p_cpu (tasks st p); st = update_rq_clock c st in
       if task_has_dl_policy (tasks st p) \<or> task_has_rt_policy (tasks st p)
       then Some (upd_task p (\<lambda>t. t\<lparr>p_static_prio := NICE_TO_PRIO nice\<rparr>) st)
       else
         let queued = task_on_rq_queued st p; running = task_current st c p in do {
           st \<leftarrow> (if queued then dequeue_task env c p (DEQUEUE_SAVE OR DEQUEUE_NOCLOCK) st else Some st);
           st \<leftarrow> (if running then put_prev_task env c p st else Some st);
           st \<leftarrow> set_load_weight env p True (upd_task p (\<lambda>t. t\<lparr>p_static_prio := NICE_TO_PRIO nice\<rparr>) st);
           let old_prio = prio_of st p;
           let (prio, st) = effective_prio p st;
           let st = upd_task p (\<lambda>t. t\<lparr>p_prio := prio\<rparr>) st;
           let delta = prio - old_prio;
           st \<leftarrow> (if queued then do {
               st \<leftarrow> enqueue_task env c p (ENQUEUE_RESTORE OR ENQUEUE_NOCLOCK) st;
               Some (if delta < 0 \<or> (delta > 0 \<and> task_running st p) then resched_curr c st else st)
             } else Some st);
           if running then set_curr_task env c p st else Some st
         })"

definition nice_to_rlimit :: "int \<Rightarrow> int" where
  "nice_to_rlimit nice = MAX_NICE - nice + 1"

definition can_nice :: "policy_env \<Rightarrow> tid \<Rightarrow> int \<Rightarrow> sched_state \<Rightarrow> bool" where
  "can_nice env p nice st \<longleftrightarrow>
     word_of_int (nice_to_rlimit nice) \<le> p_rlim (tasks st p) RLIMIT_NICE \<or> pe_capable env st"

definition clamp :: "int \<Rightarrow> int \<Rightarrow> int \<Rightarrow> int" where
  "clamp v lo hi = (if v < lo then lo else if v > hi then hi else v)"

definition current :: "sched_state \<Rightarrow> tid" where
  "current st = curr_of st (this_cpu st)"

definition sys_nice :: "policy_env \<Rightarrow> int \<Rightarrow> sched_state \<Rightarrow> (int \<times> sched_state) option" where
  "sys_nice env increment st =
    (let increment = clamp increment (-40) 40;
         nice = clamp (task_nice (tasks st (current st)) + increment) MIN_NICE MAX_NICE
     in if increment < 0 \<and> \<not> can_nice env (current st) nice st then Some (- EPERM, st)
        else let r = pe_sec_setnice env (current st) nice st in
          if r \<noteq> 0 then Some (r, st)
          else do { st \<leftarrow> set_user_nice (pe_core env) (current st) nice st; Some (0, st) })"

definition task_prio :: "task_struct \<Rightarrow> int" where
  "task_prio t = p_prio t - MAX_RT_PRIO"

definition idle_cpu :: "sched_state \<Rightarrow> cpu \<Rightarrow> bool" where
  "idle_cpu st c \<longleftrightarrow> curr_of st c = rq_idle (rqs st c) \<and> rq_nr_running (rqs st c) = 0 \<and> rq_wake_list (rqs st c) = []"

definition find_process_by_pid :: "policy_env \<Rightarrow> int \<Rightarrow> sched_state \<Rightarrow> tid option" where
  "find_process_by_pid env pid st = (if pid \<noteq> 0 then pe_find_task env pid st else Some (current st))"

section \<open>Changing the policy\<close>

definition SETPARAM_POLICY :: int where "SETPARAM_POLICY = -1"

definition setscheduler_params :: "policy_env \<Rightarrow> tid \<Rightarrow> sched_attr \<Rightarrow> sched_state \<Rightarrow> sched_state option" where
  "setscheduler_params env p attr st =
    (let policy = (if sa_policy attr = SETPARAM_POLICY then p_policy (tasks st p) else sa_policy attr);
         st = upd_task p (\<lambda>t. t\<lparr>p_policy := policy\<rparr>) st;
         st = (if dl_policy policy then pe_setparam_dl env p attr st
               else if fair_policy policy then upd_task p (\<lambda>t. t\<lparr>p_static_prio := NICE_TO_PRIO (sa_nice attr)\<rparr>) st
               else st);
         st = upd_task p (\<lambda>t. t\<lparr>p_rt_priority := sa_priority attr\<rparr>) st;
         st = upd_task p (\<lambda>t. t\<lparr>p_normal_prio := normal_prio t\<rparr>) st
     in set_load_weight (pe_core env) p True st)"

definition class_for :: "int \<Rightarrow> int \<Rightarrow> sched_class" where
  "class_for prio policy =
    (if dl_prio prio then Dl_class else if rt_prio prio then Rt_class
     else if ts_policy policy then Ts_class else Fair_class)"

definition setscheduler_raw :: "policy_env \<Rightarrow> tid \<Rightarrow> sched_attr \<Rightarrow> bool \<Rightarrow> sched_state \<Rightarrow> sched_state option" where
  "setscheduler_raw env p attr keep_boost st = do {
     st \<leftarrow> setscheduler_params env p attr st;
     let prio = normal_prio (tasks st p);
     let prio = (if keep_boost then rt_effective_prio st p prio else prio);
     Some (upd_task p (\<lambda>t. t\<lparr>p_prio := prio, p_class := class_for prio (p_policy t)\<rparr>) st)
   }"

definition check_same_owner :: "tid \<Rightarrow> sched_state \<Rightarrow> bool" where
  "check_same_owner p st \<longleftrightarrow>
     p_euid (tasks st (current st)) = p_euid (tasks st p) \<or> p_euid (tasks st (current st)) = p_uid (tasks st p)"

text \<open>The checks of \<open>__sched_setscheduler\<close> before the lock: 0, or a negative error number.\<close>

definition setscheduler_valid :: "policy_env \<Rightarrow> tid \<Rightarrow> sched_attr \<Rightarrow> int \<Rightarrow> sched_state \<Rightarrow> bool" where
  "setscheduler_valid env p attr policy st \<longleftrightarrow>
     \<not> (sa_policy attr \<ge> 0 \<and> \<not> valid_policy policy) \<and>
     \<not> has_flag (sa_flags attr) (NOT (SCHED_FLAG_ALL OR SCHED_FLAG_SUGOV)) \<and>
     \<not> (p_has_mm (tasks st p) \<and> uint (sa_priority attr) > MAX_USER_RT_PRIO - 1) \<and>
     \<not> (\<not> p_has_mm (tasks st p) \<and> uint (sa_priority attr) > MAX_RT_PRIO - 1) \<and>
     \<not> (dl_policy policy \<and> \<not> pe_checkparam_dl env attr) \<and>
     rt_policy policy = (sa_priority attr \<noteq> 0)"

definition setscheduler_permitted :: "policy_env \<Rightarrow> tid \<Rightarrow> sched_attr \<Rightarrow> int \<Rightarrow> bool \<Rightarrow> sched_state \<Rightarrow> bool" where
  "setscheduler_permitted env p attr policy reset_on_fork st \<longleftrightarrow>
     \<not> (fair_policy policy \<and> sa_nice attr < task_nice (tasks st p) \<and> \<not> can_nice env p (sa_nice attr) st) \<and>
     \<not> (rt_policy policy \<and> policy \<noteq> p_policy (tasks st p) \<and> p_rlim (tasks st p) RLIMIT_RTPRIO = 0) \<and>
     \<not> (rt_policy policy \<and> sa_priority attr > p_rt_priority (tasks st p) \<and>
        ucast (sa_priority attr) > p_rlim (tasks st p) RLIMIT_RTPRIO) \<and>
     \<not> dl_policy policy \<and>
     \<not> (idle_policy (p_policy (tasks st p)) \<and> \<not> idle_policy policy \<and> \<not> can_nice env p (task_nice (tasks st p)) st) \<and>
     check_same_owner p st \<and>
     \<not> (p_reset_on_fork (tasks st p) \<and> \<not> reset_on_fork)"

definition setscheduler_precheck :: "policy_env \<Rightarrow> tid \<Rightarrow> sched_attr \<Rightarrow> int \<Rightarrow> bool \<Rightarrow> bool \<Rightarrow> sched_state \<Rightarrow> int" where
  "setscheduler_precheck env p attr policy reset_on_fork user st =
    (if \<not> setscheduler_valid env p attr policy st then - EINVAL
     else if user \<and> \<not> pe_capable env st \<and> \<not> setscheduler_permitted env p attr policy reset_on_fork st then - EPERM
     else if user \<and> has_flag (sa_flags attr) SCHED_FLAG_SUGOV then - EINVAL
     else if user then pe_sec_setscheduler env p st
     else 0)"

text \<open>The part under the lock: the task is taken off its queue, changed and put back.\<close>

definition setscheduler_change ::
  "policy_env \<Rightarrow> tid \<Rightarrow> sched_attr \<Rightarrow> int \<Rightarrow> bool \<Rightarrow> bool \<Rightarrow> sched_state \<Rightarrow> (int \<times> sched_state) option" where
  "setscheduler_change env p attr policy reset_on_fork pi st =
    (let k = pe_core env; c = p_cpu (tasks st p);
         newprio = (if dl_policy (sa_policy attr) then MAX_DL_PRIO - 1 else MAX_RT_PRIO - 1 - uint (sa_priority attr));
         st = upd_task p (\<lambda>t. t\<lparr>p_reset_on_fork := reset_on_fork\<rparr>) st;
         oldprio = prio_of st p;
         flags = DEQUEUE_SAVE OR DEQUEUE_MOVE OR DEQUEUE_NOCLOCK;
         flags = (if pi \<and> rt_effective_prio st p newprio = oldprio then flags AND NOT DEQUEUE_MOVE else flags);
         queued = task_on_rq_queued st p;
         running = task_current st c p
     in do {
       st \<leftarrow> (if queued then dequeue_task k c p flags st else Some st);
       st \<leftarrow> (if running then put_prev_task k c p st else Some st);
       let prev_class = p_class (tasks st p);
       st \<leftarrow> setscheduler_raw env p attr pi st;
       st \<leftarrow> (if queued
              then enqueue_task k c p (if oldprio < prio_of st p then flags OR ENQUEUE_HEAD else flags) st
              else Some st);
       st \<leftarrow> (if running then set_curr_task k c p st else Some st);
       let st = check_class_changed k c p prev_class oldprio st;
       let st = (if pi then pe_adjust_pi env p st else st);
       st \<leftarrow> balance_callback k c st;
       Some (0, st)
     })"

definition sched_setscheduler_raw ::
  "policy_env \<Rightarrow> tid \<Rightarrow> sched_attr \<Rightarrow> bool \<Rightarrow> bool \<Rightarrow> sched_state \<Rightarrow> (int \<times> sched_state) option" where
  "sched_setscheduler_raw env p attr user pi st =
    (let policy = (if sa_policy attr < 0 then p_policy (tasks st p) else sa_policy attr);
         reset_on_fork = (if sa_policy attr < 0 then p_reset_on_fork (tasks st p)
                          else has_flag (sa_flags attr) SCHED_FLAG_RESET_ON_FORK);
         r = setscheduler_precheck env p attr policy reset_on_fork user st
     in if r \<noteq> 0 then Some (r, st)
     else
       let c = p_cpu (tasks st p); st = update_rq_clock c st in
       if rq_stop (rqs st c) = Some p then Some (- EINVAL, st)
       else if policy = p_policy (tasks st p) \<and>
            \<not> (fair_policy policy \<and> sa_nice attr \<noteq> task_nice (tasks st p)) \<and>
            \<not> (rt_policy policy \<and> sa_priority attr \<noteq> p_rt_priority (tasks st p)) \<and>
            \<not> (dl_policy policy \<and> pe_dl_param_changed env p attr st)
         then Some (0, upd_task p (\<lambda>t. t\<lparr>p_reset_on_fork := reset_on_fork\<rparr>) st)
       else if user \<and> dl_policy policy \<and> \<not> has_flag (sa_flags attr) SCHED_FLAG_SUGOV \<and> \<not> pe_dl_bandwidth env p st
         then Some (- EPERM, st)
       else
         let (busy, st) = (if dl_policy policy \<or> dl_task (tasks st p) then pe_dl_overflow env p policy attr st else (False, st))
         in if busy then Some (- EBUSY, st)
            else setscheduler_change env p attr policy reset_on_fork pi st)"

definition sched_setscheduler_check ::
  "policy_env \<Rightarrow> tid \<Rightarrow> int \<Rightarrow> u32 \<Rightarrow> bool \<Rightarrow> sched_state \<Rightarrow> (int \<times> sched_state) option" where
  "sched_setscheduler_check env p policy prio check st =
    (let w = word_of_int policy :: u32;
         legacy = (policy \<noteq> SETPARAM_POLICY \<and> has_flag w SCHED_RESET_ON_FORK);
         attr = \<lparr>sa_policy = (if legacy then sint (w AND NOT SCHED_RESET_ON_FORK) else policy),
                 sa_flags = (if legacy then SCHED_FLAG_RESET_ON_FORK else 0),
                 sa_nice = PRIO_TO_NICE (p_static_prio (tasks st p)), sa_priority = prio\<rparr>
     in sched_setscheduler_raw env p attr check True st)"

definition sched_setscheduler :: "policy_env \<Rightarrow> tid \<Rightarrow> int \<Rightarrow> u32 \<Rightarrow> sched_state \<Rightarrow> (int \<times> sched_state) option" where
  "sched_setscheduler env p policy prio st = sched_setscheduler_check env p policy prio True st"

definition sched_setattr :: "policy_env \<Rightarrow> tid \<Rightarrow> sched_attr \<Rightarrow> sched_state \<Rightarrow> (int \<times> sched_state) option" where
  "sched_setattr env p attr st = sched_setscheduler_raw env p attr True True st"

definition sched_setattr_nocheck :: "policy_env \<Rightarrow> tid \<Rightarrow> sched_attr \<Rightarrow> sched_state \<Rightarrow> (int \<times> sched_state) option" where
  "sched_setattr_nocheck env p attr st = sched_setscheduler_raw env p attr False True st"

definition sched_setscheduler_nocheck :: "policy_env \<Rightarrow> tid \<Rightarrow> int \<Rightarrow> u32 \<Rightarrow> sched_state \<Rightarrow> (int \<times> sched_state) option" where
  "sched_setscheduler_nocheck env p policy prio st = sched_setscheduler_check env p policy prio False st"

definition sched_set_stop_task :: "policy_env \<Rightarrow> cpu \<Rightarrow> tid option \<Rightarrow> sched_state \<Rightarrow> sched_state option" where
  "sched_set_stop_task env c stop st =
    (let old_stop = rq_stop (rqs st c) in do {
       st \<leftarrow> (case stop of Some p \<Rightarrow> do {
           (r, st) \<leftarrow> sched_setscheduler_nocheck env p SCHED_FIFO (word_of_int (MAX_RT_PRIO - 1)) st;
           Some (upd_task p (\<lambda>t. t\<lparr>p_class := Stop_class\<rparr>) st)
         } | None \<Rightarrow> Some st);
       let st = upd_rq c (\<lambda>r. r\<lparr>rq_stop := stop\<rparr>) st;
       Some (case old_stop of Some q \<Rightarrow> upd_task q (\<lambda>t. t\<lparr>p_class := Rt_class\<rparr>) st | None \<Rightarrow> st)
     })"

section \<open>The system calls\<close>

text \<open>
  \<open>struct sched_param\<close> in user memory: a null pointer, an unreadable one, or a priority.
\<close>

datatype user_param = Null_param | Bad_param | Param u32

definition do_sched_setscheduler :: "policy_env \<Rightarrow> int \<Rightarrow> int \<Rightarrow> user_param \<Rightarrow> sched_state \<Rightarrow> (int \<times> sched_state) option" where
  "do_sched_setscheduler env pid policy param st =
    (if pid < 0 then Some (- EINVAL, st)
     else case param of Null_param \<Rightarrow> Some (- EINVAL, st) | Bad_param \<Rightarrow> Some (- EFAULT, st)
     | Param prio \<Rightarrow> (case find_process_by_pid env pid st of None \<Rightarrow> Some (- ESRCH, st)
         | Some p \<Rightarrow> sched_setscheduler env p policy prio st))"

definition sys_sched_setscheduler :: "policy_env \<Rightarrow> int \<Rightarrow> int \<Rightarrow> user_param \<Rightarrow> sched_state \<Rightarrow> (int \<times> sched_state) option" where
  "sys_sched_setscheduler env pid policy param st =
    (if policy < 0 then Some (- EINVAL, st) else do_sched_setscheduler env pid policy param st)"

definition sys_sched_setparam :: "policy_env \<Rightarrow> int \<Rightarrow> user_param \<Rightarrow> sched_state \<Rightarrow> (int \<times> sched_state) option" where
  "sys_sched_setparam env pid param st = do_sched_setscheduler env pid SETPARAM_POLICY param st"

text \<open>
  \<open>struct sched_attr\<close> in user memory: whether the range is accessible, its \<open>size\<close> field, the bytes
  behind the 48 the kernel knows (an unreadable byte is \<open>None\<close>), and the fields.
\<close>

record user_attr =
  ua_access :: bool
  ua_size :: "u32 option"
  ua_tail :: "nat \<Rightarrow> u8 option"
  ua_attr :: "sched_attr option"

definition SCHED_ATTR_SIZE :: nat where "SCHED_ATTR_SIZE = 48"
definition PAGE_SIZE :: nat where "PAGE_SIZE = 4096"

fun tail_check :: "(nat \<Rightarrow> u8 option) \<Rightarrow> nat \<Rightarrow> nat \<Rightarrow> int" where
  "tail_check tail i 0 = 0"
| "tail_check tail i (Suc n) =
    (case tail i of None \<Rightarrow> - EFAULT | Some v \<Rightarrow> if v \<noteq> 0 then - E2BIG else tail_check tail (Suc i) n)"

definition sched_copy_attr :: "user_attr \<Rightarrow> int + sched_attr" where
  "sched_copy_attr ua =
    (if \<not> ua_access ua then Inl (- EFAULT)
     else case ua_size ua of None \<Rightarrow> Inl (- EFAULT)
     | Some sz \<Rightarrow>
         if unat sz > PAGE_SIZE then Inl (- E2BIG)
         else
           let size = (if sz = 0 then SCHED_ATTR_SIZE else unat sz) in
           if size < SCHED_ATTR_SIZE then Inl (- E2BIG)
           else
             let r = tail_check (ua_tail ua) 0 (size - SCHED_ATTR_SIZE) in
             if r \<noteq> 0 then Inl r
             else case ua_attr ua of None \<Rightarrow> Inl (- EFAULT)
                  | Some a \<Rightarrow> Inr (a\<lparr>sa_nice := clamp (sa_nice a) MIN_NICE MAX_NICE\<rparr>))"

definition sys_sched_setattr :: "policy_env \<Rightarrow> int \<Rightarrow> user_attr option \<Rightarrow> u32 \<Rightarrow> sched_state \<Rightarrow> (int \<times> sched_state) option" where
  "sys_sched_setattr env pid uattr flags st =
    (case uattr of None \<Rightarrow> Some (- EINVAL, st)
     | Some ua \<Rightarrow>
         if pid < 0 \<or> flags \<noteq> 0 then Some (- EINVAL, st)
         else case sched_copy_attr ua of Inl e \<Rightarrow> Some (e, st)
         | Inr attr \<Rightarrow>
             if sa_policy attr < 0 then Some (- EINVAL, st)
             else case find_process_by_pid env pid st of None \<Rightarrow> Some (- ESRCH, st)
                  | Some p \<Rightarrow> sched_setattr env p attr st)"

definition sys_sched_getscheduler :: "policy_env \<Rightarrow> int \<Rightarrow> sched_state \<Rightarrow> int" where
  "sys_sched_getscheduler env pid st =
    (if pid < 0 then - EINVAL
     else case find_process_by_pid env pid st of None \<Rightarrow> - ESRCH
     | Some p \<Rightarrow>
         let r = pe_sec_getscheduler env p st in
         if r \<noteq> 0 then r
         else sint (word_of_int (p_policy (tasks st p)) OR (if p_reset_on_fork (tasks st p) then SCHED_RESET_ON_FORK else 0)))"

text \<open>\<open>sched_getparam\<close>: the result and the priority stored, if any; \<open>writable\<close> is the outcome of \<open>copy_to_user\<close>.\<close>

definition sys_sched_getparam :: "policy_env \<Rightarrow> int \<Rightarrow> bool \<Rightarrow> bool \<Rightarrow> sched_state \<Rightarrow> int \<times> u32 option" where
  "sys_sched_getparam env pid null writable st =
    (if null \<or> pid < 0 then (- EINVAL, None)
     else case find_process_by_pid env pid st of None \<Rightarrow> (- ESRCH, None)
     | Some p \<Rightarrow>
         let r = pe_sec_getscheduler env p st in
         if r \<noteq> 0 then (r, None)
         else if writable then (0, Some (if task_has_rt_policy (tasks st p) then p_rt_priority (tasks st p) else 0))
         else (- EFAULT, None))"

definition class_yield :: "kernel_env \<Rightarrow> sched_class \<Rightarrow> cpu \<Rightarrow> sched_state \<Rightarrow> sched_state option" where
  "class_yield env cl = (case cl of Rt_class \<Rightarrow> yield_task_rt | Ts_class \<Rightarrow> yield_task_ts | _ \<Rightarrow> co_yield (ext_class env cl))"

text \<open>\<open>do_sched_yield\<close>; its \<open>schedule()\<close> is \<open>schedule_raw\<close> without preemption.\<close>

definition do_sched_yield :: "kernel_env \<Rightarrow> sched_state \<Rightarrow> sched_state option" where
  "do_sched_yield env st = do {
     st \<leftarrow> class_yield env (p_class (tasks st (current st))) (this_cpu st) st;
     schedule_raw env False st
   }"

definition sched_get_priority_max :: "int \<Rightarrow> int" where
  "sched_get_priority_max policy =
    (if policy = SCHED_FIFO \<or> policy = SCHED_RR then MAX_USER_RT_PRIO - 1
     else if policy = SCHED_DEADLINE \<or> policy = SCHED_NORMAL \<or> policy = SCHED_BATCH \<or> policy = SCHED_IDLE then 0
     else - EINVAL)"

definition sched_get_priority_min :: "int \<Rightarrow> int" where
  "sched_get_priority_min policy =
    (if policy = SCHED_FIFO \<or> policy = SCHED_RR then 1
     else if policy = SCHED_DEADLINE \<or> policy = SCHED_NORMAL \<or> policy = SCHED_BATCH \<or> policy = SCHED_IDLE then 0
     else - EINVAL)"

definition class_rr_interval :: "kernel_env \<Rightarrow> sched_class \<Rightarrow> (cpu \<Rightarrow> tid \<Rightarrow> sched_state \<Rightarrow> u32) option" where
  "class_rr_interval env cl = (case cl of Rt_class \<Rightarrow> Some get_rr_interval_rt | Ts_class \<Rightarrow> Some get_rr_interval_ts
     | _ \<Rightarrow> co_rr_interval (ext_class env cl))"

text \<open>The time slice in ticks; the conversion to a \<open>timespec\<close> is the kernel's time library.\<close>

definition sched_rr_get_interval :: "policy_env \<Rightarrow> int \<Rightarrow> sched_state \<Rightarrow> int + u32" where
  "sched_rr_get_interval env pid st =
    (if pid < 0 then Inl (- EINVAL)
     else case find_process_by_pid env pid st of None \<Rightarrow> Inl (- ESRCH)
     | Some p \<Rightarrow>
         let r = pe_sec_getscheduler env p st in
         if r \<noteq> 0 then Inl r
         else case class_rr_interval (pe_core env) (p_class (tasks st p)) of
                Some f \<Rightarrow> Inr (f (p_cpu (tasks st p)) p st) | None \<Rightarrow> Inr 0)"

text \<open>\<open>sched_getaffinity\<close>: the active CPUs of the task's mask.\<close>

definition sched_getaffinity :: "policy_env \<Rightarrow> int \<Rightarrow> sched_state \<Rightarrow> int + cpu list" where
  "sched_getaffinity env pid st =
    (case find_process_by_pid env pid st of None \<Rightarrow> Inl (- ESRCH)
     | Some p \<Rightarrow>
         let r = pe_sec_getscheduler env p st in
         if r \<noteq> 0 then Inl r
         else Inr (filter (\<lambda>c. c \<in> set (cpu_active_mask st)) (p_cpus_allowed (tasks st p))))"

end
