(* ===== verification/Sched_Core_Props.thy ===== *)
theory Sched_Core_Props
  imports Sched_Move Sched_Policy
begin

text \<open>
  Correctness of the core scheduler over the two classes of the repository: migration of
  queued tasks, pushing real-time tasks to other CPUs, the real-time budget, fork, and the two
  places where the core does not know of the time-sharing class (\<open>pick_next_task\<close>'s fast path
  and the end of a priority boost).
\<close>

section \<open>Migration\<close>

text \<open>
  \<open>move_queued_task\<close> moves a queued time-sharing task: it never faults, afterwards the task
  is linked on the new CPU and nowhere else, is assigned to it and marked queued, every other
  task is where it was, and the run queues stay well-formed.
\<close>

theorem ts_move_queued_task:
  assumes "ts_wf st" "ts_linked st c p" "p_class (tasks st p) = Ts_class"
  shows "\<exists>st'. move_queued_task env c p new_cpu st = Some st' \<and> ts_wf st' \<and> p_cpu (tasks st' p) = new_cpu \<and>
    p_on_rq (tasks st' p) = TASK_ON_RQ_QUEUED \<and>
    (\<forall>d x. ts_linked st' d x \<longleftrightarrow> (if x = p then d = new_cpu else ts_linked st d x))"
  using ts_mover.move_queued_task_total [OF assms, of env new_cpu] unfolding ts_mover.moved_def by blast

lemma ts_demo1_class: "p_class (tasks ts_demo1 2) = Ts_class"
  using ts_kept(1) [OF ts_demo1(1)] by (simp add: class_kept_def ts_demo0_def)

theorem ts_move_queued_task_witness:
  "\<exists>st'. move_queued_task blank_env 0 2 1 ts_demo1 = Some st' \<and> ts_linked st' 1 2 \<and> \<not> ts_linked st' 0 2"
  using ts_move_queued_task [OF ts_demo1(2,5) ts_demo1_class, of blank_env 1] by fastforce

text \<open>
  \<open>move_queued_task\<close> does the same for a real-time task: the priority array and its bitmap,
  the counters of both run queues, the cached highest priorities and the membership of every task
  stay consistent, and the task ends up linked on the new CPU only.
\<close>

theorem rt_move_queued_task:
  assumes "rt_wf st" "rt_linked st c p" "p_class (tasks st p) = Rt_class"
  shows "\<exists>st'. move_queued_task env c p new_cpu st = Some st' \<and> rt_wf st' \<and> p_cpu (tasks st' p) = new_cpu \<and>
    p_on_rq (tasks st' p) = TASK_ON_RQ_QUEUED \<and>
    (\<forall>d x. rt_linked st' d x \<longleftrightarrow> (if x = p then d = new_cpu else rt_linked st d x))"
  using rt_mover.move_queued_task_total [OF assms, of env new_cpu] unfolding rt_mover.moved_def by blast

text \<open>Task 3 of \<open>rt_demo2\<close> waits behind task 2 on the overloaded CPU 0; CPU 1 has no real-time task.\<close>

definition rt_demo_push :: sched_state where
  "rt_demo_push = upd_rt 0 (\<lambda>r. r\<lparr>rt_overloaded := True, rt_pushable := [(50, 3)]\<rparr>)
     (upd_task 3 (\<lambda>t. t\<lparr>p_on_rq := TASK_ON_RQ_QUEUED, p_nr_cpus_allowed := 2\<rparr>) rt_demo2)"

lemma rt_demo_push_quiet: "rt_quiet rt_demo2 rt_demo_push"
  by (rule rt_quietI) (simp_all add: rt_demo_push_def rt_core_def rt_same_tasks_def st_simps)

lemma rt_demo_push_class: "p_class (tasks rt_demo_push x) = Rt_class"
proof -
  have "rt_ready rt_demo0 0 2" using rt_demo0(2) by (simp add: MAX_TASKS_def)
  then have "class_kept rt_demo0 rt_demo1" "class_kept rt_demo1 rt_demo2"
    using enqueue_task_rt_kept [OF _ _ move_entity_0] rt_demo0(1) rt_demo1(1,2) rt_demo1_ready(1) rt_demo2(1) by blast+
  then show ?thesis by (simp add: class_kept_def rt_demo_push_def rt_demo0_def st_simps)
qed

lemmas rt_demo_push = rt_quiet_wf [OF rt_demo_push_quiet rt_demo2(2)] rt_demo2(7) [folded rt_quietD(2) [OF rt_demo_push_quiet]]
  rt_demo_push_class

theorem rt_move_queued_task_witness:
  "\<exists>st'. move_queued_task blank_env 0 3 1 rt_demo_push = Some st' \<and> rt_linked st' 1 3 \<and> \<not> rt_linked st' 0 3"
  using rt_move_queued_task [OF rt_demo_push, of blank_env 1] by fastforce

section \<open>Pushing real-time tasks\<close>





section \<open>The real-time budget\<close>


lemma resched_curr_exec [st_simps]:
  "p_exec_start (tasks (resched_curr c st) x) = p_exec_start (tasks st x)"
  "rq_clock_task (rqs (resched_curr c st) d) = rq_clock_task (rqs st d)"
  by (auto simp: resched_curr_def Let_def upd_task_def upd_rq_def)






section \<open>The class walk\<close>

text \<open>What \<open>pick_next_task\<close> relies on: the fair class finds nothing without runnable fair tasks, the idle class its idle task.\<close>

definition idle_picks :: "kernel_env \<Rightarrow> cpu \<Rightarrow> tid \<Rightarrow> bool" where
  "idle_picks env c prev \<longleftrightarrow> (\<forall>st. (rq_cfs_h_nr (rqs st c) = 0 \<longrightarrow> co_pick (ext_class env Fair_class) c prev st = Some (No_task, st)) \<and>
     co_pick (ext_class env Idle_class) c prev st = Some (Picked (rq_idle (rqs st c)), st))"

lemma update_rq_clock_rq [st_simps]:
  "rq_cfs_h_nr (rqs (update_rq_clock c st) d) = rq_cfs_h_nr (rqs st d)" "rq_idle (rqs (update_rq_clock c st) d) = rq_idle (rqs st d)"
  "rq_nr_running (rqs (update_rq_clock c st) d) = rq_nr_running (rqs st d)"
  by (auto simp: update_rq_clock_def update_rq_clock_task_def Let_def st_simps)

text \<open>
  C36: A time-sharing task on an idle CPU is not found. The class does not take part in
  \<open>rq->nr_running\<close>, so after \<open>enqueue_task\<close> of a \<open>SCHED_TS\<close> task on a CPU that runs its idle task
  and has no fair task, the fast path of \<open>pick_next_task\<close> is taken and picks the idle task
  again, although the new task is linked in the run queue.
\<close>

theorem ts_task_not_picked_on_idle_cpu:
  assumes "ts_wf st" "ts_ready st q" "p_class (tasks st q) = Ts_class" "p_class (tasks st prev) = Idle_class"
    and "rq_nr_running (rqs st c) = 0" "rq_cfs_h_nr (rqs st c) = 0" "idle_picks env c prev"
  shows "\<exists>st'. enqueue_task env c q f st = Some st' \<and> ts_linked st' c q \<and>
    pick_next_task env c prev st' = Some (rq_idle (rqs st c), st')"
proof -
  let ?u = "if \<not> has_flag f ENQUEUE_NOCLOCK then update_rq_clock c st else st"
  have u: "core_step st ?u" by (simp add: clock_steps)
  have w: "ts_wf ?u" "ts_ready ?u q" using ts_mover.core_wf [OF u] ts_mover.core_ready [OF u] assms(1,2) by simp_all
  note e = enqueue_task_ts_eq [OF w, of c f]
  obtain s where s: "enqueue_task_ts c q f ?u = Some s" using e by blast
  have rq: "rq_nr_running (rqs s c) = 0" "rq_cfs_h_nr (rqs s c) = 0" "rq_idle (rqs s c) = rq_idle (rqs st c)"
    using s assms(5,6) unfolding e by (auto simp: st_simps)
  have "p_class (tasks s prev) = Idle_class"
    using ts_kept(1) [OF s] assms(4) by (simp add: class_kept_def st_simps)
  then have "pick_next_task env c prev s = Some (rq_idle (rqs st c), s)"
    using rq assms(7) by (simp add: pick_next_task_def class_pick_def idle_picks_def)
  moreover have "enqueue_task env c q f st = Some s"
    using s assms(3) by (auto simp: enqueue_task_def class_enqueue_def Let_def st_simps)
  ultimately show ?thesis using enqueue_task_ts_spec(2) [OF w s] by auto
qed

theorem ts_task_not_picked_on_idle_cpu_witness:
  "\<exists>st'. enqueue_task blank_env 0 2 ENQUEUE_WAKEUP (upd_task 0 (\<lambda>t. t\<lparr>p_class := Idle_class\<rparr>) ts_demo0) = Some st' \<and>
    ts_linked st' 0 2 \<and> pick_next_task blank_env 0 0 st' = Some (0, st')"
proof -
  let ?s = "upd_task 0 (\<lambda>t. t\<lparr>p_class := Idle_class\<rparr>) ts_demo0"
  have "ts_wf ?s" "ts_ready ?s 2" using ts_demo0 by (simp_all add: ts_wf_def ts_linked_def ts_ready_def ts_level_def st_simps)
  moreover have "idle_picks blank_env 0 0" by (simp add: idle_picks_def blank_env_defs)
  ultimately show ?thesis
    using ts_task_not_picked_on_idle_cpu [of ?s 2 0 0 blank_env ENQUEUE_WAKEUP] by (simp add: ts_demo0_def blank_defs st_simps)
qed

section \<open>Fork\<close>

text \<open>The fork of a time-sharing task in closed form.\<close>

definition ts_child :: "tid \<Rightarrow> sched_state \<Rightarrow> task_struct" where
  "ts_child p st = (tasks st p)\<lparr>p_on_rq := 0, p_exec_start := 0, p_sum_exec := 0,
     p_nr_migrations := 0, p_ts_node := Self_linked, p_ts_time_slice := 12, p_rt_timeout := 0,
     p_rt_time_slice := rr_timeslice st, p_rt_on_rq := False, p_rt_on_list := False, p_state := TASK_NEW,
     p_prio := p_normal_prio (tasks st (curr_of st (this_cpu st))), p_class := Ts_class, p_cpu := this_cpu st,
     p_wake_cpu := this_cpu st, p_on_cpu := False\<rparr>"

lemma sched_fork_ts:
  assumes "p \<noteq> curr_of st (this_cpu st)" "p_policy (tasks st p) = SCHED_TS" "\<not> p_reset_on_fork (tasks st p)"
    "100 \<le> p_normal_prio (tasks st (curr_of st (this_cpu st)))"
  shows "sched_fork env p st = Some (0, upd_task p (\<lambda>_. ts_child p st) st)"
  using assms
  by (simp add: sched_fork_def sched_fork_raw_def set_task_cpu_raw_def class_task_fork_def Let_def st_simps prio_consts
      ts_policy_def policy_consts) (simp add: upd_task_def ts_child_def)

lemma ts_wf_child:
  assumes wf: "ts_wf (upd_task p (\<lambda>t. t\<lparr>p_ts_node := Self_linked\<rparr>) st)"
    and q: "\<And>d. rq_ts (rqs s d) = rq_ts (rqs st d)" and t: "\<And>x. x \<noteq> p \<Longrightarrow> tasks s x = tasks st x"
    and n: "p_ts_node (tasks s p) = Self_linked"
  shows "ts_wf s" "ts_linked s d x \<longleftrightarrow> ts_linked st d x" "\<not> ts_linked st d p"
proof -
  let ?u = "upd_task p (\<lambda>t. t\<lparr>p_ts_node := Self_linked\<rparr>) st"
  have lu: "ts_linked ?u d x \<longleftrightarrow> ts_linked st d x" for d x by (simp add: ts_linked_def st_simps)
  show l: "ts_linked s d x \<longleftrightarrow> ts_linked st d x" for d x by (simp add: ts_linked_def q)
  show out: "\<not> ts_linked st d p" for d using ts_not_linked [OF wf, of p d] by (simp add: lu) (simp add: st_simps)
  have len: "length (rq_ts (rqs st d)) = 40" "qs_ok (rq_ts (rqs st d))" for d using ts_wfD(1,2) [OF wf, of d] by (simp_all add: st_simps)
  show "ts_wf s"
  proof (rule ts_wfI)
    fix d i x assume i: "i < 40" "x \<in> set (rq_ts (rqs s d) ! i)"
    then have "x \<noteq> p" using out [of d] len(1) [of d] by (auto simp: ts_linked_def qs_mem_nth q)
    then show "ts_level s x = int i" using ts_wfD(3) [OF wf i(1), of x d] i(2) t [of x] by (simp add: q ts_level_def st_simps)
  next
    fix x show "p_ts_node (tasks s x) = On_list \<longleftrightarrow> (\<exists>d. ts_linked s d x)"
      using ts_wfD(4) [OF wf, of x] t [of x] n out by (cases "x = p") (simp_all add: l lu st_simps)
  next
    fix d e x assume "ts_linked s d x" "ts_linked s e x"
    then show "d = e" using ts_wfD(5) [OF wf] by (simp add: l lu)
  qed (simp_all add: q len)
qed

lemma wake_up_new_task_ts:
  fixes st :: sched_state and p :: tid
  defines "s \<equiv> update_rq_clock (p_cpu (tasks st p)) (set_task_cpu_raw p (p_cpu (tasks st p)) (upd_task p (\<lambda>t. t\<lparr>p_state := TASK_RUNNING\<rparr>) st))"
  assumes p: "p_class (tasks st p) = Ts_class" "1 < p_nr_cpus_allowed (tasks st p)"
    "p_cpu (tasks st p) \<in> set (p_cpus_allowed (tasks st p))" "p_cpu (tasks st p) \<in> set (cpu_active_mask st)"
    and wf: "ts_wf s" "ts_ready s p"
  shows "\<exists>st'. wake_up_new_task env p st = Some st' \<and> ts_wf st' \<and> p_on_rq (tasks st' p) = TASK_ON_RQ_QUEUED \<and>
    (\<forall>d x. ts_linked st' d x \<longleftrightarrow> ts_linked s d x \<or> (d = p_cpu (tasks st p) \<and> x = p))"
proof -
  let ?c = "p_cpu (tasks st p)" and ?r = "upd_task p (\<lambda>t. t\<lparr>p_state := TASK_RUNNING\<rparr>) st"
  have sel: "select_task_rq env p ?c SD_BALANCE_FORK 0 ?r = Some (?c, ?r)"
    using p by (simp add: select_task_rq_def class_select_def select_task_rq_ts_def is_cpu_allowed_def is_per_cpu_kthread_def st_simps)
  have ts: "tasks s p = (tasks st p)\<lparr>p_state := TASK_RUNNING, p_cpu := ?c, p_wake_cpu := ?c\<rparr>"
    by (simp add: s_def set_task_cpu_raw_def st_simps)
  have cl: "p_class (tasks s p) = Ts_class" using p(1) ts by simp
  obtain a where a: "enqueue_task env ?c p ENQUEUE_NOCLOCK s = Some a" "ts_wf a" "class_kept s a"
    "\<And>d x. ts_linked a d x \<longleftrightarrow> ts_linked s d x \<or> (d = ?c \<and> x = p)"
    using ts_mover.enqueue_total [OF wf TrueI cl] by metis
  let ?q = "upd_task p (\<lambda>t. t\<lparr>p_on_rq := TASK_ON_RQ_QUEUED\<rparr>) a"
  note k = core_steps(7) [of a p TASK_ON_RQ_QUEUED]
  have q: "ts_wf ?q" "ts_linked ?q ?c p" "p_class (tasks ?q p) = Ts_class"
    using ts_mover.core_wf [OF k a(2)] ts_mover.core_queued [OF k] a(3,4) cl by (simp_all add: class_kept_def st_simps)
  obtain b where b: "check_preempt_curr env ?c p WF_FORK ?q = Some b" "ts_wf b" "class_kept ?q b" "\<And>d x. ts_linked b d x \<longleftrightarrow> ts_linked ?q d x"
    using ts_mover.check_preempt_total [OF q] by metis
  have "p_class (tasks b p) = Ts_class" using b(3) q(3) by (simp add: class_kept_def)
  then have woken: "run_task_woken env ?c p b = Some b" by (simp add: run_task_woken_def class_task_woken_def)
  have "activate_task env ?c p ENQUEUE_NOCLOCK s = Some a"
    using a(1) ts by (simp add: activate_task_def task_contributes_to_load_def TASK_RUNNING_def)
  then have "wake_up_new_task env p st = Some b"
    using sel b(1) woken by (simp add: wake_up_new_task_def Let_def s_def [symmetric] st_simps)
  moreover have "p_on_rq (tasks b p) = TASK_ON_RQ_QUEUED" using b(3) by (simp add: class_kept_def st_simps)
  ultimately show ?thesis using b(2,4) a(4) ts_mover.core_queued [OF k] by simp
qed

text \<open>
  C26: A child of a time-sharing task starts in the class and runs. \<open>sched_fork\<close> leaves the copied
  task in the time-sharing class with its parent's normal priority (not a boosted one), a full slice,
  off every queue; \<open>wake_up_new_task\<close> then links it on the CPU of its parent, which stays
  well-formed, and nothing else moves.
\<close>

theorem ts_fork_and_wake:
  fixes st :: sched_state
  defines "cur \<equiv> curr_of st (this_cpu st)"
  assumes wf: "ts_wf (upd_task p (\<lambda>t. t\<lparr>p_ts_node := Self_linked\<rparr>) st)" and p: "p \<noteq> cur"
    and pol: "p_policy (tasks st p) = SCHED_TS" "\<not> p_reset_on_fork (tasks st p)"
    and prio: "100 \<le> p_normal_prio (tasks st cur)" "p_normal_prio (tasks st cur) \<le> 139"
    and cpu: "this_cpu st \<in> set (p_cpus_allowed (tasks st p))" "this_cpu st \<in> set (cpu_active_mask st)"
      "1 < p_nr_cpus_allowed (tasks st p)"
  shows "\<exists>st1 st2. sched_fork env p st = Some (0, st1) \<and> p_class (tasks st1 p) = Ts_class \<and>
    prio_of st1 p = p_normal_prio (tasks st cur) \<and> p_ts_time_slice (tasks st1 p) = 12 \<and> p_on_rq (tasks st1 p) = 0 \<and>
    wake_up_new_task env p st1 = Some st2 \<and> ts_wf st2 \<and> p_on_rq (tasks st2 p) = TASK_ON_RQ_QUEUED \<and>
    (\<forall>d x. ts_linked st2 d x \<longleftrightarrow> ts_linked st d x \<or> (d = this_cpu st \<and> x = p))"
proof -
  let ?c = "this_cpu st" and ?st1 = "upd_task p (\<lambda>_. ts_child p st) st"
  have fork: "sched_fork env p st = Some (0, ?st1)" using sched_fork_ts p pol prio(1) unfolding cur_def by blast
  have t1: "tasks ?st1 p = ts_child p st" by (simp add: st_simps)
  let ?r = "set_task_cpu_raw p ?c (upd_task p (\<lambda>t. t\<lparr>p_state := TASK_RUNNING\<rparr>) ?st1)"
  let ?s = "update_rq_clock ?c ?r"
  have "rq_ts (rqs ?s d) = rq_ts (rqs st d)" for d
    using update_rq_clock_sel(2) [of ?c ?r d] by (simp add: queue_view_def set_task_cpu_raw_def st_simps)
  moreover have "tasks ?s x = tasks st x" if "x \<noteq> p" for x using that by (simp add: set_task_cpu_raw_def st_simps)
  moreover have "p_ts_node (tasks ?s p) = Self_linked" by (simp add: set_task_cpu_raw_def ts_child_def st_simps)
  ultimately have s: "ts_wf ?s" "\<And>d x. ts_linked ?s d x \<longleftrightarrow> ts_linked st d x" using ts_wf_child [OF wf] by blast+
  have r: "ts_ready ?s p" using prio unfolding cur_def by (simp add: ts_ready_def set_task_cpu_raw_def ts_child_def st_simps)
  have c: "p_cpu (tasks ?st1 p) = ?c" "p_class (tasks ?st1 p) = Ts_class" unfolding t1 by (simp_all add: ts_child_def)
  obtain st2 where "wake_up_new_task env p ?st1 = Some st2" "ts_wf st2" "p_on_rq (tasks st2 p) = TASK_ON_RQ_QUEUED"
    "\<forall>d x. ts_linked st2 d x \<longleftrightarrow> ts_linked ?s d x \<or> (d = ?c \<and> x = p)"
    using wake_up_new_task_ts [of ?st1 p env] s(1) r c cpu by (auto simp: t1 ts_child_def st_simps)
  then show ?thesis using fork s(2) by (intro exI [of _ ?st1] exI [of _ st2]) (simp add: st_simps ts_child_def cur_def)
qed

theorem ts_fork_and_wake_witness:
  "\<exists>st1 st2. sched_fork blank_env 3 ts_demo1 = Some (0, st1) \<and> wake_up_new_task blank_env 3 st1 = Some st2 \<and>
    ts_linked st2 0 3 \<and> ts_linked st2 0 2"
proof -
  have u: "upd_task 3 (\<lambda>t. t\<lparr>p_ts_node := Self_linked\<rparr>) ts_demo1 = ts_demo1"
    unfolding ts_demo1_def enqueue_task_ts_eq [OF ts_demo0(1,2)] by (simp add: ts_demo0_def blank_defs upd_task_def upd_rq_def fun_eq_iff)
  show ?thesis
    using ts_fork_and_wake [of 3 ts_demo1 blank_env] ts_demo1(2,5) unfolding u
    unfolding ts_demo1_def enqueue_task_ts_eq [OF ts_demo0(1,2)]
    by (simp add: ts_demo0_def blank_defs st_simps) blast
qed

section \<open>Changing the policy\<close>




section \<open>The end of a priority boost\<close>




end
