(* ===== verification/Sched_RT_Runtime.thy ===== *)
theory Sched_RT_Runtime
  imports Sched_RT_Inv
begin

text \<open>
  Bandwidth control of the real-time class: lending runtime between the CPUs of a root domain
  (\<open>do_balance_runtime\<close>) conserves the pool and never takes runtime that has been used, the
  reclaim of \<open>__disable_runtime\<close> always succeeds on a pool that is whole, and throttling takes
  the class off its run queue and the period timer brings it back.
\<close>

section \<open>Signed 64-bit values\<close>

lemma sint_u64: "sint (w :: u64) = (if unat w < 2 ^ 63 then int (unat w) else int (unat w) - 2 ^ 64)"
proof -
  define n where "n = uint w"
  have b: "n < 2 ^ 64" "0 \<le> n" using unsigned_less [of w] by (simp_all add: n_def)
  have "sint w = (n + 2 ^ 63) mod 2 ^ 64 - 2 ^ 63" using int_word_sint [of n, where 'a = 64] by (simp add: n_def)
  moreover have "(n + 2 ^ 63) mod 2 ^ 64 = (if n < 2 ^ 63 then n + 2 ^ 63 else n - 2 ^ 63)"
    using b minus_mod_self2 [of "n + 2 ^ 63" "2 ^ 64"] by (auto simp: mod_pos_pos_trivial)
  moreover have "int (unat w) = n" by (simp add: n_def)
  moreover have "unat w < 2 ^ 63 \<longleftrightarrow> n < 2 ^ 63" unfolding calculation(3) [symmetric] by (simp del: of_nat_unat)
  ultimately show ?thesis by simp
qed

lemma unat_diff_le: "b \<le> (a :: u64) \<Longrightarrow> unat (a - b) = unat a - unat b"
  by (simp add: unat_sub)

lemma diff_positive:
  fixes a b :: u64
  assumes "unat a < 2 ^ 63" "unat b < 2 ^ 63"
  shows "0 < sint (a - b) \<longleftrightarrow> unat b < unat a"
proof (cases "b \<le> a")
  case True
  then have "unat b \<le> unat a" "unat (a - b) = unat a - unat b" by (simp_all add: unat_diff_le word_le_nat_alt)
  moreover from this assms have "unat (a - b) < 2 ^ 63" by simp
  then have "sint (a - b) = int (unat (a - b))" unfolding sint_u64 by (simp del: of_nat_unat)
  ultimately show ?thesis by (simp del: of_nat_unat)
next
  case False
  then have lt: "unat a < unat b" by (simp add: word_le_nat_alt)
  have "unat (a - b) = 2 ^ 64 + unat a - unat b"
    using lt by (simp add: unat_sub_if_size word_size)
  then have "\<not> unat (a - b) < 2 ^ 63" "int (unat (a - b)) < 2 ^ 64" using assms lt by (simp_all del: of_nat_unat)
  then show ?thesis using lt by (simp add: sint_u64 del: of_nat_unat)
qed

lemma unat_RUNTIME_INF: "unat RUNTIME_INF = 2 ^ 64 - 1"
proof -
  have "RUNTIME_INF = (0xFFFFFFFFFFFFFFFF :: u64)" by (simp add: RUNTIME_INF_def)
  then show ?thesis unfolding \<open>RUNTIME_INF = 0xFFFFFFFFFFFFFFFF\<close> by (simp only: unat_numeral) (simp add: take_bit_eq_mod)
qed

section \<open>Lending runtime\<close>

lemma add_runtime_sel:
  "runtime_of (add_runtime c d st) i = (if i = c then runtime_of st c + d else runtime_of st i)"
  "time_of (add_runtime c d st) i = time_of st i" "def_rt_b (add_runtime c d st) = def_rt_b st"
  "rd (add_runtime c d st) = rd st"
  by (simp_all add: add_runtime_def st_simps)

text \<open>
  \<open>rt_sane\<close>: every CPU of the list has an infinite runtime or one below \<open>2 ^ 63\<close> ns (the values
  are at most a period), and has been running for less than that.
\<close>

definition rt_sane :: "cpu list \<Rightarrow> sched_state \<Rightarrow> bool" where
  "rt_sane is st \<longleftrightarrow> (\<forall>i \<in> set is. (runtime_of st i = RUNTIME_INF \<or> unat (runtime_of st i) < 2 ^ 63) \<and> unat (time_of st i) < 2 ^ 63)"

text \<open>
  \<open>rt_lends\<close>: what any number of loans to \<open>me\<close> does. The total over the domain stays, \<open>me\<close> gains
  up to \<open>period\<close>, nobody else gains or gives what it has used, infinite runtimes stay.
\<close>

definition rt_lends :: "cpu list \<Rightarrow> u64 \<Rightarrow> cpu \<Rightarrow> sched_state \<Rightarrow> sched_state \<Rightarrow> bool" where
  "rt_lends span period me st st' \<longleftrightarrow>
    (\<Sum>i \<leftarrow> span. unat (runtime_of st' i)) = (\<Sum>i \<leftarrow> span. unat (runtime_of st i)) \<and>
    runtime_of st me \<le> runtime_of st' me \<and> runtime_of st' me \<le> period \<and>
    (\<forall>i. i \<noteq> me \<longrightarrow> runtime_of st' i \<le> runtime_of st i \<and>
       (time_of st i \<le> runtime_of st i \<longrightarrow> time_of st i \<le> runtime_of st' i) \<and>
       (runtime_of st i = RUNTIME_INF \<longleftrightarrow> runtime_of st' i = RUNTIME_INF)) \<and>
    (\<forall>i. time_of st' i = time_of st i)"

lemma sum_list_transfer:
  fixes f g :: "nat \<Rightarrow> nat"
  assumes "distinct xs" "a \<in> set xs" "b \<in> set xs" "a \<noteq> b" "g a = f a - d" "d \<le> f a" "g b = f b + d"
    "\<And>i. i \<noteq> a \<Longrightarrow> i \<noteq> b \<Longrightarrow> g i = f i"
  shows "(\<Sum>i \<leftarrow> xs. g i) = (\<Sum>i \<leftarrow> xs. f i)"
proof -
  let ?r = "set xs - {a, b}"
  have split: "(\<Sum>i \<leftarrow> xs. h i) = h a + h b + sum h ?r" for h :: "nat \<Rightarrow> nat"
  proof -
    have "(\<Sum>i \<leftarrow> xs. h i) = sum h (set xs)" using assms(1) by (simp add: sum_list_distinct_conv_sum_set)
    also have "set xs = insert a (insert b ?r)" using assms(2,3) by auto
    finally show ?thesis using assms(4) by simp
  qed
  have "sum g ?r = sum f ?r" by (rule sum.cong) (use assms(8) in auto)
  then show ?thesis using assms(5-7) by (simp add: split)
qed

lemma lend_once:
  assumes d: "distinct span" "i \<in> set span" "me \<in> set span" "i \<noteq> me"
    and fin: "unat (runtime_of st i) < 2 ^ 63" and room: "runtime_of st me \<le> period" "unat period < 2 ^ 63"
    and amount: "time_of st i \<le> runtime_of st i" "diff \<le> runtime_of st i - time_of st i" "diff \<le> period - runtime_of st me"
  shows "rt_lends span period me st (add_runtime me diff (add_runtime i (- diff) st))"
proof -
  let ?st = "add_runtime me diff (add_runtime i (- diff) st)"
  have le: "unat diff \<le> unat (runtime_of st i) - unat (time_of st i)" "unat diff \<le> unat period - unat (runtime_of st me)"
    using amount room by (simp_all add: word_le_nat_alt unat_diff_le)
  have ge: "unat (runtime_of st me) \<le> unat period" "unat (time_of st i) \<le> unat (runtime_of st i)"
    using room amount by (simp_all add: word_le_nat_alt)
  have ri: "runtime_of ?st i = runtime_of st i - diff" and rm: "runtime_of ?st me = runtime_of st me + diff"
    and ro: "\<And>j. j \<noteq> i \<Longrightarrow> j \<noteq> me \<Longrightarrow> runtime_of ?st j = runtime_of st j"
    using d(4) by (simp_all add: add_runtime_sel)
  have ui: "unat (runtime_of ?st i) = unat (runtime_of st i) - unat diff"
    unfolding ri using le ge by (intro unat_diff_le) (simp add: word_le_nat_alt)
  have um: "unat (runtime_of ?st me) = unat (runtime_of st me) + unat diff"
    unfolding rm using le ge room(2) by (simp add: unat_plus_if_size word_size)
  have "(\<Sum>j \<leftarrow> span. unat (runtime_of ?st j)) = (\<Sum>j \<leftarrow> span. unat (runtime_of st j))"
    by (rule sum_list_transfer [OF d(1-4) ui _ um]) (use le ge ro in auto)
  moreover have "runtime_of st i \<noteq> RUNTIME_INF" "runtime_of ?st i \<noteq> RUNTIME_INF" using fin ui unat_RUNTIME_INF by auto
  moreover have "time_of st i \<le> runtime_of ?st i" "runtime_of ?st i \<le> runtime_of st i"
    using ui le ge by (simp_all add: word_le_nat_alt)
  moreover have "runtime_of st me \<le> runtime_of ?st me" "runtime_of ?st me \<le> period"
    using um le ge by (simp_all add: word_le_nat_alt)
  ultimately show ?thesis
    unfolding rt_lends_def using ro by (metis add_runtime_sel(2) order_refl)
qed

lemma rt_lends_refl: "runtime_of st me \<le> period \<Longrightarrow> rt_lends span period me st st"
  by (simp add: rt_lends_def)

lemma rt_lends_trans:
  assumes "rt_lends span period me a b" "rt_lends span period me b c" shows "rt_lends span period me a c"
  using assms unfolding rt_lends_def by (auto intro: order_trans)

lemma rt_lends_sane:
  assumes "rt_lends span period me st st'" "rt_sane is st" "unat period < 2 ^ 63" shows "rt_sane is st'"
proof -
  have "(runtime_of st' i = RUNTIME_INF \<or> unat (runtime_of st' i) < 2 ^ 63) \<and> unat (time_of st' i) < 2 ^ 63" if "i \<in> set is" for i
  proof (cases "i = me")
    case True
    have "runtime_of st' me \<le> period" "time_of st' me = time_of st me" using assms(1) by (simp_all add: rt_lends_def)
    then show ?thesis using True assms(2,3) that by (auto simp: rt_sane_def word_le_nat_alt)
  next
    case False
    then have "runtime_of st' i \<le> runtime_of st i" "runtime_of st i = RUNTIME_INF \<longleftrightarrow> runtime_of st' i = RUNTIME_INF"
      "time_of st' i = time_of st i" using assms(1) by (auto simp: rt_lends_def)
    then show ?thesis using assms(2) that by (auto simp: rt_sane_def word_le_nat_alt)
  qed
  then show ?thesis by (simp add: rt_sane_def)
qed

lemma balance_loop_lends:
  assumes d: "distinct span" "me \<in> set span" and p: "unat period < 2 ^ 63"
  shows "set is \<subseteq> set span \<Longrightarrow> rt_sane is st \<Longrightarrow> runtime_of st me \<le> period \<Longrightarrow>
    rt_lends span period me st (balance_loop period w me is st)"
proof (induction "is" arbitrary: st)
  case Nil
  then show ?case by (simp add: rt_lends_refl)
next
  case (Cons i "is")
  have sane: "rt_sane is st" "runtime_of st i = RUNTIME_INF \<or> unat (runtime_of st i) < 2 ^ 63" "unat (time_of st i) < 2 ^ 63"
    using Cons.prems(2) by (simp_all add: rt_sane_def)
  have skip: "rt_lends span period me st (balance_loop period w me is st)"
    using Cons.IH [of st] Cons.prems sane(1) by simp
  define diff0 where "diff0 = runtime_of st i - time_of st i"
  define diff where "diff = (if runtime_of st me + diff0 div w > period then period - runtime_of st me else diff0 div w)"
  define s where "s = add_runtime me diff (add_runtime i (- diff) st)"
  show ?case
  proof (cases "i = me \<or> runtime_of st i = RUNTIME_INF \<or> \<not> sint diff0 > 0")
    case True
    then show ?thesis using skip by (auto simp: diff0_def)
  next
    case False
    then have fin: "unat (runtime_of st i) < 2 ^ 63" using sane(2) by simp
    have pos: "unat (time_of st i) < unat (runtime_of st i)"
      using False diff_positive [OF fin sane(3)] by (simp add: diff0_def)
    have u0: "unat diff0 < 2 ^ 63" using fin pos by (simp add: diff0_def unat_diff_le word_le_nat_alt)
    have q: "unat (diff0 div w) \<le> unat diff0" by (simp add: unat_div)
    have me: "unat (runtime_of st me) \<le> unat period" using Cons.prems(3) by (simp add: word_le_nat_alt)
    have add: "unat (runtime_of st me + diff0 div w) = unat (runtime_of st me) + unat (diff0 div w)"
      using q u0 me p by (simp add: unat_plus_if_size word_size)
    have room: "unat (period - runtime_of st me) = unat period - unat (runtime_of st me)"
      using Cons.prems(3) by (simp add: unat_diff_le)
    have le: "diff \<le> diff0" "diff \<le> period - runtime_of st me"
      using q add me room by (auto simp: diff_def word_le_nat_alt word_less_nat_alt)
    have ln: "rt_lends span period me st s"
      unfolding s_def using Cons.prems(1,3) d False fin p pos le
      by (intro lend_once) (auto simp: word_le_nat_alt diff0_def)
    have "rt_lends span period me s (balance_loop period w me is s)"
      using Cons.IH [of s] Cons.prems(1) rt_lends_sane [OF ln sane(1) p] ln by (simp add: rt_lends_def)
    moreover have "balance_loop period w me (i # is) st = (if runtime_of s me = period then s else balance_loop period w me is s)"
      using False by (simp add: diff0_def diff_def s_def Let_def)
    ultimately show ?thesis using ln rt_lends_trans by auto
  qed
qed

text \<open>
  C19: Lending runtime between CPUs (\<open>do_balance_runtime\<close>): the total runtime of the root domain
  is conserved; the borrowing CPU only gains and never exceeds the period; no other CPU gains,
  none gives away runtime it has already used, and a CPU that is taken out of the scheme (an
  infinite runtime) is left alone.
\<close>

theorem rt_balance_conserves:
  assumes "distinct (rd_span (rd st))" "me \<in> set (rd_span (rd st))" "rt_sane (rd_span (rd st)) st"
    "runtime_of st me \<le> rtb_period (def_rt_b st)" "unat (rtb_period (def_rt_b st)) < 2 ^ 63"
  defines "st' \<equiv> do_balance_runtime me st"
  shows "(\<Sum>i \<leftarrow> rd_span (rd st). unat (runtime_of st' i)) = (\<Sum>i \<leftarrow> rd_span (rd st). unat (runtime_of st i)) \<and>
    runtime_of st me \<le> runtime_of st' me \<and> runtime_of st' me \<le> rtb_period (def_rt_b st) \<and>
    (\<forall>i. i \<noteq> me \<longrightarrow> runtime_of st' i \<le> runtime_of st i \<and>
       (time_of st i \<le> runtime_of st i \<longrightarrow> time_of st i \<le> runtime_of st' i) \<and>
       (runtime_of st i = RUNTIME_INF \<longrightarrow> runtime_of st' i = RUNTIME_INF))"
proof -
  have "rt_lends (rd_span (rd st)) (rtb_period (def_rt_b st)) me st st'"
    unfolding st'_def do_balance_runtime_def
    by (rule balance_loop_lends [OF assms(1,2,5) _ assms(3,4)]) simp
  then show ?thesis unfolding rt_lends_def by blast
qed

theorem rt_balance_conserves_witness:
  "runtime_of (do_balance_runtime 0 blank_state) 0 \<le> 1000000000 \<and>
   (\<Sum>i \<leftarrow> [0, 1]. unat (runtime_of (do_balance_runtime 0 blank_state) i)) = 1900000000"
proof -
  have a: "rd_span (rd blank_state) = [0, 1]" "rtb_period (def_rt_b blank_state) = 1000000000"
    "runtime_of blank_state i = 950000000" "time_of blank_state i = 0" for i by (simp_all add: blank_defs)
  show ?thesis using rt_balance_conserves [of blank_state 0] by (simp add: a rt_sane_def)
qed

section \<open>Taking a CPU out of the pool and back\<close>

definition rt_lenders :: "sched_state \<Rightarrow> cpu list \<Rightarrow> cpu list" where
  "rt_lenders st is = filter (\<lambda>i. runtime_of st i \<noteq> RUNTIME_INF) is"

definition rt_pool :: "sched_state \<Rightarrow> cpu list \<Rightarrow> nat" where
  "rt_pool st is = (\<Sum>i \<leftarrow> rt_lenders st is. unat (runtime_of st i))"

text \<open>
  The pool is whole: the CPUs that take part share exactly their number times the
  configured runtime, and the whole domain's share fits a signed 64-bit number.
\<close>

definition rt_pool_ok :: "sched_state \<Rightarrow> bool" where
  "rt_pool_ok st \<longleftrightarrow> distinct (rd_span (rd st)) \<and>
     length (rd_span (rd st)) * unat (rtb_runtime (def_rt_b st)) < 2 ^ 63 \<and>
     rt_pool st (rd_span (rd st)) = length (rt_lenders st (rd_span (rd st))) * unat (rtb_runtime (def_rt_b st))"

lemma rt_pool_simps:
  "rt_pool st [] = 0" "rt_lenders st [] = []"
  "rt_pool st (i # is) = (if runtime_of st i = RUNTIME_INF then 0 else unat (runtime_of st i)) + rt_pool st is"
  "rt_lenders st (i # is) = (if runtime_of st i = RUNTIME_INF then [] else [i]) @ rt_lenders st is"
  by (simp_all add: rt_pool_def rt_lenders_def)

lemma rt_pool_member: "i \<in> set is \<Longrightarrow> runtime_of st i \<noteq> RUNTIME_INF \<Longrightarrow> unat (runtime_of st i) \<le> rt_pool st is"
  by (induction "is") (auto simp: rt_pool_simps)

lemma rt_pool_cong:
  "(\<And>i. i \<in> set is \<Longrightarrow> runtime_of st' i = runtime_of st i) \<Longrightarrow> rt_pool st' is = rt_pool st is \<and> rt_lenders st' is = rt_lenders st is"
  by (induction "is") (auto simp: rt_pool_simps)

lemma rt_pool_add_runtime:
  assumes "i \<notin> set is"
  shows "rt_pool (add_runtime i d st) is = rt_pool st is" "rt_lenders (add_runtime i d st) is = rt_lenders st is"
proof -
  have "\<And>j. j \<in> set is \<Longrightarrow> runtime_of (add_runtime i d st) j = runtime_of st j" using assms by (auto simp: add_runtime_sel)
  from rt_pool_cong [OF this] show "rt_pool (add_runtime i d st) is = rt_pool st is"
    "rt_lenders (add_runtime i d st) is = rt_lenders st is" by simp_all
qed

lemma rt_pool_remove:
  assumes "distinct is" "c \<in> set is" "runtime_of st c \<noteq> RUNTIME_INF"
  shows "rt_pool st is = unat (runtime_of st c) + rt_pool st (removeAll c is)"
    "length (rt_lenders st is) = Suc (length (rt_lenders st (removeAll c is)))"
proof -
  obtain xs ys where e: "is = xs @ c # ys" using split_list [OF assms(2)] by blast
  have c: "c \<notin> set xs" "c \<notin> set ys" using assms(1) e by auto
  have app: "rt_pool st (a @ b) = rt_pool st a + rt_pool st b" "rt_lenders st (a @ b) = rt_lenders st a @ rt_lenders st b" for a b
    by (simp_all add: rt_pool_def rt_lenders_def)
  show "rt_pool st is = unat (runtime_of st c) + rt_pool st (removeAll c is)"
    "length (rt_lenders st is) = Suc (length (rt_lenders st (removeAll c is)))"
    using assms(3) c by (simp_all add: e app rt_pool_simps)
qed

text \<open>Reclaiming what was lent: it is all found, and the others lose exactly that.\<close>

lemma reclaim_lent:
  assumes "distinct is" "sint want > 0" "unat want \<le> rt_pool st (removeAll me is)" "rt_pool st (removeAll me is) < 2 ^ 63"
  shows "\<exists>st'. reclaim_loop me want is st = (0, st') \<and> rt_pool st' (removeAll me is) + unat want = rt_pool st (removeAll me is) \<and>
    rt_lenders st' (removeAll me is) = rt_lenders st (removeAll me is) \<and>
    (\<forall>i. i \<notin> set is \<or> i = me \<longrightarrow> runtime_of st' i = runtime_of st i) \<and> rd st' = rd st \<and> def_rt_b st' = def_rt_b st"
  using assms
proof (induction "is" arbitrary: want st)
  case Nil
  then show ?case by (simp add: rt_pool_simps sint_u64 split: if_splits)
next
  case (Cons i "is")
  show ?case
  proof (cases "i = me \<or> runtime_of st i = RUNTIME_INF")
    case True
    then have "rt_pool st (removeAll me (i # is)) = rt_pool st (removeAll me is)" by (auto simp: rt_pool_simps)
    with Cons.IH [of want st] Cons.prems obtain st' where
      st': "reclaim_loop me want is st = (0, st')" "rt_pool st' (removeAll me is) + unat want = rt_pool st (removeAll me is)"
      "rt_lenders st' (removeAll me is) = rt_lenders st (removeAll me is)"
      "\<forall>j. j \<notin> set is \<or> j = me \<longrightarrow> runtime_of st' j = runtime_of st j" "rd st' = rd st" "def_rt_b st' = def_rt_b st" by auto
    moreover have "runtime_of st' i = runtime_of st i" using st'(4) Cons.prems(1) by simp
    ultimately show ?thesis using True by (intro exI [of _ st']) (auto simp: rt_pool_simps)
  next
    case False
    define diff where "diff = (if sint (runtime_of st i) < sint want then runtime_of st i else want)"
    define s where "s = add_runtime i (- diff) st"
    have b: "unat want < 2 ^ 63" "unat (runtime_of st i) < 2 ^ 63"
      using Cons.prems(3,4) rt_pool_member [of i "removeAll me (i # is)" st] False by auto
    have le: "unat diff \<le> unat want" "unat diff \<le> unat (runtime_of st i)"
      using b by (auto simp: diff_def sint_u64 simp del: of_nat_unat split: if_splits)
    have uw: "unat (want - diff) = unat want - unat diff" using le by (intro unat_diff_le) (simp add: word_le_nat_alt)
    have ri: "runtime_of s i = runtime_of st i - diff" by (simp add: s_def add_runtime_sel)
    then have ui: "unat (runtime_of s i) = unat (runtime_of st i) - unat diff"
      using le by (simp add: unat_diff_le word_le_nat_alt)
    then have fi: "runtime_of s i \<noteq> RUNTIME_INF" using b unat_RUNTIME_INF by auto
    have rest: "rt_pool s (removeAll me is) = rt_pool st (removeAll me is)" "rt_lenders s (removeAll me is) = rt_lenders st (removeAll me is)"
      using Cons.prems(1) by (simp_all add: s_def rt_pool_add_runtime)
    have pool: "rt_pool st (removeAll me (i # is)) = unat (runtime_of st i) + rt_pool st (removeAll me is)"
      using False by (simp add: rt_pool_simps)
    have fr: "rd s = rd st" "def_rt_b s = def_rt_b st" "\<And>j. j \<noteq> i \<Longrightarrow> runtime_of s j = runtime_of st j"
      by (simp_all add: s_def add_runtime_sel)
    have step: "reclaim_loop me want (i # is) st = (if want - diff = 0 then (0, s) else reclaim_loop me (want - diff) is s)"
      using False Cons.prems(2) by (simp add: diff_def s_def Let_def)
    show ?thesis
    proof (cases "want - diff = 0")
      case True
      then have "diff = want" by simp
      then show ?thesis using step True False fi rest pool ui le fr Cons.prems(1)
        by (intro exI [of _ s]) (auto simp: rt_pool_simps)
    next
      case more: False
      then have d: "diff = runtime_of st i" by (auto simp: diff_def split: if_splits)
      have "unat (want - diff) \<noteq> 0" using more by (simp only: unat_eq_zero) simp
      then have "0 < unat (want - diff)" "unat (want - diff) < 2 ^ 63" using b uw by simp_all
      then have "sint (want - diff) > 0" unfolding sint_u64 by (simp del: of_nat_unat)
      moreover have "unat (want - diff) \<le> rt_pool s (removeAll me is)" "rt_pool s (removeAll me is) < 2 ^ 63"
        using uw rest pool d Cons.prems(3,4) by simp_all
      ultimately obtain st' where
        st': "reclaim_loop me (want - diff) is s = (0, st')" "rt_pool st' (removeAll me is) + unat (want - diff) = rt_pool s (removeAll me is)"
        "rt_lenders st' (removeAll me is) = rt_lenders s (removeAll me is)"
        "\<forall>j. j \<notin> set is \<or> j = me \<longrightarrow> runtime_of st' j = runtime_of s j" "rd st' = rd s" "def_rt_b st' = def_rt_b s"
        using Cons.IH [of "want - diff" s] Cons.prems(1) by auto
      moreover have "runtime_of st' i = runtime_of s i" using st'(4) Cons.prems(1) by simp
      ultimately show ?thesis using step more False fi rest pool ui le uw fr d
        by (intro exI [of _ st']) (auto simp: rt_pool_simps)
    qed
  qed
qed

text \<open>Giving back what was borrowed: the first CPU that takes part gets all of it.\<close>

lemma reclaim_borrowed:
  assumes "distinct is" "sint want < 0" "rt_lenders st (removeAll me is) \<noteq> []"
    "rt_pool st (removeAll me is) + unat (- want) < 2 ^ 63"
  shows "\<exists>st'. reclaim_loop me want is st = (0, st') \<and> rt_pool st' (removeAll me is) = rt_pool st (removeAll me is) + unat (- want) \<and>
    rt_lenders st' (removeAll me is) = rt_lenders st (removeAll me is) \<and>
    (\<forall>i. i \<notin> set is \<or> i = me \<longrightarrow> runtime_of st' i = runtime_of st i) \<and> rd st' = rd st \<and> def_rt_b st' = def_rt_b st"
  using assms
proof (induction "is")
  case (Cons i "is")
  show ?case
  proof (cases "i = me \<or> runtime_of st i = RUNTIME_INF")
    case True
    with Cons obtain st' where
      st': "reclaim_loop me want is st = (0, st')" "rt_pool st' (removeAll me is) = rt_pool st (removeAll me is) + unat (- want)"
      "rt_lenders st' (removeAll me is) = rt_lenders st (removeAll me is)"
      "\<forall>j. j \<notin> set is \<or> j = me \<longrightarrow> runtime_of st' j = runtime_of st j" "rd st' = rd st" "def_rt_b st' = def_rt_b st"
      by (auto simp: rt_pool_simps split: if_splits)
    moreover have "runtime_of st' i = runtime_of st i" using st'(4) Cons.prems(1) by simp
    ultimately show ?thesis using True by (intro exI [of _ st']) (auto simp: rt_pool_simps)
  next
    case False
    define s where "s = add_runtime i (- want) st"
    have "unat (runtime_of st i) + unat (- want) < 2 ^ 63" using Cons.prems(4) False by (simp add: rt_pool_simps)
    moreover have "runtime_of s i = runtime_of st i + (- want)" by (simp add: s_def add_runtime_sel)
    ultimately have u: "unat (runtime_of s i) = unat (runtime_of st i) + unat (- want)" "unat (runtime_of s i) < 2 ^ 63"
      by (simp_all add: unat_plus_if_size word_size del: add_uminus_conv_diff)
    then have "runtime_of s i \<noteq> RUNTIME_INF" using unat_RUNTIME_INF by auto
    moreover have "reclaim_loop me want (i # is) st = (0, s)" using False Cons.prems(2) by (simp add: s_def)
    ultimately show ?thesis using False u(1) Cons.prems(1)
      by (intro exI [of _ s]) (auto simp: rt_pool_simps rt_pool_add_runtime s_def add_runtime_sel)
  qed
qed (simp add: rt_pool_simps)

lemma enqueue_runtime_frame:
  "runtime_of (sched_rt_rq_enqueue c st) i = runtime_of st i" "rd_span (rd (sched_rt_rq_enqueue c st)) = rd_span (rd st)"
  "def_rt_b (sched_rt_rq_enqueue c st) = def_rt_b st" "rt_throttled (rtq (sched_rt_rq_enqueue c st) i) = rt_throttled (rtq st i)"
  by (simp_all add: sched_rt_rq_enqueue_def enqueue_top_rt_rq_def add_nr_running_def Let_def st_simps)

lemma reclaim_total:
  assumes ok: "rt_pool_ok st" and c: "c \<in> set (rd_span (rd st))" "runtime_of st c \<noteq> RUNTIME_INF"
    and ne: "runtime_of st c \<noteq> rtb_runtime (def_rt_b st)"
  defines "span \<equiv> rd_span (rd st)" and "R \<equiv> rtb_runtime (def_rt_b st)"
  shows "\<exists>st'. reclaim_loop c (R - runtime_of st c) span st = (0, st') \<and>
    rt_pool st' (removeAll c span) = length (rt_lenders st (removeAll c span)) * unat R \<and>
    rt_lenders st' (removeAll c span) = rt_lenders st (removeAll c span) \<and> rd st' = rd st \<and> def_rt_b st' = def_rt_b st"
proof -
  let ?m = "unat (runtime_of st c)" and ?n = "length (rt_lenders st (removeAll c span))"
  have d: "distinct span" "length span * unat R < 2 ^ 63" "rt_pool st span = length (rt_lenders st span) * unat R"
    using ok by (simp_all add: rt_pool_ok_def span_def R_def)
  note rm = rt_pool_remove [OF d(1) c(1) [folded span_def] c(2)]
  have eq: "?m + rt_pool st (removeAll c span) = unat R + ?n * unat R" using d(3) rm by simp
  have "length (rt_lenders st span) \<le> length span" by (simp add: rt_lenders_def)
  then have "length (rt_lenders st span) * unat R < 2 ^ 63" using d(2) by (meson le_less_trans mult_le_mono1)
  then have bound: "unat R + ?n * unat R < 2 ^ 63" using rm by simp
  show ?thesis
  proof (cases "runtime_of st c \<le> R")
    case True
    then have w: "unat (R - runtime_of st c) = unat R - ?m" "?m < unat R"
      using ne by (auto simp: unat_diff_le word_le_nat_alt word_unat_eq_iff R_def)
    then have "sint (R - runtime_of st c) > 0" using bound unfolding sint_u64 by (simp del: of_nat_unat)
    moreover have "unat (R - runtime_of st c) \<le> rt_pool st (removeAll c span)" "rt_pool st (removeAll c span) < 2 ^ 63"
      using w eq bound by linarith+
    ultimately obtain st' where "reclaim_loop c (R - runtime_of st c) span st = (0, st')"
      "rt_pool st' (removeAll c span) + unat (R - runtime_of st c) = rt_pool st (removeAll c span)"
      "rt_lenders st' (removeAll c span) = rt_lenders st (removeAll c span)" "rd st' = rd st" "def_rt_b st' = def_rt_b st"
      using reclaim_lent [OF d(1), of "R - runtime_of st c" st c] by auto
    moreover from this(2) have "rt_pool st' (removeAll c span) = ?n * unat R" using w eq by linarith
    ultimately show ?thesis by blast
  next
    case False
    then have lt: "unat R < ?m" by (simp add: word_le_nat_alt)
    have w: "unat (- (R - runtime_of st c)) = ?m - unat R" using lt by (simp add: unat_diff_le word_le_nat_alt)
    have ne': "rt_lenders st (removeAll c span) \<noteq> []"
    proof
      assume "rt_lenders st (removeAll c span) = []"
      then have "rt_pool st (removeAll c span) = 0" "?n = 0" by (simp_all add: rt_pool_def)
      then show False using eq lt by simp
    qed
    have "?m < 2 ^ 63" using eq bound by simp
    then have "\<not> 0 < sint (R - runtime_of st c)" using diff_positive [of R "runtime_of st c"] lt by simp
    moreover have "sint (R - runtime_of st c) \<noteq> 0" 
    proof -
      have "unat (R - runtime_of st c) \<noteq> 0" using ne by (simp only: unat_eq_zero) (simp add: R_def)
      then show ?thesis using unat_bound [of "R - runtime_of st c"] unfolding sint_u64 by (simp del: of_nat_unat)
    qed
    ultimately have "sint (R - runtime_of st c) < 0" by simp
    moreover have "rt_pool st (removeAll c span) + unat (- (R - runtime_of st c)) < 2 ^ 63"
      unfolding w using eq bound lt by linarith
    ultimately obtain st' where "reclaim_loop c (R - runtime_of st c) span st = (0, st')"
      "rt_pool st' (removeAll c span) = rt_pool st (removeAll c span) + unat (- (R - runtime_of st c))"
      "rt_lenders st' (removeAll c span) = rt_lenders st (removeAll c span)" "rd st' = rd st" "def_rt_b st' = def_rt_b st"
      using reclaim_borrowed [OF d(1) _ ne', of "R - runtime_of st c"] by blast
    moreover from this(2) have "rt_pool st' (removeAll c span) = ?n * unat R" unfolding w using eq lt by linarith
    ultimately show ?thesis by blast
  qed
qed

text \<open>
  C15: Taking a CPU out of the runtime pool (\<open>__disable_runtime\<close>) always finds all the runtime
  the CPU has lent, so its \<open>BUG_ON(want)\<close> is unreachable: starting from a pool that is whole, it
  ends with the CPU at infinite runtime and not throttled and the pool of the others whole;
  putting it back (\<open>__enable_runtime\<close>) gives it its own share and again a whole pool.
\<close>

theorem rt_disable_enable_pool:
  assumes "rt_pool_ok st" "c \<in> set (rd_span (rd st))" "runtime_of st c \<noteq> RUNTIME_INF"
    "rtb_runtime (def_rt_b st) \<noteq> RUNTIME_INF" "scheduler_running st"
  shows "\<exists>st'. disable_runtime c st = Some st' \<and> runtime_of st' c = RUNTIME_INF \<and> \<not> rt_throttled (rtq st' c) \<and>
    rt_pool_ok st' \<and> rt_pool_ok (enable_runtime c st')"
proof -
  let ?span = "rd_span (rd st)" and ?R = "rtb_runtime (def_rt_b st)"
  have d: "distinct ?span" "length ?span * unat ?R < 2 ^ 63" "rt_pool st ?span = length (rt_lenders st ?span) * unat ?R"
    using assms(1) by (simp_all add: rt_pool_ok_def)
  note rm = rt_pool_remove [OF d(1) assms(2,3)]
  obtain s where s: "rt_pool s (removeAll c ?span) = length (rt_lenders s (removeAll c ?span)) * unat ?R"
    "rd s = rd st" "def_rt_b s = def_rt_b st"
    "disable_runtime c st = Some (sched_rt_rq_enqueue c (upd_rt c (\<lambda>r. r\<lparr>rt_runtime := RUNTIME_INF, rt_throttled := False\<rparr>) s))"
  proof (cases "runtime_of st c = ?R")
    case True
    then show thesis using that [of st] d(3) rm assms(5) by (simp add: disable_runtime_def)
  next
    case False
    obtain s where "reclaim_loop c (?R - runtime_of st c) ?span st = (0, s)"
      "rt_pool s (removeAll c ?span) = length (rt_lenders st (removeAll c ?span)) * unat ?R"
      "rt_lenders s (removeAll c ?span) = rt_lenders st (removeAll c ?span)" "rd s = rd st" "def_rt_b s = def_rt_b st"
      using reclaim_total [OF assms(1-3) False] by blast
    then show thesis using that [of s] False assms(3,5) by (simp add: disable_runtime_def)
  qed
  define s1 where "s1 = sched_rt_rq_enqueue c (upd_rt c (\<lambda>r. r\<lparr>rt_runtime := RUNTIME_INF, rt_throttled := False\<rparr>) s)"
  have r1: "runtime_of s1 c = RUNTIME_INF" "\<not> rt_throttled (rtq s1 c)" "rd_span (rd s1) = ?span" "def_rt_b s1 = def_rt_b st"
    "\<And>i. i \<noteq> c \<Longrightarrow> runtime_of s1 i = runtime_of s i"
    using s(2,3) by (simp_all add: s1_def enqueue_runtime_frame st_simps)
  have out: "rt_pool x ?span = rt_pool x (removeAll c ?span) \<and> rt_lenders x ?span = rt_lenders x (removeAll c ?span)"
    if "runtime_of x c = RUNTIME_INF" for x
  proof -
    have "rt_lenders x ?span = rt_lenders x (removeAll c ?span)"
      using that unfolding rt_lenders_def removeAll_filter_not_eq filter_filter by (metis)
    then show ?thesis by (simp add: rt_pool_def)
  qed
  have p1: "rt_pool s1 (removeAll c ?span) = rt_pool s (removeAll c ?span)" "rt_lenders s1 (removeAll c ?span) = rt_lenders s (removeAll c ?span)"
    using rt_pool_cong [of "removeAll c ?span" s1 s] r1(5) by auto
  have ok1: "rt_pool_ok s1" using d out [OF r1(1)] p1 s(1) r1(3,4) by (simp add: rt_pool_ok_def)
  define s2 where "s2 = enable_runtime c s1"
  have ok2: "rt_pool_ok s2"
  proof (cases "scheduler_running s1")
    case True
    have r2: "runtime_of s2 c = ?R" "rd_span (rd s2) = ?span" "def_rt_b s2 = def_rt_b st" "\<And>i. i \<noteq> c \<Longrightarrow> runtime_of s2 i = runtime_of s1 i"
      using True r1(3,4) by (simp_all add: s2_def enable_runtime_def st_simps)
    have p2: "rt_pool s2 (removeAll c ?span) = rt_pool s1 (removeAll c ?span)" "rt_lenders s2 (removeAll c ?span) = rt_lenders s1 (removeAll c ?span)"
      using rt_pool_cong [of "removeAll c ?span" s2 s1] r2(4) by auto
    have "runtime_of s2 c \<noteq> RUNTIME_INF" using r2(1) assms(4) by simp
    from rt_pool_remove [OF d(1) assms(2) this] show ?thesis
      using d p1 p2 s(1) r2 by (simp add: rt_pool_ok_def)
  qed (use ok1 in \<open>simp add: s2_def enable_runtime_def\<close>)
  show ?thesis using s(4) r1(1,2) ok1 ok2 by (simp add: s1_def s2_def)
qed

definition rt_pool_demo :: sched_state where
  "rt_pool_demo = add_runtime 0 (- 50000000) (add_runtime 1 50000000 blank_state)"

lemma rt_pool_demo_fields:
  "runtime_of rt_pool_demo 0 = 900000000" "runtime_of rt_pool_demo (Suc 0) = 1000000000"
  "rd_span (rd rt_pool_demo) = [0, 1]" "rtb_runtime (def_rt_b rt_pool_demo) = 950000000" "scheduler_running rt_pool_demo"
  by (simp_all add: rt_pool_demo_def add_runtime_sel add_runtime_def st_simps) (simp_all add: blank_defs)

theorem rt_disable_enable_pool_witness:
  "\<exists>st'. disable_runtime 0 rt_pool_demo = Some st' \<and> rt_pool_ok st'"
proof -
  have n: "(900000000 :: u64) \<noteq> RUNTIME_INF" "(1000000000 :: u64) \<noteq> RUNTIME_INF" "(950000000 :: u64) \<noteq> RUNTIME_INF"
    by (simp_all add: RUNTIME_INF_def)
  then have "rt_pool_ok rt_pool_demo"
    by (simp add: rt_pool_ok_def rt_pool_def rt_lenders_def rt_pool_demo_fields)
  with rt_disable_enable_pool [of rt_pool_demo 0] n show ?thesis by (auto simp: rt_pool_demo_fields)
qed

end
