(* ===== verification/Sched_Bandwidth.thy ===== *)
theory Sched_Bandwidth
  imports Sched_Core
begin

text \<open>
  Bandwidth settings: the real-time limits of \<open>rt.c\<close> (\<open>sched_rt_handler\<close>, \<open>sched_rr_handler\<close>
  and, for kernels with real-time groups, \<open>tg_set_rt_bandwidth\<close>), the fair-group bandwidth and
  the cgroup weights of \<open>core.c\<close>, and the walk over the task-group tree both use. A task
  group is a number with a record in a store; the tree of groups is the data type
  \<open>tg_tree\<close>, in the order of the children lists. The parsing of a sysctl write
  (\<open>proc_dointvec\<close>), the deadline class's checks and the fair class's refill and unthrottling
  are parameters.
\<close>

section \<open>The walk over the task groups\<close>

datatype tg_tree = TG nat "tg_tree list"

fun tg_id :: "tg_tree \<Rightarrow> nat" where "tg_id (TG g ts) = g"
fun tg_kids :: "tg_tree \<Rightarrow> tg_tree list" where "tg_kids (TG g ts) = ts"

type_synonym 's tg_visitor = "tg_tree \<Rightarrow> 's \<Rightarrow> int \<times> 's"

text \<open>
  \<open>walk_tg_tree_from\<close> follows pointers: \<open>Down\<close> and \<open>Up\<close> are its two labels, the stack holds,
  for every group between the start and the current one, the siblings still to visit.
\<close>

datatype walk_pos = Down tg_tree | Up tg_tree

fun tg_size :: "tg_tree \<Rightarrow> nat" where
  "tg_size (TG g ts) = Suc (sum_list (map tg_size ts))"

fun stack_size :: "(tg_tree \<times> tg_tree list) list \<Rightarrow> nat" where
  "stack_size [] = 0"
| "stack_size ((p, ts) # s) = 1 + 2 * sum_list (map tg_size ts) + stack_size s"

fun pos_size :: "walk_pos \<Rightarrow> nat" where
  "pos_size (Down t) = 2 * tg_size t"
| "pos_size (Up t) = 1"

lemma kids_Cons_size: "tg_kids t = c # cs \<Longrightarrow> tg_size t = Suc (tg_size c + sum_list (map tg_size cs))"
  by (cases t) simp

lemma tg_size_pos: "Suc 0 \<le> tg_size t"
  by (cases t) simp

function walk_loop :: "'s tg_visitor \<Rightarrow> 's tg_visitor \<Rightarrow> walk_pos \<Rightarrow> (tg_tree \<times> tg_tree list) list \<Rightarrow> 's \<Rightarrow> int \<times> 's" where
  "walk_loop down up (Down t) stack d =
    (let (ret, d) = down t d in
     if ret \<noteq> 0 then (ret, d)
     else case tg_kids t of c # cs \<Rightarrow> walk_loop down up (Down c) ((t, cs) # stack) d
          | [] \<Rightarrow> walk_loop down up (Up t) stack d)"
| "walk_loop down up (Up t) stack d =
    (let (ret, d) = up t d in
     if ret \<noteq> 0 then (ret, d)
     else case stack of [] \<Rightarrow> (ret, d)
          | (p, c # cs) # stack \<Rightarrow> walk_loop down up (Down c) ((p, cs) # stack) d
          | (p, []) # stack \<Rightarrow> walk_loop down up (Up p) stack d)"
  by pat_completeness auto
termination
  by (relation "measure (\<lambda>(down, up, pos, stack, d). pos_size pos + stack_size stack)")
    (auto simp: kids_Cons_size Suc_le_eq [symmetric] intro: tg_size_pos le_less_trans)

definition walk_tg_tree_from :: "tg_tree \<Rightarrow> 's tg_visitor \<Rightarrow> 's tg_visitor \<Rightarrow> 's \<Rightarrow> int \<times> 's" where
  "walk_tg_tree_from from down up d = walk_loop down up (Down from) [] d"

definition tg_nop :: "'s tg_visitor" where
  "tg_nop t d = (0, d)"

section \<open>Ratios and the global real-time limits\<close>

definition BW_SHIFT :: nat where "BW_SHIFT = 20"
definition BW_UNIT :: u64 where "BW_UNIT = push_bit BW_SHIFT 1"

definition to_ratio :: "u64 \<Rightarrow> u64 \<Rightarrow> u64" where
  "to_ratio period runtime =
    (if runtime = RUNTIME_INF then BW_UNIT
     else if period = 0 then 0
     else push_bit BW_SHIFT runtime div period)"

text \<open>\<open>sysctl_sched_rt_runtime\<close> is an \<open>int\<close>: compared with a \<open>u64\<close> it is sign-extended, with an \<open>unsigned int\<close> reinterpreted.\<close>

definition sched_rt_global_validate :: "sched_state \<Rightarrow> int" where
  "sched_rt_global_validate st =
    (if sysctl_rt_period st \<le> 0 then - EINVAL
     else if (word_of_int (sysctl_rt_runtime st) :: u64) \<noteq> RUNTIME_INF \<and>
          (word_of_int (sysctl_rt_runtime st) :: u32) > sysctl_rt_period st then - EINVAL
     else 0)"

fun set_all_runtime :: "cpu list \<Rightarrow> u64 \<Rightarrow> sched_state \<Rightarrow> sched_state" where
  "set_all_runtime [] r st = st"
| "set_all_runtime (c # cs) r st = set_all_runtime cs r (upd_rt c (\<lambda>q. q\<lparr>rt_runtime := r\<rparr>) st)"

definition sched_rt_global_constraints :: "kernel_env \<Rightarrow> sched_state \<Rightarrow> int \<times> sched_state" where
  "sched_rt_global_constraints env st = (0, set_all_runtime (env_possible_mask env) (global_rt_runtime st) st)"

definition sched_rt_do_global :: "sched_state \<Rightarrow> sched_state" where
  "sched_rt_do_global st =
     st\<lparr>def_rt_b := (def_rt_b st)\<lparr>rtb_runtime := global_rt_runtime st, rtb_period := global_rt_period st\<rparr>\<rparr>"

text \<open>
  \<open>proc\<close> is the outcome of \<open>proc_dointvec\<close>: its result and the two settings after it;
  \<open>dl_validate\<close> and \<open>dl_do_global\<close> are the deadline class's functions.
\<close>

definition sched_rt_handler ::
  "kernel_env \<Rightarrow> (sched_state \<Rightarrow> int) \<Rightarrow> (sched_state \<Rightarrow> sched_state) \<Rightarrow> int \<times> u32 \<times> int \<Rightarrow> bool \<Rightarrow> sched_state \<Rightarrow> int \<times> sched_state" where
  "sched_rt_handler env dl_validate dl_do_global proc write st =
    (let old_period = sysctl_rt_period st; old_runtime = sysctl_rt_runtime st;
         (ret, period, runtime) = proc;
         st = st\<lparr>sysctl_rt_period := period, sysctl_rt_runtime := runtime\<rparr>;
         undo = (\<lambda>(st::sched_state). st\<lparr>sysctl_rt_period := old_period, sysctl_rt_runtime := old_runtime\<rparr>)
     in if ret = 0 \<and> write then
          let ret = sched_rt_global_validate st in
          if ret \<noteq> 0 then (ret, undo st)
          else let ret = dl_validate st in
          if ret \<noteq> 0 then (ret, undo st)
          else let (ret, st) = sched_rt_global_constraints env st in
          if ret \<noteq> 0 then (ret, undo st)
          else (ret, dl_do_global (sched_rt_do_global st))
        else (ret, st))"

text \<open>\<open>proc\<close>: the result of \<open>proc_dointvec\<close> and the new \<open>sysctl_sched_rr_timeslice\<close>, in milliseconds.\<close>

definition sched_rr_handler :: "(int \<Rightarrow> u32) \<Rightarrow> u32 \<Rightarrow> int \<times> int \<Rightarrow> bool \<Rightarrow> sched_state \<Rightarrow> int \<times> sched_state" where
  "sched_rr_handler msecs_to_jiffies dflt proc write st =
    (let (ret, ms) = proc in
     if ret = 0 \<and> write then (ret, st\<lparr>rr_timeslice := (if ms \<le> 0 then dflt else msecs_to_jiffies ms)\<rparr>)
     else (ret, st))"

section \<open>Task groups\<close>

record task_group =
  tg_parent :: "nat option"
  tg_rt_period :: u64
  tg_rt_runtime :: u64
  tg_has_rt_tasks :: bool
  tg_rt_rq_runtime :: "cpu \<Rightarrow> u64"
  tg_cfs_period :: u64
  tg_cfs_quota :: u64
  tg_hier_quota :: "u64"
  tg_shares :: u64
  tg_runtime_enabled :: "cpu \<Rightarrow> bool"
  tg_runtime_remaining :: "cpu \<Rightarrow> u64"
  tg_throttled :: "cpu \<Rightarrow> bool"

type_synonym tgs = "nat \<Rightarrow> task_group"

text \<open>What the walk passes to the visitors of the real-time check.\<close>

record rt_schedulable_data =
  rsd_tg :: "nat option"
  rsd_period :: u64
  rsd_runtime :: u64

definition rsd_of :: "rt_schedulable_data \<Rightarrow> tgs \<Rightarrow> nat \<Rightarrow> u64 \<times> u64" where
  "rsd_of d gs g = (if rsd_tg d = Some g then (rsd_period d, rsd_runtime d) else (tg_rt_period (gs g), tg_rt_runtime (gs g)))"

definition tg_rt_schedulable :: "sched_state \<Rightarrow> rt_schedulable_data \<Rightarrow> tgs tg_visitor" where
  "tg_rt_schedulable st d t gs =
    (let (period, runtime) = rsd_of d gs (tg_id t) in
     if runtime > period \<and> runtime \<noteq> RUNTIME_INF then (- EINVAL, gs)
     else if rt_bandwidth_enabled st \<and> runtime = 0 \<and> tg_has_rt_tasks (gs (tg_id t)) then (- EBUSY, gs)
     else
       let total = to_ratio period runtime in
       if total > to_ratio (global_rt_period st) (global_rt_runtime st) then (- EINVAL, gs)
       else
         let kids = sum_list (map (\<lambda>c. case rsd_of d gs (tg_id c) of (p, r) \<Rightarrow> to_ratio p r) (tg_kids t))
         in if kids > total then (- EINVAL, gs) else (0, gs))"

definition rt_schedulable :: "sched_state \<Rightarrow> tg_tree \<Rightarrow> nat option \<Rightarrow> u64 \<Rightarrow> u64 \<Rightarrow> tgs \<Rightarrow> int" where
  "rt_schedulable st root tg period runtime gs =
     fst (walk_tg_tree_from root (tg_rt_schedulable st \<lparr>rsd_tg = tg, rsd_period = period, rsd_runtime = runtime\<rparr>) tg_nop gs)"

text \<open>The root group is the root of the tree.\<close>

definition tg_set_rt_bandwidth :: "kernel_env \<Rightarrow> sched_state \<Rightarrow> tg_tree \<Rightarrow> nat \<Rightarrow> u64 \<Rightarrow> u64 \<Rightarrow> tgs \<Rightarrow> int \<times> tgs" where
  "tg_set_rt_bandwidth env st root g period runtime gs =
    (if g = tg_id root \<and> runtime = 0 then (- EINVAL, gs)
     else if period = 0 then (- EINVAL, gs)
     else
       let err = rt_schedulable st root (Some g) period runtime gs in
       if err \<noteq> 0 then (err, gs)
       else (0, gs(g := (gs g)\<lparr>tg_rt_period := period, tg_rt_runtime := runtime,
              tg_rt_rq_runtime := (\<lambda>c. if c \<in> set (env_possible_mask env) then runtime else tg_rt_rq_runtime (gs g) c)\<rparr>)))"

definition U64_MAX :: u64 where "U64_MAX = NOT 0"

definition sched_group_set_rt_runtime :: "kernel_env \<Rightarrow> sched_state \<Rightarrow> tg_tree \<Rightarrow> nat \<Rightarrow> int \<Rightarrow> tgs \<Rightarrow> int \<times> tgs" where
  "sched_group_set_rt_runtime env st root g us gs =
    (if us < 0 then tg_set_rt_bandwidth env st root g (tg_rt_period (gs g)) RUNTIME_INF gs
     else if (word_of_int us :: u64) > U64_MAX div NSEC_PER_USEC then (- EINVAL, gs)
     else tg_set_rt_bandwidth env st root g (tg_rt_period (gs g)) (word_of_int us * NSEC_PER_USEC) gs)"

definition sched_group_rt_runtime :: "task_group \<Rightarrow> int" where
  "sched_group_rt_runtime t = (if tg_rt_runtime t = RUNTIME_INF then -1 else sint (tg_rt_runtime t div NSEC_PER_USEC))"

definition sched_group_set_rt_period :: "kernel_env \<Rightarrow> sched_state \<Rightarrow> tg_tree \<Rightarrow> nat \<Rightarrow> u64 \<Rightarrow> tgs \<Rightarrow> int \<times> tgs" where
  "sched_group_set_rt_period env st root g us gs =
    (if us > U64_MAX div NSEC_PER_USEC then (- EINVAL, gs)
     else tg_set_rt_bandwidth env st root g (us * NSEC_PER_USEC) (tg_rt_runtime (gs g)) gs)"

definition sched_group_rt_period :: "task_group \<Rightarrow> int" where
  "sched_group_rt_period t = sint (tg_rt_period t div NSEC_PER_USEC)"

definition sched_rt_can_attach :: "task_group \<Rightarrow> task_struct \<Rightarrow> bool" where
  "sched_rt_can_attach tg t \<longleftrightarrow> \<not> (rt_task t \<and> tg_rt_runtime tg = 0)"

section \<open>Fair-group bandwidth\<close>

definition max_cfs_quota_period :: u64 where "max_cfs_quota_period = 1000000000"
definition min_cfs_quota_period :: u64 where "min_cfs_quota_period = 1000000"

record cfs_schedulable_data =
  csd_tg :: nat
  csd_period :: u64
  csd_quota :: u64

definition tg_get_cfs_quota :: "task_group \<Rightarrow> int" where
  "tg_get_cfs_quota t = (if tg_cfs_quota t = RUNTIME_INF then -1 else sint (tg_cfs_quota t div NSEC_PER_USEC))"

definition tg_get_cfs_period :: "task_group \<Rightarrow> int" where
  "tg_get_cfs_period t = sint (tg_cfs_period t div NSEC_PER_USEC)"

definition normalize_cfs_quota :: "cfs_schedulable_data \<Rightarrow> tgs \<Rightarrow> nat \<Rightarrow> u64" where
  "normalize_cfs_quota d gs g =
    (let (period, quota) = (if g = csd_tg d then (csd_period d, csd_quota d)
                            else (word_of_int (tg_get_cfs_period (gs g)), word_of_int (tg_get_cfs_quota (gs g))))
     in if quota = RUNTIME_INF \<or> quota = -1 then RUNTIME_INF else to_ratio period quota)"

text \<open>\<open>on_dfl\<close>: the cpu controller is on the default (version 2) hierarchy. Quotas are \<open>s64\<close> here.\<close>

definition tg_cfs_schedulable_down :: "bool \<Rightarrow> cfs_schedulable_data \<Rightarrow> tgs tg_visitor" where
  "tg_cfs_schedulable_down on_dfl d t gs =
    (let g = tg_id t in
     case tg_parent (gs g) of
       None \<Rightarrow> (0, gs(g := (gs g)\<lparr>tg_hier_quota := RUNTIME_INF\<rparr>))
     | Some p \<Rightarrow>
         let quota = normalize_cfs_quota d gs g; parent_quota = tg_hier_quota (gs p) in
         if on_dfl
         then (0, gs(g := (gs g)\<lparr>tg_hier_quota := (if sint quota < sint parent_quota then quota else parent_quota)\<rparr>))
         else if quota = RUNTIME_INF then (0, gs(g := (gs g)\<lparr>tg_hier_quota := parent_quota\<rparr>))
         else if parent_quota \<noteq> RUNTIME_INF \<and> sint quota > sint parent_quota then (- EINVAL, gs)
         else (0, gs(g := (gs g)\<lparr>tg_hier_quota := quota\<rparr>)))"

definition cfs_schedulable :: "bool \<Rightarrow> tg_tree \<Rightarrow> nat \<Rightarrow> u64 \<Rightarrow> u64 \<Rightarrow> tgs \<Rightarrow> int \<times> tgs" where
  "cfs_schedulable on_dfl root g period quota gs =
    (let d = (if quota \<noteq> RUNTIME_INF
              then \<lparr>csd_tg = g, csd_period = period div NSEC_PER_USEC, csd_quota = quota div NSEC_PER_USEC\<rparr>
              else \<lparr>csd_tg = g, csd_period = period, csd_quota = quota\<rparr>)
     in walk_tg_tree_from root (tg_cfs_schedulable_down on_dfl d) tg_nop gs)"

text \<open>
  The operations of \<open>fair.c\<close> on a group's bandwidth: the refill, the start of the period timer
  and the unthrottling of its run queue on a CPU. \<open>usage\<close> is the count \<open>cfs_bandwidth_usage_inc\<close>
  and \<open>cfs_bandwidth_usage_dec\<close> keep of the groups with a limit.
\<close>

record cfs_bandwidth_ops =
  refill_cfs_bandwidth_runtime :: "task_group \<Rightarrow> task_group"
  start_cfs_bandwidth :: "task_group \<Rightarrow> task_group"
  unthrottle_cfs_rq :: "cpu \<Rightarrow> task_group \<Rightarrow> task_group"

definition cfs_cpu_update :: "cfs_bandwidth_ops \<Rightarrow> bool \<Rightarrow> cpu \<Rightarrow> task_group \<Rightarrow> task_group" where
  "cfs_cpu_update ops enabled i t =
    (let t = t\<lparr>tg_runtime_enabled := (tg_runtime_enabled t)(i := enabled),
               tg_runtime_remaining := (tg_runtime_remaining t)(i := 0)\<rparr>
     in if tg_throttled t i then unthrottle_cfs_rq ops i t else t)"

definition tg_set_cfs_bandwidth ::
  "cfs_bandwidth_ops \<Rightarrow> bool \<Rightarrow> cpu list \<Rightarrow> tg_tree \<Rightarrow> nat \<Rightarrow> u64 \<Rightarrow> u64 \<Rightarrow> int \<Rightarrow> tgs \<Rightarrow> int \<times> int \<times> tgs" where
  "tg_set_cfs_bandwidth ops on_dfl online root g period quota usage gs =
    (if g = tg_id root then (- EINVAL, usage, gs)
     else if quota < min_cfs_quota_period \<or> period < min_cfs_quota_period then (- EINVAL, usage, gs)
     else if period > max_cfs_quota_period then (- EINVAL, usage, gs)
     else
       let (ret, gs) = cfs_schedulable on_dfl root g period quota gs in
       if ret \<noteq> 0 then (ret, usage, gs)
       else
         let runtime_enabled = (quota \<noteq> RUNTIME_INF);
             runtime_was_enabled = (tg_cfs_quota (gs g) \<noteq> RUNTIME_INF);
             usage = (if runtime_enabled \<and> \<not> runtime_was_enabled then usage + 1 else usage);
             t = refill_cfs_bandwidth_runtime ops ((gs g)\<lparr>tg_cfs_period := period, tg_cfs_quota := quota\<rparr>);
             t = (if runtime_enabled then start_cfs_bandwidth ops t else t);
             t = fold (cfs_cpu_update ops runtime_enabled) online t;
             usage = (if runtime_was_enabled \<and> \<not> runtime_enabled then usage - 1 else usage)
         in (0, usage, gs(g := t)))"

definition tg_set_cfs_quota ::
  "cfs_bandwidth_ops \<Rightarrow> bool \<Rightarrow> cpu list \<Rightarrow> tg_tree \<Rightarrow> nat \<Rightarrow> int \<Rightarrow> int \<Rightarrow> tgs \<Rightarrow> int \<times> int \<times> tgs" where
  "tg_set_cfs_quota ops on_dfl online root g us usage gs =
    (let period = tg_cfs_period (gs g) in
     if us < 0 then tg_set_cfs_bandwidth ops on_dfl online root g period RUNTIME_INF usage gs
     else if (word_of_int us :: u64) \<le> U64_MAX div NSEC_PER_USEC
       then tg_set_cfs_bandwidth ops on_dfl online root g period (word_of_int us * NSEC_PER_USEC) usage gs
     else (- EINVAL, usage, gs))"

definition tg_set_cfs_period ::
  "cfs_bandwidth_ops \<Rightarrow> bool \<Rightarrow> cpu list \<Rightarrow> tg_tree \<Rightarrow> nat \<Rightarrow> int \<Rightarrow> int \<Rightarrow> tgs \<Rightarrow> int \<times> int \<times> tgs" where
  "tg_set_cfs_period ops on_dfl online root g us usage gs =
    (if (word_of_int us :: u64) > U64_MAX div NSEC_PER_USEC then (- EINVAL, usage, gs)
     else tg_set_cfs_bandwidth ops on_dfl online root g (word_of_int us * NSEC_PER_USEC) (tg_cfs_quota (gs g)) usage gs)"

section \<open>Weights of a group\<close>

definition ERANGE :: int where "ERANGE = 34"

definition scale_load_down :: "u64 \<Rightarrow> u64" where
  "scale_load_down w = (if w \<noteq> 0 then max 2 (drop_bit 10 w) else w)"

text \<open>\<open>DIV_ROUND_CLOSEST_ULL\<close> on unsigned operands.\<close>

definition div_round_closest :: "u64 \<Rightarrow> u64 \<Rightarrow> u64" where
  "div_round_closest x d = (x + d div 2) div d"

definition cpu_weight_read_u64 :: "task_group \<Rightarrow> u64" where
  "cpu_weight_read_u64 t = div_round_closest (scale_load_down (tg_shares t) * 100) 1024"

text \<open>\<open>set_shares\<close> is \<open>sched_group_set_shares\<close> of the fair class.\<close>

definition cpu_weight_write_u64 :: "(u64 \<Rightarrow> task_group \<Rightarrow> int \<times> task_group) \<Rightarrow> u64 \<Rightarrow> task_group \<Rightarrow> int \<times> task_group" where
  "cpu_weight_write_u64 set_shares weight t =
    (if weight < 1 \<or> weight > 10000 then (- ERANGE, t)
     else set_shares (scale_load (div_round_closest (weight * 1024) 100)) t)"

definition cpu_shares_write_u64 :: "(u64 \<Rightarrow> task_group \<Rightarrow> int \<times> task_group) \<Rightarrow> u64 \<Rightarrow> task_group \<Rightarrow> int \<times> task_group" where
  "cpu_shares_write_u64 set_shares shareval t =
     set_shares (scale_load (if shareval > scale_load_down (NOT 0) then push_bit 18 1 else shareval)) t"

definition cpu_shares_read_u64 :: "task_group \<Rightarrow> u64" where
  "cpu_shares_read_u64 t = scale_load_down (tg_shares t)"

text \<open>The loop of \<open>cpu_weight_nice_read_s64\<close>: the index at which it stops.\<close>

fun nice_scan :: "u64 list \<Rightarrow> u64 \<Rightarrow> int \<Rightarrow> nat \<Rightarrow> nat" where
  "nice_scan [] weight last_delta prio = prio"
| "nice_scan (w # ws) weight last_delta prio =
    (let delta = sint (ucast (word_of_int \<bar>sint (w - weight)\<bar> :: u64) :: u32) in
     if delta \<ge> last_delta then prio else nice_scan ws weight delta (Suc prio))"

definition cpu_weight_nice_read_s64 :: "task_group \<Rightarrow> int" where
  "cpu_weight_nice_read_s64 t =
     PRIO_TO_NICE (int (nice_scan sched_prio_to_weight (scale_load_down (tg_shares t)) 2147483647 0) - 1 + MAX_RT_PRIO)"

definition cpu_weight_nice_write_s64 :: "(u64 \<Rightarrow> task_group \<Rightarrow> int \<times> task_group) \<Rightarrow> int \<Rightarrow> task_group \<Rightarrow> int \<times> task_group" where
  "cpu_weight_nice_write_s64 set_shares nice t =
    (if nice < MIN_NICE \<or> nice > MAX_NICE then (- ERANGE, t)
     else set_shares (scale_load (sched_prio_to_weight ! nat (NICE_TO_PRIO nice - MAX_RT_PRIO))) t)"

end
