(* ===== verification/Sched_Bandwidth_Props.thy ===== *)
theory Sched_Bandwidth_Props
  imports Sched_Bandwidth
begin

text \<open>
  Correctness of the bandwidth settings: the pointer-chasing walk over the task groups is a
  pre- and post-order traversal, accepted real-time limits keep the whole hierarchy
  feasible, a rejected setting leaves everything as it was, and group weights written through
  the cgroup files read back unchanged.
\<close>

section \<open>The tree walk\<close>

text \<open>
  The reference: visit a group on the way down, its children in order, and the group again on
  the way up; the first result that is not 0 ends the traversal.
\<close>

fun tg_traverse :: "'s tg_visitor \<Rightarrow> 's tg_visitor \<Rightarrow> tg_tree \<Rightarrow> 's \<Rightarrow> int \<times> 's"
  and tg_traverse_all :: "'s tg_visitor \<Rightarrow> 's tg_visitor \<Rightarrow> tg_tree list \<Rightarrow> 's \<Rightarrow> int \<times> 's" where
  "tg_traverse down up (TG g ts) d =
    (let (r, d) = down (TG g ts) d in
     if r \<noteq> 0 then (r, d)
     else let (r, d) = tg_traverse_all down up ts d in if r \<noteq> 0 then (r, d) else up (TG g ts) d)"
| "tg_traverse_all down up [] d = (0, d)"
| "tg_traverse_all down up (t # ts) d =
    (let (r, d) = tg_traverse down up t d in if r \<noteq> 0 then (r, d) else tg_traverse_all down up ts d)"

lemma tg_traverse_kids:
  "tg_traverse down up t d =
    (let (r, d) = down t d in
     if r \<noteq> 0 then (r, d)
     else let (r, d) = tg_traverse_all down up (tg_kids t) d in if r \<noteq> 0 then (r, d) else up t d)"
  by (cases t, hypsubst) (simp split: prod.split)

declare walk_loop.simps [simp del]

text \<open>What the stack of the walk still has to do.\<close>

fun tg_finish :: "'s tg_visitor \<Rightarrow> 's tg_visitor \<Rightarrow> (tg_tree \<times> tg_tree list) list \<Rightarrow> 's \<Rightarrow> int \<times> 's" where
  "tg_finish down up [] d = (0, d)"
| "tg_finish down up ((p, ts) # stack) d =
    (let (r, d) = tg_traverse_all down up ts d in
     if r \<noteq> 0 then (r, d)
     else let (r, d) = up p d in if r \<noteq> 0 then (r, d) else tg_finish down up stack d)"

lemma walk_loop_finish:
  "walk_loop down up pos stack d =
    (let (r, d) = (case pos of Down t \<Rightarrow> tg_traverse down up t d | Up t \<Rightarrow> up t d)
     in if r \<noteq> 0 then (r, d) else tg_finish down up stack d)"
proof (induction down up pos stack d rule: walk_loop.induct)
  case (1 down up t stack d)
  obtain r e where e: "down t d = (r, e)" by fastforce
  show ?case
  proof (cases "r = 0")
    case True
    show ?thesis
    proof (cases "tg_kids t")
      case Nil
      have "walk_loop down up (Down t) stack d = walk_loop down up (Up t) stack e"
        using e True Nil by (simp add: walk_loop.simps(1))
      then show ?thesis using 1(1) [OF refl e [symmetric] _ Nil] True e Nil
        by (simp add: tg_traverse_kids [of down up t])
    next
      case (Cons c cs)
      have "walk_loop down up (Down t) stack d = walk_loop down up (Down c) ((t, cs) # stack) e"
        using e True Cons by (simp add: walk_loop.simps(1))
      then show ?thesis using 1(2) [OF refl e [symmetric] _ Cons] True e Cons
        by (simp add: tg_traverse_kids [of down up t] split: prod.splits)
    qed
  qed (use e in \<open>simp add: tg_traverse_kids [of down up t] walk_loop.simps(1)\<close>)
next
  case (2 down up t stack d)
  obtain r e where e: "up t d = (r, e)" by fastforce
  show ?case
  proof (cases "r = 0")
    case True
    consider "stack = []" | p rest where "stack = (p, []) # rest" | p c cs rest where "stack = (p, c # cs) # rest"
      by (metis list.exhaust surj_pair)
    then show ?thesis
    proof cases
      case 1
      then show ?thesis using e True by (simp add: walk_loop.simps(2))
    next
      case (2 p rest)
      have "walk_loop down up (Up t) stack d = walk_loop down up (Up p) rest e"
        using e True 2 by (simp add: walk_loop.simps(2))
      then show ?thesis using "2.IH"(1) [OF refl e [symmetric] _ 2 refl refl] True e 2 by (simp split: prod.splits)
    next
      case (3 p c cs rest)
      have "walk_loop down up (Up t) stack d = walk_loop down up (Down c) ((p, cs) # rest) e"
        using e True 3 by (simp add: walk_loop.simps(2))
      then show ?thesis using "2.IH"(2) [OF refl e [symmetric] _ 3 refl refl] True e 3 by (simp split: prod.splits)
    qed
  qed (use e in \<open>simp add: walk_loop.simps(2)\<close>)
qed

lemma walk_traverse: "walk_tg_tree_from t down up d = tg_traverse down up t d"
  by (simp add: walk_tg_tree_from_def walk_loop_finish split: prod.splits)

text \<open>
  C30: The walk of \<open>walk_tg_tree_from\<close>, which keeps its place in parent and sibling pointers and
  jumps between its \<open>down\<close> and \<open>up\<close> labels, ends and computes the recursive traversal: every
  group before its children and again after them, children in order, stopping at the first
  non-zero result with that result.
\<close>

theorem walk_is_traversal: "walk_tg_tree_from t down up d = tg_traverse down up t d"
  by (rule walk_traverse)

section \<open>Feasible real-time limits\<close>

fun tg_groups :: "tg_tree \<Rightarrow> tg_tree list" where
  "tg_groups (TG g ts) = TG g ts # concat (map tg_groups ts)"

lemma tg_nop_app: "tg_nop t d = (0, d)"
  by (simp add: tg_nop_def)

text \<open>A check that leaves the state alone holds for the traversal when it holds for every group.\<close>

lemma tg_traverse_check_gen:
  assumes "\<And>t. snd (down t d) = d" and up: "\<And>t. up t d = (0, d)"
  shows "(fst (tg_traverse down up t d) = 0 \<longleftrightarrow> (\<forall>u \<in> set (tg_groups t). fst (down u d) = 0)) \<and>
    snd (tg_traverse down up t d) = d"
proof (induction t rule: tg_groups.induct)
  case (1 g ts)
  have all: "(fst (tg_traverse_all down up us d) = 0 \<longleftrightarrow> (\<forall>t \<in> set us. \<forall>u \<in> set (tg_groups t). fst (down u d) = 0)) \<and>
      snd (tg_traverse_all down up us d) = d" if "set us \<subseteq> set ts" for us
    using that
  proof (induction us)
    case (Cons u us)
    then show ?case using 1 [of u] by (auto split: prod.splits)
  qed simp
  show ?case using all [of ts] assms(1) [of "TG g ts"] up [of "TG g ts"] by (auto split: prod.splits)
qed

lemma tg_traverse_check:
  assumes "\<And>t. snd (down t d) = d"
  shows "fst (tg_traverse down tg_nop t d) = 0 \<longleftrightarrow> (\<forall>u \<in> set (tg_groups t). fst (down u d) = 0)"
    and "snd (tg_traverse down tg_nop t d) = d"
  using tg_traverse_check_gen [of down d tg_nop t, OF assms tg_nop_app] by blast+

text \<open>
  A group is feasible: its runtime fits its period, it has runtime if it has real-time tasks,
  and its share is within the global one and covers the shares of its children.
\<close>

definition rt_share :: "task_group \<Rightarrow> u64" where
  "rt_share g = to_ratio (tg_rt_period g) (tg_rt_runtime g)"

definition rt_group_ok :: "sched_state \<Rightarrow> tgs \<Rightarrow> tg_tree \<Rightarrow> bool" where
  "rt_group_ok st gs t \<longleftrightarrow>
    (let g = gs (tg_id t) in
     (tg_rt_runtime g \<le> tg_rt_period g \<or> tg_rt_runtime g = RUNTIME_INF) \<and>
     (rt_bandwidth_enabled st \<longrightarrow> tg_has_rt_tasks g \<longrightarrow> tg_rt_runtime g \<noteq> 0) \<and>
     rt_share g \<le> to_ratio (global_rt_period st) (global_rt_runtime st) \<and>
     (\<Sum>c \<leftarrow> tg_kids t. rt_share (gs (tg_id c))) \<le> rt_share g)"

lemma tg_rt_schedulable_same: "snd (tg_rt_schedulable st d t gs) = gs"
  by (simp add: tg_rt_schedulable_def Let_def split: prod.split)

lemma tg_rt_schedulable_ok:
  assumes r: "\<And>g. rsd_of d gs g = (tg_rt_period (gs' g), tg_rt_runtime (gs' g))"
    and h: "\<And>g. tg_has_rt_tasks (gs' g) = tg_has_rt_tasks (gs g)"
  shows "fst (tg_rt_schedulable st d t gs) = 0 \<longleftrightarrow> rt_group_ok st gs' t"
proof -
  define g where "g = gs' (tg_id t)"
  define total where "total = to_ratio (global_rt_period st) (global_rt_runtime st)"
  define kids where "kids = (\<Sum>c \<leftarrow> tg_kids t. rt_share (gs' (tg_id c)))"
  have "fst (tg_rt_schedulable st d t gs) =
      (if tg_rt_runtime g > tg_rt_period g \<and> tg_rt_runtime g \<noteq> RUNTIME_INF then - EINVAL
       else if rt_bandwidth_enabled st \<and> tg_rt_runtime g = 0 \<and> tg_has_rt_tasks g then - EBUSY
       else if rt_share g > total then - EINVAL else if kids > rt_share g then - EINVAL else 0)"
    unfolding g_def total_def kids_def tg_rt_schedulable_def Let_def rt_share_def by (simp add: r h)
  moreover have "rt_group_ok st gs' t \<longleftrightarrow> (tg_rt_runtime g \<le> tg_rt_period g \<or> tg_rt_runtime g = RUNTIME_INF) \<and>
      (rt_bandwidth_enabled st \<longrightarrow> tg_has_rt_tasks g \<longrightarrow> tg_rt_runtime g \<noteq> 0) \<and> rt_share g \<le> total \<and> kids \<le> rt_share g"
    unfolding g_def total_def kids_def rt_group_ok_def Let_def ..
  ultimately show ?thesis by (auto simp: errnos not_less)
qed

text \<open>
  C10: Setting the real-time limit of a group (\<open>tg_set_rt_bandwidth\<close>) is safe: when it succeeds, the
  limit is stored and every group of the hierarchy is feasible with the new limits (runtime
  within period, no runtime-less group with real-time tasks, children within their parent, all
  within the global limit); when it fails, no group is changed. It succeeds whenever the new
  hierarchy is feasible, the period is positive and the root keeps a runtime.
\<close>

theorem tg_set_rt_bandwidth_feasible:
  fixes gs :: tgs
  assumes "tg_set_rt_bandwidth env st root g period runtime gs = (ret, gs')"
  shows "(ret = 0 \<longrightarrow> tg_rt_period (gs' g) = period \<and> tg_rt_runtime (gs' g) = runtime \<and>
        (\<forall>t \<in> set (tg_groups root). rt_group_ok st gs' t)) \<and>
    (ret \<noteq> 0 \<longrightarrow> gs' = gs) \<and>
    (period \<noteq> 0 \<and> \<not> (g = tg_id root \<and> runtime = 0) \<and>
      (\<forall>t \<in> set (tg_groups root). rt_group_ok st (gs(g := (gs g)\<lparr>tg_rt_period := period, tg_rt_runtime := runtime\<rparr>)) t) \<longrightarrow> ret = 0)"
proof -
  let ?d = "\<lparr>rsd_tg = Some g, rsd_period = period, rsd_runtime = runtime\<rparr>"
  have iff: "rt_schedulable st root (Some g) period runtime gs = 0 \<longleftrightarrow> (\<forall>t \<in> set (tg_groups root). rt_group_ok st new t)"
    if "\<And>h. (tg_rt_period (new h), tg_rt_runtime (new h)) = (if h = g then (period, runtime) else (tg_rt_period (gs h), tg_rt_runtime (gs h)))"
      "\<And>h. tg_has_rt_tasks (new h) = tg_has_rt_tasks (gs h)" for new :: tgs
  proof -
    have r: "rsd_of ?d gs h = (tg_rt_period (new h), tg_rt_runtime (new h))" for h using that(1) [of h] by (simp add: rsd_of_def)
    show ?thesis
      unfolding rt_schedulable_def walk_traverse
      by (simp add: tg_traverse_check tg_rt_schedulable_same tg_rt_schedulable_ok [OF r that(2)])
  qed
  define new where "new = gs(g := (gs g)\<lparr>tg_rt_period := period, tg_rt_runtime := runtime,
      tg_rt_rq_runtime := (\<lambda>c. if c \<in> set (env_possible_mask env) then runtime else tg_rt_rq_runtime (gs g) c)\<rparr>)"
  have n1: "rt_schedulable st root (Some g) period runtime gs = 0 \<longleftrightarrow> (\<forall>t \<in> set (tg_groups root). rt_group_ok st new t)"
    by (rule iff) (auto simp: new_def)
  have n2: "rt_schedulable st root (Some g) period runtime gs = 0 \<longleftrightarrow>
      (\<forall>t \<in> set (tg_groups root). rt_group_ok st (gs(g := (gs g)\<lparr>tg_rt_period := period, tg_rt_runtime := runtime\<rparr>)) t)"
    by (rule iff) auto
  have "tg_set_rt_bandwidth env st root g period runtime gs = (if g = tg_id root \<and> runtime = 0 then (- EINVAL, gs) else if period = 0 then (- EINVAL, gs)
      else if rt_schedulable st root (Some g) period runtime gs \<noteq> 0 then (rt_schedulable st root (Some g) period runtime gs, gs)
      else (0, new))"
    by (simp only: tg_set_rt_bandwidth_def new_def Let_def)
  with assms show ?thesis using n1 n2 by (auto simp: errnos new_def split: if_splits)
qed

text \<open>A root group 0 with two children, 1 and 2: the root has 950 ms of every second, group 1 half of one.\<close>

definition demo_group :: task_group where
  "demo_group = \<lparr>tg_parent = Some 0, tg_rt_period = 1000000000, tg_rt_runtime = 0, tg_has_rt_tasks = False,
     tg_rt_rq_runtime = (\<lambda>_. 0), tg_cfs_period = 100000000, tg_cfs_quota = RUNTIME_INF, tg_hier_quota = RUNTIME_INF,
     tg_shares = 1048576, tg_runtime_enabled = (\<lambda>_. False), tg_runtime_remaining = (\<lambda>_. 0), tg_throttled = (\<lambda>_. False)\<rparr>"

definition demo_groups :: tgs where
  "demo_groups = (\<lambda>_. demo_group)(0 := demo_group\<lparr>tg_parent := None, tg_rt_runtime := 950000000\<rparr>,
     1 := demo_group\<lparr>tg_rt_runtime := 500000000\<rparr>)"

definition demo_tree :: tg_tree where
  "demo_tree = TG 0 [TG 1 [], TG 2 []]"

lemmas demo_group_defs = demo_group_def demo_groups_def demo_tree_def

lemma demo_set_runs: "fst (tg_set_rt_bandwidth blank_env blank_state demo_tree 2 1000000000 400000000 demo_groups) = 0"
  by (simp add: tg_set_rt_bandwidth_def rt_schedulable_def walk_traverse tg_rt_schedulable_def rsd_of_def tg_nop_def
      to_ratio_def BW_SHIFT_def BW_UNIT_def global_rt_period_def global_rt_runtime_def RUNTIME_INF_def NSEC_PER_USEC_def
      demo_group_defs blank_env_def blank_state_def Let_def)

theorem tg_set_rt_bandwidth_feasible_witness:
  "let gs' = snd (tg_set_rt_bandwidth blank_env blank_state demo_tree 2 1000000000 400000000 demo_groups)
   in tg_rt_runtime (gs' 2) = 400000000 \<and> list_all (rt_group_ok blank_state gs') (tg_groups demo_tree)"
  unfolding Let_def list_all_iff
  using tg_set_rt_bandwidth_feasible [OF prod.collapse [symmetric]] demo_set_runs by blast

section \<open>Cgroup weights\<close>

text \<open>
  What \<open>sched_group_set_shares\<close> of the fair class promises: it stores every value between
  \<open>MIN_SHARES\<close> and \<open>MAX_SHARES\<close>, which it clamps to.
\<close>

definition set_shares_ok :: "(u64 \<Rightarrow> task_group \<Rightarrow> int \<times> task_group) \<Rightarrow> bool" where
  "set_shares_ok f \<longleftrightarrow> (\<forall>s t. scale_load 2 \<le> s \<and> s \<le> scale_load (push_bit 18 1) \<longrightarrow> f s t = (0, t\<lparr>tg_shares := s\<rparr>))"

lemma scaled_shares:
  fixes s :: u64 assumes "2 \<le> s" "s \<le> push_bit 18 1"
  shows "scale_load 2 \<le> scale_load s" "scale_load s \<le> scale_load (push_bit 18 1)" "scale_load_down (scale_load s) = s"
proof -
  have n: "2 \<le> unat s" "unat s \<le> 2^18" using assms by (simp_all add: word_le_nat_alt)
  have u: "unat (scale_load s) = unat s * 1024"
    using n by (simp add: scale_load_def push_bit_eq_mult unat_mult_lem [THEN iffD1])
  show "scale_load 2 \<le> scale_load s" "scale_load s \<le> scale_load (push_bit 18 1)"
    using n u by (simp_all add: word_le_nat_alt scale_load_def)
  have "drop_bit 10 (scale_load s) = s"
    using u by (simp add: word_unat_eq_iff unat_drop_bit_eq drop_bit_eq_div unat_div)
  moreover have "scale_load s \<noteq> 0" using u n by auto
  ultimately show "scale_load_down (scale_load s) = s" using assms by (simp add: scale_load_down_def max_def)
qed

lemma weight_shares:
  fixes w :: u64 assumes "1 \<le> w" "w \<le> 10000"
  shows "2 \<le> div_round_closest (w * 1024) 100" "div_round_closest (w * 1024) 100 \<le> push_bit 18 1"
    "div_round_closest (div_round_closest (w * 1024) 100 * 100) 1024 = w"
proof -
  have n: "1 \<le> unat w" "unat w \<le> 10000" using assms by (simp_all add: word_le_nat_alt)
  have m: "unat (w * 1024) = unat w * 1024" using n by (simp add: unat_mult_lem [THEN iffD1])
  have a: "unat (w * 1024 + 50) = unat w * 1024 + 50" using n m by (simp add: unat_add_lem [THEN iffD1])
  let ?s = "div_round_closest (w * 1024) 100"
  have s: "unat ?s = (unat w * 1024 + 50) div 100" by (simp add: div_round_closest_def unat_div a)
  show "2 \<le> ?s" "?s \<le> push_bit 18 1" using n s by (simp_all add: word_le_nat_alt)
  have m2: "unat (?s * 100) = unat ?s * 100" using n s by (simp add: unat_mult_lem [THEN iffD1])
  have a2: "unat (?s * 100 + 512) = unat ?s * 100 + 512" using n s m2 by (simp add: unat_add_lem [THEN iffD1])
  show "div_round_closest (?s * 100) 1024 = w"
    using n s by (simp add: div_round_closest_def [of "?s * 100"] word_unat_eq_iff unat_div a2)
qed

lemma sint_small: "0 \<le> x \<Longrightarrow> x < 2 ^ 20 \<Longrightarrow> sint (ucast (word_of_int x :: u64) :: u32) = x"
  by (simp add: unsigned_of_int signed_of_int take_bit_int_eq_self signed_take_bit_int_eq_self)

lemma small_diff: "m < 2 ^ 20 \<Longrightarrow> n < 2 ^ 20 \<Longrightarrow>
  - (2 ^ 63) \<le> int m - int n \<and> int m - int n < 2 ^ 63 \<and> \<bar>int m - int n\<bar> < 2 ^ 20"
  by simp

lemma sint_diff_small:
  fixes a b :: u64 assumes "unat a < 2 ^ 20" "unat b < 2 ^ 20"
  shows "sint (a - b) = int (unat a) - int (unat b)"
proof -
  let ?x = "int (unat a) - int (unat b)"
  have "signed_take_bit 63 ?x = ?x"
    using small_diff [OF assms] by (intro signed_take_bit_int_eq_self) blast+
  moreover have "a - b = word_of_int ?x" by simp
  moreover have "sint (word_of_int ?x :: u64) = signed_take_bit 63 ?x" by (simp only: signed_of_int) simp
  ultimately show ?thesis by (simp only:)
qed

lemma nice_delta:
  fixes a b :: u64
  assumes "unat a < 2 ^ 20" "unat b < 2 ^ 20"
  shows "sint (ucast (word_of_int \<bar>sint (a - b)\<bar> :: u64) :: u32) = \<bar>int (unat a) - int (unat b)\<bar>"
  unfolding sint_diff_small [OF assms] using small_diff [OF assms] by (intro sint_small) (simp only: abs_ge_zero, blast)

text \<open>The same scan on integers, and the table as integers.\<close>

fun nice_scan_int :: "int list \<Rightarrow> int \<Rightarrow> int \<Rightarrow> nat \<Rightarrow> nat" where
  "nice_scan_int [] weight last_delta prio = prio"
| "nice_scan_int (w # ws) weight last_delta prio =
    (if \<bar>w - weight\<bar> \<ge> last_delta then prio else nice_scan_int ws weight \<bar>w - weight\<bar> (Suc prio))"

definition nice_weights :: "int list" where
  "nice_weights = [88761, 71755, 56483, 46273, 36291, 29154, 23254, 18705, 14949, 11916,
     9548, 7620, 6100, 4904, 3906, 3121, 2501, 1991, 1586, 1277, 1024, 820, 655, 526, 423, 335, 272, 215, 172, 137,
     110, 87, 70, 56, 45, 36, 29, 23, 18, 15]"

lemma nice_scan_int:
  "\<forall>w \<in> set ws. unat w < 2 ^ 20 \<Longrightarrow> unat b < 2 ^ 20 \<Longrightarrow>
    nice_scan ws b l n = nice_scan_int (map (int \<circ> unat) ws) (int (unat b)) l n"
  by (induction ws arbitrary: l n) (simp_all add: nice_delta Let_def)

lemma nice_weights: "map (int \<circ> unat) sched_prio_to_weight = nice_weights"
  by (simp add: sched_prio_to_weight_def nice_weights_def)

lemma nice_weights_range: "\<forall>w \<in> set sched_prio_to_weight. unat w < 2 ^ 20 \<and> 2 \<le> w \<and> w \<le> push_bit 18 1"
  by (simp add: sched_prio_to_weight_def)

lemma nice_scan_weights: "list_all (\<lambda>i. nice_scan_int nice_weights (nice_weights ! i) 2147483647 0 = Suc i) [0..<40]"
  by code_simp

lemma nice_scan_table:
  assumes "i < 40"
  shows "nice_scan sched_prio_to_weight (sched_prio_to_weight ! i) 2147483647 0 = Suc i"
    and "2 \<le> sched_prio_to_weight ! i" "sched_prio_to_weight ! i \<le> push_bit 18 1"
proof -
  have len: "length sched_prio_to_weight = 40" by (simp add: sched_prio_to_weight_def)
  then have mem: "sched_prio_to_weight ! i \<in> set sched_prio_to_weight" using assms by simp
  then show "2 \<le> sched_prio_to_weight ! i" "sched_prio_to_weight ! i \<le> push_bit 18 1"
    using nice_weights_range by blast+
  have "nice_weights ! i = int (unat (sched_prio_to_weight ! i))"
    using assms len by (simp add: nice_weights [symmetric])
  moreover have "nice_scan_int nice_weights (nice_weights ! i) 2147483647 0 = Suc i"
    using nice_scan_weights assms by (simp add: list_all_iff)
  ultimately show "nice_scan sched_prio_to_weight (sched_prio_to_weight ! i) 2147483647 0 = Suc i"
    using mem nice_weights_range by (simp add: nice_scan_int nice_weights)
qed

lemma cpu_weight_write_reads:
  assumes "set_shares_ok set_shares" "1 \<le> w" "w \<le> 10000"
  shows "\<exists>t'. cpu_weight_write_u64 set_shares w t = (0, t') \<and> cpu_weight_read_u64 t' = w"
proof -
  note s = weight_shares(1,2) [OF assms(2,3)]
  have "cpu_weight_write_u64 set_shares w t = (0, t\<lparr>tg_shares := scale_load (div_round_closest (w * 1024) 100)\<rparr>)"
    using assms scaled_shares(1,2) [OF s] by (auto simp: cpu_weight_write_u64_def set_shares_ok_def not_less)
  then show ?thesis
    using scaled_shares(3) [OF s] weight_shares(3) [OF assms(2,3)] by (simp add: cpu_weight_read_u64_def)
qed

lemma cpu_weight_nice_write_reads:
  assumes "set_shares_ok set_shares" "-20 \<le> n" "n \<le> 19"
  shows "\<exists>t'. cpu_weight_nice_write_s64 set_shares n t = (0, t') \<and> cpu_weight_nice_read_s64 t' = n"
proof -
  define i where "i = nat (20 + n)"
  have i: "i < 40" using assms by (auto simp: i_def)
  note w = nice_scan_table(2,3) [OF i]
  have "cpu_weight_nice_write_s64 set_shares n t = (0, t\<lparr>tg_shares := scale_load (sched_prio_to_weight ! i)\<rparr>)"
    using assms scaled_shares(1,2) [OF w] by (simp add: cpu_weight_nice_write_s64_def prio_consts i_def set_shares_ok_def)
  then show ?thesis
    using assms scaled_shares(3) [OF w] nice_scan_table(1) [OF i] by (simp add: cpu_weight_nice_read_s64_def prio_consts i_def)
qed

text \<open>
  The conversions between a group's weight and its shares preserve the value over the whole
  range, as the comment in \<open>cpu_weight_write_u64\<close> promises: every weight from 1 to 10000 and
  every nice value from -20 to 19 that is written is accepted and read back unchanged; every
  other value is refused with \<open>-ERANGE\<close> and the group keeps its shares.
\<close>

theorem cpu_weight_roundtrip:
  assumes "set_shares_ok set_shares"
  shows "(if 1 \<le> w \<and> w \<le> 10000 then \<exists>t'. cpu_weight_write_u64 set_shares w t = (0, t') \<and> cpu_weight_read_u64 t' = w
      else cpu_weight_write_u64 set_shares w t = (- ERANGE, t)) \<and>
    (if -20 \<le> n \<and> n \<le> 19 then \<exists>t'. cpu_weight_nice_write_s64 set_shares n t = (0, t') \<and> cpu_weight_nice_read_s64 t' = n
      else cpu_weight_nice_write_s64 set_shares n t = (- ERANGE, t))"
  using cpu_weight_write_reads [OF assms] cpu_weight_nice_write_reads [OF assms]
  by (auto simp: cpu_weight_write_u64_def cpu_weight_nice_write_s64_def prio_consts not_le)

definition demo_set_shares :: "u64 \<Rightarrow> task_group \<Rightarrow> int \<times> task_group" where
  "demo_set_shares s t = (0, t\<lparr>tg_shares := max (scale_load 2) (min s (scale_load (push_bit 18 1)))\<rparr>)"

lemma demo_set_shares_ok: "set_shares_ok demo_set_shares"
  by (simp add: set_shares_ok_def demo_set_shares_def)

theorem cpu_weight_roundtrip_witness:
  "(\<exists>t'. cpu_weight_write_u64 demo_set_shares 777 demo_group = (0, t') \<and> cpu_weight_read_u64 t' = 777) \<and>
   (\<exists>t'. cpu_weight_nice_write_s64 demo_set_shares (-7) demo_group = (0, t') \<and> cpu_weight_nice_read_s64 t' = -7)"
  using cpu_weight_roundtrip [OF demo_set_shares_ok, of 777 demo_group "-7"] by simp

section \<open>The global real-time limits\<close>

text \<open>The deadline class's \<open>sched_dl_do_global\<close> updates the deadline bandwidth only.\<close>

definition dl_global_frame :: "(sched_state \<Rightarrow> sched_state) \<Rightarrow> bool" where
  "dl_global_frame f \<longleftrightarrow> (\<forall>st. rqs (f st) = rqs st \<and> def_rt_b (f st) = def_rt_b st \<and>
     sysctl_rt_period (f st) = sysctl_rt_period st \<and> sysctl_rt_runtime (f st) = sysctl_rt_runtime st)"

lemma set_all_runtime_sel [simp]:
  "sysctl_rt_period (set_all_runtime cs r st) = sysctl_rt_period st"
  "sysctl_rt_runtime (set_all_runtime cs r st) = sysctl_rt_runtime st"
  "rt_runtime (rq_rt (rqs (set_all_runtime cs r st) c)) = (if c \<in> set cs then r else rt_runtime (rq_rt (rqs st c)))"
  by (induction cs arbitrary: st) (simp_all add: st_simps)

lemma global_rt_runtime_fits:
  assumes "sched_rt_global_validate st = 0" and i: "- (2 ^ 31) \<le> sysctl_rt_runtime st" "sysctl_rt_runtime st < 2 ^ 31"
  shows "global_rt_runtime st = RUNTIME_INF \<or> global_rt_runtime st \<le> global_rt_period st"
proof (cases "sysctl_rt_runtime st < 0")
  case False
  let ?r = "sysctl_rt_runtime st" and ?p = "sysctl_rt_period st"
  have r: "unat (word_of_int ?r :: u64) = nat ?r" "unat (word_of_int ?r :: u32) = nat ?r"
    using False i by (simp_all add: word_of_int_small_pos)
  have "(word_of_int ?r :: u64) \<noteq> RUNTIME_INF"
    using r(1) i by (auto simp: RUNTIME_INF_def unsigned_minus_1_eq_mask mask_eq_exp_minus_1 dest!: arg_cong [where f = unat])
  then have "(word_of_int ?r :: u32) \<le> ?p"
    using assms(1) by (auto simp: sched_rt_global_validate_def errnos split: if_splits)
  then have le: "nat ?r \<le> unat ?p" using r(2) by (simp add: word_le_nat_alt)
  have p: "unat ?p < 2 ^ 32" using unat_bound [of ?p] by simp
  have "unat (word_of_int ?r * NSEC_PER_USEC :: u64) = nat ?r * 1000"
    using r(1) i by (simp add: NSEC_PER_USEC_def unat_mult_lem [THEN iffD1])
  moreover have "unat (ucast ?p * NSEC_PER_USEC :: u64) = unat ?p * 1000"
    using p by (simp add: NSEC_PER_USEC_def unat_mult_lem [THEN iffD1] unat_ucast_up)
  ultimately show ?thesis
    using False le by (simp add: global_rt_runtime_def global_rt_period_def word_le_nat_alt)
qed (simp add: global_rt_runtime_def)

text \<open>
  C39: A write to \<open>sched_rt_period_us\<close> or \<open>sched_rt_runtime_us\<close> is all or nothing: when it succeeds,
  the new values are in force on every possible CPU and in the default bandwidth, and the
  runtime is unlimited or within the period; when a check refuses it, the state is the one
  before the write.
\<close>

theorem sched_rt_handler_atomic:
  assumes "sched_rt_handler env dl_validate dl_do_global (0, period, runtime) True st = (ret, st')"
    and "dl_global_frame dl_do_global" and "- (2 ^ 31) \<le> runtime" "runtime < 2 ^ 31"
  shows "(ret = 0 \<longrightarrow> sysctl_rt_period st' = period \<and> sysctl_rt_runtime st' = runtime \<and>
        (global_rt_runtime st' = RUNTIME_INF \<or> global_rt_runtime st' \<le> global_rt_period st') \<and>
        (\<forall>c \<in> set (env_possible_mask env). rt_runtime (rq_rt (rqs st' c)) = global_rt_runtime st') \<and>
        rtb_runtime (def_rt_b st') = global_rt_runtime st' \<and> rtb_period (def_rt_b st') = global_rt_period st') \<and>
    (ret \<noteq> 0 \<longrightarrow> st' = st)"
proof -
  let ?new = "st\<lparr>sysctl_rt_period := period, sysctl_rt_runtime := runtime\<rparr>"
  have same: "global_rt_runtime x = global_rt_runtime ?new" "global_rt_period x = global_rt_period ?new"
    if "sysctl_rt_period x = period" "sysctl_rt_runtime x = runtime" for x
    using that by (simp_all add: global_rt_runtime_def global_rt_period_def)
  let ?cpus = "set_all_runtime (env_possible_mask env) (global_rt_runtime ?new) ?new"
  consider (bad) "ret \<noteq> 0" "st' = st"
    | (ok) "ret = 0" "sched_rt_global_validate ?new = 0" "st' = dl_do_global (sched_rt_do_global ?cpus)"
    using assms(1) by (auto simp: sched_rt_handler_def sched_rt_global_constraints_def Let_def split: if_splits)
  then show ?thesis
  proof cases
    case ok
    have f: "sysctl_rt_period st' = period" "sysctl_rt_runtime st' = runtime" "rqs st' = rqs (sched_rt_do_global ?cpus)"
      "def_rt_b st' = def_rt_b (sched_rt_do_global ?cpus)"
      using assms(2) ok(3) by (simp_all add: dl_global_frame_def sched_rt_do_global_def)
    show ?thesis
      using ok(1) f same [OF f(1,2)] same [of ?cpus] global_rt_runtime_fits [OF ok(2)] assms(3,4)
      by (simp add: sched_rt_do_global_def)
  qed simp
qed

lemma blank_possible: "env_possible_mask blank_env = [0, 1]"
  by (simp add: blank_env_def)

theorem sched_rt_handler_atomic_witness:
  "let st' = snd (sched_rt_handler blank_env (\<lambda>_. 0) id (0, 500000, 400000) True blank_state)
   in rt_runtime (rq_rt (rqs st' 1)) = 400000000 \<and> rtb_period (def_rt_b st') = 500000000"
proof -
  have "fst (sched_rt_handler blank_env (\<lambda>_. 0) id (0, 500000, 400000) True blank_state) = 0"
    by (simp add: sched_rt_handler_def sched_rt_global_validate_def sched_rt_global_constraints_def Let_def)
  moreover have "dl_global_frame id" by (simp add: dl_global_frame_def)
  ultimately show ?thesis
    using sched_rt_handler_atomic [of blank_env "\<lambda>_. 0" id 500000 400000 blank_state, OF prod.collapse [symmetric]]
    by (simp add: Let_def global_rt_runtime_def global_rt_period_def NSEC_PER_USEC_def blank_possible)
qed

end
