(* ===== verification/Sched_Cfs_Limits.thy ===== *)
theory Sched_Cfs_Limits
  imports Sched_Bandwidth_Props Sched_RT_Runtime
begin

text \<open>
  The limits of fair groups: what \<open>tg_set_cfs_bandwidth\<close> and its walk over the group tree
  guarantee on the version 1 hierarchy, the count of limited groups, and what the signed
  minimum of the version 2 branch does to the derived limits.
\<close>

section \<open>Fair-group limits\<close>

text \<open>The ids of a subtree, and that the parent pointers follow the tree.\<close>

definition tg_ids :: "tg_tree \<Rightarrow> nat set" where
  "tg_ids t = tg_id ` set (tg_groups t)"

fun tg_wf :: "tgs \<Rightarrow> tg_tree \<Rightarrow> bool" where
  "tg_wf gs (TG g ts) \<longleftrightarrow>
    (\<forall>c \<in> set ts. tg_parent (gs (tg_id c)) = Some g \<and> g \<notin> tg_ids c \<and> tg_wf gs c) \<and>
    distinct (map tg_id ts) \<and> (\<forall>c \<in> set ts. \<forall>c' \<in> set ts. tg_id c \<noteq> tg_id c' \<longrightarrow> tg_ids c \<inter> tg_ids c' = {})"

definition cfs_edge :: "bool \<Rightarrow> cfs_schedulable_data \<Rightarrow> tgs \<Rightarrow> tgs \<Rightarrow> nat \<Rightarrow> nat \<Rightarrow> bool" where
  "cfs_edge on_dfl d gs gs' p c \<longleftrightarrow>
    (let quota = normalize_cfs_quota d gs c; parent_quota = tg_hier_quota (gs' p); h = tg_hier_quota (gs' c) in
     if on_dfl then h = (if sint quota < sint parent_quota then quota else parent_quota)
     else if quota = RUNTIME_INF then h = parent_quota
     else h = quota \<and> (parent_quota = RUNTIME_INF \<or> sint quota \<le> sint parent_quota))"

definition but_hier :: "tgs \<Rightarrow> tgs \<Rightarrow> bool" where
  "but_hier gs gs' \<longleftrightarrow> (\<forall>g. (gs' g)\<lparr>tg_hier_quota := 0\<rparr> = (gs g)\<lparr>tg_hier_quota := 0\<rparr>)"

lemma but_hier_refl [simp]: "but_hier gs gs"
  by (simp add: but_hier_def)

lemma but_hier_trans: "but_hier a b \<Longrightarrow> but_hier b c \<Longrightarrow> but_hier a c"
  by (simp add: but_hier_def)

lemma but_hier_sel:
  assumes "but_hier gs gs'"
  shows "tg_parent (gs' g) = tg_parent (gs g)" "tg_cfs_quota (gs' g) = tg_cfs_quota (gs g)"
    "tg_cfs_period (gs' g) = tg_cfs_period (gs g)"
proof -
  have e: "(gs' g)\<lparr>tg_hier_quota := 0\<rparr> = (gs g)\<lparr>tg_hier_quota := 0\<rparr>" using assms by (simp add: but_hier_def)
  show "tg_parent (gs' g) = tg_parent (gs g)" "tg_cfs_quota (gs' g) = tg_cfs_quota (gs g)"
    "tg_cfs_period (gs' g) = tg_cfs_period (gs g)"
    using arg_cong [OF e, of tg_parent] arg_cong [OF e, of tg_cfs_quota] arg_cong [OF e, of tg_cfs_period] by simp_all
qed

lemma but_hier_normalize: "but_hier gs gs' \<Longrightarrow> normalize_cfs_quota d gs' g = normalize_cfs_quota d gs g"
  by (simp add: normalize_cfs_quota_def tg_get_cfs_period_def tg_get_cfs_quota_def but_hier_sel)

lemma but_hier_wf: "but_hier gs gs' \<Longrightarrow> tg_wf gs' t \<longleftrightarrow> tg_wf gs t"
  by (induction t rule: tg_groups.induct) (simp add: but_hier_sel)

lemma cfs_edge_cong:
  assumes "but_hier gs0 gs" "gs2 p = gs1 p" "gs2 c = gs1 c"
  shows "cfs_edge on_dfl d gs0 gs2 p c \<longleftrightarrow> cfs_edge on_dfl d gs gs1 p c"
  using assms by (simp add: cfs_edge_def but_hier_normalize)

lemma cfs_edge_base: "but_hier gs0 gs \<Longrightarrow> cfs_edge on_dfl d gs gs1 p c \<longleftrightarrow> cfs_edge on_dfl d gs0 gs1 p c"
  by (simp add: cfs_edge_def but_hier_normalize)

lemma tg_ids_TG: "tg_ids (TG g ts) = insert g (\<Union>c \<in> set ts. tg_ids c)"
  by (auto simp: tg_ids_def)

lemma tg_id_ids: "tg_id t \<in> tg_ids t"
  by (cases t) (simp add: tg_ids_TG)

lemma tg_kids_ids: "u \<in> set (tg_groups t) \<Longrightarrow> c \<in> set (tg_kids u) \<Longrightarrow> tg_id u \<in> tg_ids t \<and> tg_id c \<in> tg_ids t"
proof (induction t rule: tg_groups.induct)
  case (1 g ts)
  then show ?case using tg_id_ids by (fastforce simp: tg_ids_TG)
qed

lemma tg_traverse_ok:
  assumes "\<And>t d. up t d = (0, d)" "tg_traverse down up (TG g ts) d = (0, d')"
  shows "\<exists>e. down (TG g ts) d = (0, e) \<and> tg_traverse_all down up ts e = (0, d')"
  using assms by (auto split: prod.splits if_splits)

lemma cfs_down:
  assumes "tg_cfs_schedulable_down on_dfl d t gs = (0, gs')"
  shows "but_hier gs gs'" "h \<noteq> tg_id t \<Longrightarrow> gs' h = gs h"
    "tg_parent (gs (tg_id t)) = None \<Longrightarrow> tg_hier_quota (gs' (tg_id t)) = RUNTIME_INF"
    "tg_parent (gs (tg_id t)) = Some p \<Longrightarrow> p \<noteq> tg_id t \<Longrightarrow> cfs_edge on_dfl d gs gs' p (tg_id t)"
  using assms
  by (auto simp: tg_cfs_schedulable_down_def cfs_edge_def but_hier_def Let_def errnos not_less
      split: option.splits if_splits)

text \<open>What a successful traversal of a subtree does: \<open>cfs_visited\<close> is its postcondition.\<close>

definition cfs_visited :: "bool \<Rightarrow> cfs_schedulable_data \<Rightarrow> tg_tree \<Rightarrow> tgs \<Rightarrow> tgs \<Rightarrow> bool" where
  "cfs_visited on_dfl d t gs gs' \<longleftrightarrow> but_hier gs gs' \<and> (\<forall>g. g \<notin> tg_ids t \<longrightarrow> gs' g = gs g) \<and>
     (\<forall>u \<in> set (tg_groups t). \<forall>c \<in> set (tg_kids u). cfs_edge on_dfl d gs gs' (tg_id u) (tg_id c)) \<and>
     (tg_parent (gs (tg_id t)) = None \<longrightarrow> tg_hier_quota (gs' (tg_id t)) = RUNTIME_INF) \<and>
     (\<forall>p. tg_parent (gs (tg_id t)) = Some p \<longrightarrow> p \<notin> tg_ids t \<longrightarrow> cfs_edge on_dfl d gs gs' p (tg_id t))"

lemma cfs_visited_kids:
  assumes "\<And>c gs gs'. c \<in> set us \<Longrightarrow> tg_traverse (tg_cfs_schedulable_down on_dfl d) tg_nop c gs = (0, gs') \<Longrightarrow>
      tg_wf gs c \<Longrightarrow> cfs_visited on_dfl d c gs gs'"
    and "tg_traverse_all (tg_cfs_schedulable_down on_dfl d) tg_nop us gs = (0, gs')"
    and "\<forall>c \<in> set us. tg_parent (gs (tg_id c)) = Some g \<and> g \<notin> tg_ids c \<and> tg_wf gs c"
    and "distinct (map tg_id us)" "\<forall>c \<in> set us. \<forall>c' \<in> set us. tg_id c \<noteq> tg_id c' \<longrightarrow> tg_ids c \<inter> tg_ids c' = {}"
  shows "but_hier gs gs' \<and> (\<forall>h. (\<forall>c \<in> set us. h \<notin> tg_ids c) \<longrightarrow> gs' h = gs h) \<and>
    (\<forall>c \<in> set us. cfs_edge on_dfl d gs gs' g (tg_id c) \<and>
      (\<forall>u \<in> set (tg_groups c). \<forall>k \<in> set (tg_kids u). cfs_edge on_dfl d gs gs' (tg_id u) (tg_id k)))"
  using assms
proof (induction us arbitrary: gs)
  case (Cons c us)
  obtain gs1 where c: "tg_traverse (tg_cfs_schedulable_down on_dfl d) tg_nop c gs = (0, gs1)"
    and us: "tg_traverse_all (tg_cfs_schedulable_down on_dfl d) tg_nop us gs1 = (0, gs')"
    using Cons.prems(2) by (auto split: prod.splits if_splits)
  have v: "cfs_visited on_dfl d c gs gs1" using Cons.prems(1) [OF _ c] Cons.prems(3) by simp
  then have b: "but_hier gs gs1" by (simp add: cfs_visited_def)
  have rest: "but_hier gs1 gs' \<and> (\<forall>h. (\<forall>c \<in> set us. h \<notin> tg_ids c) \<longrightarrow> gs' h = gs1 h) \<and>
    (\<forall>c \<in> set us. cfs_edge on_dfl d gs1 gs' g (tg_id c) \<and>
      (\<forall>u \<in> set (tg_groups c). \<forall>k \<in> set (tg_kids u). cfs_edge on_dfl d gs1 gs' (tg_id u) (tg_id k)))"
    using Cons.prems b by (intro Cons.IH [OF _ us]) (auto simp: but_hier_sel but_hier_wf)
  have keep: "gs' h = gs1 h" if "h \<in> tg_ids c \<or> h = g" for h
  proof -
    have "h \<notin> tg_ids k" if k: "k \<in> set us" for k
    proof -
      have "tg_id c \<noteq> tg_id k" using k Cons.prems(4) by auto
      then have "tg_ids c \<inter> tg_ids k = {}" using Cons.prems(5) k by simp
      then show ?thesis using \<open>h \<in> tg_ids c \<or> h = g\<close> Cons.prems(3) k by auto
    qed
    then show ?thesis using rest by blast
  qed
  have "cfs_edge on_dfl d gs gs' g (tg_id c)"
    using v Cons.prems(3) cfs_edge_cong [of gs gs gs' g gs1 "tg_id c"] keep [of g] keep [of "tg_id c"] tg_id_ids [of c]
    by (auto simp: cfs_visited_def)
  moreover have "cfs_edge on_dfl d gs gs' (tg_id u) (tg_id k)" if "u \<in> set (tg_groups c)" "k \<in> set (tg_kids u)" for u k
    using v that tg_kids_ids [OF that] cfs_edge_cong [of gs gs gs' "tg_id u" gs1 "tg_id k"] keep [of "tg_id u"] keep [of "tg_id k"]
    by (auto simp: cfs_visited_def)
  moreover have "gs' h = gs h" if "\<forall>k \<in> set (c # us). h \<notin> tg_ids k" for h
    using that rest v by (auto simp: cfs_visited_def)
  ultimately show ?case
    using rest but_hier_trans [OF b] by (simp add: cfs_edge_base [OF b])
qed simp

lemma cfs_traverse_visited:
  "tg_traverse (tg_cfs_schedulable_down on_dfl d) tg_nop t gs = (0, gs') \<Longrightarrow> tg_wf gs t \<Longrightarrow> cfs_visited on_dfl d t gs gs'"
proof (induction t arbitrary: gs gs' rule: tg_groups.induct)
  case (1 g ts)
  obtain gs1 where dn: "tg_cfs_schedulable_down on_dfl d (TG g ts) gs = (0, gs1)"
    and all: "tg_traverse_all (tg_cfs_schedulable_down on_dfl d) tg_nop ts gs1 = (0, gs')"
    using tg_traverse_ok [OF tg_nop_app 1(2)] by blast
  note d = cfs_down [OF dn, simplified]
  have kids: "but_hier gs1 gs' \<and> (\<forall>h. (\<forall>c \<in> set ts. h \<notin> tg_ids c) \<longrightarrow> gs' h = gs1 h) \<and>
    (\<forall>c \<in> set ts. cfs_edge on_dfl d gs1 gs' g (tg_id c) \<and>
      (\<forall>u \<in> set (tg_groups c). \<forall>k \<in> set (tg_kids u). cfs_edge on_dfl d gs1 gs' (tg_id u) (tg_id k)))"
    using 1(3) by (intro cfs_visited_kids [OF 1(1) all]) (auto simp: but_hier_sel [OF d(1)] but_hier_wf [OF d(1)])
  have keep: "gs' h = gs1 h" if "h = g \<or> h \<notin> tg_ids (TG g ts)" for h
    using kids that 1(3) by (auto simp: tg_ids_TG)
  have "cfs_edge on_dfl d gs gs' p g" if "tg_parent (gs g) = Some p" "p \<notin> tg_ids (TG g ts)" for p
    using d(4) [OF that(1)] that(2) cfs_edge_cong [of gs gs gs' p gs1 g] keep [of p] keep [of g] by (auto simp: tg_ids_TG)
  then show ?case
    unfolding cfs_visited_def
    using kids but_hier_trans [OF d(1)] cfs_edge_base [OF d(1)] d(2,3) keep
    by (auto simp: tg_ids_TG)
qed

text \<open>The limit of a group as a share of a CPU, from its own settings.\<close>

definition cfs_limit :: "task_group \<Rightarrow> u64" where
  "cfs_limit t = (if tg_cfs_quota t = RUNTIME_INF then RUNTIME_INF
     else to_ratio (tg_cfs_period t div NSEC_PER_USEC) (tg_cfs_quota t div NSEC_PER_USEC))"


text \<open>The operations of the fair class on a group touch its runtime, not its settings.\<close>

definition cfs_ops_ok :: "cfs_bandwidth_ops \<Rightarrow> bool" where
  "cfs_ops_ok ops \<longleftrightarrow> (\<forall>f \<in> {refill_cfs_bandwidth_runtime ops, start_cfs_bandwidth ops} \<union> range (unthrottle_cfs_rq ops).
     \<forall>t. tg_parent (f t) = tg_parent t \<and> tg_cfs_period (f t) = tg_cfs_period t \<and> tg_cfs_quota (f t) = tg_cfs_quota t \<and>
       tg_hier_quota (f t) = tg_hier_quota t)"

lemma cfs_ops_same:
  assumes "cfs_ops_ok ops"
  shows "tg_cfs_period (fold (cfs_cpu_update ops e) cs t) = tg_cfs_period t"
    "tg_cfs_quota (fold (cfs_cpu_update ops e) cs t) = tg_cfs_quota t"
    "tg_hier_quota (fold (cfs_cpu_update ops e) cs t) = tg_hier_quota t"
  using assms by (induction cs arbitrary: t) (simp_all add: cfs_ops_ok_def cfs_cpu_update_def Let_def)

lemma usec_not_inf: "(w :: u64) div NSEC_PER_USEC \<noteq> - 1"
proof
  assume "w div NSEC_PER_USEC = - 1"
  then have "unat w div 1000 = 2 ^ 64 - 1"
    by (auto simp: NSEC_PER_USEC_def unat_div unsigned_minus_1_eq_mask mask_eq_exp_minus_1 dest!: arg_cong [where f = unat])
  then show False using unat_bound [of w] by simp
qed

definition cfs_data :: "nat \<Rightarrow> u64 \<Rightarrow> u64 \<Rightarrow> cfs_schedulable_data" where
  "cfs_data g period quota = (if quota \<noteq> RUNTIME_INF
     then \<lparr>csd_tg = g, csd_period = period div NSEC_PER_USEC, csd_quota = quota div NSEC_PER_USEC\<rparr>
     else \<lparr>csd_tg = g, csd_period = period, csd_quota = quota\<rparr>)"

lemma normalize_cfs_limit:
  "normalize_cfs_quota (cfs_data g period quota) gs h =
    (if h = g then cfs_limit ((gs g)\<lparr>tg_cfs_period := period, tg_cfs_quota := quota\<rparr>) else cfs_limit (gs h))"
  using usec_not_inf
  by (auto simp: normalize_cfs_quota_def cfs_data_def cfs_limit_def tg_get_cfs_quota_def tg_get_cfs_period_def RUNTIME_INF_def)

lemma cfs_schedulable_traverse:
  "cfs_schedulable on_dfl root g period quota gs =
    tg_traverse (tg_cfs_schedulable_down on_dfl (cfs_data g period quota)) tg_nop root gs"
  unfolding cfs_schedulable_def cfs_data_def walk_traverse Let_def by (rule refl)


text \<open>An error of the walk leaves at most the derived \<open>hierarchical_quota\<close> changed.\<close>

lemma cfs_down_but_hier: "but_hier gs (snd (tg_cfs_schedulable_down on_dfl d t gs))"
  by (simp add: tg_cfs_schedulable_down_def but_hier_def Let_def split: option.split)

lemma tg_traverse_rel:
  assumes down: "\<And>t d. R d (snd (down t d))" and up: "\<And>t d. R d (snd (up t d))"
    and refl: "\<And>d. R d d" and trans: "\<And>a b c. R a b \<Longrightarrow> R b c \<Longrightarrow> R a c"
  shows "R d (snd (tg_traverse down up t d))"
proof (induction t arbitrary: d rule: tg_groups.induct)
  case (1 g ts)
  have all: "R e (snd (tg_traverse_all down up us e))" if "set us \<subseteq> set ts" for us e
    using that
  proof (induction us arbitrary: e)
    case (Cons u us)
    then show ?case
      using 1 [of u e] trans [of e "snd (tg_traverse down up u e)"] by (auto split: prod.split)
  qed (simp add: refl)
  obtain r e where e: "down (TG g ts) d = (r, e)" by fastforce
  obtain r2 e2 where e2: "tg_traverse_all down up ts e = (r2, e2)" by fastforce
  have "R d e" "R e e2" "R e2 (snd (up (TG g ts) e2))"
    using down [of d "TG g ts"] all [of ts e] up e e2 by simp_all
  then have "R d e" "R d e2" "R d (snd (up (TG g ts) e2))" using trans by blast+
  then show ?case using e e2 by simp
qed

lemma cfs_schedulable_but_hier: "but_hier gs (snd (cfs_schedulable on_dfl root g period quota gs))"
  unfolding cfs_schedulable_traverse
  by (rule tg_traverse_rel [of but_hier, OF cfs_down_but_hier _ but_hier_refl but_hier_trans]) (simp_all add: tg_nop_app)

lemma tg_set_cfs_bandwidth_cases:
  assumes "tg_set_cfs_bandwidth ops on_dfl online root g period quota usage gs = (ret, usage', gs')" "cfs_ops_ok ops"
  obtains (error) "ret \<noteq> 0" "usage' = usage" "but_hier gs gs'"
  | (ok) gs1 where "ret = 0" "g \<noteq> tg_id root" "min_cfs_quota_period \<le> quota" "min_cfs_quota_period \<le> period"
      "period \<le> max_cfs_quota_period" "cfs_schedulable on_dfl root g period quota gs = (0, gs1)" "but_hier gs gs1"
      "usage' = usage + of_bool (quota \<noteq> RUNTIME_INF) - of_bool (tg_cfs_quota (gs g) \<noteq> RUNTIME_INF)"
      "tg_cfs_period (gs' g) = period" "tg_cfs_quota (gs' g) = quota" "tg_hier_quota (gs' g) = tg_hier_quota (gs1 g)"
      "\<And>h. h \<noteq> g \<Longrightarrow> gs' h = gs1 h"
proof -
  obtain r gs1 where s: "cfs_schedulable on_dfl root g period quota gs = (r, gs1)" by fastforce
  have b: "but_hier gs gs1" using cfs_schedulable_but_hier [of gs on_dfl root g period quota] s by simp
  define t where "t = fold (cfs_cpu_update ops (quota \<noteq> RUNTIME_INF)) online
    (let t = refill_cfs_bandwidth_runtime ops ((gs1 g)\<lparr>tg_cfs_period := period, tg_cfs_quota := quota\<rparr>)
     in if quota \<noteq> RUNTIME_INF then start_cfs_bandwidth ops t else t)"
  have t: "tg_cfs_period t = period" "tg_cfs_quota t = quota" "tg_hier_quota t = tg_hier_quota (gs1 g)"
    using assms(2) unfolding t_def cfs_ops_same [OF assms(2)] by (simp_all add: cfs_ops_ok_def Let_def)
  let ?bad = "g = tg_id root \<or> quota < min_cfs_quota_period \<or> period < min_cfs_quota_period \<or> period > max_cfs_quota_period"
  have eq: "tg_set_cfs_bandwidth ops on_dfl online root g period quota usage gs =
      (if ?bad then (- EINVAL, usage, gs) else if r \<noteq> 0 then (r, usage, gs1)
       else (0, usage + of_bool (quota \<noteq> RUNTIME_INF) - of_bool (tg_cfs_quota (gs1 g) \<noteq> RUNTIME_INF), gs1(g := t)))"
    by (simp add: tg_set_cfs_bandwidth_def s Let_def t_def)
  show ?thesis
  proof (cases "?bad \<or> r \<noteq> 0")
    case True
    then show ?thesis using assms(1) b unfolding eq by (intro error) (auto simp: errnos split: if_splits)
  next
    case False
    then have "ret = 0" "gs' = gs1(g := t)"
      "usage' = usage + of_bool (quota \<noteq> RUNTIME_INF) - of_bool (tg_cfs_quota (gs1 g) \<noteq> RUNTIME_INF)"
      using assms(1) unfolding eq by simp_all
    then show ?thesis
      using False s b t by (intro ok [of gs1]) (simp_all add: not_less but_hier_sel [OF b])
  qed
qed


definition demo_cfs_ops :: cfs_bandwidth_ops where
  "demo_cfs_ops = \<lparr>refill_cfs_bandwidth_runtime = id, start_cfs_bandwidth = id,
     unthrottle_cfs_rq = (\<lambda>c t. t\<lparr>tg_throttled := (tg_throttled t)(c := False)\<rparr>)\<rparr>"

lemma demo_cfs_ops_ok: "cfs_ops_ok demo_cfs_ops"
  by (simp add: cfs_ops_ok_def demo_cfs_ops_def)

lemma demo_tree_wf: "tg_wf demo_groups demo_tree" "tg_parent (demo_groups (tg_id demo_tree)) = None"
  by (simp_all add: demo_group_defs tg_ids_def)



text \<open>
  \<open>cfs_bandwidth_usage\<close> counts the limited groups: when it equals the number of groups of the tree
  that have a quota, it does so after \<open>tg_set_cfs_bandwidth\<close> as well, on success and on error,
  on either hierarchy.
\<close>

theorem cfs_bandwidth_usage_counts:
  assumes "tg_set_cfs_bandwidth ops on_dfl online root g period quota usage gs = (ret, usage', gs')"
    and "cfs_ops_ok ops" "g \<in> tg_ids root"
    and "usage = int (card {h \<in> tg_ids root. tg_cfs_quota (gs h) \<noteq> RUNTIME_INF})"
  shows "usage' = int (card {h \<in> tg_ids root. tg_cfs_quota (gs' h) \<noteq> RUNTIME_INF})"
  using assms(1,2)
proof (cases rule: tg_set_cfs_bandwidth_cases)
  case error
  then show ?thesis using assms(4) by (simp add: but_hier_sel)
next
  case (ok gs1)
  let ?rest = "{h \<in> tg_ids root - {g}. tg_cfs_quota (gs h) \<noteq> RUNTIME_INF}"
  have fin: "finite ?rest" by (simp add: tg_ids_def)
  have count: "{h \<in> tg_ids root. tg_cfs_quota (f h) \<noteq> RUNTIME_INF} =
      (if tg_cfs_quota (f g) \<noteq> RUNTIME_INF then insert g ?rest else ?rest)"
    if "\<And>h. h \<noteq> g \<Longrightarrow> tg_cfs_quota (f h) = tg_cfs_quota (gs h)" for f :: tgs
    using that assms(3) by (auto, metis+)
  have "tg_cfs_quota (gs' h) = tg_cfs_quota (gs h)" if "h \<noteq> g" for h
    using that ok(12) [OF that] but_hier_sel(2) [OF ok(7)] by simp
  from count [of gs', OF this] count [of gs] ok(8,10) assms(4) fin show ?thesis by (simp split: if_splits)
qed

theorem cfs_bandwidth_usage_counts_witness:
  "fst (snd (tg_set_cfs_bandwidth demo_cfs_ops True [0, 1] demo_tree 1 100000000 50000000 0 demo_groups)) =
    int (card {h \<in> tg_ids demo_tree. tg_cfs_quota (snd (snd (tg_set_cfs_bandwidth demo_cfs_ops True [0, 1] demo_tree 1
      100000000 50000000 0 demo_groups)) h) \<noteq> RUNTIME_INF})"
proof -
  obtain ret us gs' where r: "tg_set_cfs_bandwidth demo_cfs_ops True [0, 1] demo_tree 1 100000000 50000000 0 demo_groups = (ret, us, gs')"
    by (metis prod.exhaust_sel)
  have "1 \<in> tg_ids demo_tree" by (simp add: demo_tree_def tg_ids_def)
  moreover have "0 = int (card {h \<in> tg_ids demo_tree. tg_cfs_quota (demo_groups h) \<noteq> RUNTIME_INF})"
    by (simp add: demo_groups_def demo_group_def)
  ultimately show ?thesis using cfs_bandwidth_usage_counts [OF r demo_cfs_ops_ok] r by simp
qed

section \<open>The version 2 hierarchy\<close>

lemma tg_groups_down:
  assumes "P t" "\<And>u c. u \<in> set (tg_groups t) \<Longrightarrow> c \<in> set (tg_kids u) \<Longrightarrow> P u \<Longrightarrow> P c"
  shows "u \<in> set (tg_groups t) \<Longrightarrow> P u"
  using assms
proof (induction t arbitrary: u rule: tg_groups.induct)
  case (1 g ts)
  show ?case
  proof (cases "u = TG g ts")
    case False
    then obtain c where c: "c \<in> set ts" "u \<in> set (tg_groups c)" using 1(2) by auto
    have "P c" using 1(4) [of "TG g ts" c] 1(3) c(1) by simp
    then show ?thesis using 1(1) [OF c(1) c(2)] 1(4) c(1) by auto
  qed (use 1(3) in simp)
qed

lemma cfs_down_v2: "fst (tg_cfs_schedulable_down True d t gs) = 0"
  by (simp add: tg_cfs_schedulable_down_def Let_def split: option.split)

lemma tg_traverse_never_fails:
  assumes "\<And>t d. fst (down t d) = 0" "\<And>t d. fst (up t d) = 0"
  shows "fst (tg_traverse down up t d) = 0"
proof (induction t arbitrary: d rule: tg_groups.induct)
  case (1 g ts)
  have "fst (tg_traverse_all down up us e) = 0" if "set us \<subseteq> set ts" for us e
    using that
  proof (induction us arbitrary: e)
    case (Cons u us)
    then show ?case using 1 [of u e] by (auto split: prod.split)
  qed simp
  from this [OF subset_refl] show ?case using assms [of "TG g ts"] by (auto split: prod.split) (metis fst_conv)+
qed

lemma cfs_limit_nonneg:
  assumes "2000 \<le> tg_cfs_period t" shows "cfs_limit t = RUNTIME_INF \<or> 0 \<le> sint (cfs_limit t)"
proof (cases "tg_cfs_quota t = RUNTIME_INF")
  case False
  define p q where "p = tg_cfs_period t div NSEC_PER_USEC" and "q = tg_cfs_quota t div NSEC_PER_USEC"
  have p: "2 \<le> unat p" using assms by (simp add: p_def NSEC_PER_USEC_def unat_div word_le_nat_alt)
  have "q \<noteq> RUNTIME_INF" using usec_not_inf [of "tg_cfs_quota t"] by (simp add: q_def RUNTIME_INF_def)
  moreover have "p \<noteq> 0" using p by auto
  ultimately have l: "cfs_limit t = push_bit BW_SHIFT q div p" using False by (simp add: cfs_limit_def to_ratio_def p_def q_def)
  have "unat (cfs_limit t) \<le> unat (push_bit BW_SHIFT q) div 2" unfolding l unat_div using p by (rule div_le_mono2 [rotated]) simp
  then have "unat (cfs_limit t) < 2 ^ 63" using unat_bound [of "push_bit BW_SHIFT q"] by simp
  then show ?thesis by (simp add: sint_u64)
qed (simp add: cfs_limit_def)

text \<open>
  C38: On the version 2 hierarchy no limit ever reaches \<open>hierarchical_quota\<close>: the branch that is
  meant to take the smaller of a group's limit and its parent's compares signed numbers, and
  the unlimited parent, \<open>RUNTIME_INF = -1\<close>, is the smallest. Whatever limits the groups have, the walk
  accepts them and ends with every group of the tree recorded as unlimited.
\<close>

theorem cfs_v2_limits_lost:
  assumes "cfs_schedulable True root g period quota gs = (ret, gs')"
    and "tg_wf gs root" "tg_parent (gs (tg_id root)) = None"
    and "2000 \<le> period" "\<forall>h. 2000 \<le> tg_cfs_period (gs h)"
  shows "ret = 0 \<and> (\<forall>u \<in> set (tg_groups root). tg_hier_quota (gs' (tg_id u)) = RUNTIME_INF)"
proof
  let ?d = "cfs_data g period quota"
  have t: "tg_traverse (tg_cfs_schedulable_down True ?d) tg_nop root gs = (ret, gs')"
    using assms(1) by (simp add: cfs_schedulable_traverse)
  have "fst (tg_traverse (tg_cfs_schedulable_down True ?d) tg_nop root gs) = 0"
    by (rule tg_traverse_never_fails) (simp_all add: cfs_down_v2 tg_nop_app)
  then show ret: "ret = 0" using t by simp
  have v: "cfs_visited True ?d root gs gs'" using cfs_traverse_visited [OF _ assms(2)] t ret by simp
  have lim: "normalize_cfs_quota ?d gs h = RUNTIME_INF \<or> 0 \<le> sint (normalize_cfs_quota ?d gs h)" for h
    using cfs_limit_nonneg [of "gs h"] cfs_limit_nonneg [of "(gs g)\<lparr>tg_cfs_period := period, tg_cfs_quota := quota\<rparr>"] assms(4,5)
    by (simp add: normalize_cfs_limit)
  have inf: "sint RUNTIME_INF = -1" by (simp add: RUNTIME_INF_def)
  have "tg_hier_quota (gs' (tg_id c)) = RUNTIME_INF"
    if "u \<in> set (tg_groups root)" "c \<in> set (tg_kids u)" "tg_hier_quota (gs' (tg_id u)) = RUNTIME_INF" for u c
    using v that lim [of "tg_id c"] inf by (auto simp: cfs_visited_def cfs_edge_def Let_def split: if_splits)
  moreover have "tg_hier_quota (gs' (tg_id root)) = RUNTIME_INF" using v assms(3) by (simp add: cfs_visited_def)
  ultimately show "\<forall>u \<in> set (tg_groups root). tg_hier_quota (gs' (tg_id u)) = RUNTIME_INF"
    by (auto intro: tg_groups_down [of "\<lambda>u. tg_hier_quota (gs' (tg_id u)) = RUNTIME_INF" root])
qed

theorem cfs_v2_limits_lost_witness:
  "tg_hier_quota (snd (cfs_schedulable True demo_tree 1 100000000 50000000 demo_groups) 1) = RUNTIME_INF"
proof -
  have "2000 \<le> tg_cfs_period (demo_groups h)" for h by (simp add: demo_groups_def demo_group_def)
  then show ?thesis
    using cfs_v2_limits_lost [of demo_tree 1 100000000 50000000 demo_groups, OF prod.collapse [symmetric] demo_tree_wf]
    by (simp add: demo_tree_def)
qed

end
