(* ===== verification/Net_Flow.thy ===== *)
theory Net_Flow
  imports Prelude
begin

text \<open>
  The two netfilter modules, \<open>drop_flow_byte.c\<close> (a byte budget per flow) and \<open>rate_limit.c\<close> (a
  budget that grows with time). A packet is the header fields the hooks read, ports and
  length in host order. The flow table has 4096 slots and is indexed by the hash, which is
  always in range. The counters are 32-bit and wrap; a module parameter is an \<open>int\<close> that the
  comparisons with the counters reinterpret as unsigned. In \<open>rate_limit.c\<close> the slots hold
  pointers into a slab cache: objects live in a heap, the allocator is a parameter, and the
  memory of an object keeps what was last written to it (the constructor runs when the cache
  first creates the object). Dereferencing a null flow is a fault (\<open>None\<close>).
\<close>

section \<open>Packets, flows and the hash\<close>

record packet =
  k_proto :: u8
  k_saddr :: u32
  k_daddr :: u32
  k_sport :: u16
  k_dport :: u16
  k_tot_len :: u16
  k_ihl :: u8
  k_doff :: u8
  k_fin :: bool

datatype verdict = NF_ACCEPT | NF_DROP

definition IPPROTO_TCP :: u8 where "IPPROTO_TCP = 6"
definition FLOW_TABLE_SIZE :: u32 where "FLOW_TABLE_SIZE = 4096"

definition hash :: "u32 \<Rightarrow> u32 \<Rightarrow> u16 \<Rightarrow> u16 \<Rightarrow> u32" where
  "hash saddr daddr sport dport =
    ((saddr mod FLOW_TABLE_SIZE + 1) * (daddr mod FLOW_TABLE_SIZE + 1) *
     (ucast sport mod FLOW_TABLE_SIZE + 1) * (ucast dport mod FLOW_TABLE_SIZE + 1)) mod FLOW_TABLE_SIZE"

definition pkt_hash :: "packet \<Rightarrow> u32" where
  "pkt_hash k = hash (k_saddr k) (k_daddr k) (k_sport k) (k_dport k)"

text \<open>Total length minus the IP and TCP headers, as an \<open>unsigned int\<close>.\<close>

definition payload_len :: "packet \<Rightarrow> u32" where
  "payload_len k = ucast (k_tot_len k) - push_bit 2 (ucast (k_ihl k)) - push_bit 2 (ucast (k_doff k))"

section \<open>\<open>drop_flow_byte.c\<close>\<close>

record byte_flow =
  bf_saddr :: u32
  bf_daddr :: u32
  bf_sport :: u16
  bf_dport :: u16
  bf_pkt_count :: u32
  bf_drop_count :: u32
  bf_byte_count :: u32
  bf_byte_drop_count :: u32

definition reset_flow :: byte_flow where
  "reset_flow = \<lparr>bf_saddr = 0, bf_daddr = 0, bf_sport = 0, bf_dport = 0, bf_pkt_count = 0,
     bf_drop_count = 0, bf_byte_count = 0, bf_byte_drop_count = 0\<rparr>"

type_synonym byte_table = "u32 \<Rightarrow> byte_flow"

text \<open>\<open>get_flow\<close>: the slot, with the addresses filled in when it was free.\<close>

definition get_flow :: "packet \<Rightarrow> byte_table \<Rightarrow> byte_flow" where
  "get_flow k tab =
    (let f = tab (pkt_hash k) in
     if bf_saddr f = 0 \<and> bf_daddr f = 0 \<and> bf_sport f = 0 \<and> bf_dport f = 0
     then f\<lparr>bf_saddr := k_saddr k, bf_daddr := k_daddr k, bf_sport := k_sport k, bf_dport := k_dport k\<rparr>
     else f)"

definition drop_flow :: "int \<Rightarrow> int \<Rightarrow> packet \<Rightarrow> byte_table \<Rightarrow> verdict \<times> byte_table" where
  "drop_flow port bcount k tab =
    (if k_proto k \<noteq> IPPROTO_TCP then (NF_ACCEPT, tab)
     else if uint (k_sport k) \<noteq> port \<and> uint (k_dport k) \<noteq> port then (NF_ACCEPT, tab)
     else
       let f = get_flow k tab;
           (ret, f) =
             (if payload_len k = 0 then (NF_ACCEPT, f)
              else if bf_byte_count f < word_of_int bcount
              then (NF_ACCEPT, f\<lparr>bf_pkt_count := bf_pkt_count f + 1, bf_byte_count := bf_byte_count f + payload_len k\<rparr>)
              else (NF_DROP, f\<lparr>bf_drop_count := bf_drop_count f + 1, bf_byte_drop_count := bf_byte_drop_count f + payload_len k\<rparr>));
           f = (if k_fin k then reset_flow else f)
       in (ret, tab(pkt_hash k := f)))"

definition drop_flow_init_module :: "int \<Rightarrow> byte_table \<Rightarrow> int \<times> byte_table" where
  "drop_flow_init_module err tab =
    (let tab = (\<lambda>i. if i < FLOW_TABLE_SIZE then reset_flow else tab i)
     in if err < 0 then (err, tab) else (0, tab))"

text \<open>A run of the hook: the verdicts, and the table at the end.\<close>

fun drop_run :: "int \<Rightarrow> int \<Rightarrow> packet list \<Rightarrow> byte_table \<Rightarrow> verdict list \<times> byte_table" where
  "drop_run port bcount [] tab = ([], tab)"
| "drop_run port bcount (k # ks) tab =
    (let (v, tab) = drop_flow port bcount k tab; (vs, tab) = drop_run port bcount ks tab in (v # vs, tab))"

section \<open>\<open>rate_limit.c\<close>\<close>

record rate_flow =
  rf_saddr :: u32
  rf_daddr :: u32
  rf_sport :: u16
  rf_dport :: u16
  rf_pkt_count :: u32
  rf_drop_count :: u32
  rf_byte_count :: u32
  rf_byte_drop_count :: u32
  rf_granular :: u64
  rf_start_granular :: u64
  rf_next_limit :: u32

definition reset_rate_flow :: rate_flow where
  "reset_rate_flow = \<lparr>rf_saddr = 0, rf_daddr = 0, rf_sport = 0, rf_dport = 0, rf_pkt_count = 0,
     rf_drop_count = 0, rf_byte_count = 0, rf_byte_drop_count = 0, rf_granular = 0,
     rf_start_granular = 0, rf_next_limit = 0\<rparr>"

record rate_state =
  rs_table :: "u32 \<Rightarrow> nat option"
  rs_heap :: "nat \<Rightarrow> rate_flow"
  rs_freed :: "nat list"

text \<open>
  The parameters of the module and its environment: \<open>kmem_cache_alloc\<close> gives the address of an
  object or fails, \<open>re_msec\<close> is \<open>HZ_TO_MSEC_NUM\<close>.
\<close>

record rate_env =
  re_threshold :: int
  re_rate :: int
  re_msec :: u64
  re_alloc :: "rate_state \<Rightarrow> nat option"

definition time_after :: "u64 \<Rightarrow> u64 \<Rightarrow> bool" where
  "time_after a b \<longleftrightarrow> sint (b - a) < 0"

definition get_rate_flow :: "rate_env \<Rightarrow> u64 \<Rightarrow> packet \<Rightarrow> rate_state \<Rightarrow> nat option \<times> rate_state" where
  "get_rate_flow env jiffies k s =
    (case rs_table s (pkt_hash k) of
       Some a \<Rightarrow> (Some a, s)
     | None \<Rightarrow>
         (case re_alloc env s of
            None \<Rightarrow> (None, s)
          | Some a \<Rightarrow> (Some a, s\<lparr>rs_table := (rs_table s)(pkt_hash k := Some a),
              rs_heap := (rs_heap s)(a := (rs_heap s a)\<lparr>rf_saddr := k_saddr k, rf_daddr := k_daddr k,
                rf_sport := k_sport k, rf_dport := k_dport k, rf_granular := 0,
                rf_start_granular := jiffies, rf_next_limit := word_of_int (re_threshold env)\<rparr>)\<rparr>)))"

text \<open>The growth of the limit, once the flow has used up the threshold and time has passed.\<close>

definition rate_refill :: "rate_env \<Rightarrow> u64 \<Rightarrow> rate_flow \<Rightarrow> rate_flow" where
  "rate_refill env jiffies f =
    (if rf_byte_count f > word_of_int (re_threshold env) \<and> time_after jiffies (rf_granular f)
     then let g = (if rf_granular f = 0 then jiffies else rf_granular f)
          in f\<lparr>rf_next_limit := rf_next_limit f + ucast ((jiffies - g) * word_of_int (re_rate env) * re_msec env),
               rf_granular := jiffies\<rparr>
     else f)"

definition rate_decide :: "rate_env \<Rightarrow> packet \<Rightarrow> rate_flow \<Rightarrow> verdict \<times> rate_flow" where
  "rate_decide env k f =
    (if rf_byte_count f < word_of_int (re_threshold env) \<or> rf_byte_count f < rf_next_limit f
     then (NF_ACCEPT, f\<lparr>rf_pkt_count := rf_pkt_count f + 1, rf_byte_count := rf_byte_count f + payload_len k\<rparr>)
     else (NF_DROP, f\<lparr>rf_drop_count := rf_drop_count f + 1, rf_byte_drop_count := rf_byte_drop_count f + payload_len k\<rparr>))"

definition rate_hook :: "rate_env \<Rightarrow> u64 \<Rightarrow> packet \<Rightarrow> rate_state \<Rightarrow> (verdict \<times> rate_state) option" where
  "rate_hook env jiffies k s =
    (if k_proto k \<noteq> IPPROTO_TCP then Some (NF_ACCEPT, s)
     else
       let (flow, s) = get_rate_flow env jiffies k s;
           (ret, s) =
             (case flow of None \<Rightarrow> (NF_DROP, s)
              | Some a \<Rightarrow>
                  if payload_len k = 0 then (NF_ACCEPT, s)
                  else let (v, f) = rate_decide env k (rate_refill env jiffies (rs_heap s a))
                       in (v, s\<lparr>rs_heap := (rs_heap s)(a := f)\<rparr>))
       in if k_fin k
          then (case flow of None \<Rightarrow> None
                | Some a \<Rightarrow> Some (ret, s\<lparr>rs_table := (rs_table s)(pkt_hash k := None), rs_freed := a # rs_freed s\<rparr>))
          else Some (ret, s))"

text \<open>A run of the hook over packets with their arrival times.\<close>

fun rate_run :: "rate_env \<Rightarrow> (u64 \<times> packet) list \<Rightarrow> rate_state \<Rightarrow> (verdict list \<times> rate_state) option" where
  "rate_run env [] s = Some ([], s)"
| "rate_run env ((j, k) # ks) s = do {
     (v, s) \<leftarrow> rate_hook env j k s;
     (vs, s) \<leftarrow> rate_run env ks s;
     Some (v # vs, s)
   }"

definition rate_init_module :: "int \<Rightarrow> int" where
  "rate_init_module err = (if err < 0 then err else 0)"

text \<open>The slots freed by \<open>drop_flow_exit_module\<close>, in order.\<close>

fun rate_exit_loop :: "nat \<Rightarrow> nat \<Rightarrow> rate_state \<Rightarrow> rate_state" where
  "rate_exit_loop i 0 s = s"
| "rate_exit_loop i (Suc n) s =
    rate_exit_loop (Suc i) n
      (case rs_table s (of_nat i) of None \<Rightarrow> s | Some a \<Rightarrow> s\<lparr>rs_freed := a # rs_freed s\<rparr>)"

definition rate_exit_module :: "rate_state \<Rightarrow> rate_state" where
  "rate_exit_module s = rate_exit_loop 0 4096 s"

section \<open>The hash\<close>

lemma hash_bound: "hash sa da sp dp < FLOW_TABLE_SIZE"
  unfolding hash_def by (rule word_mod_less_divisor) (simp add: FLOW_TABLE_SIZE_def)

end
