(* ===== verification/Sched_Group.thy ===== *)
theory Sched_Group
  imports Sched_Bandwidth
begin

text \<open>
  The life of a task group with real-time group scheduling: \<open>sched_create_group\<close> and
  \<open>sched_free_group\<close> of \<open>core.c\<close> with \<open>alloc_rt_sched_group\<close> and \<open>free_rt_sched_group\<close> of \<open>rt.c\<close>,
  \<open>sched_online_group\<close> and \<open>sched_offline_group\<close>, and the cgroup callbacks that call them. An
  allocation is a number; \<open>ok n\<close> says whether the \<open>n\<close>-th allocation succeeds. Freeing what is not allocated is
  \<open>None\<close>. The fair class's half (\<open>alloc_fair_sched_group\<close> and its kin) and \<open>autogroup_free\<close> are parameters
  over a state of their own.
\<close>

section \<open>Memory\<close>

record heap =
  hp_count :: nat
  hp_live :: "nat list"

definition kalloc :: "(nat \<Rightarrow> bool) \<Rightarrow> heap \<Rightarrow> nat option \<times> heap" where
  "kalloc ok h = (let n = hp_count h in
     if ok n then (Some n, h\<lparr>hp_count := n + 1, hp_live := n # hp_live h\<rparr>) else (None, h\<lparr>hp_count := n + 1\<rparr>))"

definition kfree :: "nat option \<Rightarrow> heap \<Rightarrow> heap option" where
  "kfree p h = (case p of None \<Rightarrow> Some h
     | Some n \<Rightarrow> if n \<in> set (hp_live h) then Some (h\<lparr>hp_live := remove1 n (hp_live h)\<rparr>) else None)"

section \<open>The real-time half of a group\<close>

text \<open>The pointers \<open>tg->rt_rq\<close>, \<open>tg->rt_se\<close> and the entries of the two arrays.\<close>

record rt_group =
  rg_rq :: "nat option"
  rg_se :: "nat option"
  rg_rq_at :: "cpu \<Rightarrow> nat option"
  rg_se_at :: "cpu \<Rightarrow> nat option"

definition no_rt_group :: rt_group where
  "no_rt_group = \<lparr>rg_rq = None, rg_se = None, rg_rq_at = (\<lambda>_. None), rg_se_at = (\<lambda>_. None)\<rparr>"

fun alloc_rt_loop :: "(nat \<Rightarrow> bool) \<Rightarrow> cpu list \<Rightarrow> rt_group \<Rightarrow> task_group \<Rightarrow> heap \<Rightarrow> (bool \<times> rt_group \<times> task_group \<times> heap) option" where
  "alloc_rt_loop ok [] rg tg h = Some (True, rg, tg, h)"
| "alloc_rt_loop ok (i # is) rg tg h =
    (case kalloc ok h of (None, h) \<Rightarrow> Some (False, rg, tg, h)
     | (Some rq, h) \<Rightarrow>
        (case kalloc ok h of (None, h) \<Rightarrow> map_option (\<lambda>h. (False, rg, tg, h)) (kfree (Some rq) h)
         | (Some se, h) \<Rightarrow>
             alloc_rt_loop ok is (rg\<lparr>rg_rq_at := (rg_rq_at rg)(i := Some rq), rg_se_at := (rg_se_at rg)(i := Some se)\<rparr>)
               (tg\<lparr>tg_rt_rq_runtime := (tg_rt_rq_runtime tg)(i := tg_rt_runtime tg)\<rparr>) h))"

definition alloc_rt_sched_group ::
  "(nat \<Rightarrow> bool) \<Rightarrow> kernel_env \<Rightarrow> sched_state \<Rightarrow> task_group \<Rightarrow> heap \<Rightarrow> (bool \<times> rt_group \<times> task_group \<times> heap) option" where
  "alloc_rt_sched_group ok env st tg h =
    (case kalloc ok h of (None, h) \<Rightarrow> Some (False, no_rt_group, tg, h)
     | (Some rq, h) \<Rightarrow>
        (case kalloc ok h of (None, h) \<Rightarrow> Some (False, no_rt_group\<lparr>rg_rq := Some rq\<rparr>, tg, h)
         | (Some se, h) \<Rightarrow>
             alloc_rt_loop ok (env_possible_mask env) (no_rt_group\<lparr>rg_rq := Some rq, rg_se := Some se\<rparr>)
               (tg\<lparr>tg_rt_period := rtb_period (def_rt_b st), tg_rt_runtime := 0\<rparr>) h))"

fun free_rt_loop :: "cpu list \<Rightarrow> rt_group \<Rightarrow> heap \<Rightarrow> heap option" where
  "free_rt_loop [] rg h = Some h"
| "free_rt_loop (i # is) rg h = do {
     h \<leftarrow> (if rg_rq rg \<noteq> None then kfree (rg_rq_at rg i) h else Some h);
     h \<leftarrow> (if rg_se rg \<noteq> None then kfree (rg_se_at rg i) h else Some h);
     free_rt_loop is rg h
   }"

text \<open>\<open>destroy_rt_bandwidth\<close> only cancels the timer.\<close>

definition free_rt_sched_group :: "kernel_env \<Rightarrow> rt_group \<Rightarrow> heap \<Rightarrow> heap option" where
  "free_rt_sched_group env rg h = do {
     h \<leftarrow> free_rt_loop (env_possible_mask env) rg h;
     h \<leftarrow> kfree (rg_rq rg) h;
     kfree (rg_se rg) h
   }"

section \<open>Creating and freeing groups\<close>

text \<open>
  The groups: their records, the list \<open>task_groups\<close>, the lists of children (new ones first), the
  real-time halves, the heap, and the state of the fair class. A group is named by its allocation.
\<close>

record 'f groups =
  gr_tgs :: tgs
  gr_list :: "nat list"
  gr_children :: "nat \<Rightarrow> nat list"
  gr_rt :: "nat \<Rightarrow> rt_group"
  gr_heap :: heap
  gr_fair :: 'f

record 'f fair_group_ops =
  fg_alloc :: "nat \<Rightarrow> 'f \<Rightarrow> bool \<times> 'f"
  fg_free :: "nat \<Rightarrow> 'f \<Rightarrow> 'f"
  fg_online :: "nat \<Rightarrow> 'f \<Rightarrow> 'f"
  fg_unregister :: "nat \<Rightarrow> 'f \<Rightarrow> 'f"
  fg_autogroup_free :: "nat \<Rightarrow> 'f \<Rightarrow> 'f"

text \<open>A group of \<open>kmem_cache_alloc\<close> with \<open>__GFP_ZERO\<close>.\<close>

definition zero_group :: task_group where
  "zero_group = \<lparr>tg_parent = None, tg_rt_period = 0, tg_rt_runtime = 0, tg_has_rt_tasks = False, tg_rt_rq_runtime = (\<lambda>_. 0),
     tg_cfs_period = 0, tg_cfs_quota = 0, tg_hier_quota = 0, tg_shares = 0, tg_runtime_enabled = (\<lambda>_. False),
     tg_runtime_remaining = (\<lambda>_. 0), tg_throttled = (\<lambda>_. False)\<rparr>"

definition sched_free_group :: "kernel_env \<Rightarrow> 'f fair_group_ops \<Rightarrow> nat \<Rightarrow> 'f groups \<Rightarrow> 'f groups option" where
  "sched_free_group env ops g gr = do {
     let f = fg_free ops g (gr_fair gr);
     h \<leftarrow> free_rt_sched_group env (gr_rt gr g) (gr_heap gr);
     let f = fg_autogroup_free ops g f;
     h \<leftarrow> kfree (Some g) h;
     Some (gr\<lparr>gr_fair := f, gr_heap := h\<rparr>)
   }"

text \<open>The group, or none for \<open>ERR_PTR(-ENOMEM)\<close>.\<close>

definition sched_create_group ::
  "(nat \<Rightarrow> bool) \<Rightarrow> kernel_env \<Rightarrow> 'f fair_group_ops \<Rightarrow> sched_state \<Rightarrow> 'f groups \<Rightarrow> (nat option \<times> 'f groups) option" where
  "sched_create_group ok env ops st gr =
    (case kalloc ok (gr_heap gr) of (None, h) \<Rightarrow> Some (None, gr\<lparr>gr_heap := h\<rparr>)
     | (Some g, h) \<Rightarrow>
         let (fair_ok, f) = fg_alloc ops g (gr_fair gr);
             gr = gr\<lparr>gr_heap := h, gr_tgs := (gr_tgs gr)(g := zero_group), gr_rt := (gr_rt gr)(g := no_rt_group), gr_fair := f\<rparr>
         in if \<not> fair_ok then map_option (Pair None) (sched_free_group env ops g gr)
            else do {
              (rt_ok, rg, tg, h) \<leftarrow> alloc_rt_sched_group ok env st zero_group h;
              let gr = gr\<lparr>gr_heap := h, gr_tgs := (gr_tgs gr)(g := tg), gr_rt := (gr_rt gr)(g := rg)\<rparr>;
              if \<not> rt_ok then map_option (Pair None) (sched_free_group env ops g gr) else Some (Some g, gr)
            })"

definition sched_online_group :: "'f fair_group_ops \<Rightarrow> nat \<Rightarrow> nat \<Rightarrow> 'f groups \<Rightarrow> 'f groups" where
  "sched_online_group ops g parent gr =
    gr\<lparr>gr_list := g # gr_list gr, gr_tgs := (gr_tgs gr)(g := (gr_tgs gr g)\<lparr>tg_parent := Some parent\<rparr>),
       gr_children := ((gr_children gr)(g := []))(parent := g # ((gr_children gr)(g := [])) parent),
       gr_fair := fg_online ops g (gr_fair gr)\<rparr>"

text \<open>A group's siblings list is that of its parent.\<close>

definition sched_offline_group :: "'f fair_group_ops \<Rightarrow> nat \<Rightarrow> 'f groups \<Rightarrow> 'f groups" where
  "sched_offline_group ops g gr =
    gr\<lparr>gr_fair := fg_unregister ops g (gr_fair gr), gr_list := remove1 g (gr_list gr),
       gr_children := (case tg_parent (gr_tgs gr g) of None \<Rightarrow> gr_children gr
         | Some p \<Rightarrow> (gr_children gr)(p := remove1 g (gr_children gr p)))\<rparr>"

section \<open>The cgroup callbacks\<close>

text \<open>\<open>root\<close> is \<open>root_task_group\<close>, the group of the top cgroup, which has no parent.\<close>

definition cpu_cgroup_css_alloc ::
  "(nat \<Rightarrow> bool) \<Rightarrow> kernel_env \<Rightarrow> 'f fair_group_ops \<Rightarrow> sched_state \<Rightarrow> nat \<Rightarrow> nat option \<Rightarrow> 'f groups \<Rightarrow> (nat option \<times> 'f groups) option" where
  "cpu_cgroup_css_alloc ok env ops st root parent gr =
    (case parent of None \<Rightarrow> Some (Some root, gr) | Some _ \<Rightarrow> sched_create_group ok env ops st gr)"

definition cpu_cgroup_css_online :: "'f fair_group_ops \<Rightarrow> nat \<Rightarrow> nat option \<Rightarrow> 'f groups \<Rightarrow> 'f groups" where
  "cpu_cgroup_css_online ops g parent gr = (case parent of Some p \<Rightarrow> sched_online_group ops g p gr | None \<Rightarrow> gr)"

definition cpu_cgroup_css_released :: "'f fair_group_ops \<Rightarrow> nat \<Rightarrow> 'f groups \<Rightarrow> 'f groups" where
  "cpu_cgroup_css_released ops g gr = sched_offline_group ops g gr"

definition cpu_cgroup_css_free :: "kernel_env \<Rightarrow> 'f fair_group_ops \<Rightarrow> nat \<Rightarrow> 'f groups \<Rightarrow> 'f groups option" where
  "cpu_cgroup_css_free env ops g gr = sched_free_group env ops g gr"

end
