(* ===== verification/Sched_Cgroup.thy ===== *)
theory Sched_Cgroup
  imports Sched_Core_Props Sched_Cfs_Limits Sched_Group
begin

text \<open>
  The cpu controller's interface of \<open>core.c\<close>: moving tasks between groups (\<open>sched_move_task\<close>,
  \<open>cpu_cgroup_can_attach\<close>, \<open>cpu_cgroup_attach\<close>, \<open>cpu_cgroup_fork\<close>) and the files of a group, in
  particular \<open>cpu.max\<close> with its printer and parser. The group of a task is kept in a map
  beside the scheduler state. The cgroup core, autogroups and the fair class's hook are parameters. Without
  real-time groups \<open>set_task_rq\<close> only writes fields of the fair class.
\<close>

section \<open>Moving tasks between groups\<close>

datatype move_type = Task_set_group | Task_move_group

record cgroup_env =
  ce_css_group :: "tid \<Rightarrow> nat"
  ce_autogroup :: "tid \<Rightarrow> nat \<Rightarrow> nat"
  ce_fair_change :: "tid \<Rightarrow> move_type \<Rightarrow> sched_state \<Rightarrow> sched_state"

definition sched_change_group ::
  "cgroup_env \<Rightarrow> tid \<Rightarrow> move_type \<Rightarrow> (tid \<Rightarrow> nat) \<times> sched_state \<Rightarrow> (tid \<Rightarrow> nat) \<times> sched_state" where
  "sched_change_group ce p ty gst =
    (case gst of (grp, st) \<Rightarrow>
       (grp(p := ce_autogroup ce p (ce_css_group ce p)),
        if p_class (tasks st p) = Fair_class then ce_fair_change ce p ty st else st))"

definition sched_move_task ::
  "kernel_env \<Rightarrow> cgroup_env \<Rightarrow> tid \<Rightarrow> (tid \<Rightarrow> nat) \<times> sched_state \<Rightarrow> ((tid \<Rightarrow> nat) \<times> sched_state) option" where
  "sched_move_task env ce p gst =
    (case gst of (grp, st) \<Rightarrow>
      let queue_flags = DEQUEUE_SAVE OR DEQUEUE_MOVE OR DEQUEUE_NOCLOCK;
          c = p_cpu (tasks st p);
          st = update_rq_clock c st;
          running = task_current st c p;
          queued = task_on_rq_queued st p
      in do {
        st \<leftarrow> (if queued then dequeue_task env c p queue_flags st else Some st);
        st \<leftarrow> (if running then put_prev_task env c p st else Some st);
        let (grp, st) = sched_change_group ce p Task_move_group (grp, st);
        st \<leftarrow> (if queued then enqueue_task env c p queue_flags st else Some st);
        st \<leftarrow> (if running then set_curr_task env c p st else Some st);
        Some (grp, st)
      })"

definition cpu_cgroup_fork :: "cgroup_env \<Rightarrow> tid \<Rightarrow> (tid \<Rightarrow> nat) \<times> sched_state \<Rightarrow> (tid \<Rightarrow> nat) \<times> sched_state" where
  "cpu_cgroup_fork ce p gst =
    (case gst of (grp, st) \<Rightarrow> sched_change_group ce p Task_set_group (grp, update_rq_clock (p_cpu (tasks st p)) st))"

text \<open>\<open>rt_groups\<close>: the kernel has real-time groups.\<close>

fun cpu_cgroup_can_attach :: "bool \<Rightarrow> tgs \<Rightarrow> sched_state \<Rightarrow> (tid \<times> nat) list \<Rightarrow> int" where
  "cpu_cgroup_can_attach rt_groups gs st [] = 0"
| "cpu_cgroup_can_attach rt_groups gs st ((p, g) # ts) =
    (if rt_groups \<and> \<not> sched_rt_can_attach (gs g) (tasks st p) then - EINVAL
     else if p_state (tasks st p) = TASK_NEW then - EINVAL
     else cpu_cgroup_can_attach rt_groups gs st ts)"

fun cpu_cgroup_attach ::
  "kernel_env \<Rightarrow> cgroup_env \<Rightarrow> tid list \<Rightarrow> (tid \<Rightarrow> nat) \<times> sched_state \<Rightarrow> ((tid \<Rightarrow> nat) \<times> sched_state) option" where
  "cpu_cgroup_attach env ce [] gst = Some gst"
| "cpu_cgroup_attach env ce (p # ps) gst = do { gst \<leftarrow> sched_move_task env ce p gst; cpu_cgroup_attach env ce ps gst }"

section \<open>The files of a group\<close>

definition cpu_cfs_quota_read_s64 :: "task_group \<Rightarrow> int" where "cpu_cfs_quota_read_s64 t = tg_get_cfs_quota t"
definition cpu_cfs_period_read_u64 :: "task_group \<Rightarrow> u64" where "cpu_cfs_period_read_u64 t = word_of_int (tg_get_cfs_period t)"

definition cpu_cfs_quota_write_s64 ::
  "cfs_bandwidth_ops \<Rightarrow> bool \<Rightarrow> cpu list \<Rightarrow> tg_tree \<Rightarrow> nat \<Rightarrow> int \<Rightarrow> int \<Rightarrow> tgs \<Rightarrow> int \<times> int \<times> tgs" where
  "cpu_cfs_quota_write_s64 ops on_dfl online root g us usage gs = tg_set_cfs_quota ops on_dfl online root g us usage gs"

text \<open>The \<open>u64\<close> argument is converted to \<open>long\<close>.\<close>

definition cpu_cfs_period_write_u64 ::
  "cfs_bandwidth_ops \<Rightarrow> bool \<Rightarrow> cpu list \<Rightarrow> tg_tree \<Rightarrow> nat \<Rightarrow> u64 \<Rightarrow> int \<Rightarrow> tgs \<Rightarrow> int \<times> int \<times> tgs" where
  "cpu_cfs_period_write_u64 ops on_dfl online root g us usage gs = tg_set_cfs_period ops on_dfl online root g (sint us) usage gs"

definition cpu_rt_runtime_read :: "task_group \<Rightarrow> int" where "cpu_rt_runtime_read t = sched_group_rt_runtime t"
definition cpu_rt_period_read_uint :: "task_group \<Rightarrow> u64" where "cpu_rt_period_read_uint t = word_of_int (sched_group_rt_period t)"

definition cpu_rt_runtime_write :: "kernel_env \<Rightarrow> sched_state \<Rightarrow> tg_tree \<Rightarrow> nat \<Rightarrow> int \<Rightarrow> tgs \<Rightarrow> int \<times> tgs" where
  "cpu_rt_runtime_write env st root g val gs = sched_group_set_rt_runtime env st root g val gs"

definition cpu_rt_period_write_uint :: "kernel_env \<Rightarrow> sched_state \<Rightarrow> tg_tree \<Rightarrow> nat \<Rightarrow> u64 \<Rightarrow> tgs \<Rightarrow> int \<times> tgs" where
  "cpu_rt_period_write_uint env st root g us gs = sched_group_set_rt_period env st root g us gs"

text \<open>
  The conversions of \<open>sscanf\<close> that \<open>cpu_period_quota_parse\<close> uses: \<open>%20s\<close> and \<open>%llu\<close>; a number does not
  begin with a sign and wraps around at 64 bits.
\<close>

definition is_space :: "char \<Rightarrow> bool" where
  "is_space c \<longleftrightarrow> c \<in> {CHR '' '', CHR 0x09, CHR 0x0A, CHR 0x0B, CHR 0x0C, CHR 0x0D, CHR 0xA0}"

definition scan_word :: "nat \<Rightarrow> string \<Rightarrow> string \<times> string" where
  "scan_word n s =
    (let s = dropWhile is_space s; w = take n (takeWhile (\<lambda>c. \<not> is_space c) s) in (w, drop (length w) s))"

definition scan_u64 :: "string \<Rightarrow> u64 option" where
  "scan_u64 s = (let ds = takeWhile is_digit (dropWhile is_space s) in if ds = [] then None else Some (of_nat (digits_val ds)))"

definition cpu_period_quota_print :: "int \<Rightarrow> int \<Rightarrow> string" where
  "cpu_period_quota_print period quota =
     (if quota < 0 then ''max'' else int_to_string quota) @ '' '' @ int_to_string period @ [CHR 0x0A]"

text \<open>\<open>Inr\<close>: the period and the quota, in nanoseconds; \<open>period\<close> is the current value in microseconds.\<close>

definition cpu_period_quota_parse :: "string \<Rightarrow> u64 \<Rightarrow> int + u64 \<times> u64" where
  "cpu_period_quota_parse buf period =
    (if buf = [] then Inl (- EINVAL)
     else
       let (tok, rest) = scan_word 20 buf;
           period = (case scan_u64 rest of Some v \<Rightarrow> v | None \<Rightarrow> period) * NSEC_PER_USEC
       in case scan_u64 tok of Some quota \<Rightarrow> Inr (period, quota * NSEC_PER_USEC)
          | None \<Rightarrow> if tok = ''max'' then Inr (period, RUNTIME_INF) else Inl (- EINVAL))"

definition cpu_max_show :: "task_group \<Rightarrow> string" where
  "cpu_max_show t = cpu_period_quota_print (tg_get_cfs_period t) (tg_get_cfs_quota t)"

definition cpu_max_write ::
  "cfs_bandwidth_ops \<Rightarrow> bool \<Rightarrow> cpu list \<Rightarrow> tg_tree \<Rightarrow> nat \<Rightarrow> string \<Rightarrow> int \<Rightarrow> tgs \<Rightarrow> int \<times> int \<times> tgs" where
  "cpu_max_write ops on_dfl online root g buf usage gs =
    (case cpu_period_quota_parse buf (word_of_int (tg_get_cfs_period (gs g))) of
       Inl e \<Rightarrow> (e, usage, gs)
     | Inr (period, quota) \<Rightarrow>
         (case tg_set_cfs_bandwidth ops on_dfl online root g period quota usage gs of
            (ret, usage, gs) \<Rightarrow> (if ret \<noteq> 0 then ret else int (length buf), usage, gs)))"

section \<open>Printing and parsing \<open>cpu.max\<close>\<close>

lemma digit_not_space: "is_digit c \<Longrightarrow> \<not> is_space c"
  by (auto simp: is_digit_def is_space_def)

lemma scan_u64_number:
  assumes "rest = [] \<or> \<not> is_digit (hd rest)"
  shows "scan_u64 (nat_to_string n @ rest) = Some (of_nat n)"
proof -
  have d: "\<forall>c\<in>set (nat_to_string n). is_digit c" by (rule nat_to_string_digits)
  obtain c cs where cs: "nat_to_string n = c # cs" using nat_to_string_nonempty [of n] by (cases "nat_to_string n") auto
  have "dropWhile is_space (nat_to_string n @ rest) = nat_to_string n @ rest"
    using d digit_not_space [of c] by (simp add: cs)
  moreover have "takeWhile is_digit (nat_to_string n @ rest) = nat_to_string n"
    using d assms by (cases rest) (simp_all add: takeWhile_append)
  ultimately show ?thesis using cs digits_val_nat_to_string [of n] by (simp add: scan_u64_def)
qed

lemma scan_word_token:
  assumes "tok \<noteq> []" "\<forall>c\<in>set tok. \<not> is_space c" "length tok \<le> n" "rest = [] \<or> is_space (hd rest)"
  shows "scan_word n (tok @ rest) = (tok, rest)"
proof -
  have "dropWhile is_space (tok @ rest) = tok @ rest" using assms(1,2) by (cases tok) auto
  moreover have "takeWhile (\<lambda>c. \<not> is_space c) (tok @ rest) = tok" using assms(2,4) by (cases rest) (auto simp: takeWhile_append)
  ultimately show ?thesis using assms(3) by (simp add: scan_word_def)
qed

lemma number_token: "n < 2 ^ 63 \<Longrightarrow> nat_to_string n \<noteq> [] \<and> (\<forall>c\<in>set (nat_to_string n). \<not> is_space c) \<and> length (nat_to_string n) \<le> 20"
  using nat_to_string_nonempty nat_to_string_digits digit_not_space length_nat_to_string [of 20 n] by fastforce

lemma parse_print:
  assumes "0 \<le> period" "period < 2 ^ 63" "quota < 2 ^ 63"
  shows "cpu_period_quota_parse (cpu_period_quota_print period quota) old =
    Inr (word_of_int period * NSEC_PER_USEC, if quota < 0 then RUNTIME_INF else word_of_int quota * NSEC_PER_USEC)"
proof -
  let ?tok = "if quota < 0 then ''max'' else int_to_string quota" and ?rest = "'' '' @ int_to_string period @ [CHR 0x0A]"
  have t: "?tok \<noteq> []" "\<forall>c\<in>set ?tok. \<not> is_space c" "length ?tok \<le> 20"
    using number_token [of "nat quota"] assms(3) by (auto simp: int_to_string_def is_space_def nat_less_iff)
  have w: "scan_word 20 (?tok @ ?rest) = (?tok, ?rest)" by (rule scan_word_token [OF t]) (simp add: is_space_def)
  have "scan_u64 ?rest = scan_u64 (nat_to_string (nat period) @ [CHR 0x0A])"
    using assms(1) by (simp add: scan_u64_def is_space_def int_to_string_def)
  also have "\<dots> = Some (of_nat (nat period))" by (rule scan_u64_number) (simp add: is_digit_def)
  finally have r: "scan_u64 ?rest = Some (word_of_int period)" using assms(1) by simp
  have q: "scan_u64 ?tok = (if quota < 0 then None else Some (word_of_int quota))"
    using scan_u64_number [of "[]" "nat quota"] by (auto simp: int_to_string_def scan_u64_def is_space_def is_digit_def)
  show ?thesis unfolding cpu_period_quota_parse_def cpu_period_quota_print_def w using t(1) r q by (auto simp: Let_def)
qed

text \<open>A time of whole microseconds survives the conversion to a \<open>long\<close> and back.\<close>

definition whole_us :: "u64 \<Rightarrow> bool" where
  "whole_us w \<longleftrightarrow> 1000 dvd unat w \<and> unat w < 2 ^ 63"

lemma whole_us_conv:
  assumes "whole_us w"
  shows "0 \<le> sint (w div NSEC_PER_USEC)" "sint (w div NSEC_PER_USEC) < 2 ^ 63" "word_of_int (sint (w div NSEC_PER_USEC)) * NSEC_PER_USEC = w"
    "w \<noteq> RUNTIME_INF"
proof -
  have i: "uint w = int (unat w)" by simp
  have "int (unat w) < int (2 ^ 63)" "int 1000 dvd int (unat w)"
    using assms unfolding whole_us_def int_dvd_int_iff of_nat_less_iff by blast+
  then have u: "uint w < 2 ^ 63" "1000 dvd uint w" unfolding i by simp_all
  have d: "uint (w div NSEC_PER_USEC) = uint w div 1000" by (simp add: NSEC_PER_USEC_def uint_div)
  have b: "0 \<le> uint w div 1000" "uint w div 1000 < 2 ^ 63"
    using u(1) zdiv_mono2 [OF uint_ge_0 [of w], of 1 1000] by (simp_all add: pos_imp_zdiv_nonneg_iff)
  have s: "sint (w div NSEC_PER_USEC) = uint w div 1000"
    using b d by (simp add: sint_uint signed_take_bit_int_eq_self_iff)
  show "0 \<le> sint (w div NSEC_PER_USEC)" "sint (w div NSEC_PER_USEC) < 2 ^ 63" using b s by simp_all
  have "word_of_int (uint w div 1000) * NSEC_PER_USEC = (word_of_int (uint w div 1000 * 1000) :: u64)" by (simp add: NSEC_PER_USEC_def)
  then show "word_of_int (sint (w div NSEC_PER_USEC)) * NSEC_PER_USEC = w" using s u(2) by simp
  show "w \<noteq> RUNTIME_INF" using u(1) by (auto simp: RUNTIME_INF_def unsigned_minus_1_eq_mask mask_eq_exp_minus_1)
qed

text \<open>
  What \<open>cpu.max\<close> shows can be written back: for a group whose period and quota are whole microseconds, or whose
  quota is unlimited (\<open>max\<close>), \<open>cpu_max_write\<close> of the text of \<open>cpu_max_show\<close> asks \<open>tg_set_cfs_bandwidth\<close> for exactly the
  period and quota the group has, and reports the length of the text when that succeeds.
\<close>

theorem cpu_max_roundtrip:
  assumes "whole_us (tg_cfs_period (gs g))" "tg_cfs_quota (gs g) = RUNTIME_INF \<or> whole_us (tg_cfs_quota (gs g))"
  shows "cpu_max_write ops on_dfl online root g (cpu_max_show (gs g)) usage gs =
    (case tg_set_cfs_bandwidth ops on_dfl online root g (tg_cfs_period (gs g)) (tg_cfs_quota (gs g)) usage gs of
       (ret, usage', gs') \<Rightarrow> (if ret \<noteq> 0 then ret else int (length (cpu_max_show (gs g))), usage', gs'))"
proof -
  note p = whole_us_conv [OF assms(1)]
  have q: "tg_get_cfs_quota (gs g) < 2 ^ 63"
    "(if tg_get_cfs_quota (gs g) < 0 then RUNTIME_INF else word_of_int (tg_get_cfs_quota (gs g)) * NSEC_PER_USEC) = tg_cfs_quota (gs g)"
    using assms(2) whole_us_conv [of "tg_cfs_quota (gs g)"] by (auto simp: tg_get_cfs_quota_def)
  have "cpu_period_quota_parse (cpu_max_show (gs g)) (word_of_int (tg_get_cfs_period (gs g))) =
      Inr (tg_cfs_period (gs g), tg_cfs_quota (gs g))"
    unfolding cpu_max_show_def using parse_print [OF _ _ q(1), of "tg_get_cfs_period (gs g)"] p q(2) by (simp add: tg_get_cfs_period_def)
  then show ?thesis by (simp add: cpu_max_write_def)
qed

theorem cpu_max_roundtrip_witness:
  "let gs = demo_groups(1 := (demo_groups 1)\<lparr>tg_cfs_period := 100000000, tg_cfs_quota := 50000000\<rparr>) in
     cpu_max_show (gs 1) = ''50000 100000'' @ [CHR 0x0A] \<and>
     cpu_max_write demo_cfs_ops False [0, 1] demo_tree 1 (cpu_max_show (gs 1)) 1 gs =
      (case tg_set_cfs_bandwidth demo_cfs_ops False [0, 1] demo_tree 1 100000000 50000000 1 gs of
         (ret, usage', gs') \<Rightarrow> (if ret \<noteq> 0 then ret else int (length (cpu_max_show (gs 1))), usage', gs'))"
proof -
  let ?gs = "demo_groups(1 := (demo_groups 1)\<lparr>tg_cfs_period := 100000000, tg_cfs_quota := 50000000\<rparr>)"
  have w: "whole_us (tg_cfs_period (?gs 1))" "whole_us (tg_cfs_quota (?gs 1))" by (simp_all add: whole_us_def)
  have "cpu_max_show (?gs 1) = ''50000 100000'' @ [CHR 0x0A]"
    by (simp add: cpu_max_show_def cpu_period_quota_print_def tg_get_cfs_period_def tg_get_cfs_quota_def RUNTIME_INF_def NSEC_PER_USEC_def
        int_to_string_def nat_to_string.simps digit_chars)
  then show ?thesis using cpu_max_roundtrip [of ?gs 1 demo_cfs_ops False "[0, 1]" demo_tree 1] w unfolding Let_def by simp
qed

section \<open>Attaching tasks\<close>

context class_mover
begin

lemma sched_move_total:
  assumes "wf st" "queued st c p" "p_class (tasks st p) = cl" "cl \<noteq> Fair_class" "p_cpu (tasks st p) = c"
    and "p_on_rq (tasks st p) = TASK_ON_RQ_QUEUED" "curr_of st c \<noteq> p" "okf (DEQUEUE_SAVE OR DEQUEUE_MOVE OR DEQUEUE_NOCLOCK)"
  shows "\<exists>st'. sched_move_task env ce p (grp, st) = Some (grp(p := ce_autogroup ce p (ce_css_group ce p)), st') \<and>
    wf st' \<and> class_kept st st' \<and> (\<forall>d x. queued st' d x \<longleftrightarrow> queued st d x)"
proof -
  let ?f = "DEQUEUE_SAVE OR DEQUEUE_MOVE OR DEQUEUE_NOCLOCK" and ?u = "update_rq_clock c st"
  note u = clock_steps [of st c]
  have wu: "wf ?u" "queued ?u c p" "p_class (tasks ?u p) = cl"
    using core_wf [OF u(1)] core_queued [OF u(1)] assms(1-3) by (simp_all add: st_simps)
  obtain s where s: "dequeue_task env c p ?f ?u = Some s" "wf s" "ready s c p" "class_kept ?u s"
    "\<And>d x. queued s d x \<longleftrightarrow> queued ?u d x \<and> x \<noteq> p" using dequeue_total [OF wu(1,2) assms(8) wu(3)] by blast
  have cls: "p_class (tasks s p) = cl" using s(4) assms(3) by (simp add: class_kept_def st_simps)
  obtain t where t: "enqueue_task env c p ?f s = Some t" "wf t" "class_kept s t"
    "\<And>d x. queued t d x \<longleftrightarrow> queued s d x \<or> (d = c \<and> x = p)" using enqueue_total [OF s(2,3) assms(8) cls] by blast
  have q: "queued t d x \<longleftrightarrow> queued st d x" for d x
    using t(4) s(5) core_queued [OF u(1)] queued_once [OF assms(1,2)] assms(2) by blast
  have cur: "\<not> task_current ?u c p" "task_on_rq_queued ?u p"
    using assms(6,7) update_rq_clock_sel(2) [of c st c] by (auto simp: task_current_def task_on_rq_queued_def st_simps queue_view_def)
  have "sched_move_task env ce p (grp, st) = Some (grp(p := ce_autogroup ce p (ce_css_group ce p)), t)"
    using s(1) t(1) cls assms(4,5) cur by (simp add: sched_move_task_def sched_change_group_def Let_def)
  moreover have "class_kept st t" using class_kept_trans [OF u(2)] class_kept_trans [OF s(4) t(3)] by blast
  ultimately show ?thesis using t(2) q by blast
qed

end

lemma ts_sched_move_task:
  assumes "ts_wf st" "ts_linked st (p_cpu (tasks st p)) p" "p_class (tasks st p) = Ts_class"
    and "p_on_rq (tasks st p) = TASK_ON_RQ_QUEUED" "curr_of st (p_cpu (tasks st p)) \<noteq> p"
  shows "\<exists>st'. sched_move_task env ce p (grp, st) = Some (grp(p := ce_autogroup ce p (ce_css_group ce p)), st') \<and>
    ts_wf st' \<and> class_kept st st' \<and> (\<forall>d x. ts_linked st' d x \<longleftrightarrow> ts_linked st d x)"
  using ts_mover.sched_move_total [OF assms(1,2,3) _ refl assms(4,5), of env ce grp] by simp

text \<open>
  Moving a waiting real-time task to another group (\<open>sched_move_task\<close>) never hits a BUG: the task is recorded in the group its
  cgroup and autogroup say, it is queued where it was and so is every other task, no
  task changes its class, CPU or run-queue state, and the run queues stay well-formed.
\<close>

theorem rt_sched_move_task:
  assumes "rt_wf st" "rt_linked st (p_cpu (tasks st p)) p" "p_class (tasks st p) = Rt_class"
    and "p_on_rq (tasks st p) = TASK_ON_RQ_QUEUED" "curr_of st (p_cpu (tasks st p)) \<noteq> p"
  shows "\<exists>st'. sched_move_task env ce p (grp, st) = Some (grp(p := ce_autogroup ce p (ce_css_group ce p)), st') \<and>
    rt_wf st' \<and> class_kept st st' \<and> (\<forall>d x. rt_linked st' d x \<longleftrightarrow> rt_linked st d x)"
proof -
  have "move_entity (DEQUEUE_SAVE OR DEQUEUE_MOVE OR DEQUEUE_NOCLOCK)" by (simp add: move_entity_def queue_flags)
  from rt_mover.sched_move_total [OF assms(1,2,3) _ refl assms(4,5) this, of env ce grp] show ?thesis by simp
qed

lemma rt_demo_push_cpu: "p_cpu (tasks rt_demo_push x) = 0" "curr_of rt_demo_push 0 = 2" "p_on_rq (tasks rt_demo_push 3) = TASK_ON_RQ_QUEUED"
proof -
  have "rt_ready rt_demo0 0 2" using rt_demo0(2) by (simp add: MAX_TASKS_def)
  then have "class_kept rt_demo0 rt_demo1" "class_kept rt_demo1 rt_demo2"
    using enqueue_task_rt_kept [OF _ _ move_entity_0] rt_demo0(1) rt_demo1(1,2) rt_demo1_ready(1) rt_demo2(1) by blast+
  then show "p_cpu (tasks rt_demo_push x) = 0"
    by (simp add: class_kept_def rt_demo_push_def rt_demo0_def blank_state_def blank_task_def st_simps)
qed (simp_all add: rt_demo_push_def rt_demo2(5) st_simps)

theorem rt_sched_move_task_witness:
  "\<exists>st'. sched_move_task blank_env \<lparr>ce_css_group = (\<lambda>_. 5), ce_autogroup = (\<lambda>_ g. g), ce_fair_change = (\<lambda>_ _ st. st)\<rparr> 3 ((\<lambda>_. 0), rt_demo_push) =
     Some ((\<lambda>_. 0)(3 := 5), st') \<and> rt_linked st' 0 3"
  using rt_sched_move_task [of rt_demo_push 3 blank_env "\<lparr>ce_css_group = (\<lambda>_. 5), ce_autogroup = (\<lambda>_ g. g), ce_fair_change = (\<lambda>_ _ st. st)\<rparr>" "\<lambda>_. 0"]
    rt_demo_push rt_demo_push_cpu by auto

end
