(* ===== verification/Sched_Group_Props.thy ===== *)
theory Sched_Group_Props
  imports Sched_Group "HOL-Library.Multiset"
begin

text \<open>
  Task groups come and go without leaks: whatever allocation fails, \<open>sched_create_group\<close> and \<open>sched_free_group\<close>
  free exactly what was allocated and nothing twice; and over every history of groups the parent
  pointers and children lists stay a consistent tree and the heap is accounted for.
\<close>

section \<open>What is owned\<close>

definition opt_mset :: "'a option \<Rightarrow> 'a multiset" where
  "opt_mset x = (case x of None \<Rightarrow> {#} | Some a \<Rightarrow> {#a#})"

definition cpu_owned :: "rt_group \<Rightarrow> cpu \<Rightarrow> nat multiset" where
  "cpu_owned rg i = opt_mset (rg_rq_at rg i) + opt_mset (rg_se_at rg i)"

definition rt_owned :: "cpu list \<Rightarrow> rt_group \<Rightarrow> nat multiset" where
  "rt_owned is rg = opt_mset (rg_rq rg) + opt_mset (rg_se rg) + (\<Sum>i\<leftarrow>is. cpu_owned rg i)"

text \<open>Entries exist only in arrays that exist.\<close>

definition rg_shape :: "rt_group \<Rightarrow> bool" where
  "rg_shape rg \<longleftrightarrow> (rg_rq rg = None \<longrightarrow> rg_rq_at rg = (\<lambda>_. None)) \<and> (rg_se rg = None \<longrightarrow> rg_se_at rg = (\<lambda>_. None))"

definition live :: "heap \<Rightarrow> nat multiset" where "live h = mset (hp_live h)"

lemma opt_mset_simps [simp]: "opt_mset None = {#}" "opt_mset (Some a) = {#a#}"
  by (simp_all add: opt_mset_def)

lemma no_rt_owned [simp]: "rt_owned is no_rt_group = {#}" "rg_shape no_rt_group"
  by (simp_all add: rt_owned_def cpu_owned_def no_rt_group_def rg_shape_def)

lemma kalloc_cases:
  assumes "kalloc ok h = (r, h')"
  shows "live h' = opt_mset r + live h" "hp_count h' = Suc (hp_count h)" "r \<noteq> None \<Longrightarrow> r = Some (hp_count h)"
  using assms by (auto simp: kalloc_def live_def Let_def split: if_splits)

lemma kfree_owned:
  assumes "opt_mset p \<subseteq># live h"
  shows "\<exists>h'. kfree p h = Some h' \<and> live h' = live h - opt_mset p \<and> hp_count h' = hp_count h"
  using assms by (cases p) (auto simp: kfree_def live_def)

lemma kfree_owned_plus:
  assumes "live h = opt_mset p + m"
  obtains h' where "kfree p h = Some h'" "live h' = m" "hp_count h' = hp_count h"
  using kfree_owned [of p h] assms by auto

lemma cpus_owned_upd:
  assumes "distinct is" "i \<in> set is" "rg_rq_at rg i = None" "rg_se_at rg i = None"
  shows "(\<Sum>j\<leftarrow>is. cpu_owned (rg\<lparr>rg_rq_at := (rg_rq_at rg)(i := Some a), rg_se_at := (rg_se_at rg)(i := Some b)\<rparr>) j) =
    {#a, b#} + (\<Sum>j\<leftarrow>is. cpu_owned rg j)"
proof -
  let ?rg = "rg\<lparr>rg_rq_at := (rg_rq_at rg)(i := Some a), rg_se_at := (rg_se_at rg)(i := Some b)\<rparr>"
  have f: "finite (set is)" by simp
  have "(\<Sum>j\<in>set is - {i}. cpu_owned ?rg j) = (\<Sum>j\<in>set is - {i}. cpu_owned rg j)"
    by (rule sum.cong) (simp_all add: cpu_owned_def)
  moreover have "cpu_owned ?rg i = {#a, b#}" "cpu_owned rg i = {#}" using assms(3,4) by (simp_all add: cpu_owned_def)
  ultimately show ?thesis
    unfolding sum_list_distinct_conv_sum_set [OF assms(1)] sum.remove [OF f assms(2)] by simp
qed

section \<open>Allocation and release of the real-time half\<close>

lemma alloc_rt_loop_owned:
  "distinct is \<Longrightarrow> set js \<subseteq> set is \<Longrightarrow> distinct js \<Longrightarrow> \<forall>i\<in>set js. rg_rq_at rg i = None \<and> rg_se_at rg i = None \<Longrightarrow>
   rg_rq rg \<noteq> None \<Longrightarrow> rg_se rg \<noteq> None \<Longrightarrow> live h = rt_owned is rg + m \<Longrightarrow>
   \<exists>b rg' tg' h'. alloc_rt_loop ok js rg tg h = Some (b, rg', tg', h') \<and> live h' = rt_owned is rg' + m \<and> rg_shape rg' \<and> hp_count h \<le> hp_count h'"
proof (induction js arbitrary: rg tg h)
  case Nil
  then show ?case by (auto simp: rg_shape_def)
next
  case (Cons i js)
  have shape: "rg_shape rg" using Cons.prems(5,6) by (auto simp: rg_shape_def)
  obtain r1 h1 where a1: "kalloc ok h = (r1, h1)" by (cases "kalloc ok h")
  note k1 = kalloc_cases [OF a1]
  show ?case
  proof (cases r1)
    case None
    then show ?thesis using a1 k1(1,2) Cons.prems(7) shape by auto
  next
    case (Some a)
    obtain r2 h2 where a2: "kalloc ok h1 = (r2, h2)" by (cases "kalloc ok h1")
    note k2 = kalloc_cases [OF a2]
    show ?thesis
    proof (cases r2)
      case None
      have "live h2 = opt_mset (Some a) + (rt_owned is rg + m)" using k2(1) k1(1) None Some Cons.prems(7) by simp
      then obtain h3 where "kfree (Some a) h2 = Some h3" "live h3 = rt_owned is rg + m" "hp_count h3 = hp_count h2"
        by (rule kfree_owned_plus)
      then show ?thesis using a1 a2 None Some shape k1(2) k2(2) by auto
    next
      case s2: (Some b)
      let ?rg = "rg\<lparr>rg_rq_at := (rg_rq_at rg)(i := Some a), rg_se_at := (rg_se_at rg)(i := Some b)\<rparr>"
      have "rt_owned is ?rg = {#a, b#} + rt_owned is rg"
        using cpus_owned_upd [OF Cons.prems(1), where i = i and rg = rg and a = a and b = b] Cons.prems(2,4) by (simp add: rt_owned_def)
      then have "live h2 = rt_owned is ?rg + m" using k1(1) k2(1) Some s2 Cons.prems(7) by simp
      then show ?thesis
        using Cons.IH [OF Cons.prems(1), of ?rg h2 "tg\<lparr>tg_rt_rq_runtime := (tg_rt_rq_runtime tg)(i := tg_rt_runtime tg)\<rparr>"]
          Cons.prems a1 a2 Some s2 k1(2) k2(2) by fastforce
    qed
  qed
qed

lemma alloc_rt_owned:
  assumes "distinct (env_possible_mask env)"
  shows "\<exists>b rg tg' h'. alloc_rt_sched_group ok env st tg h = Some (b, rg, tg', h') \<and>
    live h' = rt_owned (env_possible_mask env) rg + live h \<and> rg_shape rg \<and> hp_count h \<le> hp_count h'"
proof -
  let ?is = "env_possible_mask env"
  obtain r1 h1 where a1: "kalloc ok h = (r1, h1)" by (cases "kalloc ok h")
  note k1 = kalloc_cases [OF a1]
  show ?thesis
  proof (cases r1)
    case None
    then show ?thesis using a1 k1(1,2) by (auto simp: alloc_rt_sched_group_def)
  next
    case (Some a)
    obtain r2 h2 where a2: "kalloc ok h1 = (r2, h2)" by (cases "kalloc ok h1")
    note k2 = kalloc_cases [OF a2]
    show ?thesis
    proof (cases r2)
      case None
      then show ?thesis using a1 a2 Some k1(1,2) k2(1,2)
        by (auto simp: alloc_rt_sched_group_def rt_owned_def cpu_owned_def no_rt_group_def rg_shape_def)
    next
      case s2: (Some b)
      let ?rg = "no_rt_group\<lparr>rg_rq := Some a, rg_se := Some b\<rparr>"
      have "live h2 = rt_owned ?is ?rg + live h" using k1(1) k2(1) Some s2
        by (simp add: rt_owned_def cpu_owned_def no_rt_group_def)
      then show ?thesis
        using alloc_rt_loop_owned [OF assms subset_refl assms, of ?rg h2 "live h" ok "tg\<lparr>tg_rt_period := rtb_period (def_rt_b st), tg_rt_runtime := 0\<rparr>"]
          a1 a2 Some s2 k1(2) k2(2) by (fastforce simp: alloc_rt_sched_group_def no_rt_group_def)
    qed
  qed
qed

lemma free_rt_loop_owned:
  "rg_shape rg \<Longrightarrow> live h = (\<Sum>i\<leftarrow>is. cpu_owned rg i) + m \<Longrightarrow>
    \<exists>h'. free_rt_loop is rg h = Some h' \<and> live h' = m \<and> hp_count h' = hp_count h"
proof (induction "is" arbitrary: h)
  case (Cons i js)
  have g: "(if rg_rq rg \<noteq> None then kfree (rg_rq_at rg i) h else Some h) = kfree (rg_rq_at rg i) h"
    "(if rg_se rg \<noteq> None then kfree (rg_se_at rg i) k else Some k) = kfree (rg_se_at rg i) k" for h k
    using Cons.prems(1) by (auto simp: rg_shape_def kfree_def)
  have "live h = opt_mset (rg_rq_at rg i) + (opt_mset (rg_se_at rg i) + ((\<Sum>j\<leftarrow>js. cpu_owned rg j) + m))"
    using Cons.prems(2) by (simp add: cpu_owned_def ac_simps)
  then obtain h1 where h1: "kfree (rg_rq_at rg i) h = Some h1" "live h1 = opt_mset (rg_se_at rg i) + ((\<Sum>j\<leftarrow>js. cpu_owned rg j) + m)"
    "hp_count h1 = hp_count h" by (rule kfree_owned_plus)
  from h1(2) obtain h2 where h2: "kfree (rg_se_at rg i) h1 = Some h2" "live h2 = (\<Sum>j\<leftarrow>js. cpu_owned rg j) + m"
    "hp_count h2 = hp_count h1" by (rule kfree_owned_plus)
  have "free_rt_loop (i # js) rg h = free_rt_loop js rg h2" unfolding free_rt_loop.simps g by (simp only: h1(1) h2(1) bind.bind_lunit)
  then show ?case using Cons.IH [OF Cons.prems(1) h2(2)] h1(3) h2(3) by simp
qed simp

lemma free_rt_owned:
  assumes "rg_shape rg" "live h = rt_owned (env_possible_mask env) rg + m"
  obtains h' where "free_rt_sched_group env rg h = Some h'" "live h' = m" "hp_count h' = hp_count h"
proof -
  have "live h = (\<Sum>i\<leftarrow>env_possible_mask env. cpu_owned rg i) + (opt_mset (rg_rq rg) + (opt_mset (rg_se rg) + m))"
    using assms(2) by (simp add: rt_owned_def ac_simps)
  from free_rt_loop_owned [OF assms(1) this] obtain h1 where
    h1: "free_rt_loop (env_possible_mask env) rg h = Some h1" "live h1 = opt_mset (rg_rq rg) + (opt_mset (rg_se rg) + m)" "hp_count h1 = hp_count h"
    by blast
  from h1(2) obtain h2 where h2: "kfree (rg_rq rg) h1 = Some h2" "live h2 = opt_mset (rg_se rg) + m" "hp_count h2 = hp_count h1" by (rule kfree_owned_plus)
  from h2(2) obtain h3 where "kfree (rg_se rg) h2 = Some h3" "live h3 = m" "hp_count h3 = hp_count h2" by (rule kfree_owned_plus)
  then show thesis using h1 h2 by (intro that [of h3]) (simp_all add: free_rt_sched_group_def)
qed

section \<open>Groups\<close>

text \<open>All that belongs to a group: its record and its real-time half.\<close>

definition group_owned :: "kernel_env \<Rightarrow> 'f groups \<Rightarrow> nat \<Rightarrow> nat multiset" where
  "group_owned env gr g = add_mset g (rt_owned (env_possible_mask env) (gr_rt gr g))"

lemma sched_free_group_owned:
  assumes "rg_shape (gr_rt gr g)" "live (gr_heap gr) = group_owned env gr g + m"
  obtains gr' where "sched_free_group env ops g gr = Some gr'" "live (gr_heap gr') = m" "hp_count (gr_heap gr') = hp_count (gr_heap gr)"
    "gr_tgs gr' = gr_tgs gr" "gr_list gr' = gr_list gr" "gr_children gr' = gr_children gr" "gr_rt gr' = gr_rt gr"
proof -
  have "live (gr_heap gr) = rt_owned (env_possible_mask env) (gr_rt gr g) + (opt_mset (Some g) + m)"
    using assms(2) by (simp add: group_owned_def)
  from free_rt_owned [OF assms(1) this] obtain h1 where h1: "free_rt_sched_group env (gr_rt gr g) (gr_heap gr) = Some h1"
    "live h1 = opt_mset (Some g) + m" "hp_count h1 = hp_count (gr_heap gr)" .
  from h1(2) obtain h2 where "kfree (Some g) h1 = Some h2" "live h2 = m" "hp_count h2 = hp_count h1" by (rule kfree_owned_plus)
  then show thesis using h1(1,3) that by (simp add: sched_free_group_def Let_def)
qed

lemma sched_create_group_owned:
  assumes "distinct (env_possible_mask env)"
  obtains (failed) gr' where "sched_create_group ok env ops st gr = Some (None, gr')" "live (gr_heap gr') = live (gr_heap gr)"
      "hp_count (gr_heap gr) \<le> hp_count (gr_heap gr')" "gr_list gr' = gr_list gr" "gr_children gr' = gr_children gr"
      "\<And>x. x \<noteq> hp_count (gr_heap gr) \<Longrightarrow> gr_tgs gr' x = gr_tgs gr x \<and> gr_rt gr' x = gr_rt gr x"
  | (created) g gr' where "sched_create_group ok env ops st gr = Some (Some g, gr')" "g = hp_count (gr_heap gr)"
      "live (gr_heap gr') = group_owned env gr' g + live (gr_heap gr)" "rg_shape (gr_rt gr' g)" "g < hp_count (gr_heap gr')"
      "gr_list gr' = gr_list gr" "gr_children gr' = gr_children gr"
      "\<And>x. x \<noteq> g \<Longrightarrow> gr_tgs gr' x = gr_tgs gr x \<and> gr_rt gr' x = gr_rt gr x"
proof -
  obtain r h where a: "kalloc ok (gr_heap gr) = (r, h)" by (cases "kalloc ok (gr_heap gr)")
  note k = kalloc_cases [OF a]
  show thesis
  proof (cases r)
    case None
    then show thesis using a k failed [of "gr\<lparr>gr_heap := h\<rparr>"] by (simp add: sched_create_group_def)
  next
    case (Some g)
    then have g: "g = hp_count (gr_heap gr)" using k(3) by simp
    obtain b f where f: "fg_alloc ops g (gr_fair gr) = (b, f)" by (cases "fg_alloc ops g (gr_fair gr)")
    define gr1 where "gr1 = gr\<lparr>gr_heap := h, gr_tgs := (gr_tgs gr)(g := zero_group), gr_rt := (gr_rt gr)(g := no_rt_group), gr_fair := f\<rparr>"
    have gr1: "gr_list gr1 = gr_list gr" "gr_children gr1 = gr_children gr" "gr_rt gr1 g = no_rt_group" "gr_heap gr1 = h"
      "\<And>x. x \<noteq> g \<Longrightarrow> gr_tgs gr1 x = gr_tgs gr x \<and> gr_rt gr1 x = gr_rt gr x" by (simp_all add: gr1_def)
    show thesis
    proof (cases b)
      case False
      have "live (gr_heap gr1) = group_owned env gr1 g + live (gr_heap gr)" using k(1) Some gr1 by (simp add: group_owned_def)
      with gr1(3) obtain gr' where "sched_free_group env ops g gr1 = Some gr'" "live (gr_heap gr') = live (gr_heap gr)"
        "hp_count (gr_heap gr') = hp_count (gr_heap gr1)" "gr_tgs gr' = gr_tgs gr1" "gr_list gr' = gr_list gr1"
        "gr_children gr' = gr_children gr1" "gr_rt gr' = gr_rt gr1"
        by (metis sched_free_group_owned no_rt_owned(2))
      moreover have "sched_create_group ok env ops st gr = map_option (Pair None) (sched_free_group env ops g gr1)"
        using a Some f False by (simp add: sched_create_group_def gr1_def)
      ultimately show thesis using k(2) gr1 g failed [of gr'] by simp
    next
      case True
      obtain c rg tg h2 where rt: "alloc_rt_sched_group ok env st zero_group h = Some (c, rg, tg, h2)"
        "live h2 = rt_owned (env_possible_mask env) rg + live h" "rg_shape rg" "hp_count h \<le> hp_count h2"
        using alloc_rt_owned [OF assms] by blast
      define gr2 where "gr2 = gr1\<lparr>gr_heap := h2, gr_tgs := (gr_tgs gr1)(g := tg), gr_rt := (gr_rt gr1)(g := rg)\<rparr>"
      have gr2: "gr_list gr2 = gr_list gr" "gr_children gr2 = gr_children gr" "rg_shape (gr_rt gr2 g)" "gr_heap gr2 = h2"
        "live (gr_heap gr2) = group_owned env gr2 g + live (gr_heap gr)" "\<And>x. x \<noteq> g \<Longrightarrow> gr_tgs gr2 x = gr_tgs gr x \<and> gr_rt gr2 x = gr_rt gr x"
        using gr1 rt(2,3) k(1) Some by (simp_all add: gr2_def group_owned_def)
      have eq: "sched_create_group ok env ops st gr =
          (if \<not> c then map_option (Pair None) (sched_free_group env ops g gr2) else Some (Some g, gr2))"
        using a Some f True rt(1) by (simp add: sched_create_group_def gr1_def gr2_def)
      show thesis
      proof (cases c)
        case True
        then show thesis using eq rt(4) k(2) gr2 g created [of g gr2] by simp
      next
        case False
        from gr2(3,5) obtain gr' where "sched_free_group env ops g gr2 = Some gr'" "live (gr_heap gr') = live (gr_heap gr)"
          "hp_count (gr_heap gr') = hp_count (gr_heap gr2)" "gr_tgs gr' = gr_tgs gr2" "gr_list gr' = gr_list gr2"
          "gr_children gr' = gr_children gr2" "gr_rt gr' = gr_rt gr2"
          by (rule sched_free_group_owned)
        then show thesis using eq False rt(4) k(2) gr2 g failed [of gr'] by simp
      qed
    qed
  qed
qed

text \<open>
  \<open>sched_create_group\<close> leaks nothing and frees nothing twice, whichever of its allocations fails: when it returns
  an error, exactly the memory that was allocated before is allocated; when it returns a group, \<open>sched_free_group\<close> of
  that group gives back all it allocated.
\<close>

theorem sched_create_group_no_leak:
  assumes "distinct (env_possible_mask env)"
  shows "\<exists>r gr'. sched_create_group ok env ops st gr = Some (r, gr') \<and>
    (case r of None \<Rightarrow> mset (hp_live (gr_heap gr')) = mset (hp_live (gr_heap gr))
     | Some g \<Rightarrow> \<exists>gr2. sched_free_group env ops g gr' = Some gr2 \<and> mset (hp_live (gr_heap gr2)) = mset (hp_live (gr_heap gr)))"
proof (cases rule: sched_create_group_owned [OF assms, of ok ops st gr])
  case (1 gr')
  then show ?thesis by (auto simp: live_def)
next
  case (2 g gr')
  from 2(4,3) obtain gr2 where "sched_free_group env ops g gr' = Some gr2" "live (gr_heap gr2) = live (gr_heap gr)"
    by (rule sched_free_group_owned)
  then show ?thesis using 2(1) by (auto simp: live_def)
qed

definition demo_fair_ops :: "unit fair_group_ops" where
  "demo_fair_ops = \<lparr>fg_alloc = (\<lambda>_ f. (True, f)), fg_free = (\<lambda>_ f. f), fg_online = (\<lambda>_ f. f), fg_unregister = (\<lambda>_ f. f),
     fg_autogroup_free = (\<lambda>_ f. f)\<rparr>"

definition demo_no_groups :: "unit groups" where
  "demo_no_groups = \<lparr>gr_tgs = (\<lambda>_. zero_group), gr_list = [0], gr_children = (\<lambda>_. []), gr_rt = (\<lambda>_. no_rt_group),
     gr_heap = \<lparr>hp_count = 1, hp_live = []\<rparr>, gr_fair = ()\<rparr>"

text \<open>Two CPUs; the sixth allocation, an entity of the second CPU, fails.\<close>

theorem sched_create_group_no_leak_witness:
  "\<exists>gr'. sched_create_group (\<lambda>n. n \<noteq> 7) blank_env demo_fair_ops blank_state demo_no_groups = Some (None, gr') \<and> hp_live (gr_heap gr') = []"
proof -
  have d: "distinct (env_possible_mask blank_env)" by (simp add: blank_env_def)
  have "\<exists>gr'. sched_create_group (\<lambda>n. n \<noteq> 7) blank_env demo_fair_ops blank_state demo_no_groups = Some (None, gr')"
    by (simp add: sched_create_group_def alloc_rt_sched_group_def kalloc_def kfree_def sched_free_group_def free_rt_sched_group_def
        demo_no_groups_def demo_fair_ops_def no_rt_group_def blank_env_def Let_def)
  then show ?thesis using sched_create_group_no_leak [OF d, of "\<lambda>n. n \<noteq> 7" demo_fair_ops blank_state demo_no_groups]
    by (auto simp: demo_no_groups_def)
qed

section \<open>The tree of groups\<close>

text \<open>
  \<open>root\<close> is the group that exists from the start and \<open>base\<close> the memory allocated by others. Lists and
  parent pointers agree, and the heap holds the base and what the listed groups own.
\<close>

definition group_tree_ok :: "nat \<Rightarrow> 'f groups \<Rightarrow> bool" where
  "group_tree_ok root gr \<longleftrightarrow> distinct (gr_list gr) \<and> root \<in> set (gr_list gr) \<and> tg_parent (gr_tgs gr root) = None \<and>
     (\<forall>g\<in>set (gr_list gr). distinct (gr_children gr g) \<and>
        (\<forall>k. k \<in> set (gr_children gr g) \<longleftrightarrow> k \<in> set (gr_list gr) \<and> tg_parent (gr_tgs gr k) = Some g) \<and>
        (g \<noteq> root \<longrightarrow> (\<exists>p\<in>set (gr_list gr). p \<noteq> g \<and> tg_parent (gr_tgs gr g) = Some p)))"

definition group_heap_ok :: "kernel_env \<Rightarrow> nat \<Rightarrow> nat multiset \<Rightarrow> 'f groups \<Rightarrow> bool" where
  "group_heap_ok env root base gr \<longleftrightarrow> (\<forall>g\<in>set (gr_list gr). g < hp_count (gr_heap gr) \<and> (g \<noteq> root \<longrightarrow> rg_shape (gr_rt gr g))) \<and>
     live (gr_heap gr) = base + (\<Sum>g\<in>set (gr_list gr) - {root}. group_owned env gr g)"

inductive group_history :: "kernel_env \<Rightarrow> 'f fair_group_ops \<Rightarrow> nat \<Rightarrow> 'f groups \<Rightarrow> 'f groups \<Rightarrow> bool"
  for env ops root gr0 where
  start: "group_history env ops root gr0 gr0"
| create: "group_history env ops root gr0 gr \<Longrightarrow> p \<in> set (gr_list gr) \<Longrightarrow>
    cpu_cgroup_css_alloc ok env ops st root (Some p) gr = Some (Some g, gr') \<Longrightarrow>
    group_history env ops root gr0 (cpu_cgroup_css_online ops g (Some p) gr')"
| create_fails: "group_history env ops root gr0 gr \<Longrightarrow>
    cpu_cgroup_css_alloc ok env ops st root (Some p) gr = Some (None, gr') \<Longrightarrow> group_history env ops root gr0 gr'"
| remove: "group_history env ops root gr0 gr \<Longrightarrow> g \<in> set (gr_list gr) \<Longrightarrow> g \<noteq> root \<Longrightarrow> gr_children gr g = [] \<Longrightarrow>
    cpu_cgroup_css_free env ops g (cpu_cgroup_css_released ops g gr) = Some gr' \<Longrightarrow> group_history env ops root gr0 gr'"

lemma group_owned_cong: "gr_rt gr' g = gr_rt gr g \<Longrightarrow> group_owned env gr' g = group_owned env gr g"
  by (simp add: group_owned_def)

lemma group_create_ok:
  assumes "distinct (env_possible_mask env)" "group_tree_ok root gr" "group_heap_ok env root base gr" "p \<in> set (gr_list gr)"
    and "cpu_cgroup_css_alloc ok env ops st root (Some p) gr = Some (Some g, gr')"
  shows "group_tree_ok root (cpu_cgroup_css_online ops g (Some p) gr') \<and> group_heap_ok env root base (cpu_cgroup_css_online ops g (Some p) gr')"
proof (cases rule: sched_create_group_owned [OF assms(1), of ok ops st gr])
  case (1 gr2)
  then show ?thesis using assms(5) by (simp add: cpu_cgroup_css_alloc_def)
next
  case (2 g2 gr2)
  then have [simp]: "g2 = g" "gr2 = gr'" using assms(5) by (simp_all add: cpu_cgroup_css_alloc_def)
  define gr3 where "gr3 = cpu_cgroup_css_online ops g (Some p) gr'"
  have g: "g \<notin> set (gr_list gr)" using assms(3) 2(2) by (auto simp: group_heap_ok_def)
  then have pg: "p \<noteq> g" using assms(4) by blast
  have gr: "gr_list gr3 = g # gr_list gr" "gr_heap gr3 = gr_heap gr'" "gr_rt gr3 = gr_rt gr'"
    "gr_children gr3 = ((gr_children gr)(g := []))(p := g # gr_children gr p)"
    "gr_tgs gr3 = (gr_tgs gr')(g := (gr_tgs gr' g)\<lparr>tg_parent := Some p\<rparr>)"
    using 2(6,7) pg by (simp_all add: gr3_def cpu_cgroup_css_online_def sched_online_group_def)
  have par: "tg_parent (gr_tgs gr3 x) = (if x = g then Some p else tg_parent (gr_tgs gr x))" for x
    using gr(5) 2(8) [of x] by simp
  have "group_tree_ok root gr3"
    using assms(2,4) g pg unfolding group_tree_ok_def gr(1,4) par by (auto simp: distinct_length_2_or_more)
  moreover have "group_heap_ok env root base gr3"
  proof -
    have "root \<noteq> g" using assms(2) g by (auto simp: group_tree_ok_def)
    then have "set (gr_list gr3) - {root} = insert g (set (gr_list gr) - {root})" using gr(1) by auto
    moreover have "group_owned env gr3 x = group_owned env gr x" if "x \<in> set (gr_list gr) - {root}" for x
      using that g 2(8) [of x] gr(3) by (intro group_owned_cong) auto
    then have "(\<Sum>x\<in>set (gr_list gr) - {root}. group_owned env gr3 x) = (\<Sum>x\<in>set (gr_list gr) - {root}. group_owned env gr x)"
      by (rule sum.cong [OF refl])
    moreover have "group_owned env gr3 g = group_owned env gr' g" using gr(3) by (intro group_owned_cong) simp
    ultimately have "live (gr_heap gr3) = base + (\<Sum>x\<in>set (gr_list gr3) - {root}. group_owned env gr3 x)"
      using assms(3) 2(3) g gr(2) by (simp add: group_heap_ok_def)
    moreover have "x < hp_count (gr_heap gr3) \<and> (x \<noteq> root \<longrightarrow> rg_shape (gr_rt gr3 x))" if "x \<in> set (gr_list gr3)" for x
      using that assms(3) 2(2,4,5) 2(8) [of x] gr(1,2,3) by (cases "x = g") (auto simp: group_heap_ok_def)
    ultimately show ?thesis by (simp add: group_heap_ok_def)
  qed
  ultimately show ?thesis by (simp add: gr3_def)
qed

lemma group_create_fails_ok:
  assumes "distinct (env_possible_mask env)" "group_tree_ok root gr" "group_heap_ok env root base gr"
    and "cpu_cgroup_css_alloc ok env ops st root (Some p) gr = Some (None, gr')"
  shows "group_tree_ok root gr' \<and> group_heap_ok env root base gr'"
proof (cases rule: sched_create_group_owned [OF assms(1), of ok ops st gr])
  case (1 gr2)
  then have [simp]: "gr2 = gr'" using assms(4) by (simp add: cpu_cgroup_css_alloc_def)
  have same: "gr_tgs gr' x = gr_tgs gr x \<and> gr_rt gr' x = gr_rt gr x" if "x \<in> set (gr_list gr)" for x
    using that assms(3) 1(6) [of x] by (auto simp: group_heap_ok_def)
  have "group_tree_ok root gr'"
    using assms(2) same unfolding group_tree_ok_def by (auto simp: 1(4,5) [simplified])
  moreover have "(\<Sum>x\<in>set (gr_list gr) - {root}. group_owned env gr' x) = (\<Sum>x\<in>set (gr_list gr) - {root}. group_owned env gr x)"
    using same by (intro sum.cong refl group_owned_cong) simp
  then have "group_heap_ok env root base gr'"
    using assms(3) same 1(2,3,4) by (auto simp: group_heap_ok_def)
  ultimately show ?thesis by blast
next
  case (2 g gr2)
  then show ?thesis using assms(4) by (simp add: cpu_cgroup_css_alloc_def)
qed

text \<open>Releasing and freeing a group without children never faults.\<close>

lemma group_remove_ok:
  assumes "group_tree_ok root gr" "group_heap_ok env root base gr" "g \<in> set (gr_list gr)" "g \<noteq> root" "gr_children gr g = []"
  obtains gr' where "cpu_cgroup_css_free env ops g (cpu_cgroup_css_released ops g gr) = Some gr'"
    "group_tree_ok root gr'" "group_heap_ok env root base gr'"
proof -
  obtain p where p: "p \<in> set (gr_list gr)" "p \<noteq> g" "tg_parent (gr_tgs gr g) = Some p"
    using assms(1,3,4) by (auto simp: group_tree_ok_def)
  define gr1 where "gr1 = cpu_cgroup_css_released ops g gr"
  have gr1: "gr_list gr1 = remove1 g (gr_list gr)" "gr_heap gr1 = gr_heap gr" "gr_rt gr1 = gr_rt gr" "gr_tgs gr1 = gr_tgs gr"
    "gr_children gr1 = (gr_children gr)(p := remove1 g (gr_children gr p))"
    using p(3) by (simp_all add: gr1_def cpu_cgroup_css_released_def sched_offline_group_def)
  let ?L = "set (gr_list gr) - {root}"
  have fin: "finite ?L" "g \<in> ?L" using assms(3,4) by auto
  have "live (gr_heap gr1) = group_owned env gr1 g + (base + (\<Sum>x\<in>?L - {g}. group_owned env gr x))"
    using assms(2) gr1(2,3) sum.remove [OF fin, of "group_owned env gr"] group_owned_cong [of gr1 g gr env]
    by (simp add: group_heap_ok_def ac_simps)
  moreover have "rg_shape (gr_rt gr1 g)" using assms(2,3,4) gr1(3) by (simp add: group_heap_ok_def)
  ultimately obtain gr' where gr': "sched_free_group env ops g gr1 = Some gr'"
    "live (gr_heap gr') = base + (\<Sum>x\<in>?L - {g}. group_owned env gr x)" "hp_count (gr_heap gr') = hp_count (gr_heap gr1)"
    "gr_tgs gr' = gr_tgs gr1" "gr_list gr' = gr_list gr1" "gr_children gr' = gr_children gr1" "gr_rt gr' = gr_rt gr1"
    using sched_free_group_owned [of gr1 g env _ ops] by metis
  have d: "distinct (gr_list gr)" using assms(1) by (simp add: group_tree_ok_def)
  have L': "set (gr_list gr') = set (gr_list gr) - {g}" "distinct (gr_list gr')" using gr1(1) gr'(5) d by simp_all
  have "group_tree_ok root gr'"
    unfolding group_tree_ok_def
  proof (intro conjI ballI allI impI)
    fix x assume x: "x \<in> set (gr_list gr')"
    then have dx: "distinct (gr_children gr x)" and kx: "\<And>k. k \<in> set (gr_children gr x) \<longleftrightarrow> k \<in> set (gr_list gr) \<and> tg_parent (gr_tgs gr k) = Some x"
      using assms(1) L'(1) by (simp_all add: group_tree_ok_def)
    show "distinct (gr_children gr' x)" using dx gr'(6) gr1(5) by auto
    have par: "gr_tgs gr' = gr_tgs gr" using gr'(4) gr1(4) by (rule trans)
    show "k \<in> set (gr_children gr' x) \<longleftrightarrow> k \<in> set (gr_list gr') \<and> tg_parent (gr_tgs gr' k) = Some x" for k
    proof (cases "x = p")
      case True
      then have "set (gr_children gr' x) = set (gr_children gr x) - {g}" using dx gr'(6) gr1(5) by simp
      then show ?thesis unfolding par L'(1) using kx [of k] by blast
    next
      case False
      then have "gr_children gr' x = gr_children gr x" using gr'(6) gr1(5) by simp
      moreover have "k \<noteq> g" if "tg_parent (gr_tgs gr k) = Some x" using that p(3) False by auto
      ultimately show ?thesis unfolding par L'(1) using kx [of k] by auto
    qed
    assume "x \<noteq> root"
    then obtain q where q: "q \<in> set (gr_list gr)" "q \<noteq> x" "tg_parent (gr_tgs gr x) = Some q" using assms(1) x L'(1) by (auto simp: group_tree_ok_def)
    have "q \<noteq> g"
    proof
      assume "q = g"
      then have "x \<in> set (gr_children gr g)" using assms(1,3) q(3) x L'(1) by (simp add: group_tree_ok_def)
      then show False using assms(5) by simp
    qed
    then show "\<exists>p\<in>set (gr_list gr'). p \<noteq> x \<and> tg_parent (gr_tgs gr' x) = Some p" using q L'(1) gr'(4) gr1(4) by auto
  qed (use assms(1,4) L' gr'(4) gr1(4) in \<open>simp_all add: group_tree_ok_def\<close>)
  moreover have "group_heap_ok env root base gr'"
  proof -
    have "set (gr_list gr') - {root} = ?L - {g}" using L'(1) by auto
    moreover have "(\<Sum>x\<in>?L - {g}. group_owned env gr' x) = (\<Sum>x\<in>?L - {g}. group_owned env gr x)"
      using gr'(7) gr1(3) by (intro sum.cong refl group_owned_cong) simp
    ultimately show ?thesis using assms(2) gr'(2,3,7) gr1(2,3) L'(1) by (simp add: group_heap_ok_def)
  qed
  ultimately show thesis using gr'(1) that [of gr'] by (simp add: cpu_cgroup_css_free_def gr1_def)
qed

lemma group_history_ok:
  assumes "group_history env ops root gr0 gr" "distinct (env_possible_mask env)" "group_tree_ok root gr0" "group_heap_ok env root base gr0"
  shows "group_tree_ok root gr \<and> group_heap_ok env root base gr"
  using assms(1)
proof (induction rule: group_history.induct)
  case (create gr p ok st g gr')
  then show ?case using group_create_ok [OF assms(2)] by blast
next
  case (create_fails gr ok st p gr')
  then show ?case using group_create_fails_ok [OF assms(2)] by blast
next
  case (remove gr g gr')
  then show ?case using group_remove_ok [of root gr env base g ops] by (metis option.inject)
qed (use assms(3,4) in simp)

text \<open>
  C18: Over every history of groups created (or failed to be created) under listed groups and removed when they have no
  children, the parent pointers and children lists stay a tree that holds each listed group once; the heap holds exactly
  what was there before and what the listed groups own; and removing any childless group
  succeeds, without freeing anything twice.
\<close>

theorem group_history_invariant:
  assumes "group_history env ops root gr0 gr" "distinct (env_possible_mask env)" "group_tree_ok root gr0" "group_heap_ok env root base gr0"
  shows "group_tree_ok root gr \<and> group_heap_ok env root base gr \<and>
    (\<forall>g\<in>set (gr_list gr). g \<noteq> root \<and> gr_children gr g = [] \<longrightarrow>
       cpu_cgroup_css_free env ops g (cpu_cgroup_css_released ops g gr) \<noteq> None)"
  using group_history_ok [OF assms] group_remove_ok [of root gr env base _ ops] by blast

theorem group_history_invariant_witness:
  "\<exists>g gr. cpu_cgroup_css_alloc (\<lambda>_. True) blank_env demo_fair_ops blank_state 0 (Some 0) demo_no_groups = Some (Some g, gr) \<and>
     group_tree_ok 0 (cpu_cgroup_css_online demo_fair_ops g (Some 0) gr) \<and> g \<in> set (gr_children (cpu_cgroup_css_online demo_fair_ops g (Some 0) gr) 0)"
proof -
  obtain g gr where c: "cpu_cgroup_css_alloc (\<lambda>_. True) blank_env demo_fair_ops blank_state 0 (Some 0) demo_no_groups = Some (Some g, gr)"
    by (simp add: cpu_cgroup_css_alloc_def sched_create_group_def alloc_rt_sched_group_def kalloc_def
        demo_no_groups_def demo_fair_ops_def no_rt_group_def blank_env_def Let_def)
  have "group_history blank_env demo_fair_ops 0 demo_no_groups (cpu_cgroup_css_online demo_fair_ops g (Some 0) gr)"
    by (rule group_history.create [OF group_history.start _ c]) (simp add: demo_no_groups_def)
  from group_history_invariant [OF this, of "{#}"] show ?thesis
    using c by (auto simp: blank_env_def group_tree_ok_def group_heap_ok_def demo_no_groups_def zero_group_def live_def
        cpu_cgroup_css_online_def sched_online_group_def)
qed

end
