(* ===== verification/Sched_Remote_Tick.thy ===== *)
theory Sched_Remote_Tick
  imports Sched_Policy
begin

text \<open>
  The remote tick of \<open>core.c\<close> (\<open>NO_HZ_FULL\<close>): a housekeeping CPU runs the tick of a CPU whose own tick is stopped, as
  delayed work that queues itself again. \<open>sched_tick_start\<close> and \<open>sched_tick_stop\<close> are called when the CPU comes up and
  goes down, \<open>sched_tick_remote\<close> is the work; the three race on \<open>twork->state\<close>. The work is split where the race is:
  what it does to the run queue, and the exchange on the state with the requeueing. \<open>queue_delayed_work\<close> on pending work does
  nothing; initialising a work item that is pending or running corrupts the work queue (\<open>None\<close>). A
  \<open>WARN_ON_ONCE\<close> on the state that fires is recorded; the one about a late tick is only a message.
\<close>

section \<open>The work item\<close>

definition TICK_SCHED_REMOTE_OFFLINE :: int where "TICK_SCHED_REMOTE_OFFLINE = 0"
definition TICK_SCHED_REMOTE_OFFLINING :: int where "TICK_SCHED_REMOTE_OFFLINING = 1"
definition TICK_SCHED_REMOTE_RUNNING :: int where "TICK_SCHED_REMOTE_RUNNING = 2"

lemmas tick_states = TICK_SCHED_REMOTE_OFFLINE_def TICK_SCHED_REMOTE_OFFLINING_def TICK_SCHED_REMOTE_RUNNING_def

record tick_work =
  tw_cpu :: cpu
  tw_state :: int
  tw_pending :: bool
  tw_running :: bool
  tw_warned :: bool

definition warn_on :: "bool \<Rightarrow> tick_work \<Rightarrow> tick_work" where
  "warn_on b tw = (if b then tw\<lparr>tw_warned := True\<rparr> else tw)"

definition INIT_DELAYED_WORK :: "tick_work \<Rightarrow> tick_work option" where
  "INIT_DELAYED_WORK tw = (if tw_pending tw \<or> tw_running tw then None else Some tw)"

definition queue_delayed_work :: "tick_work \<Rightarrow> tick_work" where
  "queue_delayed_work tw = tw\<lparr>tw_pending := True\<rparr>"

section \<open>The operations\<close>

definition sched_tick_start :: "(cpu \<Rightarrow> bool) \<Rightarrow> cpu \<Rightarrow> tick_work \<Rightarrow> tick_work option" where
  "sched_tick_start housekeeping c tw =
    (if housekeeping c then Some tw
     else
       let os = tw_state tw;
           tw = warn_on (os = TICK_SCHED_REMOTE_RUNNING) (tw\<lparr>tw_state := TICK_SCHED_REMOTE_RUNNING\<rparr>)
       in if os = TICK_SCHED_REMOTE_OFFLINE
          then do { tw \<leftarrow> INIT_DELAYED_WORK (tw\<lparr>tw_cpu := c\<rparr>); Some (queue_delayed_work tw) }
          else Some tw)"

definition sched_tick_stop :: "(cpu \<Rightarrow> bool) \<Rightarrow> cpu \<Rightarrow> tick_work \<Rightarrow> tick_work" where
  "sched_tick_stop housekeeping c tw =
    (if housekeeping c then tw
     else warn_on (tw_state tw \<noteq> TICK_SCHED_REMOTE_RUNNING) (tw\<lparr>tw_state := TICK_SCHED_REMOTE_OFFLINING\<rparr>))"

text \<open>The tick itself; \<open>stopped\<close> is \<open>tick_nohz_tick_stopped_cpu\<close>.\<close>

definition remote_tick :: "kernel_env \<Rightarrow> (cpu \<Rightarrow> bool) \<Rightarrow> cpu \<Rightarrow> sched_state \<Rightarrow> sched_state option" where
  "remote_tick env stopped c st =
    (if idle_cpu st c \<or> \<not> stopped c then Some st
     else
       let p = curr_of st c in
       if is_idle_task (tasks st p) \<or> c \<notin> set (cpu_online_mask st) then Some st
       else let st = update_rq_clock c st in class_tick env (p_class (tasks st p)) c p st)"

definition atomic_fetch_add_unless :: "int \<Rightarrow> int \<Rightarrow> int \<Rightarrow> int" where
  "atomic_fetch_add_unless v a u = (if v \<noteq> u then v + a else v)"

definition remote_requeue :: "tick_work \<Rightarrow> tick_work" where
  "remote_requeue tw =
    (let os = tw_state tw;
         tw = tw\<lparr>tw_state := atomic_fetch_add_unless os (- 1) TICK_SCHED_REMOTE_RUNNING\<rparr>;
         tw = warn_on (os = TICK_SCHED_REMOTE_OFFLINE) tw
     in if os = TICK_SCHED_REMOTE_RUNNING then queue_delayed_work tw else tw)"

definition sched_tick_remote :: "kernel_env \<Rightarrow> (cpu \<Rightarrow> bool) \<Rightarrow> tick_work \<Rightarrow> sched_state \<Rightarrow> (tick_work \<times> sched_state) option" where
  "sched_tick_remote env stopped tw st = do {
     st \<leftarrow> remote_tick env stopped (tw_cpu tw) st;
     Some (remote_requeue tw, st)
   }"

lemmas tick_ops = sched_tick_start_def sched_tick_stop_def remote_requeue_def atomic_fetch_add_unless_def warn_on_def
  INIT_DELAYED_WORK_def queue_delayed_work_def

section \<open>Hotplug against the work queue\<close>

text \<open>
  What can happen to a CPU that is not a housekeeping one: it comes up, it goes down, the work queue starts the pending work, the work
  finishes its tick and reaches the exchange. \<open>None\<close> is the corrupted work queue. The work queue never runs an item
  twice at the same time.
\<close>

inductive tick_step :: "cpu \<Rightarrow> bool \<times> tick_work option \<Rightarrow> bool \<times> tick_work option \<Rightarrow> bool" for c where
  Up: "tick_step c (False, Some tw) (True, sched_tick_start (\<lambda>_. False) c tw)"
| Down: "tick_step c (True, Some tw) (False, Some (sched_tick_stop (\<lambda>_. False) c tw))"
| Begin: "tw_pending tw \<Longrightarrow> \<not> tw_running tw \<Longrightarrow>
    tick_step c (up, Some tw) (up, Some (tw\<lparr>tw_pending := False, tw_running := True\<rparr>))"
| Finish: "tw_running tw \<Longrightarrow> tick_step c (up, Some tw) (up, Some ((remote_requeue tw)\<lparr>tw_running := False\<rparr>))"

inductive_cases tick_stepE: "tick_step c s s'"

definition tick_init :: "tick_work \<Rightarrow> bool" where
  "tick_init tw \<longleftrightarrow> tw_state tw = TICK_SCHED_REMOTE_OFFLINE \<and> \<not> tw_pending tw \<and> \<not> tw_running tw \<and> \<not> tw_warned tw"

text \<open>The work is pending or running, and not both, exactly while the state is not offline.\<close>

definition tick_ok :: "bool \<times> tick_work option \<Rightarrow> bool" where
  "tick_ok s \<longleftrightarrow> (case s of (up, None) \<Rightarrow> False
     | (up, Some tw) \<Rightarrow> \<not> tw_warned tw \<and> (up \<longleftrightarrow> tw_state tw = TICK_SCHED_REMOTE_RUNNING) \<and>
         tw_state tw \<in> {TICK_SCHED_REMOTE_OFFLINE, TICK_SCHED_REMOTE_OFFLINING, TICK_SCHED_REMOTE_RUNNING} \<and>
         (tw_pending tw \<noteq> tw_running tw \<longleftrightarrow> tw_state tw \<noteq> TICK_SCHED_REMOTE_OFFLINE) \<and> \<not> (tw_pending tw \<and> tw_running tw))"

lemma tick_step_ok: "tick_step c s s' \<Longrightarrow> tick_ok s \<Longrightarrow> tick_ok s'"
  by (induction rule: tick_step.induct) (auto simp: tick_ok_def tick_ops tick_states Let_def split: if_splits)

interpretation tick: step_invariant "tick_step c" tick_ok for c
  by unfold_locales (rule tick_step_ok)

text \<open>
  C17: However CPU hotplug races with the remote tick, in every reachable state of a CPU that starts down: no warning has fired, the work item was never
  initialised while in use; while the CPU is up exactly one tick is pending or running, so its remote tick is never lost and never
  doubled; and once the CPU is down, the next time the work ends nothing is left pending.
\<close>

theorem remote_tick_never_lost:
  assumes "tick_init tw0" "(tick_step c)\<^sup>*\<^sup>* (False, Some tw0) (up, r)"
  shows "\<exists>tw. r = Some tw \<and> \<not> tw_warned tw \<and> (up \<longrightarrow> tw_pending tw \<noteq> tw_running tw) \<and>
    (\<not> up \<and> tw_running tw \<longrightarrow> tw_state (remote_requeue tw) = TICK_SCHED_REMOTE_OFFLINE \<and> \<not> tw_pending (remote_requeue tw)) \<and>
    (\<not> up \<and> \<not> tw_running tw \<and> \<not> tw_pending tw \<longrightarrow> tw_state tw = TICK_SCHED_REMOTE_OFFLINE)"
proof -
  have "tick_ok (False, Some tw0)" using assms(1) by (auto simp: tick_init_def tick_ok_def tick_states)
  then have "tick_ok (up, r)" using tick.reach_inv [OF assms(2)] by blast
  then obtain tw where "r = Some tw" "tick_ok (up, Some tw)" by (cases r) (auto simp: tick_ok_def)
  then show ?thesis by (auto simp: tick_ok_def tick_ops tick_states Let_def)
qed

text \<open>Up, tick begun, down and up again while it runs, tick finished: one work item is pending.\<close>

theorem remote_tick_never_lost_witness:
  "\<exists>tw. tw_pending tw \<and> \<not> tw_running tw \<and> \<not> tw_warned tw \<and>
     (tick_step 1)\<^sup>*\<^sup>* (False, Some \<lparr>tw_cpu = 0, tw_state = TICK_SCHED_REMOTE_OFFLINE, tw_pending = False, tw_running = False, tw_warned = False\<rparr>)
       (True, Some tw)"
proof -
  let ?tw = "\<lambda>c s p r. \<lparr>tw_cpu = c, tw_state = s, tw_pending = p, tw_running = r, tw_warned = False\<rparr>"
  let ?off = TICK_SCHED_REMOTE_OFFLINE and ?run = TICK_SCHED_REMOTE_RUNNING and ?down = TICK_SCHED_REMOTE_OFFLINING
  have s1: "tick_step 1 (False, Some (?tw 0 ?off False False)) (True, Some (?tw 1 ?run True False))"
    using tick_step.Up [of 1 "?tw 0 ?off False False"] by (simp add: tick_ops tick_states)
  have s2: "tick_step 1 (True, Some (?tw 1 ?run True False)) (True, Some (?tw 1 ?run False True))"
    using tick_step.Begin [of "?tw 1 ?run True False" 1 True] by simp
  have s3: "tick_step 1 (True, Some (?tw 1 ?run False True)) (False, Some (?tw 1 ?down False True))"
    using tick_step.Down [of 1 "?tw 1 ?run False True"] by (simp add: tick_ops tick_states)
  have s4: "tick_step 1 (False, Some (?tw 1 ?down False True)) (True, Some (?tw 1 ?run False True))"
    using tick_step.Up [of 1 "?tw 1 ?down False True"] by (simp add: tick_ops tick_states)
  have s5: "tick_step 1 (True, Some (?tw 1 ?run False True)) (True, Some (?tw 1 ?run True False))"
    using tick_step.Finish [of "?tw 1 ?run False True" 1 True] by (simp add: tick_ops tick_states)
  have r: "(tick_step 1)\<^sup>*\<^sup>* (False, Some (?tw 0 ?off False False)) (True, Some (?tw 1 ?run True False))"
    by (rule converse_rtranclp_into_rtranclp [where r = "tick_step 1", OF s1], rule converse_rtranclp_into_rtranclp [where r = "tick_step 1", OF s2],
        rule converse_rtranclp_into_rtranclp [where r = "tick_step 1", OF s3], rule converse_rtranclp_into_rtranclp [where r = "tick_step 1", OF s4], rule r_into_rtranclp [where r = "tick_step 1", OF s5])
  have i: "tick_init (?tw 0 ?off False False)" by (simp add: tick_init_def)
  show ?thesis using remote_tick_never_lost [OF i r] r by fastforce
qed

end
