(* ===== verification/Sched_Calls.thy ===== *)
theory Sched_Calls
  imports Sched_Policy
begin

text \<open>
  The entry points of \<open>core.c\<close> the rest of the kernel calls: wake queues, the loops around \<open>__schedule\<close>, yielding to a task,
  sleeping on I/O, the statistics, the run time of a task, balancing on \<open>execve\<close>, the attribute and affinity system
  calls, and \<open>normalize_rt_tasks\<close>. What belongs to other parts of the kernel (block-layer plugs, the fair class's
  \<open>yield_to_task\<close>, cpusets, user memory) is a parameter.
\<close>

section \<open>Wake queues\<close>

text \<open>
  The node \<open>task->wake_q\<close> and the head of a queue, as pointers: \<open>WNode p\<close> is the address of the node
  of task \<open>p\<close>. \<open>wq_lastp\<close> is \<open>None\<close> for \<open>&head->first\<close> and \<open>Some p\<close> for the address of the \<open>next\<close> field of \<open>p\<close>. The nodes
  and the reference counts of all tasks are shared by all queues.
\<close>

datatype wake_q_node = WNull | WAKE_Q_TAIL | WNode tid

record wake_q_head =
  wq_first :: wake_q_node
  wq_lastp :: "tid option"

record wake_nodes =
  wn_next :: "tid \<Rightarrow> wake_q_node"
  wn_usage :: "tid \<Rightarrow> int"

definition get_task_struct :: "tid \<Rightarrow> wake_nodes \<Rightarrow> wake_nodes" where
  "get_task_struct p wn = wn\<lparr>wn_usage := (wn_usage wn)(p := wn_usage wn p + 1)\<rparr>"

definition put_task_struct :: "tid \<Rightarrow> wake_nodes \<Rightarrow> wake_nodes" where
  "put_task_struct p wn = wn\<lparr>wn_usage := (wn_usage wn)(p := wn_usage wn p - 1)\<rparr>"

definition set_next :: "tid \<Rightarrow> wake_q_node \<Rightarrow> wake_nodes \<Rightarrow> wake_nodes" where
  "set_next p n wn = wn\<lparr>wn_next := (wn_next wn)(p := n)\<rparr>"

definition wake_q_add :: "tid \<Rightarrow> wake_q_head \<times> wake_nodes \<Rightarrow> wake_q_head \<times> wake_nodes" where
  "wake_q_add task hw =
    (case hw of (head, wn) \<Rightarrow>
      if wn_next wn task \<noteq> WNull then (head, wn)
      else
        let wn = get_task_struct task (set_next task WAKE_Q_TAIL wn)
        in case wq_lastp head of
             None \<Rightarrow> (head\<lparr>wq_first := WNode task, wq_lastp := Some task\<rparr>, wn)
           | Some l \<Rightarrow> (head\<lparr>wq_lastp := Some task\<rparr>, set_next l (WNode task) wn))"

text \<open>The loop of \<open>wake_up_q\<close>; a null node is its \<open>BUG_ON\<close>.\<close>

partial_function (option) wake_loop :: "kernel_env \<Rightarrow> wake_q_node \<Rightarrow> wake_nodes \<Rightarrow> sched_state \<Rightarrow> (wake_nodes \<times> sched_state) option" where
  "wake_loop env node wn st =
    (case node of WAKE_Q_TAIL \<Rightarrow> Some (wn, st) | WNull \<Rightarrow> None
     | WNode task \<Rightarrow>
         Option.bind (wake_up_process env task st) (\<lambda>r.
           wake_loop env (wn_next wn task) (put_task_struct task (set_next task WNull wn)) (snd r)))"

definition wake_up_q :: "kernel_env \<Rightarrow> wake_q_head \<Rightarrow> wake_nodes \<Rightarrow> sched_state \<Rightarrow> (wake_nodes \<times> sched_state) option" where
  "wake_up_q env head wn st = wake_loop env (wq_first head) wn st"

definition default_wake_function :: "kernel_env \<Rightarrow> tid \<Rightarrow> u64 \<Rightarrow> u32 \<Rightarrow> sched_state \<Rightarrow> (bool \<times> sched_state) option" where
  "default_wake_function env p mode wake_flags st = try_to_wake_up env p mode wake_flags st"

section \<open>The loops around \<open>__schedule\<close>\<close>

text \<open>
  A CPU that leaves \<open>__schedule\<close> is in one of these loops, whichever task it left it with, and
  tests the \<open>need_resched\<close> of that task.
\<close>

partial_function (option) schedule_loop :: "kernel_env \<Rightarrow> bool \<Rightarrow> sched_state \<Rightarrow> sched_state option" where
  "schedule_loop env preempt st =
    Option.bind (schedule_raw env preempt st) (\<lambda>st.
      if p_need_resched (tasks st (current st)) then schedule_loop env preempt st else Some st)"

text \<open>\<open>flush\<close> submits the I/O plugged by a task that goes to sleep.\<close>

definition sched_submit_work :: "(tid \<Rightarrow> sched_state \<Rightarrow> sched_state) \<Rightarrow> (tid \<Rightarrow> bool) \<Rightarrow> tid \<Rightarrow> sched_state \<Rightarrow> sched_state" where
  "sched_submit_work flush pi_blocked p st = (if p_state (tasks st p) = 0 \<or> pi_blocked p then st else flush p st)"

definition schedule :: "kernel_env \<Rightarrow> (tid \<Rightarrow> sched_state \<Rightarrow> sched_state) \<Rightarrow> (tid \<Rightarrow> bool) \<Rightarrow> sched_state \<Rightarrow> sched_state option" where
  "schedule env flush pi_blocked st = schedule_loop env False (sched_submit_work flush pi_blocked (current st) st)"

definition schedule_idle :: "kernel_env \<Rightarrow> sched_state \<Rightarrow> sched_state option" where
  "schedule_idle env st = schedule_loop env False st"

definition preempt_schedule_common :: "kernel_env \<Rightarrow> sched_state \<Rightarrow> sched_state option" where
  "preempt_schedule_common env st = schedule_loop env True st"

definition preempt_schedule :: "kernel_env \<Rightarrow> bool \<Rightarrow> sched_state \<Rightarrow> sched_state option" where
  "preempt_schedule env preemptible st = (if \<not> preemptible then Some st else preempt_schedule_common env st)"

definition preempt_schedule_irq :: "kernel_env \<Rightarrow> u32 \<Rightarrow> bool \<Rightarrow> sched_state \<Rightarrow> sched_state option" where
  "preempt_schedule_irq env preempt_count irqs_disabled st =
    (if preempt_count \<noteq> 0 \<or> \<not> irqs_disabled then None else schedule_loop env True st)"

text \<open>\<open>should_resched(0)\<close>: preemption is enabled and the folded flag is set.\<close>

definition cond_resched :: "kernel_env \<Rightarrow> u32 \<Rightarrow> sched_state \<Rightarrow> (int \<times> sched_state) option" where
  "cond_resched env preempt_count st =
    (if preempt_count = 0 \<and> rq_preempt_resched (rqs st (this_cpu st))
     then map_option (Pair 1) (preempt_schedule_common env st) else Some (0, st))"

section \<open>What the wake queue does\<close>

text \<open>
  The specification: a queue is the list of the tasks it will wake. \<open>wq_head\<close> and \<open>wq_nodes\<close> are the pointers that
  represent a list over given nodes.
\<close>

definition wq_head :: "tid list \<Rightarrow> wake_q_head" where
  "wq_head q = \<lparr>wq_first = (case q of [] \<Rightarrow> WAKE_Q_TAIL | p # _ \<Rightarrow> WNode p), wq_lastp = (if q = [] then None else Some (last q))\<rparr>"

fun wq_nodes :: "tid list \<Rightarrow> wake_nodes \<Rightarrow> wake_nodes" where
  "wq_nodes [] wn = wn"
| "wq_nodes (p # q) wn = get_task_struct p (set_next p (wq_first (wq_head q)) (wq_nodes q wn))"

fun wake_all :: "kernel_env \<Rightarrow> tid list \<Rightarrow> sched_state \<Rightarrow> sched_state option" where
  "wake_all env [] st = Some st"
| "wake_all env (p # q) st = Option.bind (wake_up_process env p st) (\<lambda>r. wake_all env q (snd r))"

lemmas wake_node_defs = get_task_struct_def put_task_struct_def set_next_def

lemma wq_first_append: "q \<noteq> [] \<Longrightarrow> wq_first (wq_head (q @ r)) = wq_first (wq_head q)"
  by (cases q) (simp_all add: wq_head_def)

lemma wq_next: "wn_next (wq_nodes q wn) p = WNull \<longleftrightarrow> p \<notin> set q \<and> wn_next wn p = WNull"
  by (induction q) (auto simp: wake_node_defs wq_head_def split: list.splits)

lemma wq_nodes_snoc:
  assumes "distinct q" "p \<notin> set q"
  shows "wq_nodes (q @ [p]) wn =
    (let wn' = get_task_struct p (set_next p WAKE_Q_TAIL (wq_nodes q wn)) in if q = [] then wn' else set_next (last q) (WNode p) wn')"
  using assms
proof (induction q)
  case (Cons x q)
  show ?case
  proof (cases "q = []")
    case False
    have "last q \<in> set q" using False by simp
    then have "last q \<noteq> x" "last q \<noteq> p" using Cons.prems by auto
    then show ?thesis using Cons False wq_first_append [OF False, of "[p]"]
      by (auto simp: wake_node_defs Let_def fun_upd_twist fun_eq_iff)
  qed (use Cons.prems in \<open>auto simp: wake_node_defs wq_head_def fun_eq_iff\<close>)
qed (simp add: wq_head_def)

lemma wake_q_add_spec:
  assumes "distinct q"
  shows "wake_q_add p (wq_head q, wq_nodes q wn) =
    (let q' = (if wn_next wn p = WNull \<and> p \<notin> set q then q @ [p] else q) in (wq_head q', wq_nodes q' wn))"
proof (cases "wn_next wn p = WNull \<and> p \<notin> set q")
  case True
  show ?thesis
  proof (cases q)
    case Nil
    then show ?thesis using True by (simp add: wake_q_add_def wq_next wq_head_def)
  next
    case (Cons x r)
    then have "q \<noteq> []" by simp
    with True show ?thesis using wq_nodes_snoc [OF assms, of p wn] wq_first_append [of q "[p]"]
      by (auto simp: wake_q_add_def wq_next Let_def wq_head_def split: option.splits list.splits)
  qed
qed (auto simp: wake_q_add_def wq_next)

definition wake_order :: "wake_nodes \<Rightarrow> tid list \<Rightarrow> tid list" where
  "wake_order wn ps = rev (remdups (rev (filter (\<lambda>p. wn_next wn p = WNull) ps)))"

lemma wake_order_distinct [simp]: "distinct (wake_order wn ps)" "set (wake_order wn ps) = {p \<in> set ps. wn_next wn p = WNull}"
  by (auto simp: wake_order_def)

lemma wake_order_snoc:
  "wake_order wn (ps @ [p]) = (if wn_next wn p = WNull \<and> p \<notin> set (wake_order wn ps) then wake_order wn ps @ [p] else wake_order wn ps)"
  by (auto simp: wake_order_def)

lemma wake_q_adds:
  "fold wake_q_add ps (wq_head [], wn) = (wq_head (wake_order wn ps), wq_nodes (wake_order wn ps) wn)"
proof (induction ps rule: rev_induct)
  case (snoc p ps)
  then show ?case using wake_q_add_spec [of "wake_order wn ps" p wn] by (simp add: wake_order_snoc Let_def)
qed (simp add: wake_order_def)

lemma wake_loop_spec:
  assumes "distinct q" "\<And>p. p \<in> set q \<Longrightarrow> wn_next wn p = WNull"
  shows "wake_loop env (wq_first (wq_head q)) (wq_nodes q wn) st = map_option (Pair wn) (wake_all env q st)"
  using assms
proof (induction q arbitrary: st)
  case (Cons p q)
  have "put_task_struct p (set_next p WNull (wq_nodes (p # q) wn)) = wq_nodes q wn"
    using Cons.prems wq_next [of q wn p] by (simp add: wake_node_defs fun_upd_idem)
  moreover have "wn_next (wq_nodes (p # q) wn) p = wq_first (wq_head q)" by (simp add: wake_node_defs)
  ultimately show ?case using Cons
    by (subst wake_loop.simps) (auto simp: wq_head_def simp del: wq_nodes.simps split: Option.bind_splits)
qed (simp add: wq_head_def wake_loop.simps)

text \<open>
  C16: A wake queue refines the list of the tasks to be woken: after adding any sequence of tasks, repetitions included, \<open>wake_up_q\<close> ends, having
  called \<open>wake_up_process\<close> exactly once for each task that was not queued elsewhere, in the order
  of their first addition; then every node is unlinked and every reference count is what it was.
\<close>

theorem wake_up_q_once:
  assumes "fold wake_q_add ps (\<lparr>wq_first = WAKE_Q_TAIL, wq_lastp = None\<rparr>, wn) = (head, wn')"
  shows "wake_up_q env head wn' st = map_option (Pair wn) (wake_all env (wake_order wn ps) st)"
proof -
  have "(head, wn') = (wq_head (wake_order wn ps), wq_nodes (wake_order wn ps) wn)"
    using assms wake_q_adds [of ps wn] by (simp add: wq_head_def)
  then show ?thesis using wake_loop_spec [of "wake_order wn ps" wn env st] by (simp add: wake_up_q_def)
qed

theorem wake_up_q_once_witness:
  "\<exists>head wn'. fold wake_q_add [2, 1, 2] (\<lparr>wq_first = WAKE_Q_TAIL, wq_lastp = None\<rparr>, \<lparr>wn_next = (\<lambda>_. WNull), wn_usage = (\<lambda>_. 1)\<rparr>) = (head, wn') \<and>
     wake_up_q blank_env head wn' blank_state = Some (\<lparr>wn_next = (\<lambda>_. WNull), wn_usage = (\<lambda>_. 1)\<rparr>, blank_state)"
proof -
  let ?wn = "\<lparr>wn_next = (\<lambda>_. WNull), wn_usage = (\<lambda>_. 1)\<rparr>"
  obtain head wn' where e: "fold wake_q_add [2, 1, 2] (\<lparr>wq_first = WAKE_Q_TAIL, wq_lastp = None\<rparr>, ?wn) = (head, wn')"
    by (metis prod.exhaust)
  have "wake_all blank_env (wake_order ?wn [2, 1, 2]) blank_state = Some blank_state"
    by (simp add: wake_order_def wake_up_process_def try_to_wake_up_def blank_defs has_flag_def)
  then show ?thesis using wake_up_q_once [OF e] e by simp
qed

end
