(* ===== verification/Sched_Queries.thy ===== *)
theory Sched_Queries
  imports Sched_Calls Sched_Core_Props
begin

text \<open>
  The rest of the calls of \<open>core.c\<close>: yielding to a task, sleeping on I/O, statistics, the run time of a task,
  balancing on \<open>execve\<close>, whether the tick can stop, \<open>sched_getattr\<close>, the affinity system calls and
  \<open>normalize_rt_tasks\<close>.
\<close>

section \<open>Yielding and sleeping\<close>

definition yield :: "kernel_env \<Rightarrow> sched_state \<Rightarrow> sched_state option" where
  "yield env st = do_sched_yield env (upd_task (current st) (\<lambda>t. t\<lparr>p_state := TASK_RUNNING\<rparr>) st)"

text \<open>
  \<open>to cl\<close> is the \<open>yield_to_task\<close> of a class outside the repository, if it has one; the
  real-time and the time-sharing class have none.
\<close>

definition class_yield_to ::
  "(sched_class \<Rightarrow> (cpu \<Rightarrow> tid \<Rightarrow> bool \<Rightarrow> sched_state \<Rightarrow> int \<times> sched_state) option) \<Rightarrow> sched_class \<Rightarrow>
     (cpu \<Rightarrow> tid \<Rightarrow> bool \<Rightarrow> sched_state \<Rightarrow> int \<times> sched_state) option" where
  "class_yield_to to cl = (case cl of Rt_class \<Rightarrow> None | Ts_class \<Rightarrow> None | _ \<Rightarrow> to cl)"

definition yield_to ::
  "kernel_env \<Rightarrow> (sched_class \<Rightarrow> (cpu \<Rightarrow> tid \<Rightarrow> bool \<Rightarrow> sched_state \<Rightarrow> int \<times> sched_state) option) \<Rightarrow> tid \<Rightarrow> bool \<Rightarrow>
     sched_state \<Rightarrow> (int \<times> sched_state) option" where
  "yield_to env to p preempt st =
    (let curr = current st; c = this_cpu st; d = p_cpu (tasks st p) in
     if rq_nr_running (rqs st c) = 1 \<and> rq_nr_running (rqs st d) = 1 then Some (- ESRCH, st)
     else case class_yield_to to (p_class (tasks st curr)) of None \<Rightarrow> Some (0, st)
     | Some f \<Rightarrow>
         if p_class (tasks st curr) \<noteq> p_class (tasks st p) then Some (0, st)
         else if task_running st p \<or> p_state (tasks st p) \<noteq> 0 then Some (0, st)
         else
           let (yielded, st) = f c p preempt st;
               st = (if yielded \<noteq> 0 \<and> preempt \<and> c \<noteq> d then resched_curr d st else st)
           in if yielded > 0 then map_option (Pair yielded) (schedule_raw env False st) else Some (yielded, st))"

text \<open>The token is the old flag; the task restores it when it runs again.\<close>

definition io_schedule_prepare :: "(tid \<Rightarrow> sched_state \<Rightarrow> sched_state) \<Rightarrow> sched_state \<Rightarrow> bool \<times> sched_state" where
  "io_schedule_prepare flush st =
    (let p = current st in (p_in_iowait (tasks st p), flush p (upd_task p (\<lambda>t. t\<lparr>p_in_iowait := True\<rparr>) st)))"

definition io_schedule_finish :: "bool \<Rightarrow> sched_state \<Rightarrow> sched_state" where
  "io_schedule_finish token st = upd_task (current st) (\<lambda>t. t\<lparr>p_in_iowait := token\<rparr>) st"

section \<open>Statistics\<close>

definition nr_running :: "sched_state \<Rightarrow> u64" where
  "nr_running st = sum_list (map (\<lambda>c. ucast (rq_nr_running (rqs st c))) (cpu_online_mask st))"

definition single_task_running :: "sched_state \<Rightarrow> bool" where
  "single_task_running st \<longleftrightarrow> rq_nr_running (rqs st (this_cpu st)) = 1"

definition nr_context_switches :: "kernel_env \<Rightarrow> sched_state \<Rightarrow> u64" where
  "nr_context_switches env st = sum_list (map (\<lambda>c. rq_nr_switches (rqs st c)) (env_possible_mask env))"

definition nr_iowait_cpu :: "cpu \<Rightarrow> sched_state \<Rightarrow> u64" where
  "nr_iowait_cpu c st = word_of_int (rq_nr_iowait (rqs st c))"

definition nr_iowait :: "kernel_env \<Rightarrow> sched_state \<Rightarrow> u64" where
  "nr_iowait env st = sum_list (map (\<lambda>c. nr_iowait_cpu c st) (env_possible_mask env))"

text \<open>Whether the tick of a CPU may stop (\<open>NO_HZ_FULL\<close>).\<close>

definition sched_can_stop_tick :: "cpu \<Rightarrow> sched_state \<Rightarrow> bool" where
  "sched_can_stop_tick c st =
    (let r = rqs st c in
     if rq_dl_nr r \<noteq> 0 then False
     else if rr_nr_running (rq_rt r) \<noteq> 0 then rr_nr_running (rq_rt r) = 1
     else if rt_nr_running (rq_rt r) - rr_nr_running (rq_rt r) \<noteq> 0 then True
     else \<not> rq_nr_running r > 1)"

section \<open>Running time and \<open>execve\<close>\<close>

text \<open>\<open>upd cl\<close> is the \<open>update_curr\<close> of a class outside the repository.\<close>

definition class_update_curr :: "(sched_class \<Rightarrow> cpu \<Rightarrow> sched_state \<Rightarrow> sched_state option) \<Rightarrow> sched_class \<Rightarrow> cpu \<Rightarrow> sched_state \<Rightarrow> sched_state option" where
  "class_update_curr upd cl c st = (case cl of Rt_class \<Rightarrow> update_curr_rt c st | Ts_class \<Rightarrow> Some (update_curr_ts c st) | _ \<Rightarrow> upd cl c st)"

definition task_sched_runtime ::
  "(sched_class \<Rightarrow> cpu \<Rightarrow> sched_state \<Rightarrow> sched_state option) \<Rightarrow> tid \<Rightarrow> sched_state \<Rightarrow> (u64 \<times> sched_state) option" where
  "task_sched_runtime upd p st =
    (if \<not> p_on_cpu (tasks st p) \<or> \<not> task_on_rq_queued st p then Some (p_sum_exec (tasks st p), st)
     else do {
       let c = p_cpu (tasks st p);
       st \<leftarrow> (if task_current st c p \<and> task_on_rq_queued st p
              then let st = update_rq_clock c st in class_update_curr upd (p_class (tasks st p)) c st
              else Some st);
       Some (p_sum_exec (tasks st p), st)
     })"

text \<open>The stopper of the task's CPU runs \<open>migration_cpu_stop\<close> at once.\<close>

definition sched_exec :: "kernel_env \<Rightarrow> sched_state \<Rightarrow> sched_state option" where
  "sched_exec env st =
    (let p = current st;
         dest_cpu = class_select env (p_class (tasks st p)) p (p_cpu (tasks st p)) SD_BALANCE_EXEC 0 st
     in if dest_cpu = this_cpu st \<or> dest_cpu \<notin> set (cpu_active_mask st) then Some st
        else do {
          let me = this_cpu st;
          st \<leftarrow> migration_cpu_stop env p dest_cpu (st\<lparr>this_cpu := p_cpu (tasks st p)\<rparr>);
          Some (st\<lparr>this_cpu := me\<rparr>)
        })"

section \<open>Reading attributes\<close>

definition EFBIG :: int where "EFBIG = 27"

text \<open>
  \<open>struct sched_attr\<close> as it lies in memory (little endian): size, policy, flags, nice, priority and the three
  deadline parameters, which come from \<open>__getparam_dl\<close>.
\<close>

definition le_bytes :: "nat \<Rightarrow> int \<Rightarrow> u8 list" where
  "le_bytes n v = map (\<lambda>i. word_of_int (v div 256 ^ i)) [0..<n]"

definition attr_bytes :: "nat \<Rightarrow> sched_attr \<Rightarrow> u64 list \<Rightarrow> u8 list" where
  "attr_bytes sz a dl = le_bytes 4 (int sz) @ le_bytes 4 (sa_policy a) @ le_bytes 8 (uint (sa_flags a)) @
     le_bytes 4 (sa_nice a) @ le_bytes 4 (uint (sa_priority a)) @ concat (map (\<lambda>v. le_bytes 8 (uint v)) dl)"

text \<open>The result and the bytes stored, if any; \<open>access\<close> and \<open>copied\<close> are the outcomes of \<open>access_ok\<close> and \<open>copy_to_user\<close>.\<close>

definition sched_read_attr :: "bool \<Rightarrow> bool \<Rightarrow> sched_attr \<Rightarrow> u64 list \<Rightarrow> nat \<Rightarrow> int \<times> u8 list option" where
  "sched_read_attr access copied a dl usize =
    (if \<not> access then (- EFAULT, None)
     else if usize < SCHED_ATTR_SIZE \<and> (\<exists>b\<in>set (drop usize (attr_bytes SCHED_ATTR_SIZE a dl)). b \<noteq> 0) then (- EFBIG, None)
     else
       let sz = (if usize < SCHED_ATTR_SIZE then usize else SCHED_ATTR_SIZE)
       in if copied then (0, Some (take sz (attr_bytes sz a dl))) else (- EFAULT, None))"

definition SCHED_ATTR_SIZE_VER0 :: nat where "SCHED_ATTR_SIZE_VER0 = 48"

text \<open>The attributes of a task; \<open>getparam_dl\<close> gives the priority, flags and parameters of a deadline task.\<close>

definition getattr_of :: "(tid \<Rightarrow> sched_state \<Rightarrow> u32 \<times> u64 \<times> u64 list) \<Rightarrow> tid \<Rightarrow> sched_state \<Rightarrow> sched_attr \<times> u64 list" where
  "getattr_of getparam_dl p st =
    (let t = tasks st p;
         a = \<lparr>sa_policy = p_policy t, sa_flags = (if p_reset_on_fork t then SCHED_FLAG_RESET_ON_FORK else 0), sa_nice = 0, sa_priority = 0\<rparr>
     in if task_has_dl_policy t
        then (case getparam_dl p st of (prio, flags, dl) \<Rightarrow> (a\<lparr>sa_priority := prio, sa_flags := flags\<rparr>, dl))
        else if task_has_rt_policy t then (a\<lparr>sa_priority := p_rt_priority t\<rparr>, [0, 0, 0])
        else (a\<lparr>sa_nice := task_nice t\<rparr>, [0, 0, 0]))"

definition sys_sched_getattr ::
  "policy_env \<Rightarrow> (tid \<Rightarrow> sched_state \<Rightarrow> u32 \<times> u64 \<times> u64 list) \<Rightarrow> int \<Rightarrow> (bool \<times> bool) option \<Rightarrow> nat \<Rightarrow> u32 \<Rightarrow> sched_state \<Rightarrow> int \<times> u8 list option" where
  "sys_sched_getattr env getparam_dl pid uattr sz flags st =
    (case uattr of None \<Rightarrow> (- EINVAL, None)
     | Some (access, copied) \<Rightarrow>
         if pid < 0 \<or> sz > PAGE_SIZE \<or> sz < SCHED_ATTR_SIZE_VER0 \<or> flags \<noteq> 0 then (- EINVAL, None)
         else case find_process_by_pid env pid st of None \<Rightarrow> (- ESRCH, None)
         | Some p \<Rightarrow>
             let r = pe_sec_getscheduler env p st in
             if r \<noteq> 0 then (r, None)
             else case getattr_of getparam_dl p st of (a, dl) \<Rightarrow> sched_read_attr access copied a dl sz)"

section \<open>Affinity\<close>








section \<open>Normalising real-time tasks\<close>

definition normal_attr :: sched_attr where
  "normal_attr = \<lparr>sa_policy = SCHED_NORMAL, sa_flags = 0, sa_nice = 0, sa_priority = 0\<rparr>"

fun normalize_rt_tasks :: "policy_env \<Rightarrow> tid list \<Rightarrow> sched_state \<Rightarrow> sched_state option" where
  "normalize_rt_tasks env [] st = Some st"
| "normalize_rt_tasks env (p # ps) st = do {
     st \<leftarrow> (if has_flag (p_flags (tasks st p)) PF_KTHREAD then Some st
            else
              let st = upd_task p (\<lambda>t. t\<lparr>p_exec_start := 0\<rparr>) st in
              if \<not> dl_task (tasks st p) \<and> \<not> rt_task (tasks st p)
              then if task_nice (tasks st p) < 0 then set_user_nice (pe_core env) p 0 st else Some st
              else map_option snd (sched_setscheduler_raw env p normal_attr False False st));
     normalize_rt_tasks env ps st
   }"

section \<open>Setting and reading back an affinity\<close>










section \<open>The time of time-sharing tasks\<close>

lemma resched_curr_sum_exec [st_simps]: "p_sum_exec (tasks (resched_curr c st) x) = p_sum_exec (tasks st x)"
  by (auto simp: resched_curr_def Let_def upd_task_def upd_rq_def)

text \<open>
  The running time of a time-sharing task is not accounted: while the task is current, \<open>task_sched_runtime\<close> (behind the CPU-time
  clocks and limits) gives the value it had before, whatever the clock says, and a tick does not change it, because
  \<open>update_curr_ts\<close> is empty.
\<close>

theorem ts_runtime_not_accounted:
  assumes "p_class (tasks st p) = Ts_class" "curr_of st (p_cpu (tasks st p)) = p" "this_cpu st = p_cpu (tasks st p)"
  shows "(\<exists>st'. task_sched_runtime upd p (st\<lparr>hw_clock := h\<rparr>) = Some (p_sum_exec (tasks st p), st')) \<and>
    (\<forall>st'. scheduler_tick env (st\<lparr>hw_clock := h\<rparr>) = Some st' \<longrightarrow> p_sum_exec (tasks st' p) = p_sum_exec (tasks st p))"
proof
  show "\<exists>st'. task_sched_runtime upd p (st\<lparr>hw_clock := h\<rparr>) = Some (p_sum_exec (tasks st p), st')"
    using assms by (auto simp: task_sched_runtime_def class_update_curr_def update_curr_ts_def st_simps task_on_rq_queued_def Let_def)
  have "p_sum_exec (tasks st' q) = p_sum_exec (tasks s q)" if "task_tick_ts c p s = Some st'" for c p q s st'
    using that by (auto simp: task_tick_ts_def ts_list_move_tail_def ts_list_del_def ts_list_add_tail_def Let_def bind_eq_Some_conv st_simps split: if_splits option.splits)
  then show "\<forall>st'. scheduler_tick env (st\<lparr>hw_clock := h\<rparr>) = Some st' \<longrightarrow> p_sum_exec (tasks st' p) = p_sum_exec (tasks st p)"
    using assms by (auto simp: scheduler_tick_def class_tick_def st_simps Let_def)
qed

theorem ts_runtime_not_accounted_witness:
  "\<exists>st'. task_sched_runtime (\<lambda>_ _. Some) 0 ((upd_task 0 (\<lambda>t. t\<lparr>p_class := Ts_class, p_on_cpu := True, p_on_rq := TASK_ON_RQ_QUEUED\<rparr>)
     blank_state)\<lparr>hw_clock := (\<lambda>_. 5000000)\<rparr>) = Some (0, st')"
  using ts_runtime_not_accounted [of "upd_task 0 (\<lambda>t. t\<lparr>p_class := Ts_class, p_on_cpu := True, p_on_rq := TASK_ON_RQ_QUEUED\<rparr>) blank_state" 0
      "\<lambda>_ _. Some" "\<lambda>_. 5000000"]
  by (simp add: st_simps blank_defs)

end
