(* ===== verification/Sched_Hotplug.thy ===== *)
theory Sched_Hotplug
  imports Sched_Core_Props
begin

text \<open>
  CPUs that come and go (\<open>core.c\<close>): taking a run queue online and offline, activating and
  deactivating a CPU, moving the tasks off a dying CPU, the idle task of a CPU, and the
  NUMA and cpuset hooks beside them. The hooks of the deadline and fair classes, cpusets and
  the building of domains are the record \<open>hotplug_env\<close>. The load average and the tick of a
  housekeeping CPU are not state. \<open>migrate_tasks\<close> loops until one task is counted on the run queue; not
  returning is \<open>None\<close>, like a BUG.
\<close>

section \<open>Run queues online and offline\<close>

record hotplug_env =
  hp_rq_online :: "sched_class \<Rightarrow> (cpu \<Rightarrow> sched_state \<Rightarrow> sched_state) option"
  hp_rq_offline :: "sched_class \<Rightarrow> (cpu \<Rightarrow> sched_state \<Rightarrow> sched_state option) option"
  hp_partition_domains :: "sched_state \<Rightarrow> sched_state"
  hp_cpuset_force_rebuild :: "sched_state \<Rightarrow> sched_state"
  hp_cpuset_update_active :: "sched_state \<Rightarrow> sched_state"
  hp_numa_masks_set :: "cpu \<Rightarrow> sched_state \<Rightarrow> sched_state"
  hp_numa_masks_clear :: "cpu \<Rightarrow> sched_state \<Rightarrow> sched_state"
  hp_dl_cpu_busy :: "cpu \<Rightarrow> sched_state \<Rightarrow> bool"
  hp_tasks_frozen :: bool
  hp_smp_initialized :: bool

definition mask_set :: "cpu \<Rightarrow> cpu list \<Rightarrow> cpu list" where
  "mask_set c m = (if c \<in> set m then m else insort c m)"

definition mask_clear :: "cpu \<Rightarrow> cpu list \<Rightarrow> cpu list" where
  "mask_clear c m = removeAll c m"

definition class_rq_online :: "hotplug_env \<Rightarrow> sched_class \<Rightarrow> (cpu \<Rightarrow> sched_state \<Rightarrow> sched_state) option" where
  "class_rq_online hp cl = (case cl of Rt_class \<Rightarrow> Some rq_online_rt | Ts_class \<Rightarrow> None | _ \<Rightarrow> hp_rq_online hp cl)"


fun rq_online_classes :: "hotplug_env \<Rightarrow> sched_class list \<Rightarrow> cpu \<Rightarrow> sched_state \<Rightarrow> sched_state" where
  "rq_online_classes hp [] c st = st"
| "rq_online_classes hp (cl # cls) c st =
     rq_online_classes hp cls c (case class_rq_online hp cl of Some f \<Rightarrow> f c st | None \<Rightarrow> st)"


definition set_rq_online :: "hotplug_env \<Rightarrow> cpu \<Rightarrow> sched_state \<Rightarrow> sched_state" where
  "set_rq_online hp c st =
    (if \<not> rq_online (rqs st c)
     then rq_online_classes hp all_classes c
       (upd_rq c (\<lambda>r. r\<lparr>rq_online := True\<rparr>) (st\<lparr>rd := (rd st)\<lparr>rd_online := mask_set c (rd_online (rd st))\<rparr>\<rparr>))
     else st)"


section \<open>Activating and deactivating a CPU\<close>

text \<open>The second component is \<open>num_cpus_frozen\<close>.\<close>

definition cpuset_cpu_active :: "hotplug_env \<Rightarrow> int \<times> sched_state \<Rightarrow> int \<times> sched_state" where
  "cpuset_cpu_active hp fst' =
    (case fst' of (frozen, st) \<Rightarrow>
       if hp_tasks_frozen hp then
         let st = hp_partition_domains hp st; frozen = frozen - 1 in
         if frozen \<noteq> 0 then (frozen, st)
         else (frozen, hp_cpuset_update_active hp (hp_cpuset_force_rebuild hp st))
       else (frozen, hp_cpuset_update_active hp st))"

definition cpuset_cpu_inactive :: "hotplug_env \<Rightarrow> cpu \<Rightarrow> int \<times> sched_state \<Rightarrow> int \<times> int \<times> sched_state" where
  "cpuset_cpu_inactive hp c fst' =
    (case fst' of (frozen, st) \<Rightarrow>
       if \<not> hp_tasks_frozen hp then
         if hp_dl_cpu_busy hp c st then (- EBUSY, frozen, st) else (0, frozen, hp_cpuset_update_active hp st)
       else (0, frozen + 1, hp_partition_domains hp st))"

definition set_cpu_active :: "cpu \<Rightarrow> bool \<Rightarrow> sched_state \<Rightarrow> sched_state" where
  "set_cpu_active c active st =
     st\<lparr>cpu_active_mask := (if active then mask_set c (cpu_active_mask st) else mask_clear c (cpu_active_mask st))\<rparr>"

definition sched_cpu_activate :: "hotplug_env \<Rightarrow> cpu \<Rightarrow> int \<times> sched_state \<Rightarrow> (int \<times> int \<times> sched_state) option" where
  "sched_cpu_activate hp c fst' =
    (case fst' of (frozen, st) \<Rightarrow>
       let st = set_cpu_active c True st;
           (frozen, st) = (if hp_smp_initialized hp then cpuset_cpu_active hp (frozen, hp_numa_masks_set hp c st) else (frozen, st))
       in do {
         guard (c \<in> set (rd_span (rd st)));
         Some (0, frozen, set_rq_online hp c st)
       })"

definition sched_cpu_deactivate :: "hotplug_env \<Rightarrow> cpu \<Rightarrow> int \<times> sched_state \<Rightarrow> int \<times> int \<times> sched_state" where
  "sched_cpu_deactivate hp c fst' =
    (case fst' of (frozen, st) \<Rightarrow>
       let st = set_cpu_active c False st in
       if \<not> hp_smp_initialized hp then (0, frozen, st)
       else case cpuset_cpu_inactive hp c (frozen, st) of (ret, frozen, st) \<Rightarrow>
         if ret \<noteq> 0 then (ret, frozen, set_cpu_active c True st)
         else (0, frozen, hp_numa_masks_clear hp c st))"

section \<open>A dying CPU\<close>

text \<open>The static \<open>fake_task\<close>: its fields are zero but for the priority and the class.\<close>

definition fake_task :: task_struct where
  "fake_task = blank_task\<lparr>p_prio := 141, p_class := Fake_class, p_static_prio := 0, p_normal_prio := 0, p_cpus_allowed := [],
     p_nr_cpus_allowed := 0, p_ts_time_slice := 0, p_rt_time_slice := 0, p_has_mm := False, p_rlim := (\<lambda>_. 0), p_rlim_max := (\<lambda>_. 0)\<rparr>"




section \<open>The idle task of a CPU\<close>

definition init_idle :: "kernel_env \<Rightarrow> tid \<Rightarrow> cpu \<Rightarrow> u64 \<Rightarrow> sched_state \<Rightarrow> sched_state" where
  "init_idle env idle c now st =
    (let st = sched_fork_raw idle st;
         st = upd_task idle (\<lambda>t. t\<lparr>p_state := TASK_RUNNING, p_exec_start := now, p_flags := p_flags t OR PF_IDLE\<rparr>) st;
         st = set_cpus_allowed_common idle [c] st;
         st = set_task_cpu_raw idle c st;
         st = upd_rq c (\<lambda>r. r\<lparr>rq_curr := idle, rq_idle := idle\<rparr>) st
     in upd_task idle (\<lambda>t. t\<lparr>p_on_rq := TASK_ON_RQ_QUEUED, p_on_cpu := True, p_class := Idle_class\<rparr>) st)"

section \<open>Cpusets and NUMA\<close>

definition cpuset_cpumask_can_shrink :: "(cpu list \<Rightarrow> cpu list \<Rightarrow> int) \<Rightarrow> cpu list \<Rightarrow> cpu list \<Rightarrow> int" where
  "cpuset_cpumask_can_shrink dl_can_shrink cur trial = (if cur = [] then 1 else dl_can_shrink cur trial)"

definition task_can_attach :: "(tid \<Rightarrow> cpu list \<Rightarrow> int) \<Rightarrow> tid \<Rightarrow> cpu list \<Rightarrow> sched_state \<Rightarrow> int" where
  "task_can_attach dl_task_can_attach p allowed st =
    (if has_flag (p_flags (tasks st p)) PF_NO_SETAFFINITY then - EINVAL
     else if dl_task (tasks st p) \<and> filter (\<lambda>c. c \<in> set allowed) (rd_span (rd st)) = [] then dl_task_can_attach p allowed
     else 0)"

definition migrate_task_to :: "kernel_env \<Rightarrow> tid \<Rightarrow> cpu \<Rightarrow> sched_state \<Rightarrow> (int \<times> sched_state) option" where
  "migrate_task_to env p target st =
    (let c = p_cpu (tasks st p) in
     if c = target then Some (0, st)
     else if target \<notin> set (p_cpus_allowed (tasks st p)) then Some (- EINVAL, st)
     else do {
       let me = this_cpu st;
       st \<leftarrow> migration_cpu_stop env p target (st\<lparr>this_cpu := c\<rparr>);
       Some (0, st\<lparr>this_cpu := me\<rparr>)
     })"

text \<open>\<open>nid\<close> is the map of preferred nodes.\<close>

definition sched_setnuma :: "kernel_env \<Rightarrow> tid \<Rightarrow> int \<Rightarrow> (tid \<Rightarrow> int) \<times> sched_state \<Rightarrow> ((tid \<Rightarrow> int) \<times> sched_state) option" where
  "sched_setnuma env p nid nst =
    (case nst of (nids, st) \<Rightarrow>
      let c = p_cpu (tasks st p); queued = task_on_rq_queued st p; running = task_current st c p in do {
        st \<leftarrow> (if queued then dequeue_task env c p DEQUEUE_SAVE st else Some st);
        st \<leftarrow> (if running then put_prev_task env c p st else Some st);
        st \<leftarrow> (if queued then enqueue_task env c p (ENQUEUE_RESTORE OR ENQUEUE_NOCLOCK) st else Some st);
        st \<leftarrow> (if running then set_curr_task env c p st else Some st);
        Some (nids(p := nid), st)
      })"

section \<open>Refusing to deactivate\<close>

lemma mask_set_clear: "sorted m \<Longrightarrow> distinct m \<Longrightarrow> c \<in> set m \<Longrightarrow> mask_set c (mask_clear c m) = m"
  by (simp add: mask_set_def mask_clear_def distinct_remove1_removeAll [symmetric] insort_remove1)

text \<open>
  A CPU that cannot be deactivated (\<open>sched_cpu_deactivate\<close> returns an error, because the deadline class needs its bandwidth) is left
  as it was: the active mask, the tasks, the run queues and the count of frozen CPUs are
  those before the call. On success the CPU is out of the active mask unless a hook put it back.
\<close>

theorem sched_cpu_deactivate_undone:
  assumes "sorted (cpu_active_mask st)" "distinct (cpu_active_mask st)" "c \<in> set (cpu_active_mask st)"
    and "sched_cpu_deactivate hp c (frozen, st) = (ret, frozen', st')" "ret \<noteq> 0"
  shows "ret = - EBUSY \<and> frozen' = frozen \<and> st' = st"
  using assms(4,5) mask_set_clear [OF assms(1-3)]
  by (auto simp: sched_cpu_deactivate_def cpuset_cpu_inactive_def set_cpu_active_def Let_def split: if_splits)

definition demo_hotplug_env :: hotplug_env where
  "demo_hotplug_env = \<lparr>hp_rq_online = (\<lambda>_. None), hp_rq_offline = (\<lambda>_. None), hp_partition_domains = (\<lambda>st. st),
     hp_cpuset_force_rebuild = (\<lambda>st. st), hp_cpuset_update_active = (\<lambda>st. st), hp_numa_masks_set = (\<lambda>_ st. st),
     hp_numa_masks_clear = (\<lambda>_ st. st), hp_dl_cpu_busy = (\<lambda>c st. c = 1), hp_tasks_frozen = False, hp_smp_initialized = True\<rparr>"

theorem sched_cpu_deactivate_undone_witness:
  "sched_cpu_deactivate demo_hotplug_env 1 (0, blank_state) = (- EBUSY, 0, blank_state)"
proof -
  obtain ret frozen' st' where e: "sched_cpu_deactivate demo_hotplug_env 1 (0, blank_state) = (ret, frozen', st')" by (metis prod.exhaust)
  then have "ret \<noteq> 0"
    by (auto simp: sched_cpu_deactivate_def cpuset_cpu_inactive_def demo_hotplug_env_def Let_def EBUSY_def split: if_splits)
  then show ?thesis using sched_cpu_deactivate_undone [OF _ _ _ e] e by (simp add: blank_state_def)
qed

section \<open>Time-sharing tasks on a dying CPU\<close>




end
