(* ===== verification/Sched_Boot.thy ===== *)
theory Sched_Boot
  imports Sched_Hotplug Sched_RT_Runtime
begin

text \<open>
  The start of the scheduler (\<open>sched_init\<close> and \<open>sched_init_smp\<close> of \<open>core.c\<close>): the real-time
  bandwidth, the run queue of every possible CPU, the boot task as idle task of the boot CPU. The fair and
  deadline classes, the root domains and the NUMA topology set themselves up in code outside the
  repository: these calls are the record \<open>boot_env\<close>. Task groups are not configured here.
\<close>

record boot_env =
  be_init_cfs_rq :: "cpu \<Rightarrow> sched_state \<Rightarrow> sched_state"
  be_init_dl_rq :: "cpu \<Rightarrow> sched_state \<Rightarrow> sched_state"
  be_init_dl_bandwidth :: "sched_state \<Rightarrow> sched_state"
  be_init_defrootdomain :: "sched_state \<Rightarrow> sched_state"
  be_attach_root :: "cpu \<Rightarrow> sched_state \<Rightarrow> sched_state"
  be_init_fair_class :: "sched_state \<Rightarrow> sched_state"
  be_init_numa :: "sched_state \<Rightarrow> sched_state"
  be_init_domains :: "cpu list \<Rightarrow> sched_state \<Rightarrow> sched_state"
  be_housekeeping :: "cpu list"
  be_migration_cost :: u64
  be_clock :: u64

section \<open>Starting\<close>

definition init_rq :: "boot_env \<Rightarrow> cpu \<Rightarrow> sched_state \<Rightarrow> sched_state" where
  "init_rq be c st =
    (let st = upd_rq c (\<lambda>r. r\<lparr>rq_nr_running := 0\<rparr>) st;
         st = be_init_cfs_rq be c st;
         st = init_rt_rq c st;
         st = be_init_dl_rq be c st;
         st = init_ts_rq c st;
         st = upd_rt c (\<lambda>r. r\<lparr>rt_runtime := rtb_runtime (def_rt_b st)\<rparr>) st;
         st = upd_rq c (\<lambda>r. r\<lparr>rq_callbacks := [], rq_online := False, rq_idle_stamp := 0,
                rq_avg_idle := 2 * be_migration_cost be, rq_max_idle_cost := be_migration_cost be\<rparr>) st;
         st = be_attach_root be c st
     in upd_rq c (\<lambda>r. r\<lparr>rq_nr_iowait := 0\<rparr>) st)"

definition sched_init :: "kernel_env \<Rightarrow> boot_env \<Rightarrow> tid \<Rightarrow> sched_state \<Rightarrow> sched_state option" where
  "sched_init env be boot st = do {
     let st = st\<lparr>def_rt_b := init_rt_bandwidth (global_rt_period st) (global_rt_runtime st)\<rparr>;
     let st = be_init_defrootdomain be (be_init_dl_bandwidth be st);
     let st = fold (init_rq be) (env_possible_mask env) st;
     st \<leftarrow> set_load_weight env boot False st;
     let st = be_init_fair_class be (init_idle env boot (this_cpu st) (be_clock be) st);
     Some (st\<lparr>scheduler_running := True\<rparr>)
   }"

definition sched_init_smp :: "kernel_env \<Rightarrow> boot_env \<Rightarrow> sched_state \<Rightarrow> sched_state option" where
  "sched_init_smp env be st = do {
     let st = be_init_numa be st;
     let st = be_init_domains be (cpu_active_mask st) st;
     (r, st) \<leftarrow> set_cpus_allowed_ptr env (current st) (be_housekeeping be) st;
     guard (\<not> r < 0);
     Some st
   }"

section \<open>The state it leaves\<close>

text \<open>What the hooks leave alone.\<close>

definition boot_quiet :: "(sched_state \<Rightarrow> sched_state) \<Rightarrow> bool" where
  "boot_quiet f \<longleftrightarrow> (\<forall>st. tasks (f st) = tasks st \<and> (\<forall>c. queue_view (rqs (f st) c) = queue_view (rqs st c) \<and> rq_idle (rqs (f st) c) = rq_idle (rqs st c)) \<and>
     def_rt_b (f st) = def_rt_b st \<and> this_cpu (f st) = this_cpu st)"

definition boot_env_ok :: "boot_env \<Rightarrow> bool" where
  "boot_env_ok be \<longleftrightarrow> (\<forall>c. boot_quiet (be_init_cfs_rq be c) \<and> boot_quiet (be_init_dl_rq be c) \<and> boot_quiet (be_attach_root be c)) \<and>
     boot_quiet (be_init_dl_bandwidth be) \<and> boot_quiet (be_init_defrootdomain be) \<and> boot_quiet (be_init_fair_class be)"

lemma boot_quietD:
  assumes "boot_quiet f"
  shows "tasks (f st) = tasks st" "rq_rt (rqs (f st) c) = rq_rt (rqs st c)" "rq_ts (rqs (f st) c) = rq_ts (rqs st c)"
    "rq_curr (rqs (f st) c) = rq_curr (rqs st c)" "rq_nr_running (rqs (f st) c) = rq_nr_running (rqs st c)"
    "rq_idle (rqs (f st) c) = rq_idle (rqs st c)" "def_rt_b (f st) = def_rt_b st" "this_cpu (f st) = this_cpu st"
  using assms by (auto simp: boot_quiet_def queue_view_def)

text \<open>A run queue without tasks, with the configured real-time runtime.\<close>

definition rq_fresh :: "sched_state \<Rightarrow> cpu \<Rightarrow> bool" where
  "rq_fresh st c \<longleftrightarrow> rq_ts (rqs st c) = replicate 40 [] \<and> rq_nr_running (rqs st c) = 0 \<and>
     rt_queue (rtq st c) = replicate 100 [] \<and> rt_bitmap (rtq st c) = replicate 100 False @ [True] \<and> rt_nr_running (rtq st c) = 0 \<and>
     rt_highest_curr (rtq st c) = 100 \<and> \<not> rt_queued (rtq st c) \<and> \<not> rt_throttled (rtq st c)"

text \<open>Static storage before \<open>sched_init\<close>: no counter is set and no task is on a list.\<close>

definition boot_zero :: "sched_state \<Rightarrow> bool" where
  "boot_zero st \<longleftrightarrow> (\<forall>c. rt_nr_running (rtq st c) = 0) \<and>
     (\<forall>p. \<not> p_rt_on_list (tasks st p) \<and> \<not> p_rt_on_rq (tasks st p) \<and> p_ts_node (tasks st p) \<noteq> On_list)"

lemma fresh_rt_array: "rt_array_ok (replicate 100 []) (replicate 100 False @ [True])"
  by (auto simp: rt_array_ok_def qs_ok_def nth_append)

lemma fresh_wf:
  assumes "\<And>c. rq_fresh st c" "\<And>p. \<not> p_rt_on_list (tasks st p) \<and> \<not> p_rt_on_rq (tasks st p) \<and> p_ts_node (tasks st p) \<noteq> On_list"
  shows "rt_wf st" "ts_wf st"
proof -
  note f = assms(1) [unfolded rq_fresh_def, THEN conjunct1] assms(1) [unfolded rq_fresh_def, THEN conjunct2]
  have "first_q (replicate 100 [] :: tid list list) = 100" by (simp add: first_q_def takeWhile_replicate)
  then show "rt_wf st"
    using f assms(2) fresh_rt_array
    by (auto simp: rt_wf_def rt_counts_ok_def rt_top_ok_def rt_members_ok_def rt_rest_def rt_linked_def qs_mem_def)
  show "ts_wf st" using f assms(2) by (auto simp: ts_wf_def ts_linked_def qs_mem_def qs_ok_def)
qed

lemma init_rq_step:
  assumes "boot_env_ok be"
  shows "tasks (init_rq be c st) = tasks st" "def_rt_b (init_rq be c st) = def_rt_b st" "this_cpu (init_rq be c st) = this_cpu st"
    "d \<noteq> c \<Longrightarrow> queue_view (rqs (init_rq be c st) d) = queue_view (rqs st d)"
    "rt_nr_running (rtq st c) = 0 \<Longrightarrow> rq_fresh (init_rq be c st) c" "rt_runtime (rtq (init_rq be c st) c) = rtb_runtime (def_rt_b st)"
  using assms
  by (simp_all add: init_rq_def Let_def boot_env_ok_def boot_quietD st_simps init_rt_rq_def init_ts_rq_def rq_fresh_def prio_consts queue_view_def)

lemma init_rqs:
  fixes cs :: "cpu list"
  assumes "boot_env_ok be" "\<And>c. rt_nr_running (rtq st c) = 0"
  defines "st' \<equiv> fold (init_rq be) cs st"
  shows "tasks st' = tasks st \<and> def_rt_b st' = def_rt_b st \<and> this_cpu st' = this_cpu st \<and>
    (\<forall>c. if c \<in> set cs then rq_fresh st' c \<and> rt_runtime (rtq st' c) = rtb_runtime (def_rt_b st)
         else queue_view (rqs st' c) = queue_view (rqs st c))"
  unfolding st'_def using assms(2)
proof (induction cs arbitrary: st)
  case (Cons x cs)
  note i = init_rq_step [OF assms(1)]
  let ?s = "init_rq be x st"
  have "rt_nr_running (rtq ?s c) = 0" for c
    using i(4) [of c x st] i(5) [of st x] Cons.prems by (cases "c = x") (simp_all add: rq_fresh_def queue_view_def)
  note h = Cons.IH [OF this]
  have r: "rq_fresh ?s x" "rt_runtime (rtq ?s x) = rtb_runtime (def_rt_b st)" using i(5) [of st x] i(6) [of x st] Cons.prems by simp_all
  have v: "rq_fresh (fold (init_rq be) cs ?s) x \<and> rt_runtime (rtq (fold (init_rq be) cs ?s) x) = rtb_runtime (def_rt_b st)"
    if "x \<notin> set cs" using h [THEN conjunct2, THEN conjunct2, THEN conjunct2, rule_format, of x] r that by (simp add: rq_fresh_def queue_view_def)
  show ?case
    using h v i(1-4) by (auto split: if_splits)
qed simp

lemma set_load_weight_boot:
  assumes "MAX_RT_PRIO \<le> p_static_prio (tasks st p)" "p_static_prio (tasks st p) < MAX_RT_PRIO + 40"
  shows "\<exists>w m. set_load_weight env p False st = Some (upd_task p (\<lambda>t. t\<lparr>p_weight := w, p_inv_weight := m\<rparr>) st)"
  using assms by (auto simp: set_load_weight_def sched_prio_to_weight_def sched_prio_to_wmult_def Let_def)

lemma init_idle_step:
  "rq_rt (rqs (init_idle env p c now st) d) = rq_rt (rqs st d)" "rq_ts (rqs (init_idle env p c now st) d) = rq_ts (rqs st d)"
  "rq_nr_running (rqs (init_idle env p c now st) d) = rq_nr_running (rqs st d)" "def_rt_b (init_idle env p c now st) = def_rt_b st"
  "this_cpu (init_idle env p c now st) = this_cpu st" "curr_of (init_idle env p c now st) c = p" "rq_idle (rqs (init_idle env p c now st) c) = p"
  "p_class (tasks (init_idle env p c now st) p) = Idle_class"
  "p_rt_on_list (tasks (init_idle env p c now st) q) \<longleftrightarrow> q \<noteq> p \<and> p_rt_on_list (tasks st q)"
  "p_rt_on_rq (tasks (init_idle env p c now st) q) \<longleftrightarrow> q \<noteq> p \<and> p_rt_on_rq (tasks st q)"
  "p_ts_node (tasks (init_idle env p c now st) q) = (if q = p then Self_linked else p_ts_node (tasks st q))"
  by (simp_all add: init_idle_def sched_fork_raw_def set_cpus_allowed_common_def set_task_cpu_raw_def Let_def st_simps)

text \<open>
  Starting the scheduler establishes the invariants of its components. Given that static storage is zero and that the calls into
  other code leave queues and tasks alone, \<open>sched_init\<close> does not fail; afterwards the real-time and the
  time-sharing run queues are well-formed and empty, each possible CPU has the full configured real-time
  runtime, no task is on a list, and the boot task is the current and the idle task of the boot CPU, in the idle class.
\<close>

lemma sched_init_establishes:
  assumes "boot_env_ok be" "boot_zero st" "\<And>c. c \<notin> set (env_possible_mask env) \<Longrightarrow> rq_fresh st c"
    and "MAX_RT_PRIO \<le> p_static_prio (tasks st boot)" "p_static_prio (tasks st boot) < MAX_RT_PRIO + 40"
  shows "\<exists>st'. sched_init env be boot st = Some st' \<and> rt_wf st' \<and> ts_wf st' \<and> (\<forall>c. rq_fresh st' c) \<and>
    (\<forall>p. \<not> p_rt_on_list (tasks st' p) \<and> \<not> p_rt_on_rq (tasks st' p) \<and> p_ts_node (tasks st' p) \<noteq> On_list) \<and>
    (\<forall>c\<in>set (env_possible_mask env). rt_runtime (rtq st' c) = rtb_runtime (def_rt_b st')) \<and>
    rtb_period (def_rt_b st') = global_rt_period st \<and> rtb_runtime (def_rt_b st') = global_rt_runtime st \<and>
    curr_of st' (this_cpu st') = boot \<and> rq_idle (rqs st' (this_cpu st')) = boot \<and> p_class (tasks st' boot) = Idle_class \<and> scheduler_running st'"
proof -
  define s0 where "s0 = be_init_defrootdomain be (be_init_dl_bandwidth be (st\<lparr>def_rt_b := init_rt_bandwidth (global_rt_period st) (global_rt_runtime st)\<rparr>))"
  define s1 where "s1 = fold (init_rq be) (env_possible_mask env) s0"
  have s0: "tasks s0 = tasks st" "def_rt_b s0 = init_rt_bandwidth (global_rt_period st) (global_rt_runtime st)" "this_cpu s0 = this_cpu st"
    "queue_view (rqs s0 c) = queue_view (rqs st c)" for c
    using assms(1) by (simp_all add: s0_def boot_env_ok_def boot_quietD queue_view_def)
  have "rt_nr_running (rtq s0 c) = 0" for c using s0(4) assms(2) by (simp add: boot_zero_def queue_view_def)
  note h = init_rqs [OF assms(1) this, of "env_possible_mask env", folded s1_def]
  obtain w m where sw: "set_load_weight env boot False s1 = Some (upd_task boot (\<lambda>t. t\<lparr>p_weight := w, p_inv_weight := m\<rparr>) s1)"
    using set_load_weight_boot [of s1 boot env] assms(4,5) h s0(1) by auto
  define s2 where "s2 = upd_task boot (\<lambda>t. t\<lparr>p_weight := w, p_inv_weight := m\<rparr>) s1"
  define s3 where "s3 = init_idle env boot (this_cpu s2) (be_clock be) s2"
  define st' where "st' = (be_init_fair_class be s3)\<lparr>scheduler_running := True\<rparr>"
  have run: "sched_init env be boot st = Some st'"
    using sw by (simp add: sched_init_def Let_def s0_def s1_def s2_def s3_def st'_def)
  have q: "boot_quiet (be_init_fair_class be)" using assms(1) by (simp add: boot_env_ok_def)
  note sel = st'_def boot_quietD [OF q] s3_def s2_def init_idle_step st_simps
  have v: "rq_rt (rqs st' c) = rq_rt (rqs s1 c)" "rq_ts (rqs st' c) = rq_ts (rqs s1 c)" "rq_nr_running (rqs st' c) = rq_nr_running (rqs s1 c)" for c
    by (simp_all add: sel)
  have d: "def_rt_b st' = def_rt_b s0" "curr_of st' (this_cpu st') = boot" "rq_idle (rqs st' (this_cpu st')) = boot"
    "p_class (tasks st' boot) = Idle_class" "scheduler_running st'"
    using h by (simp_all add: sel)
  note at = h [THEN conjunct2, THEN conjunct2, THEN conjunct2, rule_format]
  have fresh: "rq_fresh st' c" for c
    using at [of c] v [of c] s0(4) [of c] assms(3) [of c] by (cases "c \<in> set (env_possible_mask env)") (simp_all add: rq_fresh_def queue_view_def)
  have t: "\<not> p_rt_on_list (tasks st' p) \<and> \<not> p_rt_on_rq (tasks st' p) \<and> p_ts_node (tasks st' p) \<noteq> On_list" for p
    using h s0(1) assms(2) by (simp add: sel boot_zero_def)
  have "\<forall>c. rq_fresh st' c" using fresh by blast
  then show ?thesis
    using run fresh_wf [OF fresh t] t d at v s0(2) by (simp add: init_rt_bandwidth_def)
qed

definition demo_boot_env :: boot_env where
  "demo_boot_env = \<lparr>be_init_cfs_rq = (\<lambda>c st. st), be_init_dl_rq = (\<lambda>c st. st), be_init_dl_bandwidth = (\<lambda>st. st), be_init_defrootdomain = (\<lambda>st. st),
     be_attach_root = (\<lambda>c. upd_rq c (\<lambda>r. r\<lparr>rq_online := True\<rparr>)), be_init_fair_class = (\<lambda>st. st), be_init_numa = (\<lambda>st. st),
     be_init_domains = (\<lambda>_ st. st), be_housekeeping = [0, 1], be_migration_cost = 500000, be_clock = 7\<rparr>"

lemma demo_boot:
  "boot_env_ok demo_boot_env" "boot_zero blank_state" "rq_fresh blank_state c"
  "MAX_RT_PRIO \<le> p_static_prio (tasks blank_state 0)" "p_static_prio (tasks blank_state 0) < MAX_RT_PRIO + 40"
  by (simp_all add: boot_env_ok_def demo_boot_env_def boot_quiet_def queue_view_def st_simps boot_zero_def rq_fresh_def prio_consts blank_defs)

end
