(* ===== verification/Sched_System.thy ===== *)
theory Sched_System
  imports Sched_Boot
begin

text \<open>
  The two scheduling classes of the repository in one kernel: the run queues of the real-time and of the
  time-sharing class share the tasks and the run-queue structures, and each class leaves what the
  other relies on alone. \<open>ts_view\<close> is what the time-sharing class reads of a state, and no operation of the real-time class changes
  it; in the other direction a time-sharing task may change its priority and CPU, but only while it is on no real-time list. From this, the state
  \<open>sched_init\<close> leaves and every interleaving of the operations of both classes keep both invariants.
\<close>

section \<open>What the time-sharing class reads\<close>

definition ts_view :: "sched_state \<Rightarrow> (cpu \<Rightarrow> tid list list) \<times> (tid \<Rightarrow> int \<times> lnode)" where
  "ts_view st = (\<lambda>c. rq_ts (rqs st c), \<lambda>x. (p_prio (tasks st x), p_ts_node (tasks st x)))"

lemma ts_view_wf:
  assumes "ts_view st' = ts_view st"
  shows "ts_wf st' \<longleftrightarrow> ts_wf st" "ts_linked st' c x \<longleftrightarrow> ts_linked st c x" "ts_ready st' x \<longleftrightarrow> ts_ready st x"
    "p_ts_node (tasks st' x) = p_ts_node (tasks st x)"
proof -
  have "rq_ts (rqs st' c) = rq_ts (rqs st c)" "p_prio (tasks st' x) = p_prio (tasks st x)" "p_ts_node (tasks st' x) = p_ts_node (tasks st x)" for c x
    using assms by (simp_all add: ts_view_def fun_eq_iff)
  then show "ts_wf st' \<longleftrightarrow> ts_wf st" "ts_linked st' c x \<longleftrightarrow> ts_linked st c x" "ts_ready st' x \<longleftrightarrow> ts_ready st x"
    "p_ts_node (tasks st' x) = p_ts_node (tasks st x)"
    by (simp_all add: ts_wf_def ts_linked_def ts_ready_def ts_level_def)
qed

named_theorems view_simps \<open>what keeps the view of the time-sharing class\<close>

lemma ts_view_upd [view_simps]:
  "ts_view (upd_rt c f st) = ts_view st"
  "(\<And>r. rq_ts (g r) = rq_ts r) \<Longrightarrow> ts_view (upd_rq c g st) = ts_view st"
  "(\<And>t. p_prio (h t) = p_prio t \<and> p_ts_node (h t) = p_ts_node t) \<Longrightarrow> ts_view (upd_task p h st) = ts_view st"
  "ts_view (st\<lparr>rd := d\<rparr>) = ts_view st" "ts_view (st\<lparr>def_rt_b := b\<rparr>) = ts_view st" "ts_view (st\<lparr>ipis := is\<rparr>) = ts_view st"
  by (auto simp: ts_view_def st_simps)

lemma ts_view_core [view_simps]:
  "ts_view (resched_curr c st) = ts_view st" "ts_view (update_rq_clock c st) = ts_view st" "ts_view (add_nr_running c n st) = ts_view st"
  "ts_view (sub_nr_running c n st) = ts_view st" "ts_view (rq_clock_skip_update c st) = ts_view st"
  by (simp_all add: resched_curr_def update_rq_clock_def update_rq_clock_task_def add_nr_running_def sub_nr_running_def rq_clock_skip_update_def
      Let_def view_simps)

lemma ts_view_rt_counts [view_simps]:
  "ts_view (update_rt_migration c st) = ts_view st" "ts_view (inc_rt_migration p c st) = ts_view st" "ts_view (dec_rt_migration p c st) = ts_view st"
  "ts_view (inc_rt_prio c i st) = ts_view st" "ts_view (dec_rt_prio c i st) = ts_view st" "ts_view (inc_rt_tasks p c st) = ts_view st"
  "ts_view (dec_rt_tasks p c st) = ts_view st" "ts_view (enqueue_top_rt_rq c st) = ts_view st"
  "ts_view (enqueue_pushable_task c p st) = ts_view st" "ts_view (dequeue_pushable_task c p st) = ts_view st" "ts_view (rt_unlink p st) = ts_view st"
  by (simp_all add: update_rt_migration_def rt_set_overload_def rt_clear_overload_def inc_rt_migration_def dec_rt_migration_def inc_rt_prio_def
      dec_rt_prio_def inc_rt_prio_smp_def dec_rt_prio_smp_def cpupri_set_def inc_rt_tasks_def dec_rt_tasks_def inc_rt_group_def start_rt_bandwidth_def
      enqueue_top_rt_rq_def enqueue_pushable_task_def dequeue_pushable_task_def Let_def view_simps)
    (simp add: rt_unlink_def ts_view_def)

lemma ts_view_rt_parts:
  "rt_link h c i p st = Some s \<Longrightarrow> ts_view s = ts_view st" "dequeue_top_rt_rq c st = Some s \<Longrightarrow> ts_view s = ts_view st"
  "delist_rt_entity p c st = Some s \<Longrightarrow> ts_view s = ts_view st"
  by (auto simp: rt_link_def dequeue_top_rt_rq_def delist_rt_entity_def Let_def view_simps split: if_splits)

lemma ts_view_rt_entity:
  "enqueue_rt_entity_raw p f st = Some s \<Longrightarrow> ts_view s = ts_view st" "dequeue_rt_entity_raw p f st = Some s \<Longrightarrow> ts_view s = ts_view st"
  "dequeue_rt_stack p f st = Some s \<Longrightarrow> ts_view s = ts_view st"
  by (auto simp: enqueue_rt_entity_raw_def dequeue_rt_entity_raw_def dequeue_rt_stack_def Let_def bind_eq_Some_conv view_simps
      dest!: ts_view_rt_parts split: if_splits)

lemma ts_view_balance [view_simps]: "ts_view (balance_loop period w me is st) = ts_view st"
proof (induction "is" arbitrary: st)
  case (Cons i "is")
  then show ?case by (simp add: Let_def add_runtime_def view_simps)
qed simp

lemma ts_view_exceeded: "sched_rt_runtime_exceeded c st = Some (b, s) \<Longrightarrow> ts_view s = ts_view st"
  by (auto simp: sched_rt_runtime_exceeded_def balance_runtime_def do_balance_runtime_def sched_rt_rq_dequeue_def Let_def bind_eq_Some_conv
      view_simps dest!: ts_view_rt_parts(2) split: if_splits)

lemma ts_view_update_curr_rt: "update_curr_rt c st = Some s \<Longrightarrow> ts_view s = ts_view st"
  by (auto simp: update_curr_rt_def Let_def bind_eq_Some_conv view_simps dest!: ts_view_exceeded split: if_splits)

text \<open>Hence no handler of the real-time class disturbs the time-sharing class.\<close>

lemma ts_view_rt_handlers:
  "enqueue_task_rt c p f st = Some s \<Longrightarrow> ts_view s = ts_view st" "dequeue_task_rt c p f st = Some s \<Longrightarrow> ts_view s = ts_view st"
  "requeue_task_rt c p h st = Some s \<Longrightarrow> ts_view s = ts_view st" "check_preempt_curr_rt env c p f st = Some s \<Longrightarrow> ts_view s = ts_view st"
  "task_tick_rt c p st = Some s \<Longrightarrow> ts_view s = ts_view st"
proof -
  have e: "enqueue_rt_entity p f st = Some s \<Longrightarrow> ts_view s = ts_view st" "dequeue_rt_entity p f st = Some s \<Longrightarrow> ts_view s = ts_view st" for p f st s
    by (auto simp: enqueue_rt_entity_def dequeue_rt_entity_def Let_def bind_eq_Some_conv view_simps dest!: ts_view_rt_entity)
  have r: "requeue_task_rt c p h st = Some s \<Longrightarrow> ts_view s = ts_view st" for c p h st s
    by (auto simp: requeue_task_rt_def requeue_rt_entity_def dest!: ts_view_rt_parts(1) split: if_splits) (simp add: view_simps)
  show "enqueue_task_rt c p f st = Some s \<Longrightarrow> ts_view s = ts_view st"
    by (auto simp: enqueue_task_rt_def Let_def bind_eq_Some_conv view_simps dest!: e(1) split: if_splits)
  show "dequeue_task_rt c p f st = Some s \<Longrightarrow> ts_view s = ts_view st"
    by (auto simp: dequeue_task_rt_def bind_eq_Some_conv view_simps dest!: e(2) ts_view_update_curr_rt)
  show "requeue_task_rt c p h st = Some s \<Longrightarrow> ts_view s = ts_view st" by (rule r)
  show "check_preempt_curr_rt env c p f st = Some s \<Longrightarrow> ts_view s = ts_view st"
    by (auto simp: check_preempt_curr_rt_def check_preempt_equal_prio_def bind_eq_Some_conv view_simps dest!: r split: if_splits)
  have w: "ts_view (watchdog c p st) = ts_view st" for st by (simp add: watchdog_def Let_def view_simps)
  have tail: "ts_view s = ts_view w"
    if "(if p_policy (tasks w p) \<noteq> SCHED_RR then Some w else if slice \<noteq> 0 then Some v
         else if b then do { st \<leftarrow> requeue_task_rt c p False v'; Some (resched_curr c st) } else Some v') = Some s"
      "ts_view v = ts_view w" "ts_view v' = ts_view w" for w v v' b and slice :: u32
    using that by (auto simp: bind_eq_Some_conv view_simps dest!: r split: if_splits)
  show "ts_view s = ts_view st" if t: "task_tick_rt c p st = Some s"
  proof -
    obtain u where u: "update_curr_rt c st = Some u" using t by (auto simp: task_tick_rt_def bind_eq_Some_conv)
    have "ts_view s = ts_view (watchdog c p u)"
      by (rule tail [OF t [unfolded task_tick_rt_def u bind.bind_lunit Let_def]]) (simp_all add: view_simps)
    then show ?thesis using w ts_view_update_curr_rt [OF u] by simp
  qed
qed

section \<open>What the real-time class tolerates\<close>

text \<open>The queues of the real-time class are as they were, and only tasks on no real-time list changed their priority or CPU.\<close>

definition rt_untouched :: "sched_state \<Rightarrow> sched_state \<Rightarrow> bool" where
  "rt_untouched st st' \<longleftrightarrow> (\<forall>c. rq_rt (rqs st' c) = rq_rt (rqs st c) \<and> rq_nr_running (rqs st' c) = rq_nr_running (rqs st c)) \<and>
     (\<forall>x. p_rt_on_list (tasks st' x) = p_rt_on_list (tasks st x) \<and> p_rt_on_rq (tasks st' x) = p_rt_on_rq (tasks st x) \<and>
        (p_rt_on_list (tasks st x) \<longrightarrow> prio_of st' x = prio_of st x \<and> p_cpu (tasks st' x) = p_cpu (tasks st x)))"

lemma rt_untouched_wf:
  assumes u: "rt_untouched st st'" and wf: "rt_wf st"
  shows "rt_wf st'" "rt_linked st' c x \<longleftrightarrow> rt_linked st c x"
proof -
  have q: "rtq st' c = rtq st c" "rq_nr_running (rqs st' c) = rq_nr_running (rqs st c)" for c using u by (simp_all add: rt_untouched_def)
  have t: "p_rt_on_list (tasks st' x) = p_rt_on_list (tasks st x)" "p_rt_on_rq (tasks st' x) = p_rt_on_rq (tasks st x)"
    "p_rt_on_list (tasks st x) \<Longrightarrow> prio_of st' x = prio_of st x \<and> p_cpu (tasks st' x) = p_cpu (tasks st x)" for x
    using u by (simp_all add: rt_untouched_def)
  have l: "rt_linked st' c x \<longleftrightarrow> rt_linked st c x" for c x by (simp add: rt_linked_def q)
  then show "rt_linked st' c x \<longleftrightarrow> rt_linked st c x" .
  have on: "p_rt_on_list (tasks st x) \<and> p_cpu (tasks st x) = c" if "rt_linked st c x" for c x
    using rt_linkedD(1) [OF wf that] that rt_wfD(5) [OF wf, of x] by simp
  have mem: "rt_linked st c x" if "i < 100" "x \<in> set (rt_queue (rtq st c) ! i)" for i c x
    using that rt_array_okD(1) [OF rt_wfD(1) [OF wf, of c]] by (auto simp: rt_linked_def qs_mem_nth)
  have "rt_members_ok st'"
    unfolding rt_members_ok_def l q(1)
  proof (intro conjI allI impI)
    fix c i x assume x: "i < 100" "x \<in> set (rt_queue (rtq st c) ! i)"
    then show "prio_of st' x = int i" "x < MAX_TASKS" "p_cpu (tasks st' x) = c"
      using on [OF mem [OF x]] t(3) [of x] rt_wfD(4) [OF wf, of i x c] by simp_all
  next
    fix x
    show "p_rt_on_list (tasks st' x) \<longleftrightarrow> rt_linked st (p_cpu (tasks st' x)) x"
    proof (cases "p_rt_on_list (tasks st x)")
      case True
      then have "p_cpu (tasks st' x) = p_cpu (tasks st x)" using t(3) by blast
      then show ?thesis using True t(1) [of x] rt_wfD(5) [OF wf, of x] by metis
    next
      case False
      then show ?thesis using on [of "p_cpu (tasks st' x)" x] t(1) [of x] by metis
    qed
    show "p_rt_on_rq (tasks st' x) = p_rt_on_list (tasks st' x)" using t [of x] rt_wfD(6) [OF wf, of x] by simp
  qed
  then show "rt_wf st'" using wf unfolding rt_wf_def rt_counts_ok_def rt_top_ok_def rt_rest_def q by blast
qed

lemma rt_untouched_refl [simp]: "rt_untouched st st" by (simp add: rt_untouched_def)

lemma rt_untouched_trans: "rt_untouched a b \<Longrightarrow> rt_untouched b c \<Longrightarrow> rt_untouched a c" by (simp add: rt_untouched_def)

lemma core_step_untouched: "core_step st st' \<Longrightarrow> rt_untouched st st'"
  by (simp add: core_step_def rt_untouched_def queue_view_def class_view_def)

lemma core_step_ts_view: "core_step st st' \<Longrightarrow> ts_view st' = ts_view st"
  by (simp add: core_step_def ts_view_def queue_view_def class_view_def)

lemma ts_handlers_untouched:
  "\<not> p_rt_on_list (tasks st p) \<Longrightarrow> enqueue_task_ts c p f st = Some s \<Longrightarrow> rt_untouched st s"
  "dequeue_task_ts c p f st = Some s \<Longrightarrow> rt_untouched st s"
  "\<not> p_rt_on_list (tasks st p) \<Longrightarrow> task_tick_ts c p st = Some s \<Longrightarrow> rt_untouched st s"
  by (auto simp: rt_untouched_def enqueue_task_ts_def dequeue_task_ts_def task_tick_ts_def ts_list_move_tail_def ts_list_add_tail_def ts_list_del_def
      ts_unlink_def Let_def bind_eq_Some_conv st_simps split: if_splits)

lemma ts_handlers_node:
  "enqueue_task_ts c p f st = Some s \<Longrightarrow> p_ts_node (tasks s x) = (if x = p then On_list else p_ts_node (tasks st x))"
  "dequeue_task_ts c p f st = Some s \<Longrightarrow> p_ts_node (tasks s x) = (if x = p then Poisoned else p_ts_node (tasks st x))"
  "task_tick_ts c p st = Some s \<Longrightarrow> x \<noteq> p \<Longrightarrow> p_ts_node (tasks s x) = p_ts_node (tasks st x)"
  by (auto simp: enqueue_task_ts_def dequeue_task_ts_def task_tick_ts_def ts_list_move_tail_def ts_list_add_tail_def ts_list_del_def
      ts_unlink_def Let_def bind_eq_Some_conv st_simps split: if_splits)

section \<open>Both classes together\<close>

text \<open>The invariant of the kernel: both classes are well-formed and no task is on lists of both.\<close>

definition sched_wf :: "sched_state \<Rightarrow> bool" where
  "sched_wf st \<longleftrightarrow> rt_wf st \<and> ts_wf st \<and> (\<forall>p. p_rt_on_list (tasks st p) \<longrightarrow> p_ts_node (tasks st p) \<noteq> On_list)"

text \<open>When a task may be put on the queues of its class, and when it is on them.\<close>

definition may_enqueue :: "sched_state \<Rightarrow> cpu \<Rightarrow> tid \<Rightarrow> u32 \<Rightarrow> bool" where
  "may_enqueue st c p f \<longleftrightarrow> (case p_class (tasks st p) of
       Rt_class \<Rightarrow> rt_ready st c p \<and> move_entity f \<and> p_ts_node (tasks st p) \<noteq> On_list
     | Ts_class \<Rightarrow> ts_ready st p \<and> \<not> p_rt_on_list (tasks st p) | _ \<Rightarrow> False)"

definition on_queue :: "sched_state \<Rightarrow> cpu \<Rightarrow> tid \<Rightarrow> bool" where
  "on_queue st c p \<longleftrightarrow> (case p_class (tasks st p) of Rt_class \<Rightarrow> rt_linked st c p | Ts_class \<Rightarrow> ts_linked st c p | _ \<Rightarrow> False)"

definition may_dequeue :: "sched_state \<Rightarrow> cpu \<Rightarrow> tid \<Rightarrow> u32 \<Rightarrow> bool" where
  "may_dequeue st c p f \<longleftrightarrow> on_queue st c p \<and> (p_class (tasks st p) = Rt_class \<longrightarrow> move_entity f)"

lemma queue_cases:
  assumes "on_queue st c p \<or> may_enqueue st c p f"
  obtains (rt) "p_class (tasks st p) = Rt_class" | (ts) "p_class (tasks st p) = Ts_class"
  using assms by (auto simp: on_queue_def may_enqueue_def split: sched_class.splits)

lemma sched_wf_rt:
  assumes wf: "sched_wf st" and w: "rt_wf st'" and v: "ts_view st' = ts_view st"
    and l: "\<And>d x. rt_linked st' d x \<Longrightarrow> rt_linked st d x \<or> p_ts_node (tasks st x) \<noteq> On_list"
  shows "sched_wf st'"
proof -
  have "p_ts_node (tasks st' x) \<noteq> On_list" if "p_rt_on_list (tasks st' x)" for x
  proof -
    have "rt_linked st' (p_cpu (tasks st' x)) x" using rt_wfD(5) [OF w] that by blast
    then have "rt_linked st (p_cpu (tasks st' x)) x \<or> p_ts_node (tasks st x) \<noteq> On_list" by (rule l)
    moreover have "p_rt_on_list (tasks st x)" if "rt_linked st d x" for d
      using rt_wfD(5) [of st x] rt_linkedD(1) [of st d x] that wf by (simp add: sched_wf_def)
    ultimately show ?thesis using wf ts_view_wf(4) [OF v, of x] by (auto simp: sched_wf_def)
  qed
  then show ?thesis using w wf ts_view_wf(1) [OF v] by (simp add: sched_wf_def)
qed

lemma sched_wf_ts:
  assumes wf: "sched_wf st" and w: "ts_wf st'" and u: "rt_untouched st st'"
    and n: "\<And>x. p_ts_node (tasks st' x) = On_list \<Longrightarrow> p_ts_node (tasks st x) = On_list \<or> \<not> p_rt_on_list (tasks st x)"
  shows "sched_wf st'"
proof -
  have "rt_wf st'" using rt_untouched_wf(1) [OF u] wf by (simp add: sched_wf_def)
  moreover have "p_rt_on_list (tasks st' x) = p_rt_on_list (tasks st x)" for x using u by (simp add: rt_untouched_def)
  ultimately show ?thesis using w wf n by (auto simp: sched_wf_def)
qed

lemma sched_wf_core: "core_step st st' \<Longrightarrow> sched_wf st \<Longrightarrow> sched_wf st'"
  using core_step_ts_view [of st st'] ts_view_wf [of st' st] core_step_untouched [of st st'] rt_untouched_wf(1) [of st st']
  by (auto simp: sched_wf_def rt_untouched_def)

lemma ts_task_off_rt:
  assumes "sched_wf st" "ts_linked st c p" shows "\<not> p_rt_on_list (tasks st p)"
  using assms by (auto simp: sched_wf_def ts_wf_def)

text \<open>Queueing and dequeueing through the core: they succeed and keep the invariant.\<close>

lemma enqueue_joint:
  assumes wf: "sched_wf st" and m: "may_enqueue st c p f"
  obtains st' where "enqueue_task env c p f st = Some st'" "sched_wf st'" "class_kept st st'" "\<And>d x. on_queue st d x \<Longrightarrow> on_queue st' d x" "on_queue st' c p"
proof -
  consider (rt) "p_class (tasks st p) = Rt_class" | (ts) "p_class (tasks st p) = Ts_class" using queue_cases [of st c p f] m by blast
  then show thesis
  proof cases
  case rt
  then have r: "rt_wf st" "rt_ready st c p" "move_entity f" "p_ts_node (tasks st p) \<noteq> On_list" using wf m by (simp_all add: sched_wf_def may_enqueue_def)
  obtain s where s: "enqueue_task env c p f st = Some s" "rt_wf s" "class_kept st s" "\<And>d x. rt_linked s d x \<longleftrightarrow> rt_linked st d x \<or> (d = c \<and> x = p)"
    using rt_mover.enqueue_total [OF r(1-3) rt] by blast
  have v: "ts_view s = ts_view st"
    using s(1) rt by (auto simp: enqueue_task_def class_enqueue_def Let_def st_simps view_simps dest!: ts_view_rt_handlers(1) split: if_splits)
  have cl: "p_class (tasks s x) = p_class (tasks st x)" for x using s(3) by (simp add: class_kept_def)
  show thesis
  proof (rule that [OF s(1) sched_wf_rt [OF wf s(2) v] s(3)])
    show "on_queue s d x" if "on_queue st d x" for d x
      using that s(4) ts_view_wf(2) [OF v] unfolding on_queue_def cl by (auto split: sched_class.splits)
    show "on_queue s c p" using s(4) rt by (simp add: on_queue_def cl)
  qed (use s(4) r(4) in auto)
next
  case ts
  then have r: "ts_wf st" "ts_ready st p" "\<not> p_rt_on_list (tasks st p)" using wf m by (simp_all add: sched_wf_def may_enqueue_def)
  obtain s where s: "enqueue_task env c p f st = Some s" "ts_wf s" "class_kept st s" "\<And>d x. ts_linked s d x \<longleftrightarrow> ts_linked st d x \<or> (d = c \<and> x = p)"
    using ts_mover.enqueue_total [OF r(1,2) TrueI ts] by blast
  define u where "u = (if \<not> has_flag f ENQUEUE_NOCLOCK then update_rq_clock c st else st)"
  have u: "core_step st u" "tasks u = tasks st" by (simp_all add: u_def clock_steps st_simps)
  have e: "enqueue_task_ts c p f u = Some s" using s(1) ts u(2) by (simp add: enqueue_task_def class_enqueue_def u_def Let_def)
  have t: "rt_untouched st s" using rt_untouched_trans [OF core_step_untouched [OF u(1)] ts_handlers_untouched(1) [OF _ e]] r(3) u(2) by simp
  have cl: "p_class (tasks s x) = p_class (tasks st x)" for x using s(3) by (simp add: class_kept_def)
  show thesis
  proof (rule that [OF s(1) sched_wf_ts [OF wf s(2) t] s(3)])
    show "on_queue s d x" if "on_queue st d x" for d x
      using that s(4) rt_untouched_wf(2) [OF t] wf unfolding on_queue_def cl sched_wf_def by (auto split: sched_class.splits)
    show "on_queue s c p" using s(4) ts by (simp add: on_queue_def cl)
    show "p_ts_node (tasks st x) = On_list \<or> \<not> p_rt_on_list (tasks st x)" if "p_ts_node (tasks s x) = On_list" for x
      using that ts_handlers_node(1) [OF e, of x] r(3) u(2) by (auto split: if_splits)
  qed
  qed
qed

lemma dequeue_joint:
  assumes wf: "sched_wf st" and m: "may_dequeue st c p f"
  obtains st' where "dequeue_task env c p f st = Some st'" "sched_wf st'" "may_enqueue st' c p 0"
proof -
  have q: "on_queue st c p" using m by (simp add: may_dequeue_def)
  then consider (rt) "p_class (tasks st p) = Rt_class" | (ts) "p_class (tasks st p) = Ts_class" using queue_cases [of st c p f] by blast
  then show thesis
  proof cases
    case rt
    then have r: "rt_wf st" "rt_linked st c p" "move_entity f" using wf m by (simp_all add: sched_wf_def may_dequeue_def on_queue_def)
    obtain s where s: "dequeue_task env c p f st = Some s" "rt_wf s" "rt_ready s c p" "class_kept st s" "\<And>d x. rt_linked s d x \<longleftrightarrow> rt_linked st d x \<and> x \<noteq> p"
      using rt_mover.dequeue_total [OF r(1-3) rt] by blast
    have v: "ts_view s = ts_view st"
      using s(1) rt by (auto simp: dequeue_task_def class_dequeue_def Let_def st_simps view_simps dest!: ts_view_rt_handlers(2) split: if_splits)
    have "p_ts_node (tasks s p) \<noteq> On_list"
      using ts_view_wf(4) [OF v, of p] rt_linkedD(1) [OF r(1,2)] rt_wfD(5) [OF r(1), of p] r(2) wf by (auto simp: sched_wf_def)
    then have "may_enqueue s c p 0" using s(3,4) rt move_entity_0 by (simp add: may_enqueue_def class_kept_def)
    then show thesis using that [OF s(1)] sched_wf_rt [OF wf s(2) v] s(5) by blast
  next
    case ts
    then have r: "ts_wf st" "ts_linked st c p" using wf q by (simp_all add: sched_wf_def on_queue_def)
    obtain s where s: "dequeue_task env c p f st = Some s" "ts_wf s" "ts_ready s p" "class_kept st s" "\<And>d x. ts_linked s d x \<longleftrightarrow> ts_linked st d x \<and> x \<noteq> p"
      using ts_mover.dequeue_total [OF r TrueI ts] by blast
    define u where "u = (if \<not> has_flag f DEQUEUE_NOCLOCK then update_rq_clock c st else st)"
    have u: "core_step st u" "tasks u = tasks st" by (simp_all add: u_def clock_steps st_simps)
    have e: "dequeue_task_ts c p f u = Some s" using s(1) ts u(2) by (simp add: dequeue_task_def class_dequeue_def u_def Let_def)
    have t: "rt_untouched st s" using rt_untouched_trans [OF core_step_untouched [OF u(1)] ts_handlers_untouched(2) [OF e]] .
    have "sched_wf s" by (rule sched_wf_ts [OF wf s(2) t]) (use ts_handlers_node(2) [OF e] u(2) in \<open>auto split: if_splits\<close>)
    moreover have "may_enqueue s c p 0"
      using s(3,4) ts t ts_task_off_rt [OF wf r(2)] by (simp add: may_enqueue_def class_kept_def rt_untouched_def)
    ultimately show thesis using that [OF s(1)] by blast
  qed
qed

text \<open>Assigning a task that is on no queue to another CPU.\<close>

lemma retarget_joint:
  assumes wf: "sched_wf st" and m: "may_enqueue st c p 0"
  shows "sched_wf (set_task_cpu env p d st)" "may_enqueue (set_task_cpu env p d st) d p 0" "p_cpu (tasks (set_task_cpu env p d st) p) = d"
proof -
  let ?s = "set_task_cpu env p d st"
  have off: "\<not> p_rt_on_list (tasks st p)" using m by (auto simp: may_enqueue_def rt_ready_def split: sched_class.splits)
  have "class_migrate env (p_class (tasks st p)) = None" using m by (auto simp: may_enqueue_def class_migrate_def split: sched_class.splits)
  note s = set_task_cpu_step [OF this, of d]
  note v = core_step_views(3,4) [OF s(1)]
  have u: "rt_untouched st ?s" using s(1) off by (simp add: cpu_step_def rt_untouched_def queue_view_def class_view_def)
  have n: "p_ts_node (tasks ?s x) = p_ts_node (tasks st x)" for x using v(2) by (simp add: class_view_def)
  show "sched_wf ?s" by (rule sched_wf_ts [OF wf _ u]) (use ts_views(1) [OF v] wf n in \<open>simp_all add: sched_wf_def\<close>)
  have "rt_wf st" using wf by (simp add: sched_wf_def)
  then show "may_enqueue ?s d p 0"
    using m cpu_step_rt(2) [OF s(1)] ts_views(3) [OF v] n u unfolding may_enqueue_def s(2) by (auto simp: rt_untouched_def split: sched_class.splits)
  show "p_cpu (tasks ?s p) = d" using s(1) by (simp add: cpu_step_def)
qed

lemma check_preempt_joint:
  assumes wf: "sched_wf st" and q: "on_queue st c p"
  obtains st' where "check_preempt_curr env c p f st = Some st'" "sched_wf st'"
proof -
  consider (rt) "p_class (tasks st p) = Rt_class" | (ts) "p_class (tasks st p) = Ts_class" using queue_cases [of st c p f] q by blast
  then show thesis
  proof cases
    case rt
    then have r: "rt_wf st" "rt_linked st c p" using wf q by (simp_all add: sched_wf_def on_queue_def)
    obtain s where s: "check_preempt_curr env c p f st = Some s" "rt_wf s" "\<And>d x. rt_linked s d x \<longleftrightarrow> rt_linked st d x"
      using rt_mover.check_preempt_total [OF r rt] by blast
    have v: "ts_view s = ts_view st"
      using s(1) rt by (auto simp: check_preempt_curr_def class_check_preempt_def Let_def bind_eq_Some_conv view_simps
          dest!: ts_view_rt_handlers(4) split: if_splits)
    show thesis using that [OF s(1)] sched_wf_rt [OF wf s(2) v] s(3) by blast
  next
    case ts
    then have r: "ts_wf st" "ts_linked st c p" using wf q by (simp_all add: sched_wf_def on_queue_def)
    obtain s where s: "check_preempt_curr env c p f st = Some s" using ts_mover.check_preempt_total [OF r ts] by blast
    have "core_step st s"
      using s ts core_steps(1) [of st c] core_steps(1,3) core_step_trans
      by (auto simp: check_preempt_curr_def class_check_preempt_def check_preempt_curr_ts_def Let_def split: if_splits) blast+
    then show thesis using that [OF s] sched_wf_core [OF _ wf] by blast
  qed
qed

text \<open>Moving a queued task to another CPU is the composition of these.\<close>

lemma core_step_queue: "core_step st st' \<Longrightarrow> on_queue st' c p \<longleftrightarrow> on_queue st c p" "core_step st st' \<Longrightarrow> may_enqueue st' c p f \<longleftrightarrow> may_enqueue st c p f"
proof -
  assume c: "core_step st st'"
  have cl: "p_class (tasks st' p) = p_class (tasks st p)" "p_rt_on_list (tasks st' p) = p_rt_on_list (tasks st p)"
    "p_ts_node (tasks st' p) = p_ts_node (tasks st p)" using c by (simp_all add: core_step_def class_view_def)
  note facts = rt_mover.core_queued [OF c] ts_mover.core_queued [OF c] rt_mover.core_ready [OF c] ts_mover.core_ready [OF c]
  show "on_queue st' c p \<longleftrightarrow> on_queue st c p" "may_enqueue st' c p f \<longleftrightarrow> may_enqueue st c p f"
    unfolding on_queue_def may_enqueue_def cl facts by (rule refl)+
qed

lemma move_joint:
  assumes wf: "sched_wf st" and q: "on_queue st c p"
  obtains st' where "move_queued_task env c p new st = Some st'" "sched_wf st'"
proof -
  let ?u = "upd_task p (\<lambda>t. t\<lparr>p_on_rq := TASK_ON_RQ_MIGRATING\<rparr>) st"
  note u = core_steps(7) [of st p TASK_ON_RQ_MIGRATING]
  have "may_dequeue ?u c p DEQUEUE_NOCLOCK" using core_step_queue(1) [OF u] q rt_mover.flags_ok(2) by (simp add: may_dequeue_def)
  then obtain s where s: "dequeue_task env c p DEQUEUE_NOCLOCK ?u = Some s" "sched_wf s" "may_enqueue s c p 0"
    using dequeue_joint [OF sched_wf_core [OF u wf]] by blast
  note r = retarget_joint [OF s(2,3), of env new]
  obtain w where w: "enqueue_task env new p 0 (set_task_cpu env p new s) = Some w" "sched_wf w" "on_queue w new p"
    using enqueue_joint [OF r(1,2)] by blast
  note k = core_steps(7) [of w p TASK_ON_RQ_QUEUED]
  obtain t where "check_preempt_curr env new p 0 (upd_task p (\<lambda>t. t\<lparr>p_on_rq := TASK_ON_RQ_QUEUED\<rparr>) w) = Some t" "sched_wf t"
    using check_preempt_joint [OF sched_wf_core [OF k w(2)]] core_step_queue(1) [OF k] w(3) by blast
  then show thesis using that [of t] s(1) w(1) r(3) by (simp add: move_queued_task_def Let_def)
qed

section \<open>The tick\<close>

lemma rt_tick_total:
  assumes wf: "rt_wf st" and l: "rt_linked st c p"
  obtains st' where "task_tick_rt c p st = Some st'" "rt_wf st'" "\<And>d x. rt_linked st' d x \<longleftrightarrow> rt_linked st d x"
proof -
  obtain u where u: "update_curr_rt c st = Some u" "rt_quiet st u" using update_curr_rt_quiet [OF wf] by blast
  define w where "w = watchdog c p u"
  let ?slice = "\<lambda>v. upd_task p (\<lambda>t. t\<lparr>p_rt_time_slice := v\<rparr>)"
  have slice: "rt_quiet s (?slice v s)" for v s by (rule upd_task_quiet) (simp add: rt_same_tasks_def st_simps)
  have w: "rt_quiet st w" unfolding w_def by (rule rt_quiet_trans [OF u(2) watchdog_quiet(1)])
  note done_by = that
  have quiet: thesis if t: "task_tick_rt c p st = Some s" and q: "rt_quiet st s" for s
    by (rule done_by [OF t rt_quiet_wf [OF q wf] rt_quietD(2) [OF q]])
  let ?v = "?slice (p_rt_time_slice (tasks w p) - 1) w"
  let ?x = "?slice (rr_timeslice ?v) ?v"
  have v: "rt_quiet st ?v" using rt_quiet_trans [OF w slice] .
  have x: "rt_quiet st ?x" using rt_quiet_trans [OF v slice] .
  have lx: "rt_linked ?x c p" using rt_quietD(2) [OF x] l by simp
  obtain y where y: "requeue_task_rt c p False ?x = Some y" "rt_wf y" "\<And>d z. rt_linked y d z \<longleftrightarrow> rt_linked ?x d z"
    by (rule requeue_task_rt_linked [OF rt_quiet_wf [OF x wf] lx]) (rule that; assumption)
  have tick: "task_tick_rt c p st = (if p_policy (tasks w p) \<noteq> SCHED_RR then Some w else if p_rt_time_slice (tasks w p) - 1 \<noteq> 0 then Some ?v
      else if rt_has_company (rt_rq_of_se ?x p) p ?x then Some (resched_curr c y) else Some ?x)"
    by (simp only: task_tick_rt_def u(1) bind.bind_lunit Let_def w_def [symmetric] y(1))
  show thesis
  proof (cases "task_tick_rt c p st = Some (resched_curr c y)")
    case True
    show thesis
      by (rule that [OF True rt_quiet_wf [OF resched_quiet y(2)]])
        (use rt_quietD(2) [OF resched_quiet] y(3) rt_quietD(2) [OF x] in blast)
  next
    case False
    then show thesis using tick quiet [OF _ w] quiet [OF _ v] quiet [OF _ x] by (auto split: if_splits)
  qed
qed

lemma ts_tick_total:
  assumes wf: "ts_wf st" and l: "ts_linked st c p"
  obtains st' where "task_tick_ts c p st = Some st'" "ts_wf st'" "\<And>d x. ts_linked st' d x \<longleftrightarrow> ts_linked st d x"
proof (cases "p_policy (tasks st p) = SCHED_TS \<and> p_ts_time_slice (tasks st p) = 1")
  case True
  then show thesis using task_tick_ts_expired [OF wf l] that by metis
next
  case False
  let ?u = "upd_task p (\<lambda>t. t\<lparr>p_ts_time_slice := p_ts_time_slice (tasks st p) - 1\<rparr>) st"
  have v: "ts_view ?u = ts_view st" by (simp add: view_simps)
  have "task_tick_ts c p st = Some st \<or> task_tick_ts c p st = Some ?u" using False by (auto simp: task_tick_ts_def Let_def)
  then show thesis using that [of st] that [of ?u] wf ts_view_wf(1,2) [OF v] by blast
qed

text \<open>The timer interrupt on a CPU whose current task is queued there.\<close>

lemma tick_joint:
  assumes wf: "sched_wf st" and q: "on_queue st (this_cpu st) (curr_of st (this_cpu st))"
  obtains st' where "scheduler_tick env st = Some st'" "sched_wf st'"
proof -
  define c where "c = this_cpu st"
  define p where "p = curr_of st c"
  define u where "u = update_rq_clock c st"
  have u: "core_step st u" "tasks u = tasks st" by (simp_all add: u_def clock_steps st_simps)
  have wu: "sched_wf u" "on_queue u c p" using sched_wf_core [OF u(1) wf] core_step_queue(1) [OF u(1)] q by (simp_all add: c_def p_def)
  have tick: "scheduler_tick env st = class_tick env (p_class (tasks u p)) c p u" by (simp add: scheduler_tick_def Let_def c_def p_def u_def)
  consider (rt) "p_class (tasks u p) = Rt_class" | (ts) "p_class (tasks u p) = Ts_class" using queue_cases [of u c p 0] wu(2) by blast
  then show thesis
  proof cases
    case rt
    then have r: "rt_wf u" "rt_linked u c p" using wu by (simp_all add: sched_wf_def on_queue_def)
    obtain s where s: "task_tick_rt c p u = Some s" "rt_wf s" "\<And>d x. rt_linked s d x \<longleftrightarrow> rt_linked u d x" using rt_tick_total [OF r] by blast
    have "sched_wf s" using sched_wf_rt [OF wu(1) s(2) ts_view_rt_handlers(5) [OF s(1)]] s(3) by blast
    then show thesis using that [of s] tick rt s(1) by (simp add: class_tick_def)
  next
    case ts
    then have r: "ts_wf u" "ts_linked u c p" using wu by (simp_all add: sched_wf_def on_queue_def)
    obtain s where s: "task_tick_ts c p u = Some s" "ts_wf s" "\<And>d x. ts_linked s d x \<longleftrightarrow> ts_linked u d x" using ts_tick_total [OF r] by blast
    note off = ts_task_off_rt [OF wu(1) r(2)]
    have "sched_wf s"
      by (rule sched_wf_ts [OF wu(1) s(2) ts_handlers_untouched(3) [OF off s(1)]]) (use ts_handlers_node(3) [OF s(1)] off in metis)
    then show thesis using that [of s] tick ts s(1) by (simp add: class_tick_def)
  qed
qed

section \<open>The kernel as a state machine\<close>

text \<open>A task on no list of either class, and the fields that say so.\<close>

definition off_lists :: "task_struct \<Rightarrow> bool" where
  "off_lists t \<longleftrightarrow> \<not> p_rt_on_list t \<and> \<not> p_rt_on_rq t \<and> p_ts_node t \<noteq> On_list"

text \<open>
  One step of the kernel, from a state to the result of an operation, \<open>None\<close> being a fault: a task is activated or deactivated,
  a queued task moves to another CPU or is compared with the running one, the timer interrupts a CPU, a task that is on no
  list is changed in any way (a new policy, priority, affinity, CPU, or a new task altogether), or
  something happens elsewhere: clocks, flags, the current tasks, the priorities and CPUs of tasks the classes do not hold.
\<close>

inductive sched_step :: "kernel_env \<Rightarrow> sched_state option \<Rightarrow> sched_state option \<Rightarrow> bool" for env where
  Activate: "may_enqueue st c p f \<Longrightarrow> sched_step env (Some st) (activate_task env c p f st)"
| Deactivate: "may_dequeue st c p f \<Longrightarrow> sched_step env (Some st) (deactivate_task env c p f st)"
| Move: "on_queue st c p \<Longrightarrow> sched_step env (Some st) (move_queued_task env c p new st)"
| Preempt: "on_queue st c p \<Longrightarrow> sched_step env (Some st) (check_preempt_curr env c p f st)"
| Tick: "on_queue st (this_cpu st) (curr_of st (this_cpu st)) \<Longrightarrow> sched_step env (Some st) (scheduler_tick env st)"
| Change: "off_lists (tasks st p) \<Longrightarrow> off_lists t \<Longrightarrow> sched_step env (Some st) (Some (upd_task p (\<lambda>_. t) st))"
| Elsewhere: "rt_untouched st st' \<Longrightarrow> ts_view st' = ts_view st \<Longrightarrow> sched_step env (Some st) (Some st')"

inductive_cases sched_stepE: "sched_step env s s'"

definition sched_ok :: "sched_state option \<Rightarrow> bool" where
  "sched_ok s \<longleftrightarrow> (case s of None \<Rightarrow> False | Some st \<Rightarrow> sched_wf st)"

lemma sched_ok_simps [simp]: "\<not> sched_ok None" "sched_ok (Some st) \<longleftrightarrow> sched_wf st"
  by (simp_all add: sched_ok_def)

lemma load_step: "core_step st (if b then upd_rq c (\<lambda>r. r\<lparr>rq_nr_unint := f r\<rparr>) st else st)"
  by (simp add: core_steps)

lemma activate_joint:
  assumes wf: "sched_wf st" and m: "may_enqueue st c p f"
  obtains st' where "activate_task env c p f st = Some st'" "sched_wf st'" "class_kept st st'" "on_queue st' c p"
proof -
  let ?u = "if task_contributes_to_load (tasks st p) then upd_rq c (\<lambda>r. r\<lparr>rq_nr_unint := rq_nr_unint r - 1\<rparr>) st else st"
  have u: "core_step st ?u" by (rule load_step)
  have "may_enqueue ?u c p f" using m core_step_queue(2) [OF u] by blast
  then obtain s where s: "enqueue_task env c p f ?u = Some s" "sched_wf s" "class_kept ?u s" "on_queue s c p"
    using enqueue_joint [OF sched_wf_core [OF u wf]] by blast
  have "activate_task env c p f st = Some s" using s(1) by (simp add: activate_task_def Let_def)
  moreover have "class_kept st s" by (rule class_kept_trans [OF _ s(3)]) (simp add: core_steps)
  ultimately show thesis using that s(2,4) by blast
qed

lemma deactivate_joint: "sched_wf st \<Longrightarrow> may_dequeue st c p f \<Longrightarrow> sched_ok (deactivate_task env c p f st)"
proof -
  assume wf: "sched_wf st" and m: "may_dequeue st c p f"
  let ?u = "if task_contributes_to_load (tasks st p) then upd_rq c (\<lambda>r. r\<lparr>rq_nr_unint := rq_nr_unint r + 1\<rparr>) st else st"
  have u: "core_step st ?u" by (rule load_step)
  have "may_dequeue ?u c p f" using m core_step_queue(1) [OF u] by (simp add: may_dequeue_def st_simps)
  then obtain s where "dequeue_task env c p f ?u = Some s" "sched_wf s" using dequeue_joint [OF sched_wf_core [OF u wf]] by blast
  then show ?thesis by (simp add: deactivate_task_def Let_def)
qed

lemma change_joint:
  assumes wf: "sched_wf st" and o: "off_lists (tasks st p)" "off_lists t"
  shows "sched_wf (upd_task p (\<lambda>_. t) st)"
proof -
  let ?s = "upd_task p (\<lambda>_. t) st"
  have u: "rt_untouched st ?s" using o by (auto simp: rt_untouched_def st_simps off_lists_def)
  have l: "ts_linked ?s c x \<longleftrightarrow> ts_linked st c x" for c x by (simp add: ts_linked_def st_simps)
  have w: "ts_wf st" using wf by (simp add: sched_wf_def)
  have off: "\<not> ts_linked st c p" for c using w o(1) by (auto simp: ts_wf_def off_lists_def)
  have "p \<notin> set (rq_ts (rqs st c) ! i)" if "i < 40" for c i
    using off [of c] that ts_wfD(1) [OF w, of c] by (auto simp: ts_linked_def qs_mem_nth)
  then have "ts_wf ?s"
    using w off o unfolding ts_wf_def l by (auto simp: st_simps ts_level_def off_lists_def)
  then show ?thesis by (rule sched_wf_ts [OF wf _ u]) (use o in \<open>auto simp: st_simps off_lists_def split: if_splits\<close>)
qed

lemma elsewhere_joint: "sched_wf st \<Longrightarrow> rt_untouched st st' \<Longrightarrow> ts_view st' = ts_view st \<Longrightarrow> sched_wf st'"
  using sched_wf_ts [of st st'] ts_view_wf(1,4) [of st' st] by (simp add: sched_wf_def)

lemma sched_step_ok: "sched_step env s s' \<Longrightarrow> sched_ok s \<Longrightarrow> sched_ok s'"
proof (induction rule: sched_step.induct)
  case (Activate st c p f)
  then show ?case using activate_joint [of st c p f env] by (metis sched_ok_simps(2))
next
  case (Move st c p new)
  then show ?case using move_joint [of st c p env new] by (metis sched_ok_simps(2))
next
  case (Preempt st c p f)
  then show ?case using check_preempt_joint [of st c p env f] by (metis sched_ok_simps(2))
next
  case (Tick st)
  then show ?case using tick_joint [of st env] by (metis sched_ok_simps(2))
qed (auto intro: deactivate_joint change_joint elsewhere_joint)

interpretation kernel: step_invariant "sched_step env" sched_ok for env
  by unfold_locales (rule sched_step_ok)

text \<open>What the invariant says of the tasks on lists.\<close>

lemma sched_wf_separate:
  assumes wf: "sched_wf st"
  shows "rt_wf st" "ts_wf st"
    "rt_linked st c p \<Longrightarrow> \<not> ts_linked st d p \<and> (rt_linked st d p \<longrightarrow> d = c) \<and> p_cpu (tasks st p) = c \<and> 0 \<le> prio_of st p \<and> prio_of st p < 100"
    "ts_linked st c p \<Longrightarrow> (ts_linked st d p \<longrightarrow> d = c) \<and> 100 \<le> prio_of st p \<and> prio_of st p \<le> 139"
proof -
  show w: "rt_wf st" "ts_wf st" using wf by (simp_all add: sched_wf_def)
  show "rt_linked st c p \<Longrightarrow> \<not> ts_linked st d p \<and> (rt_linked st d p \<longrightarrow> d = c) \<and> p_cpu (tasks st p) = c \<and> 0 \<le> prio_of st p \<and> prio_of st p < 100"
    using rt_linkedD [OF w(1), of c p] rt_linkedD(1) [OF w(1), of d p] ts_task_off_rt [OF wf, of d p] by blast
  show "ts_linked st c p \<Longrightarrow> (ts_linked st d p \<longrightarrow> d = c) \<and> 100 \<le> prio_of st p \<and> prio_of st p \<le> 139"
    using ts_linked_level(1,2) [OF w(2), of c p] ts_wfD(5) [OF w(2), of c p d] by (auto simp: ts_level_def)
qed

text \<open>
  C1: The scheduler with both classes never faults. From what \<open>sched_init\<close> leaves, in every interleaving of activations, deactivations, moves,
  preemption checks, ticks, changes of tasks off the queues, and steps elsewhere, no operation reaches a \<open>BUG\<close>, a bad index or a broken
  list; both classes' run queues stay well-formed on every CPU, no task is ever on lists of both classes or of
  two CPUs, and every task on a list belongs to that CPU and that priority.
\<close>

theorem kernel_never_faults:
  assumes "boot_env_ok be" "boot_zero st0" "\<And>c. c \<notin> set (env_possible_mask env) \<Longrightarrow> rq_fresh st0 c"
    and "MAX_RT_PRIO \<le> p_static_prio (tasks st0 boot)" "p_static_prio (tasks st0 boot) < MAX_RT_PRIO + 40"
  shows "\<exists>st1. sched_init env be boot st0 = Some st1 \<and>
    (\<forall>r. (sched_step env)\<^sup>*\<^sup>* (Some st1) r \<longrightarrow> (\<exists>st. r = Some st \<and> rt_wf st \<and> ts_wf st \<and>
       (\<forall>c d p. rt_linked st c p \<longrightarrow> \<not> ts_linked st d p \<and> (rt_linked st d p \<longrightarrow> d = c) \<and> p_cpu (tasks st p) = c \<and> 0 \<le> prio_of st p \<and> prio_of st p < 100) \<and>
       (\<forall>c d p. ts_linked st c p \<longrightarrow> (ts_linked st d p \<longrightarrow> d = c) \<and> 100 \<le> prio_of st p \<and> prio_of st p \<le> 139)))"
proof -
  obtain st1 where st1: "sched_init env be boot st0 = Some st1" "sched_ok (Some st1)"
    using sched_init_establishes [of be st0 env boot] assms by (auto simp: sched_wf_def)
  have "\<exists>st. r = Some st \<and> sched_wf st" if "(sched_step env)\<^sup>*\<^sup>* (Some st1) r" for r
    using kernel.reach_inv [OF that st1(2)] by (cases r) simp_all
  then show ?thesis using st1(1) sched_wf_separate by blast
qed

text \<open>After start-up task 2 becomes a real-time task of CPU 0 and is activated.\<close>

theorem kernel_never_faults_witness:
  "\<exists>st1 st. sched_init blank_env demo_boot_env 0 blank_state = Some st1 \<and> (sched_step blank_env)\<^sup>*\<^sup>* (Some st1) (Some st) \<and>
     rt_linked st 0 2 \<and> rt_wf st \<and> ts_wf st \<and> \<not> ts_linked st 0 2"
proof -
  note h = demo_boot(1,2) demo_boot(3) demo_boot(4,5)
  obtain st1 where st1: "sched_init blank_env demo_boot_env 0 blank_state = Some st1"
    "\<And>r. (sched_step blank_env)\<^sup>*\<^sup>* (Some st1) r \<Longrightarrow> \<exists>st. r = Some st \<and> rt_wf st \<and> ts_wf st \<and> (\<forall>c d p. rt_linked st c p \<longrightarrow> \<not> ts_linked st d p)"
    using kernel_never_faults [OF h, of blank_env] by blast
  have off: "off_lists (tasks st1 2)" "sched_wf st1"
    using sched_init_establishes [OF h, of blank_env] st1(1) by (auto simp: off_lists_def sched_wf_def)
  define t where "t = (tasks st1 2)\<lparr>p_class := Rt_class, p_prio := 50, p_cpu := 0\<rparr>"
  define st2 where "st2 = upd_task 2 (\<lambda>_. t) st1"
  have o: "off_lists t" using off(1) by (simp add: off_lists_def t_def)
  have c: "sched_step blank_env (Some st1) (Some st2)" unfolding st2_def by (rule sched_step.Change [OF off(1) o])
  have m: "may_enqueue st2 0 2 0"
    using o by (simp add: may_enqueue_def rt_ready_def off_lists_def st2_def t_def st_simps move_entity_0 MAX_TASKS_def)
  obtain st where st: "activate_task blank_env 0 2 0 st2 = Some st" "on_queue st 0 2" "class_kept st2 st"
    using activate_joint [OF _ m] change_joint [OF off(2,1) o] unfolding st2_def by blast
  have r: "(sched_step blank_env)\<^sup>*\<^sup>* (Some st1) (Some st)"
    using converse_rtranclp_into_rtranclp [where r = "sched_step blank_env", OF c] sched_step.Activate [OF m, of blank_env] st(1) by auto
  have cl: "p_class (tasks st 2) = Rt_class"
    using st(3) by (simp add: class_kept_def st2_def t_def st_simps)
  show ?thesis using st1(1) st1(2) [OF r] r st(2) cl by (auto simp: on_queue_def)
qed

end
