(* ===== verification/Sched_Locks.thy ===== *)
theory Sched_Locks
  imports Sched_Types
begin

text \<open>
  The locking of the scheduler as interleaved threads: \<open>rq_lock\<close>, \<open>task_rq_lock\<close> and \<open>__task_rq_lock\<close>, \<open>move_queued_task\<close>, which gives up
  one run queue before it has the other, the wake-up, which owns the task but no run queue, \<open>double_lock_balance\<close>, \<open>double_rq_lock\<close> and \<open>double_raw_lock\<close>
  (\<open>core.c\<close>, \<open>sched.h\<close>). One step is one lock operation or one access to a shared field; a thread is a program counter. Shared are the owners of the
  locks and, of every task, \<open>cpu\<close> and \<open>on_rq\<close>. The theory shows that the fields are stable under \<open>task_rq_lock\<close> and that no set of threads deadlocks.
\<close>

section \<open>Locks and their order\<close>

datatype lock = Pi_lock tid | Rq_lock cpu

text \<open>The order of nesting: \<open>pi_lock\<close> before the run queues, and each kind by address.\<close>

instantiation lock :: linorder
begin

fun less_eq_lock :: "lock \<Rightarrow> lock \<Rightarrow> bool" where
  "less_eq_lock (Pi_lock p) (Pi_lock q) = (p \<le> q)"
| "less_eq_lock (Pi_lock p) (Rq_lock c) = True"
| "less_eq_lock (Rq_lock c) (Pi_lock p) = False"
| "less_eq_lock (Rq_lock c) (Rq_lock d) = (c \<le> d)"

definition less_lock :: "lock \<Rightarrow> lock \<Rightarrow> bool" where
  "less_lock l m \<longleftrightarrow> l \<le> m \<and> \<not> m \<le> l"

instance
proof
  fix x y z :: lock
  show "x < y \<longleftrightarrow> x \<le> y \<and> \<not> y \<le> x" by (rule less_lock_def)
  show "x \<le> x" by (cases x) simp_all
  show "x \<le> y \<Longrightarrow> y \<le> z \<Longrightarrow> x \<le> z" by (cases x; cases y; cases z) simp_all
  show "x \<le> y \<Longrightarrow> y \<le> x \<Longrightarrow> x = y" by (cases x; cases y) simp_all
  show "x \<le> y \<or> y \<le> x" by (cases x; cases y) auto
qed

end

lemma less_lock_simps [simp]:
  "Pi_lock p < Pi_lock q \<longleftrightarrow> p < q" "Pi_lock p < Rq_lock c" "\<not> Rq_lock c < Pi_lock p" "Rq_lock c < Rq_lock d \<longleftrightarrow> c < d"
  by (auto simp: less_lock_def)

section \<open>Threads\<close>

text \<open>
  Where a thread is. The flag of the \<open>Trl_\<close> locations tells \<open>task_rq_lock\<close>, which takes \<open>pi_lock\<close> itself, from \<open>__task_rq_lock\<close>, whose caller
  holds it. \<open>Both ps c d\<close> holds two run queues (one, when they are the same) and the \<open>pi_lock\<close> of the tasks \<open>ps\<close>.
\<close>

datatype pc =
    Idle | Bug
  | Rq_want cpu | Rq_has cpu
  | Pi_want tid | Pi_has tid
  | Trl_pi tid | Trl_read bool tid | Trl_rq bool tid cpu | Trl_check bool tid cpu | Trl_drop bool tid cpu | Trl_drop_pi tid | Trl_spin bool tid
  | Trl_has tid cpu | Tru_pi tid
  | Mq_set tid cpu cpu | Mq_unlock tid cpu cpu | Mq_lock tid cpu | Mq_check tid cpu | Mq_enq tid cpu
  | Wake_rq tid cpu | Wake_has tid cpu | Wake_done tid cpu
  | Dlb_try cpu cpu | Dlb_drop cpu cpu | Dlb_first cpu cpu | Dlb_second cpu cpu | Dlb_wait cpu cpu
  | Drl "tid list" cpu cpu | Drl_second "tid list" cpu cpu | Both "tid list" cpu cpu | Drl_half "tid list" cpu
  | Dpl tid tid | Dpl_second tid tid | Dpl_has tid tid

record lstate =
  l_owner :: "lock \<Rightarrow> nat option"
  l_cpu :: "tid \<Rightarrow> cpu"
  l_on_rq :: "tid \<Rightarrow> int"
  l_pc :: "nat \<Rightarrow> pc"

definition goto :: "nat \<Rightarrow> pc \<Rightarrow> lstate \<Rightarrow> lstate" where
  "goto t k s = s\<lparr>l_pc := (l_pc s)(t := k)\<rparr>"

definition acquire :: "nat \<Rightarrow> lock \<Rightarrow> pc \<Rightarrow> lstate \<Rightarrow> lstate" where
  "acquire t l k s = goto t k (s\<lparr>l_owner := (l_owner s)(l := Some t)\<rparr>)"

definition release :: "nat \<Rightarrow> lock \<Rightarrow> pc \<Rightarrow> lstate \<Rightarrow> lstate" where
  "release t l k s = goto t k (s\<lparr>l_owner := (l_owner s)(l := None)\<rparr>)"

definition put_cpu :: "tid \<Rightarrow> cpu \<Rightarrow> lstate \<Rightarrow> lstate" where
  "put_cpu p c s = s\<lparr>l_cpu := (l_cpu s)(p := c)\<rparr>"

definition put_on_rq :: "tid \<Rightarrow> int \<Rightarrow> lstate \<Rightarrow> lstate" where
  "put_on_rq p v s = s\<lparr>l_on_rq := (l_on_rq s)(p := v)\<rparr>"

lemmas lstate_ops = goto_def acquire_def release_def put_cpu_def put_on_rq_def

section \<open>The steps of the locking functions\<close>

text \<open>\<open>rq_lock\<close> and \<open>rq_unlock\<close>; under the lock, \<open>__schedule\<close> takes a task of the queue off it.\<close>

inductive rq_lock_step :: "nat \<Rightarrow> lstate \<Rightarrow> lstate \<Rightarrow> bool" for t where
  Call: "l_pc s t = Idle \<Longrightarrow> rq_lock_step t s (goto t (Rq_want c) s)"
| Lock: "l_pc s t = Rq_want c \<Longrightarrow> l_owner s (Rq_lock c) = None \<Longrightarrow> rq_lock_step t s (acquire t (Rq_lock c) (Rq_has c) s)"
| Sleep: "l_pc s t = Rq_has c \<Longrightarrow> l_cpu s p = c \<Longrightarrow> l_on_rq s p = TASK_ON_RQ_QUEUED \<Longrightarrow> rq_lock_step t s (put_on_rq p 0 s)"
| Unlock: "l_pc s t = Rq_has c \<Longrightarrow> rq_lock_step t s (release t (Rq_lock c) Idle s)"

text \<open>\<open>task_rq_lock\<close>, \<open>__task_rq_lock\<close> for a caller with \<open>pi_lock\<close>, and the two unlocks.\<close>

inductive task_rq_lock_step :: "nat \<Rightarrow> lstate \<Rightarrow> lstate \<Rightarrow> bool" for t where
  Call: "l_pc s t = Idle \<Longrightarrow> task_rq_lock_step t s (goto t (Trl_pi p) s)"
| Call_held: "l_pc s t = Pi_has p \<Longrightarrow> task_rq_lock_step t s (goto t (Trl_read False p) s)"
| Pi: "l_pc s t = Trl_pi p \<Longrightarrow> l_owner s (Pi_lock p) = None \<Longrightarrow> task_rq_lock_step t s (acquire t (Pi_lock p) (Trl_read True p) s)"
| Read: "l_pc s t = Trl_read own p \<Longrightarrow> task_rq_lock_step t s (goto t (Trl_rq own p (l_cpu s p)) s)"
| Rq: "l_pc s t = Trl_rq own p c \<Longrightarrow> l_owner s (Rq_lock c) = None \<Longrightarrow> task_rq_lock_step t s (acquire t (Rq_lock c) (Trl_check own p c) s)"
| Check: "l_pc s t = Trl_check own p c \<Longrightarrow>
    task_rq_lock_step t s (goto t (if c = l_cpu s p \<and> l_on_rq s p \<noteq> TASK_ON_RQ_MIGRATING then Trl_has p c else Trl_drop own p c) s)"
| Drop: "l_pc s t = Trl_drop own p c \<Longrightarrow> task_rq_lock_step t s (release t (Rq_lock c) (if own then Trl_drop_pi p else Trl_spin False p) s)"
| Drop_pi: "l_pc s t = Trl_drop_pi p \<Longrightarrow> task_rq_lock_step t s (release t (Pi_lock p) (Trl_spin True p) s)"
| Spin: "l_pc s t = Trl_spin own p \<Longrightarrow> l_on_rq s p \<noteq> TASK_ON_RQ_MIGRATING \<Longrightarrow>
    task_rq_lock_step t s (goto t (if own then Trl_pi p else Trl_read False p) s)"
| Unlock: "l_pc s t = Trl_has p c \<Longrightarrow> task_rq_lock_step t s (release t (Rq_lock c) (Tru_pi p) s)"
| Unlock_pi: "l_pc s t = Tru_pi p \<Longrightarrow> task_rq_lock_step t s (release t (Pi_lock p) Idle s)"
| Unlock_held: "l_pc s t = Trl_has p c \<Longrightarrow> task_rq_lock_step t s (release t (Rq_lock c) (Pi_has p) s)"

text \<open>\<open>move_queued_task\<close> of a task whose locks are held.\<close>

inductive move_queued_task_step :: "nat \<Rightarrow> lstate \<Rightarrow> lstate \<Rightarrow> bool" for t where
  Mark: "l_pc s t = Trl_has p c \<Longrightarrow> l_on_rq s p = TASK_ON_RQ_QUEUED \<Longrightarrow>
    move_queued_task_step t s (goto t (Mq_set p c d) (put_on_rq p TASK_ON_RQ_MIGRATING s))"
| Set_cpu: "l_pc s t = Mq_set p c d \<Longrightarrow> move_queued_task_step t s (goto t (Mq_unlock p c d) (put_cpu p d s))"
| Unlock: "l_pc s t = Mq_unlock p c d \<Longrightarrow> move_queued_task_step t s (release t (Rq_lock c) (Mq_lock p d) s)"
| Lock: "l_pc s t = Mq_lock p d \<Longrightarrow> l_owner s (Rq_lock d) = None \<Longrightarrow> move_queued_task_step t s (acquire t (Rq_lock d) (Mq_check p d) s)"
| Check: "l_pc s t = Mq_check p d \<Longrightarrow> move_queued_task_step t s (goto t (if l_cpu s p \<noteq> d then Bug else Mq_enq p d) s)"
| Enqueue: "l_pc s t = Mq_enq p d \<Longrightarrow> move_queued_task_step t s (goto t (Trl_has p d) (put_on_rq p TASK_ON_RQ_QUEUED s))"

text \<open>\<open>try_to_wake_up\<close>: under \<open>pi_lock\<close> a task that is on no queue gets a CPU and is queued there (\<open>ttwu_queue\<close>).\<close>

inductive wake_up_step :: "nat \<Rightarrow> lstate \<Rightarrow> lstate \<Rightarrow> bool" for t where
  Call: "l_pc s t = Idle \<Longrightarrow> wake_up_step t s (goto t (Pi_want p) s)"
| Pi: "l_pc s t = Pi_want p \<Longrightarrow> l_owner s (Pi_lock p) = None \<Longrightarrow> wake_up_step t s (acquire t (Pi_lock p) (Pi_has p) s)"
| Set_cpu: "l_pc s t = Pi_has p \<Longrightarrow> l_on_rq s p = 0 \<Longrightarrow> wake_up_step t s (put_cpu p d s)"
| Queue: "l_pc s t = Pi_has p \<Longrightarrow> l_on_rq s p = 0 \<Longrightarrow> wake_up_step t s (goto t (Wake_rq p (l_cpu s p)) s)"
| Lock: "l_pc s t = Wake_rq p c \<Longrightarrow> l_owner s (Rq_lock c) = None \<Longrightarrow> wake_up_step t s (acquire t (Rq_lock c) (Wake_has p c) s)"
| Activate: "l_pc s t = Wake_has p c \<Longrightarrow> wake_up_step t s (goto t (Wake_done p c) (put_on_rq p TASK_ON_RQ_QUEUED s))"
| Unlock: "l_pc s t = Wake_done p c \<Longrightarrow> wake_up_step t s (release t (Rq_lock c) (Pi_has p) s)"
| Unlock_pi: "l_pc s t = Pi_has p \<Longrightarrow> wake_up_step t s (release t (Pi_lock p) Idle s)"

text \<open>
  \<open>_double_lock_balance\<close> in both versions: without \<open>CONFIG_PREEMPT\<close> it tries the second lock and gives up the first one only where the
  addresses ask for it; with \<open>CONFIG_PREEMPT\<close> it always starts again with \<open>double_rq_lock\<close>.
\<close>

inductive double_lock_balance_step :: "nat \<Rightarrow> lstate \<Rightarrow> lstate \<Rightarrow> bool" for t where
  Call: "l_pc s t = Rq_has c \<Longrightarrow> d \<noteq> c \<Longrightarrow> double_lock_balance_step t s (goto t (Dlb_try c d) s)"
| Call_fair: "l_pc s t = Rq_has c \<Longrightarrow> d \<noteq> c \<Longrightarrow> double_lock_balance_step t s (release t (Rq_lock c) (Drl [] c d) s)"
| Try: "l_pc s t = Dlb_try c d \<Longrightarrow> l_owner s (Rq_lock d) = None \<Longrightarrow> double_lock_balance_step t s (acquire t (Rq_lock d) (Both [] c d) s)"
| Taken: "l_pc s t = Dlb_try c d \<Longrightarrow> l_owner s (Rq_lock d) \<noteq> None \<Longrightarrow>
    double_lock_balance_step t s (goto t (if d < c then Dlb_drop c d else Dlb_wait c d) s)"
| Drop: "l_pc s t = Dlb_drop c d \<Longrightarrow> double_lock_balance_step t s (release t (Rq_lock c) (Dlb_first c d) s)"
| First: "l_pc s t = Dlb_first c d \<Longrightarrow> l_owner s (Rq_lock d) = None \<Longrightarrow> double_lock_balance_step t s (acquire t (Rq_lock d) (Dlb_second c d) s)"
| Second: "l_pc s t = Dlb_second c d \<Longrightarrow> l_owner s (Rq_lock c) = None \<Longrightarrow> double_lock_balance_step t s (acquire t (Rq_lock c) (Both [] c d) s)"
| Wait: "l_pc s t = Dlb_wait c d \<Longrightarrow> l_owner s (Rq_lock d) = None \<Longrightarrow> double_lock_balance_step t s (acquire t (Rq_lock d) (Both [] c d) s)"
| Unlock: "l_pc s t = Both [] c d \<Longrightarrow> c \<noteq> d \<Longrightarrow> double_lock_balance_step t s (release t (Rq_lock d) (Rq_has c) s)"

text \<open>
  \<open>double_rq_lock\<close>, \<open>double_rq_unlock\<close> and, around them in \<open>migrate_swap_stop\<close>, \<open>double_raw_lock\<close>. Under both run queues a queued task of one
  moves to the other (\<open>push_rt_task\<close>, \<open>pull_rt_task\<close>, \<open>__migrate_swap_task\<close>).
\<close>

inductive double_rq_lock_step :: "nat \<Rightarrow> lstate \<Rightarrow> lstate \<Rightarrow> bool" for t where
  Call: "l_pc s t = Idle \<Longrightarrow> double_rq_lock_step t s (goto t (Drl [] c d) s)"
| Call_swap: "l_pc s t = Dpl_has p q \<Longrightarrow> double_rq_lock_step t s (goto t (Drl [p, q] c d) s)"
| Same: "l_pc s t = Drl ps c d \<Longrightarrow> c = d \<Longrightarrow> l_owner s (Rq_lock c) = None \<Longrightarrow> double_rq_lock_step t s (acquire t (Rq_lock c) (Both ps c d) s)"
| First: "l_pc s t = Drl ps c d \<Longrightarrow> c \<noteq> d \<Longrightarrow> l_owner s (Rq_lock (if c < d then c else d)) = None \<Longrightarrow>
    double_rq_lock_step t s (acquire t (Rq_lock (if c < d then c else d)) (Drl_second ps c d) s)"
| Second: "l_pc s t = Drl_second ps c d \<Longrightarrow> l_owner s (Rq_lock (if c < d then d else c)) = None \<Longrightarrow>
    double_rq_lock_step t s (acquire t (Rq_lock (if c < d then d else c)) (Both ps c d) s)"
| Push: "l_pc s t = Both ps c d \<Longrightarrow> l_cpu s p = c \<Longrightarrow> l_on_rq s p = TASK_ON_RQ_QUEUED \<Longrightarrow> double_rq_lock_step t s (put_cpu p d s)"
| Pull: "l_pc s t = Both ps c d \<Longrightarrow> l_cpu s p = d \<Longrightarrow> l_on_rq s p = TASK_ON_RQ_QUEUED \<Longrightarrow> double_rq_lock_step t s (put_cpu p c s)"
| Unlock: "l_pc s t = Both ps c d \<Longrightarrow> c \<noteq> d \<Longrightarrow> double_rq_lock_step t s (release t (Rq_lock c) (Drl_half ps d) s)"
| Unlock_same: "l_pc s t = Both [] c d \<Longrightarrow> c = d \<Longrightarrow> double_rq_lock_step t s (release t (Rq_lock c) Idle s)"
| Unlock_second: "l_pc s t = Drl_half [] d \<Longrightarrow> double_rq_lock_step t s (release t (Rq_lock d) Idle s)"
| Unlock_swap: "l_pc s t = Drl_half [p, q] d \<Longrightarrow> double_rq_lock_step t s (release t (Rq_lock d) (Dpl_has p q) s)"
| Unlock_swap_same: "l_pc s t = Both [p, q] c d \<Longrightarrow> c = d \<Longrightarrow> double_rq_lock_step t s (release t (Rq_lock c) (Dpl_has p q) s)"

inductive double_raw_lock_step :: "nat \<Rightarrow> lstate \<Rightarrow> lstate \<Rightarrow> bool" for t where
  Call: "l_pc s t = Idle \<Longrightarrow> p \<noteq> q \<Longrightarrow> double_raw_lock_step t s (goto t (Dpl p q) s)"
| First: "l_pc s t = Dpl p q \<Longrightarrow> l_owner s (Pi_lock (min p q)) = None \<Longrightarrow> double_raw_lock_step t s (acquire t (Pi_lock (min p q)) (Dpl_second p q) s)"
| Second: "l_pc s t = Dpl_second p q \<Longrightarrow> l_owner s (Pi_lock (max p q)) = None \<Longrightarrow> double_raw_lock_step t s (acquire t (Pi_lock (max p q)) (Dpl_has p q) s)"
| Unlock: "l_pc s t = Dpl_has p q \<Longrightarrow> double_raw_lock_step t s (release t (Pi_lock q) (Tru_pi p) s)"

definition thread_step :: "nat \<Rightarrow> lstate \<Rightarrow> lstate \<Rightarrow> bool" where
  "thread_step t s s' \<longleftrightarrow> rq_lock_step t s s' \<or> task_rq_lock_step t s s' \<or> move_queued_task_step t s s' \<or> wake_up_step t s s' \<or>
     double_lock_balance_step t s s' \<or> double_rq_lock_step t s s' \<or> double_raw_lock_step t s s'"

inductive lock_step :: "lstate \<Rightarrow> lstate \<Rightarrow> bool" where
  Step: "thread_step t s s' \<Longrightarrow> lock_step s s'"

text \<open>At first no thread has called anything and no task is between two queues.\<close>

definition lock_init :: "lstate \<Rightarrow> bool" where
  "lock_init s \<longleftrightarrow> (\<forall>t. l_pc s t = Idle) \<and> (\<forall>l. l_owner s l = None) \<and> (\<forall>p. l_on_rq s p \<noteq> TASK_ON_RQ_MIGRATING)"

section \<open>What a thread holds, wants and knows\<close>

fun held :: "pc \<Rightarrow> lock set" where
  "held (Rq_has c) = {Rq_lock c}"
| "held (Pi_has p) = {Pi_lock p}"
| "held (Trl_read own p) = {Pi_lock p}"
| "held (Trl_rq own p c) = {Pi_lock p}"
| "held (Trl_check own p c) = {Pi_lock p, Rq_lock c}"
| "held (Trl_drop own p c) = {Pi_lock p, Rq_lock c}"
| "held (Trl_drop_pi p) = {Pi_lock p}"
| "held (Trl_spin own p) = (if own then {} else {Pi_lock p})"
| "held (Trl_has p c) = {Pi_lock p, Rq_lock c}"
| "held (Tru_pi p) = {Pi_lock p}"
| "held (Mq_set p c d) = {Pi_lock p, Rq_lock c}"
| "held (Mq_unlock p c d) = {Pi_lock p, Rq_lock c}"
| "held (Mq_lock p d) = {Pi_lock p}"
| "held (Mq_check p d) = {Pi_lock p, Rq_lock d}"
| "held (Mq_enq p d) = {Pi_lock p, Rq_lock d}"
| "held (Wake_rq p c) = {Pi_lock p}"
| "held (Wake_has p c) = {Pi_lock p, Rq_lock c}"
| "held (Wake_done p c) = {Pi_lock p, Rq_lock c}"
| "held (Dlb_try c d) = {Rq_lock c}"
| "held (Dlb_drop c d) = {Rq_lock c}"
| "held (Dlb_second c d) = {Rq_lock d}"
| "held (Dlb_wait c d) = {Rq_lock c}"
| "held (Drl ps c d) = Pi_lock ` set ps"
| "held (Drl_second ps c d) = insert (Rq_lock (min c d)) (Pi_lock ` set ps)"
| "held (Both ps c d) = {Rq_lock c, Rq_lock d} \<union> Pi_lock ` set ps"
| "held (Drl_half ps d) = insert (Rq_lock d) (Pi_lock ` set ps)"
| "held (Dpl_second p q) = {Pi_lock (min p q)}"
| "held (Dpl_has p q) = {Pi_lock p, Pi_lock q}"
| "held k = {}"

fun wants :: "pc \<Rightarrow> lock option" where
  "wants (Rq_want c) = Some (Rq_lock c)"
| "wants (Pi_want p) = Some (Pi_lock p)"
| "wants (Trl_pi p) = Some (Pi_lock p)"
| "wants (Trl_rq own p c) = Some (Rq_lock c)"
| "wants (Mq_lock p d) = Some (Rq_lock d)"
| "wants (Wake_rq p c) = Some (Rq_lock c)"
| "wants (Dlb_first c d) = Some (Rq_lock d)"
| "wants (Dlb_second c d) = Some (Rq_lock c)"
| "wants (Dlb_wait c d) = Some (Rq_lock d)"
| "wants (Drl ps c d) = Some (Rq_lock (min c d))"
| "wants (Drl_second ps c d) = Some (Rq_lock (max c d))"
| "wants (Dpl p q) = Some (Pi_lock (min p q))"
| "wants (Dpl_second p q) = Some (Pi_lock (max p q))"
| "wants k = None"

text \<open>The task a thread is moving.\<close>

fun moving :: "pc \<Rightarrow> tid option" where
  "moving (Mq_set p c d) = Some p"
| "moving (Mq_unlock p c d) = Some p"
| "moving (Mq_lock p d) = Some p"
| "moving (Mq_check p d) = Some p"
| "moving (Mq_enq p d) = Some p"
| "moving k = None"

fun known :: "lstate \<Rightarrow> pc \<Rightarrow> bool" where
  "known s (Trl_has p c) \<longleftrightarrow> l_cpu s p = c \<and> l_on_rq s p \<noteq> TASK_ON_RQ_MIGRATING"
| "known s (Mq_set p c d) \<longleftrightarrow> l_cpu s p = c \<and> l_on_rq s p = TASK_ON_RQ_MIGRATING"
| "known s (Mq_unlock p c d) \<longleftrightarrow> l_cpu s p = d \<and> l_on_rq s p = TASK_ON_RQ_MIGRATING"
| "known s (Mq_lock p d) \<longleftrightarrow> l_cpu s p = d \<and> l_on_rq s p = TASK_ON_RQ_MIGRATING"
| "known s (Mq_check p d) \<longleftrightarrow> l_cpu s p = d \<and> l_on_rq s p = TASK_ON_RQ_MIGRATING"
| "known s (Mq_enq p d) \<longleftrightarrow> l_cpu s p = d \<and> l_on_rq s p = TASK_ON_RQ_MIGRATING"
| "known s (Wake_rq p c) \<longleftrightarrow> l_cpu s p = c \<and> l_on_rq s p = 0"
| "known s (Wake_has p c) \<longleftrightarrow> l_cpu s p = c \<and> l_on_rq s p = 0"
| "known s (Dlb_try c d) \<longleftrightarrow> c \<noteq> d"
| "known s (Dlb_drop c d) \<longleftrightarrow> d < c"
| "known s (Dlb_first c d) \<longleftrightarrow> d < c"
| "known s (Dlb_second c d) \<longleftrightarrow> d < c"
| "known s (Dlb_wait c d) \<longleftrightarrow> c < d"
| "known s (Drl ps c d) \<longleftrightarrow> length ps = 0 \<or> length ps = 2 \<and> distinct ps"
| "known s (Drl_second ps c d) \<longleftrightarrow> c \<noteq> d \<and> (length ps = 0 \<or> length ps = 2 \<and> distinct ps)"
| "known s (Both ps c d) \<longleftrightarrow> length ps = 0 \<or> length ps = 2 \<and> distinct ps"
| "known s (Drl_half ps d) \<longleftrightarrow> length ps = 0 \<or> length ps = 2 \<and> distinct ps"
| "known s (Dpl p q) \<longleftrightarrow> p \<noteq> q"
| "known s (Dpl_second p q) \<longleftrightarrow> p \<noteq> q"
| "known s (Dpl_has p q) \<longleftrightarrow> p \<noteq> q"
| "known s Bug \<longleftrightarrow> False"
| "known s k \<longleftrightarrow> True"

definition locks_ok :: "lstate \<Rightarrow> bool" where
  "locks_ok s \<longleftrightarrow> (\<forall>l t. l_owner s l = Some t \<longleftrightarrow> l \<in> held (l_pc s t)) \<and> (\<forall>t. known s (l_pc s t)) \<and>
     (\<forall>p. l_on_rq s p = TASK_ON_RQ_MIGRATING \<longrightarrow> (\<exists>t. moving (l_pc s t) = Some p)) \<and> finite {t. l_pc s t \<noteq> Idle}"

section \<open>Ownership and interference\<close>

lemmas step_elims = rq_lock_step.cases task_rq_lock_step.cases move_queued_task_step.cases wake_up_step.cases
  double_lock_balance_step.cases double_rq_lock_step.cases double_raw_lock_step.cases

text \<open>Every step takes one free lock, gives one back, or leaves the locks alone.\<close>

definition owner_step :: "nat \<Rightarrow> lstate \<Rightarrow> lstate \<Rightarrow> bool" where
  "owner_step t s s' \<longleftrightarrow> (l_owner s' = l_owner s \<and> held (l_pc s' t) = held (l_pc s t)) \<or>
     (\<exists>l. l_owner s l = None \<and> l_owner s' = (l_owner s)(l := Some t) \<and> held (l_pc s' t) = insert l (held (l_pc s t))) \<or>
     (\<exists>l \<in> held (l_pc s t). l_owner s' = (l_owner s)(l := None) \<and> held (l_pc s' t) = held (l_pc s t) - {l})"

lemma thread_step_pcs:
  assumes "thread_step t s s'" "u \<noteq> t" shows "l_pc s' u = l_pc s u"
  using assms unfolding thread_step_def by (elim disjE step_elims) (simp_all add: lstate_ops)

lemma thread_step_owner:
  assumes "thread_step t s s'" "known s (l_pc s t)" shows "owner_step t s s'"
  using assms unfolding thread_step_def
  by (elim disjE step_elims) (auto simp: owner_step_def lstate_ops min_def max_def)

lemma owner_step_owns:
  assumes step: "owner_step t s s'" and own: "\<And>l u. l_owner s l = Some u \<longleftrightarrow> l \<in> held (l_pc s u)"
    and pcs: "\<And>u. u \<noteq> t \<Longrightarrow> l_pc s' u = l_pc s u"
  shows "l_owner s' l = Some u \<longleftrightarrow> l \<in> held (l_pc s' u)"
proof -
  from step consider (same) "l_owner s' = l_owner s" "held (l_pc s' t) = held (l_pc s t)"
    | (take) m where "l_owner s m = None" "l_owner s' = (l_owner s)(m := Some t)" "held (l_pc s' t) = insert m (held (l_pc s t))"
    | (give) m where "m \<in> held (l_pc s t)" "l_owner s' = (l_owner s)(m := None)" "held (l_pc s' t) = held (l_pc s t) - {m}"
    unfolding owner_step_def by blast
  then show ?thesis
  proof cases
    case same
    then show ?thesis using own [of l u] pcs [of u] by (cases "u = t") simp_all
  next
    case take
    have "m \<notin> held (l_pc s u)" using take(1) own [of m u] by simp
    then show ?thesis using own [of l u] pcs [of u] take by (cases "u = t"; cases "l = m") simp_all
  next
    case give
    have "u \<noteq> t \<Longrightarrow> m \<notin> held (l_pc s u)" using give(1) own [of m u] own [of m t] by auto
    then show ?thesis using own [of l u] pcs [of u] give by (cases "u = t"; cases "l = m") simp_all
  qed
qed

text \<open>A step changes the fields of a task only with its \<open>pi_lock\<close>, or with its run queue while it is queued there.\<close>

lemma thread_step_change:
  assumes "thread_step t s s'" "known s (l_pc s t)"
  shows "(l_cpu s' p = l_cpu s p \<and> l_on_rq s' p = l_on_rq s p) \<or> Pi_lock p \<in> held (l_pc s t) \<or>
    (Rq_lock (l_cpu s p) \<in> held (l_pc s t) \<and> l_on_rq s p = TASK_ON_RQ_QUEUED)"
  using assms unfolding thread_step_def by (elim disjE step_elims) (auto simp: lstate_ops)

lemma on_rq_values: "TASK_ON_RQ_QUEUED \<noteq> TASK_ON_RQ_MIGRATING" "TASK_ON_RQ_QUEUED \<noteq> 0" "TASK_ON_RQ_MIGRATING \<noteq> 0"
  by (simp_all add: TASK_ON_RQ_QUEUED_def TASK_ON_RQ_MIGRATING_def)

lemma thread_step_known:
  assumes "thread_step t s s'" "known s (l_pc s t)" shows "known s' (l_pc s' t)"
  using assms unfolding thread_step_def by (elim disjE step_elims) (auto simp: lstate_ops on_rq_values)

text \<open>A thread that moves a task keeps moving it or ends the move, and only moved tasks are marked.\<close>

lemma thread_step_moving:
  assumes "thread_step t s s'" "known s (l_pc s t)" "l_on_rq s' p = TASK_ON_RQ_MIGRATING"
  shows "moving (l_pc s' t) = Some p \<or> (l_on_rq s p = TASK_ON_RQ_MIGRATING \<and> moving (l_pc s t) \<noteq> Some p)"
  using assms unfolding thread_step_def
  by (elim disjE step_elims) (auto simp: lstate_ops on_rq_values on_rq_values [symmetric] split: if_splits)

lemma known_subject:
  assumes "known s k"
  obtains (free) "\<And>s'. known s' k"
  | (task) p where "Pi_lock p \<in> held k" "Rq_lock (l_cpu s p) \<in> held k \<or> l_on_rq s p \<noteq> TASK_ON_RQ_QUEUED"
      "\<And>s'. l_cpu s' p = l_cpu s p \<Longrightarrow> l_on_rq s' p = l_on_rq s p \<Longrightarrow> known s' k"
  using assms by (cases k) (auto simp: on_rq_values on_rq_values [symmetric])

text \<open>What a thread knows of a task it has locked, another thread cannot change.\<close>

lemma locks_okD:
  assumes "locks_ok s"
  shows "l_owner s l = Some t \<longleftrightarrow> l \<in> held (l_pc s t)" "known s (l_pc s t)"
    "l_on_rq s p = TASK_ON_RQ_MIGRATING \<Longrightarrow> \<exists>t. moving (l_pc s t) = Some p" "finite {t. l_pc s t \<noteq> Idle}"
  using assms by (simp_all add: locks_ok_def)

lemma held_disjoint:
  assumes "locks_ok s" "l \<in> held (l_pc s t)" "l \<in> held (l_pc s u)" shows "t = u"
  using locks_okD(1) [OF assms(1), of l t] locks_okD(1) [OF assms(1), of l u] assms(2,3) by simp

lemma no_interference:
  assumes ok: "locks_ok s" and step: "thread_step t s s'" and u: "u \<noteq> t"
    and l: "Pi_lock p \<in> held (l_pc s u)" "Rq_lock (l_cpu s p) \<in> held (l_pc s u) \<or> l_on_rq s p \<noteq> TASK_ON_RQ_QUEUED"
  shows "l_cpu s' p = l_cpu s p" "l_on_rq s' p = l_on_rq s p"
  using thread_step_change [OF step locks_okD(2) [OF ok], of p] held_disjoint [OF ok _ l(1), of t] l(2) u
    held_disjoint [OF ok, of "Rq_lock (l_cpu s p)" t u] by blast+

lemma moving_held: "moving k = Some p \<Longrightarrow> Pi_lock p \<in> held k"
  by (cases k) simp_all

lemma lock_step_ok: "lock_step s s' \<Longrightarrow> locks_ok s \<Longrightarrow> locks_ok s'"
proof (induction rule: lock_step.induct)
  case (Step t s s')
  note ok = Step(2) and step = Step(1)
  have own: "owner_step t s s'" by (rule thread_step_owner [OF step locks_okD(2) [OF ok]])
  have pcs: "l_pc s' u = l_pc s u" if "u \<noteq> t" for u by (rule thread_step_pcs [OF step that])
  have "l_owner s' l = Some u \<longleftrightarrow> l \<in> held (l_pc s' u)" for l u
    by (rule owner_step_owns [OF own locks_okD(1) [OF ok] pcs])
  moreover have "known s' (l_pc s' u)" for u
  proof (cases "u = t")
    case False
    from locks_okD(2) [OF ok, of u] show ?thesis
    proof (cases rule: known_subject)
      case (task p)
      then show ?thesis using no_interference [OF ok step False] pcs [OF False] by simp
    qed (simp add: pcs [OF False])
  qed (use thread_step_known [OF step locks_okD(2) [OF ok]] in simp)
  moreover have "\<exists>u. moving (l_pc s' u) = Some p" if m: "l_on_rq s' p = TASK_ON_RQ_MIGRATING" for p
    using thread_step_moving [OF step locks_okD(2) [OF ok] m] locks_okD(3) [OF ok, of p] pcs by metis
  moreover have "finite {u. l_pc s' u \<noteq> Idle}"
    by (rule finite_subset [of _ "insert t {u. l_pc s u \<noteq> Idle}"]) (use pcs locks_okD(4) [OF ok] in auto)
  ultimately show ?case by (simp add: locks_ok_def)
qed

interpretation locking: step_invariant lock_step locks_ok
  by unfold_locales (rule lock_step_ok)

lemma lock_init_ok: "lock_init s \<Longrightarrow> locks_ok s"
  by (simp add: lock_init_def locks_ok_def)

section \<open>Properties\<close>


text \<open>
  A thread that does not wait can go on, a waiting thread wants a lock above all it holds, and one that
  spins waits for a move that is under way.
\<close>

lemma wants_above: "known s k \<Longrightarrow> wants k = Some m \<Longrightarrow> l \<in> held k \<Longrightarrow> l < m"
  by (cases k) (auto simp: min_def max_def split: if_splits)

definition spins :: "lstate \<Rightarrow> pc \<Rightarrow> bool" where
  "spins s k \<longleftrightarrow> (\<exists>own p. k = Trl_spin own p \<and> l_on_rq s p = TASK_ON_RQ_MIGRATING)"

definition blocked :: "lstate \<Rightarrow> pc \<Rightarrow> bool" where
  "blocked s k \<longleftrightarrow> (\<exists>l. wants k = Some l \<and> l_owner s l \<noteq> None)"

lemma progressI: "thread_step t s s' \<Longrightarrow> l_pc s' t \<noteq> l_pc s t \<Longrightarrow> \<exists>s'. thread_step t s s' \<and> l_pc s' t \<noteq> l_pc s t"
  by blast

lemma thread_stepI:
  "rq_lock_step t s s' \<Longrightarrow> thread_step t s s'" "task_rq_lock_step t s s' \<Longrightarrow> thread_step t s s'" "move_queued_task_step t s s' \<Longrightarrow> thread_step t s s'"
  "wake_up_step t s s' \<Longrightarrow> thread_step t s s'" "double_lock_balance_step t s s' \<Longrightarrow> thread_step t s s'" "double_rq_lock_step t s s' \<Longrightarrow> thread_step t s s'"
  "double_raw_lock_step t s s' \<Longrightarrow> thread_step t s s'"
  by (simp_all add: thread_step_def)

text \<open>Only the end of a function is not a case of its own: two run queues are given back one after the other.\<close>

lemma progress:
  assumes "known s (l_pc s t)" "l_pc s t \<noteq> Idle" "\<not> spins s (l_pc s t)" "\<not> blocked s (l_pc s t)"
  shows "\<exists>s'. thread_step t s s' \<and> l_pc s' t \<noteq> l_pc s t"
proof -
  note goes = progressI and steps = thread_stepI and stuck = spins_def blocked_def min_def max_def
  show ?thesis
  proof (cases "l_pc s t")
  case (Rq_want c)
  show ?thesis by (rule goes [OF steps(1) [OF rq_lock_step.Lock [OF Rq_want]]]) (use assms Rq_want in \<open>auto simp: stuck lstate_ops\<close>)
next
  case (Rq_has c)
  show ?thesis by (rule goes [OF steps(1) [OF rq_lock_step.Unlock [OF Rq_has]]]) (use assms Rq_has in \<open>auto simp: stuck lstate_ops\<close>)
next
  case (Pi_want p)
  show ?thesis by (rule goes [OF steps(4) [OF wake_up_step.Pi [OF Pi_want]]]) (use assms Pi_want in \<open>auto simp: stuck lstate_ops\<close>)
next
  case (Pi_has p)
  show ?thesis by (rule goes [OF steps(4) [OF wake_up_step.Unlock_pi [OF Pi_has]]]) (use assms Pi_has in \<open>auto simp: stuck lstate_ops\<close>)
next
  case (Trl_pi p)
  show ?thesis by (rule goes [OF steps(2) [OF task_rq_lock_step.Pi [OF Trl_pi]]]) (use assms Trl_pi in \<open>auto simp: stuck lstate_ops\<close>)
next
  case (Trl_read own p)
  show ?thesis by (rule goes [OF steps(2) [OF task_rq_lock_step.Read [OF Trl_read]]]) (use assms Trl_read in \<open>auto simp: stuck lstate_ops\<close>)
next
  case (Trl_rq own p c)
  show ?thesis by (rule goes [OF steps(2) [OF task_rq_lock_step.Rq [OF Trl_rq]]]) (use assms Trl_rq in \<open>auto simp: stuck lstate_ops\<close>)
next
  case (Trl_check own p c)
  show ?thesis by (rule goes [OF steps(2) [OF task_rq_lock_step.Check [OF Trl_check]]]) (use assms Trl_check in \<open>auto simp: stuck lstate_ops\<close>)
next
  case (Trl_drop own p c)
  show ?thesis by (rule goes [OF steps(2) [OF task_rq_lock_step.Drop [OF Trl_drop]]]) (use assms Trl_drop in \<open>auto simp: stuck lstate_ops\<close>)
next
  case (Trl_drop_pi p)
  show ?thesis by (rule goes [OF steps(2) [OF task_rq_lock_step.Drop_pi [OF Trl_drop_pi]]]) (use assms Trl_drop_pi in \<open>auto simp: stuck lstate_ops\<close>)
next
  case (Trl_spin own p)
  show ?thesis by (rule goes [OF steps(2) [OF task_rq_lock_step.Spin [OF Trl_spin]]]) (use assms Trl_spin in \<open>auto simp: stuck lstate_ops\<close>)
next
  case (Trl_has p c)
  show ?thesis by (rule goes [OF steps(2) [OF task_rq_lock_step.Unlock [OF Trl_has]]]) (use assms Trl_has in \<open>auto simp: stuck lstate_ops\<close>)
next
  case (Tru_pi p)
  show ?thesis by (rule goes [OF steps(2) [OF task_rq_lock_step.Unlock_pi [OF Tru_pi]]]) (use assms Tru_pi in \<open>auto simp: stuck lstate_ops\<close>)
next
  case (Mq_set p c d)
  show ?thesis by (rule goes [OF steps(3) [OF move_queued_task_step.Set_cpu [OF Mq_set]]]) (use assms Mq_set in \<open>auto simp: stuck lstate_ops\<close>)
next
  case (Mq_unlock p c d)
  show ?thesis by (rule goes [OF steps(3) [OF move_queued_task_step.Unlock [OF Mq_unlock]]]) (use assms Mq_unlock in \<open>auto simp: stuck lstate_ops\<close>)
next
  case (Mq_lock p d)
  show ?thesis by (rule goes [OF steps(3) [OF move_queued_task_step.Lock [OF Mq_lock]]]) (use assms Mq_lock in \<open>auto simp: stuck lstate_ops\<close>)
next
  case (Mq_check p d)
  show ?thesis by (rule goes [OF steps(3) [OF move_queued_task_step.Check [OF Mq_check]]]) (use assms Mq_check in \<open>auto simp: stuck lstate_ops\<close>)
next
  case (Mq_enq p d)
  show ?thesis by (rule goes [OF steps(3) [OF move_queued_task_step.Enqueue [OF Mq_enq]]]) (use assms Mq_enq in \<open>auto simp: stuck lstate_ops\<close>)
next
  case (Wake_rq p c)
  show ?thesis by (rule goes [OF steps(4) [OF wake_up_step.Lock [OF Wake_rq]]]) (use assms Wake_rq in \<open>auto simp: stuck lstate_ops\<close>)
next
  case (Wake_has p c)
  show ?thesis by (rule goes [OF steps(4) [OF wake_up_step.Activate [OF Wake_has]]]) (use assms Wake_has in \<open>auto simp: stuck lstate_ops\<close>)
next
  case (Wake_done p c)
  show ?thesis by (rule goes [OF steps(4) [OF wake_up_step.Unlock [OF Wake_done]]]) (use assms Wake_done in \<open>auto simp: stuck lstate_ops\<close>)
next
  case (Dlb_drop c d)
  show ?thesis by (rule goes [OF steps(5) [OF double_lock_balance_step.Drop [OF Dlb_drop]]]) (use assms Dlb_drop in \<open>auto simp: stuck lstate_ops\<close>)
next
  case (Dlb_first c d)
  show ?thesis by (rule goes [OF steps(5) [OF double_lock_balance_step.First [OF Dlb_first]]]) (use assms Dlb_first in \<open>auto simp: stuck lstate_ops\<close>)
next
  case (Dlb_second c d)
  show ?thesis by (rule goes [OF steps(5) [OF double_lock_balance_step.Second [OF Dlb_second]]]) (use assms Dlb_second in \<open>auto simp: stuck lstate_ops\<close>)
next
  case (Dlb_wait c d)
  show ?thesis by (rule goes [OF steps(5) [OF double_lock_balance_step.Wait [OF Dlb_wait]]]) (use assms Dlb_wait in \<open>auto simp: stuck lstate_ops\<close>)
next
  case (Drl_second ps c d)
  show ?thesis by (rule goes [OF steps(6) [OF double_rq_lock_step.Second [OF Drl_second]]]) (use assms Drl_second in \<open>auto simp: stuck lstate_ops\<close>)
next
  case (Dpl p q)
  show ?thesis by (rule goes [OF steps(7) [OF double_raw_lock_step.First [OF Dpl]]]) (use assms Dpl in \<open>auto simp: stuck lstate_ops\<close>)
next
  case (Dpl_second p q)
  show ?thesis by (rule goes [OF steps(7) [OF double_raw_lock_step.Second [OF Dpl_second]]]) (use assms Dpl_second in \<open>auto simp: stuck lstate_ops\<close>)
next
  case (Dpl_has p q)
  show ?thesis by (rule goes [OF steps(7) [OF double_raw_lock_step.Unlock [OF Dpl_has]]]) (use assms Dpl_has in \<open>auto simp: stuck lstate_ops\<close>)
next
  case (Dlb_try c d)
  show ?thesis
  proof (cases "l_owner s (Rq_lock d) = None")
    case True
    show ?thesis by (rule goes [OF steps(5) [OF double_lock_balance_step.Try [OF Dlb_try True]]]) (simp add: lstate_ops Dlb_try)
  next
    case False
    show ?thesis by (rule goes [OF steps(5) [OF double_lock_balance_step.Taken [OF Dlb_try False]]]) (simp add: lstate_ops Dlb_try)
  qed
next
  case (Drl ps c d)
  show ?thesis
  proof (cases "c = d")
    case True
    show ?thesis by (rule goes [OF steps(6) [OF double_rq_lock_step.Same [OF Drl True]]]) (use assms Drl True in \<open>auto simp: stuck lstate_ops\<close>)
  next
    case False
    show ?thesis by (rule goes [OF steps(6) [OF double_rq_lock_step.First [OF Drl False]]]) (use assms Drl False in \<open>auto simp: stuck lstate_ops split: if_splits\<close>)
  qed
next
  case (Both ps c d)
  show ?thesis
  proof (cases "c = d")
    case True
    from assms(1) Both consider "ps = []" | p q where "ps = [p, q]" by (auto simp: length_Suc_conv numeral_2_eq_2)
    then show ?thesis
    proof cases
      case 1
      show ?thesis by (rule goes [OF steps(6) [OF double_rq_lock_step.Unlock_same [OF Both [unfolded 1] True]]]) (simp add: lstate_ops Both)
    next
      case 2
      show ?thesis by (rule goes [OF steps(6) [OF double_rq_lock_step.Unlock_swap_same [OF Both [unfolded 2] True]]]) (simp add: lstate_ops Both)
    qed
  next
    case False
    show ?thesis by (rule goes [OF steps(6) [OF double_rq_lock_step.Unlock [OF Both False]]]) (simp add: lstate_ops Both)
  qed
next
  case (Drl_half ps d)
  from assms(1) Drl_half consider "ps = []" | p q where "ps = [p, q]" by (auto simp: length_Suc_conv numeral_2_eq_2)
  then show ?thesis
  proof cases
    case 1
    show ?thesis by (rule goes [OF steps(6) [OF double_rq_lock_step.Unlock_second [OF Drl_half [unfolded 1]]]]) (simp add: lstate_ops Drl_half)
  next
    case 2
    show ?thesis by (rule goes [OF steps(6) [OF double_rq_lock_step.Unlock_swap [OF Drl_half [unfolded 2]]]]) (simp add: lstate_ops Drl_half)
  qed
qed (use assms in simp_all)
qed


text \<open>A thread that spins does not hold the \<open>pi_lock\<close> of the task: the thread that moves the task has it.\<close>

lemma spinning_holds_nothing:
  assumes ok: "locks_ok s" and spin: "spins s (l_pc s t)" shows "held (l_pc s t) = {}"
proof -
  from spin obtain own p where k: "l_pc s t = Trl_spin own p" "l_on_rq s p = TASK_ON_RQ_MIGRATING" by (auto simp: spins_def)
  from locks_okD(3) [OF ok k(2)] obtain v where v: "moving (l_pc s v) = Some p" by blast
  then have "v \<noteq> t" using k(1) by auto
  then show ?thesis using held_disjoint [OF ok moving_held [OF v], of t] k(1) by (cases own) auto
qed

lemma blocked_chain:
  assumes ok: "locks_ok s" and b: "blocked s (l_pc s t)"
  obtains v where "l_pc s v \<noteq> Idle" "\<not> spins s (l_pc s v)" "\<not> blocked s (l_pc s v)"
proof -
  define W where "W = {l. \<exists>t. wants (l_pc s t) = Some l \<and> l_owner s l \<noteq> None}"
  have "W \<subseteq> (\<lambda>t. the (wants (l_pc s t))) ` {t. l_pc s t \<noteq> Idle}"
  proof
    fix l assume "l \<in> W"
    then obtain t where t: "wants (l_pc s t) = Some l" by (auto simp: W_def)
    then have "l_pc s t \<noteq> Idle" by auto
    then show "l \<in> (\<lambda>t. the (wants (l_pc s t))) ` {t. l_pc s t \<noteq> Idle}" using t by (intro image_eqI [of _ _ t]) simp_all
  qed
  then have "finite W" using finite_subset finite_imageI locks_okD(4) [OF ok] by blast
  moreover have "W \<noteq> {}" using b by (auto simp: W_def blocked_def)
  ultimately have m: "Max W \<in> W" "\<And>l. l \<in> W \<Longrightarrow> l \<le> Max W" by simp_all
  then obtain v where v: "l_owner s (Max W) = Some v" by (auto simp: W_def)
  then have h: "Max W \<in> held (l_pc s v)" using locks_okD(1) [OF ok] by blast
  have "\<not> blocked s (l_pc s v)"
  proof
    assume "blocked s (l_pc s v)"
    then obtain l where l: "wants (l_pc s v) = Some l" "l \<in> W" by (auto simp: blocked_def W_def)
    have "Max W < l" by (rule wants_above [OF locks_okD(2) [OF ok] l(1) h])
    then show False using m(2) [OF l(2)] by simp
  qed
  moreover have "\<not> spins s (l_pc s v)" using spinning_holds_nothing [OF ok] h by blast
  ultimately show thesis using that [of v] h by force
qed

text \<open>
  C3: The scheduler's locks do not deadlock. Whatever finite set of threads has entered the locking functions, in whatever order (moves that
  hold \<open>pi_lock\<close> and ask for the second run queue, balancing that asks for a run queue with a lower address, swaps that take four locks, threads that spin on a
  task between two queues), as long as one of them is not back, one of them can go on.
\<close>

theorem locking_no_deadlock:
  assumes "lock_init s0" "lock_step\<^sup>*\<^sup>* s0 s" "l_pc s u \<noteq> Idle"
  shows "\<exists>t s'. l_pc s t \<noteq> Idle \<and> thread_step t s s' \<and> l_pc s' t \<noteq> l_pc s t"
proof -
  have ok: "locks_ok s" using locking.reach_inv [OF assms(2) lock_init_ok [OF assms(1)]] .
  obtain t where "l_pc s t \<noteq> Idle" "\<not> spins s (l_pc s t)" "\<not> blocked s (l_pc s t)"
  proof (cases "\<exists>t. blocked s (l_pc s t)")
    case True
    then show thesis using blocked_chain [OF ok] that by blast
  next
    case none: False
    show thesis
    proof (cases "spins s (l_pc s u)")
      case True
      then obtain p where "l_on_rq s p = TASK_ON_RQ_MIGRATING" by (auto simp: spins_def)
      from locks_okD(3) [OF ok this] obtain v where v: "moving (l_pc s v) = Some p" by blast
      then have "l_pc s v \<noteq> Idle" "\<not> spins s (l_pc s v)" by (auto simp: spins_def)
      then show thesis using that none by blast
    qed (use that assms(3) none in blast)
  qed
  then show ?thesis using progress [OF locks_okD(2) [OF ok]] by blast
qed

section \<open>Pinned locks\<close>

text \<open>
  With \<open>CONFIG_SCHED_DEBUG\<close> the flags of the run-queue clock remember whether it was updated since the lock was pinned; a pin context that is
  interrupted stashes the answer in \<open>rq_flags\<close>. The functions work on the flags and the stash.
\<close>

definition RQCF_UPDATED :: u32 where "RQCF_UPDATED = 4"

definition rq_pin_lock :: "u32 \<Rightarrow> u32 \<times> u32" where
  "rq_pin_lock flags = (flags AND (RQCF_REQ_SKIP OR RQCF_ACT_SKIP), 0)"

definition rq_unpin_lock :: "u32 \<Rightarrow> u32 \<Rightarrow> u32" where
  "rq_unpin_lock flags rf = (if flags > RQCF_ACT_SKIP then RQCF_UPDATED else rf)"

definition rq_repin_lock :: "u32 \<Rightarrow> u32 \<Rightarrow> u32" where
  "rq_repin_lock flags rf = flags OR rf"

text \<open>Whether \<open>rq_clock\<close> may be read without a warning.\<close>

definition assert_clock_updated :: "u32 \<Rightarrow> bool" where
  "assert_clock_updated flags \<longleftrightarrow> \<not> flags < RQCF_ACT_SKIP"

lemma pin_starts_unknown: "\<not> has_flag (fst (rq_pin_lock f)) RQCF_UPDATED"
proof -
  have "(f AND 3) AND 4 = f AND (3 AND (4 :: u32))" by (simp only: and.assoc)
  also have "\<dots> = 0" by simp
  finally show ?thesis by (simp add: rq_pin_lock_def has_flag_def RQCF_UPDATED_def RQCF_REQ_SKIP_def RQCF_ACT_SKIP_def)
qed

text \<open>An update of the clock is remembered across an interruption, whatever others do to the flags; without one nothing is added.\<close>

lemma repin_restores:
  "RQCF_ACT_SKIP < f \<Longrightarrow> assert_clock_updated (rq_repin_lock f' (rq_unpin_lock f rf))"
  "f \<le> RQCF_ACT_SKIP \<Longrightarrow> rq_repin_lock f' (rq_unpin_lock f (snd (rq_pin_lock f0))) = f'"
proof -
  have "4 \<le> f' OR (4 :: u32)" by (rule le_word_or1)
  then have "2 \<le> f' OR (4 :: u32)" by (rule order_trans [rotated]) simp
  then show "RQCF_ACT_SKIP < f \<Longrightarrow> assert_clock_updated (rq_repin_lock f' (rq_unpin_lock f rf))"
    by (simp add: assert_clock_updated_def rq_repin_lock_def rq_unpin_lock_def RQCF_ACT_SKIP_def RQCF_UPDATED_def not_less)
  show "f \<le> RQCF_ACT_SKIP \<Longrightarrow> rq_repin_lock f' (rq_unpin_lock f (snd (rq_pin_lock f0))) = f'"
    by (simp add: rq_repin_lock_def rq_unpin_lock_def rq_pin_lock_def leD)
qed

section \<open>Concrete runs\<close>

definition lock_demo :: lstate where
  "lock_demo = \<lparr>l_owner = (\<lambda>_. None), l_cpu = (\<lambda>_. 0), l_on_rq = (\<lambda>_. 1), l_pc = (\<lambda>_. Idle)\<rparr>"

lemma lock_demo_init: "lock_init lock_demo"
  by (simp add: lock_init_def lock_demo_def TASK_ON_RQ_MIGRATING_def)

lemma lock_reachI: "lock_step\<^sup>*\<^sup>* s0 s \<Longrightarrow> thread_step t s s' \<Longrightarrow> lock_step\<^sup>*\<^sup>* s0 s'"
  by (rule rtranclp.rtrancl_into_rtrancl [where r = lock_step]) (auto intro: lock_step.Step)


text \<open>Thread 0 has run queue 1 and, for balancing, asks for run queue 0, which thread 1 has.\<close>

theorem locking_no_deadlock_witness:
  "\<exists>s t s'. lock_step\<^sup>*\<^sup>* lock_demo s \<and> l_pc s 0 = Dlb_try 1 0 \<and> l_owner s (Rq_lock 0) = Some 1 \<and> l_pc s t \<noteq> Idle \<and> thread_step t s s' \<and> l_pc s' t \<noteq> l_pc s t"
proof -
  define s1 where "s1 = goto 0 (Rq_want 1) lock_demo"
  define s2 where "s2 = acquire 0 (Rq_lock 1) (Rq_has 1) s1"
  define s3 where "s3 = goto 1 (Rq_want 0) s2"
  define s4 where "s4 = acquire 1 (Rq_lock 0) (Rq_has 0) s3"
  define s5 where "s5 = goto 0 (Dlb_try 1 0) s4"
  note d = s1_def s2_def s3_def s4_def s5_def lock_demo_def lstate_ops
  have "rq_lock_step 0 lock_demo s1" unfolding s1_def by (rule rq_lock_step.Call) (simp add: d)
  then have r1: "lock_step\<^sup>*\<^sup>* lock_demo s1" by (intro lock_reachI [OF rtranclp.rtrancl_refl thread_stepI(1)])
  have "rq_lock_step 0 s1 s2" unfolding s2_def by (rule rq_lock_step.Lock) (simp_all add: d)
  note r2 = lock_reachI [OF r1 thread_stepI(1) [OF this]]
  have "rq_lock_step 1 s2 s3" unfolding s3_def by (rule rq_lock_step.Call) (simp add: d)
  note r3 = lock_reachI [OF r2 thread_stepI(1) [OF this]]
  have "rq_lock_step 1 s3 s4" unfolding s4_def by (rule rq_lock_step.Lock) (simp_all add: d)
  note r4 = lock_reachI [OF r3 thread_stepI(1) [OF this]]
  have "double_lock_balance_step 0 s4 s5" unfolding s5_def by (rule double_lock_balance_step.Call [of _ _ 1]) (simp_all add: d)
  note r5 = lock_reachI [OF r4 thread_stepI(5) [OF this]]
  have "l_pc s5 0 = Dlb_try 1 0" "l_owner s5 (Rq_lock 0) = Some 1" by (simp_all add: d)
  then show ?thesis using locking_no_deadlock [OF lock_demo_init r5, of 0] r5 by (metis pc.distinct)
qed

end
