(* ===== verification/Sched_Switch.thy ===== *)
theory Sched_Switch
  imports Sched_Types
begin

text \<open>
  The context switch of \<open>core.c\<close> beside the run queues: the address spaces (\<open>context_switch\<close>, \<open>idle_task_exit\<close>), the last
  references of a dead task (\<open>do_task_dead\<close>, \<open>finish_task_switch\<close>) and the preemption notifiers. A kernel thread borrows the address space
  of the task before it and the reference it takes is given back in the next switch, outside the lock of the run queue. \<open>finish_task_switch\<close> is two steps, since once it has
  cleared \<open>on_cpu\<close> the task may run, and die, on another CPU before the first one goes on.
\<close>

section \<open>State\<close>

type_synonym mm = nat

definition TASK_DEAD :: u64 where "TASK_DEAD = 0x80"

record sw_task =
  t_mm :: "mm option"
  t_active_mm :: "mm option"
  t_state :: u64
  t_on_cpu :: bool
  t_usage :: nat
  t_stack_refs :: nat
  t_notifiers :: "nat list"

datatype notice = Sched_in nat cpu | Sched_out nat tid

text \<open>Where a CPU is: in a task, after \<open>switch_to\<close> with the task it left, or after \<open>finish_task\<close> with what it has read.\<close>

datatype phase = In_task | Switched tid | Finishing tid u64 "mm option" | Gone

record switching =
  sw_tasks :: "tid \<Rightarrow> sw_task"
  sw_curr :: "cpu \<Rightarrow> tid"
  sw_idle :: "cpu \<Rightarrow> tid"
  sw_online :: "cpu \<Rightarrow> bool"
  sw_phase :: "cpu \<Rightarrow> phase"
  sw_prev_mm :: "cpu \<Rightarrow> mm option"
  sw_loaded :: "cpu \<Rightarrow> mm"
  sw_mm_count :: "mm \<Rightarrow> nat"
  sw_notifier_key :: bool
  sw_notices :: "notice list"

definition init_mm :: mm where "init_mm = 0"

definition upd_sw :: "tid \<Rightarrow> (sw_task \<Rightarrow> sw_task) \<Rightarrow> switching \<Rightarrow> switching" where
  "upd_sw p f s = s\<lparr>sw_tasks := (sw_tasks s)(p := f (sw_tasks s p))\<rparr>"

definition mmgrab :: "mm \<Rightarrow> switching \<Rightarrow> switching" where
  "mmgrab m s = s\<lparr>sw_mm_count := (sw_mm_count s)(m := sw_mm_count s m + 1)\<rparr>"

text \<open>Dropping a reference nobody holds is a fault.\<close>

definition mmdrop :: "mm \<Rightarrow> switching \<Rightarrow> switching option" where
  "mmdrop m s = (if sw_mm_count s m = 0 then None else Some (s\<lparr>sw_mm_count := (sw_mm_count s)(m := sw_mm_count s m - 1)\<rparr>))"

definition put_task_stack :: "tid \<Rightarrow> switching \<Rightarrow> switching option" where
  "put_task_stack p s = (if t_stack_refs (sw_tasks s p) = 0 then None else Some (upd_sw p (\<lambda>t. t\<lparr>t_stack_refs := t_stack_refs t - 1\<rparr>) s))"

definition put_task_struct :: "tid \<Rightarrow> switching \<Rightarrow> switching option" where
  "put_task_struct p s = (if t_usage (sw_tasks s p) = 0 then None else Some (upd_sw p (\<lambda>t. t\<lparr>t_usage := t_usage t - 1\<rparr>) s))"

section \<open>Preemption notifiers\<close>

definition preempt_notifier_register :: "cpu \<Rightarrow> nat \<Rightarrow> switching \<Rightarrow> switching" where
  "preempt_notifier_register c n s = upd_sw (sw_curr s c) (\<lambda>t. t\<lparr>t_notifiers := n # t_notifiers t\<rparr>) s"

definition preempt_notifier_unregister :: "cpu \<Rightarrow> nat \<Rightarrow> switching \<Rightarrow> switching" where
  "preempt_notifier_unregister c n s = upd_sw (sw_curr s c) (\<lambda>t. t\<lparr>t_notifiers := removeAll n (t_notifiers t)\<rparr>) s"

definition fire_sched_in_preempt_notifiers :: "cpu \<Rightarrow> switching \<Rightarrow> switching" where
  "fire_sched_in_preempt_notifiers c s =
    (if sw_notifier_key s then s\<lparr>sw_notices := sw_notices s @ map (\<lambda>n. Sched_in n c) (t_notifiers (sw_tasks s (sw_curr s c)))\<rparr> else s)"

definition fire_sched_out_preempt_notifiers :: "tid \<Rightarrow> tid \<Rightarrow> switching \<Rightarrow> switching" where
  "fire_sched_out_preempt_notifiers prev nxt s =
    (if sw_notifier_key s then s\<lparr>sw_notices := sw_notices s @ map (\<lambda>n. Sched_out n nxt) (t_notifiers (sw_tasks s prev))\<rparr> else s)"

section \<open>The switch\<close>

definition prepare_task :: "tid \<Rightarrow> switching \<Rightarrow> switching" where
  "prepare_task nxt = upd_sw nxt (\<lambda>t. t\<lparr>t_on_cpu := True\<rparr>)"

definition finish_task :: "tid \<Rightarrow> switching \<Rightarrow> switching" where
  "finish_task prev = upd_sw prev (\<lambda>t. t\<lparr>t_on_cpu := False\<rparr>)"

definition prepare_task_switch :: "tid \<Rightarrow> tid \<Rightarrow> switching \<Rightarrow> switching" where
  "prepare_task_switch prev nxt s = prepare_task nxt (fire_sched_out_preempt_notifiers prev nxt s)"

text \<open>\<open>context_switch\<close> up to \<open>switch_to\<close>, after \<open>__schedule\<close> has set \<open>curr\<close>. A null \<open>active_mm\<close> cannot be grabbed or left.\<close>

definition switch_begin :: "cpu \<Rightarrow> tid \<Rightarrow> switching \<Rightarrow> switching option" where
  "switch_begin c nxt s =
    (let prev = sw_curr s c; s = prepare_task_switch prev nxt (s\<lparr>sw_curr := (sw_curr s)(c := nxt)\<rparr>)
     in case t_active_mm (sw_tasks s prev) of None \<Rightarrow> None
      | Some oldmm \<Rightarrow>
          let s = (case t_mm (sw_tasks s nxt) of
                     None \<Rightarrow> mmgrab oldmm (upd_sw nxt (\<lambda>t. t\<lparr>t_active_mm := Some oldmm\<rparr>) s)
                   | Some m \<Rightarrow> s\<lparr>sw_loaded := (sw_loaded s)(c := m)\<rparr>);
              s = (if t_mm (sw_tasks s prev) = None
                   then (upd_sw prev (\<lambda>t. t\<lparr>t_active_mm := None\<rparr>) s)\<lparr>sw_prev_mm := (sw_prev_mm s)(c := Some oldmm)\<rparr> else s)
          in Some (s\<lparr>sw_phase := (sw_phase s)(c := Switched prev)\<rparr>))"

text \<open>\<open>finish_task_switch\<close>: up to and including \<open>finish_task\<close>, then the rest, without the lock.\<close>

definition finish_begin :: "cpu \<Rightarrow> tid \<Rightarrow> switching \<Rightarrow> switching" where
  "finish_begin c prev s =
    (let m = sw_prev_mm s c; s = s\<lparr>sw_prev_mm := (sw_prev_mm s)(c := None)\<rparr>;
         prev_state = t_state (sw_tasks s prev); s = finish_task prev s
     in s\<lparr>sw_phase := (sw_phase s)(c := Finishing prev prev_state m)\<rparr>)"

definition finish_end :: "cpu \<Rightarrow> tid \<Rightarrow> u64 \<Rightarrow> mm option \<Rightarrow> switching \<Rightarrow> switching option" where
  "finish_end c prev prev_state m s = do {
     let s = fire_sched_in_preempt_notifiers c s;
     s \<leftarrow> (case m of None \<Rightarrow> Some s | Some m \<Rightarrow> mmdrop m s);
     s \<leftarrow> (if prev_state = TASK_DEAD then do { s \<leftarrow> put_task_stack prev s; put_task_struct prev s } else Some s);
     Some (s\<lparr>sw_phase := (sw_phase s)(c := In_task)\<rparr>)
   }"

text \<open>\<open>do_task_dead\<close> before its last \<open>__schedule\<close>.\<close>

definition do_task_dead :: "cpu \<Rightarrow> switching \<Rightarrow> switching" where
  "do_task_dead c s = upd_sw (sw_curr s c) (\<lambda>t. t\<lparr>t_state := TASK_DEAD\<rparr>) s"

definition idle_task_exit :: "cpu \<Rightarrow> switching \<Rightarrow> switching option" where
  "idle_task_exit c s = do {
     guard (\<not> sw_online s c);
     guard (sw_curr s c = sw_idle s c);
     let s = (if t_active_mm (sw_tasks s (sw_curr s c)) \<noteq> Some init_mm then s\<lparr>sw_loaded := (sw_loaded s)(c := init_mm)\<rparr> else s);
     Some (s\<lparr>sw_phase := (sw_phase s)(c := Gone)\<rparr>)
   }"

section \<open>The machine\<close>

text \<open>
  The CPUs switch, finish, and in between run: a task may change its state or die, idle tasks excepted; a CPU that is offline leaves from its idle task. A task
  that is on a CPU or dead is not switched to: the run queues hold neither.
\<close>

inductive switch_step :: "switching option \<Rightarrow> switching option \<Rightarrow> bool" where
  Switch: "sw_phase s c = In_task \<Longrightarrow> nxt \<noteq> sw_curr s c \<Longrightarrow> \<not> t_on_cpu (sw_tasks s nxt) \<Longrightarrow> t_state (sw_tasks s nxt) \<noteq> TASK_DEAD \<Longrightarrow>
    switch_step (Some s) (switch_begin c nxt s)"
| Finish: "sw_phase s c = Switched prev \<Longrightarrow> switch_step (Some s) (Some (finish_begin c prev s))"
| Finish_end: "sw_phase s c = Finishing prev st m \<Longrightarrow> switch_step (Some s) (finish_end c prev st m s)"
| Die: "sw_phase s c = In_task \<Longrightarrow> sw_curr s c \<noteq> sw_idle s c \<Longrightarrow> t_state (sw_tasks s (sw_curr s c)) \<noteq> TASK_DEAD \<Longrightarrow>
    switch_step (Some s) (Some (do_task_dead c s))"
| State: "t_state (sw_tasks s p) \<noteq> TASK_DEAD \<Longrightarrow> v \<noteq> TASK_DEAD \<Longrightarrow> switch_step (Some s) (Some (upd_sw p (\<lambda>t. t\<lparr>t_state := v\<rparr>) s))"
| Register: "sw_phase s c = In_task \<Longrightarrow> switch_step (Some s) (Some (preempt_notifier_register c n s))"
| Unregister: "sw_phase s c = In_task \<Longrightarrow> switch_step (Some s) (Some (preempt_notifier_unregister c n s))"
| Hotplug: "switch_step (Some s) (Some (s\<lparr>sw_online := on\<rparr>))"
| Exit: "sw_phase s c = In_task \<Longrightarrow> \<not> sw_online s c \<Longrightarrow> sw_curr s c = sw_idle s c \<Longrightarrow> switch_step (Some s) (idle_task_exit c s)"

section \<open>References\<close>

text \<open>How often a CPU holds a reference to an address space.\<close>

definition borrowed :: "switching \<Rightarrow> mm \<Rightarrow> cpu \<Rightarrow> nat" where
  "borrowed s m c =
    (if t_mm (sw_tasks s (sw_curr s c)) = None \<and> t_active_mm (sw_tasks s (sw_curr s c)) = Some m then 1 else 0) +
    (if sw_prev_mm s c = Some m then 1 else 0) +
    (case sw_phase s c of Finishing _ _ m' \<Rightarrow> if m' = Some m then 1 else 0 | _ \<Rightarrow> 0)"

text \<open>The task a CPU has left but not released.\<close>

definition leaving :: "switching \<Rightarrow> cpu \<Rightarrow> tid option" where
  "leaving s c = (case sw_phase s c of Switched p \<Rightarrow> Some p | _ \<Rightarrow> None)"

text \<open>The reference a task has as a current task: it lasts until the CPU that saw it dead has finished.\<close>

definition dying :: "switching \<Rightarrow> cpu \<Rightarrow> tid \<Rightarrow> bool" where
  "dying s c p \<longleftrightarrow> (\<exists>m. sw_phase s c = Finishing p TASK_DEAD m)"

definition current_ref :: "switching \<Rightarrow> tid \<Rightarrow> nat" where
  "current_ref s p = (if t_state (sw_tasks s p) = TASK_DEAD \<and> \<not> t_on_cpu (sw_tasks s p) \<and> (\<forall>c. \<not> dying s c p) then 0 else 1)"

text \<open>\<open>base m\<close>: the references of others to an address space; \<open>own p\<close>: those to a task, \<open>stk p\<close>: to its stack.\<close>

record refs =
  r_mm :: "mm \<Rightarrow> nat"
  r_task :: "tid \<Rightarrow> nat"
  r_stack :: "tid \<Rightarrow> nat"

definition counts_ok :: "cpu set \<Rightarrow> refs \<Rightarrow> switching \<Rightarrow> bool" where
  "counts_ok cpus r s \<longleftrightarrow> (\<forall>m. sw_mm_count s m = r_mm r m + (\<Sum>c\<in>cpus. borrowed s m c)) \<and>
     (\<forall>p. t_usage (sw_tasks s p) = r_task r p + current_ref s p \<and> t_stack_refs (sw_tasks s p) = r_stack r p + current_ref s p)"

definition cpu_ok :: "switching \<Rightarrow> cpu \<Rightarrow> bool" where
  "cpu_ok s c \<longleftrightarrow> (if sw_phase s c = Gone then sw_loaded s c = init_mm else t_active_mm (sw_tasks s (sw_curr s c)) = Some (sw_loaded s c)) \<and>
     (\<exists>m. t_active_mm (sw_tasks s (sw_curr s c)) = Some m) \<and>
     (sw_prev_mm s c \<noteq> None \<longrightarrow> leaving s c \<noteq> None)"

definition tasks_ok :: "cpu set \<Rightarrow> refs \<Rightarrow> switching \<Rightarrow> bool" where
  "tasks_ok cpus r s \<longleftrightarrow>
     (\<forall>p. t_on_cpu (sw_tasks s p) \<longleftrightarrow> (\<exists>c\<in>cpus. sw_curr s c = p \<or> leaving s c = Some p)) \<and>
     (\<forall>c\<in>cpus. \<forall>d\<in>cpus. c \<noteq> d \<longrightarrow> sw_curr s c \<noteq> sw_curr s d \<and> (\<forall>p. leaving s c = Some p \<longrightarrow> leaving s d \<noteq> Some p)) \<and>
     (\<forall>c\<in>cpus. \<forall>d\<in>cpus. leaving s c \<noteq> Some (sw_curr s d)) \<and>
     (\<forall>p m. t_mm (sw_tasks s p) = Some m \<longrightarrow> t_active_mm (sw_tasks s p) = Some m \<and> 0 < r_mm r m) \<and>
     (\<forall>c d p. dying s c p \<longrightarrow> t_state (sw_tasks s p) = TASK_DEAD \<and> \<not> t_on_cpu (sw_tasks s p) \<and> (dying s d p \<longrightarrow> d = c)) \<and>
     0 < r_mm r init_mm"

definition switch_ok :: "cpu set \<Rightarrow> refs \<Rightarrow> switching \<Rightarrow> bool" where
  "switch_ok cpus r s \<longleftrightarrow> finite cpus \<and> (\<forall>c. c \<notin> cpus \<longrightarrow> sw_phase s c = Gone) \<and> counts_ok cpus r s \<and> (\<forall>c\<in>cpus. cpu_ok s c) \<and> tasks_ok cpus r s"

section \<open>Preservation\<close>

lemmas switch_defs = switch_ok_def counts_ok_def cpu_ok_def tasks_ok_def

lemma switch_okD:
  assumes "switch_ok cpus r s"
  shows "finite cpus" "c \<notin> cpus \<Longrightarrow> sw_phase s c = Gone" "sw_mm_count s m = r_mm r m + (\<Sum>c\<in>cpus. borrowed s m c)"
    "t_usage (sw_tasks s p) = r_task r p + current_ref s p" "t_stack_refs (sw_tasks s p) = r_stack r p + current_ref s p"
    "c \<in> cpus \<Longrightarrow> cpu_ok s c" "t_on_cpu (sw_tasks s p) \<longleftrightarrow> (\<exists>c\<in>cpus. sw_curr s c = p \<or> leaving s c = Some p)"
    "c \<in> cpus \<Longrightarrow> d \<in> cpus \<Longrightarrow> sw_curr s c = sw_curr s d \<Longrightarrow> c = d"
    "c \<in> cpus \<Longrightarrow> d \<in> cpus \<Longrightarrow> leaving s c = Some p \<Longrightarrow> leaving s d = Some p \<Longrightarrow> c = d"
    "c \<in> cpus \<Longrightarrow> d \<in> cpus \<Longrightarrow> leaving s c \<noteq> Some (sw_curr s d)"
    "t_mm (sw_tasks s p) = Some m \<Longrightarrow> t_active_mm (sw_tasks s p) = Some m \<and> 0 < r_mm r m"
    "dying s c p \<Longrightarrow> t_state (sw_tasks s p) = TASK_DEAD \<and> \<not> t_on_cpu (sw_tasks s p)" "dying s c p \<Longrightarrow> dying s d p \<Longrightarrow> d = c"
    "0 < r_mm r init_mm"
  using assms unfolding switch_ok_def counts_ok_def tasks_ok_def by blast+

lemma sum_one:
  assumes "finite A" "c \<in> A" "\<And>d. d \<in> A \<Longrightarrow> d \<noteq> c \<Longrightarrow> f' d = (f d :: nat)"
  shows "(\<Sum>d\<in>A. f' d) + f c = (\<Sum>d\<in>A. f d) + f' c"
proof -
  have "(\<Sum>d\<in>A - {c}. f' d) = (\<Sum>d\<in>A - {c}. f d)" by (rule sum.cong) (use assms(3) in auto)
  then show ?thesis using sum.remove [OF assms(1,2), of f] sum.remove [OF assms(1,2), of f'] by simp
qed

text \<open>What \<open>context_switch\<close> does, field by field.\<close>

lemma switch_begin_fields:
  assumes a: "t_active_mm (sw_tasks s (sw_curr s c)) = Some old" and n: "nxt \<noteq> sw_curr s c"
  obtains s' where "switch_begin c nxt s = Some s'"
    "sw_tasks s' = (sw_tasks s)(nxt := (sw_tasks s nxt)\<lparr>t_on_cpu := True,
         t_active_mm := if t_mm (sw_tasks s nxt) = None then Some old else t_active_mm (sw_tasks s nxt)\<rparr>,
       sw_curr s c := (sw_tasks s (sw_curr s c))\<lparr>t_active_mm := if t_mm (sw_tasks s (sw_curr s c)) = None then None else Some old\<rparr>)"
    "sw_curr s' = (sw_curr s)(c := nxt)" "sw_phase s' = (sw_phase s)(c := Switched (sw_curr s c))"
    "sw_prev_mm s' = (if t_mm (sw_tasks s (sw_curr s c)) = None then (sw_prev_mm s)(c := Some old) else sw_prev_mm s)"
    "sw_loaded s' = (case t_mm (sw_tasks s nxt) of None \<Rightarrow> sw_loaded s | Some m \<Rightarrow> (sw_loaded s)(c := m))"
    "sw_mm_count s' = (if t_mm (sw_tasks s nxt) = None then (sw_mm_count s)(old := sw_mm_count s old + 1) else sw_mm_count s)"
proof -
  have "\<exists>s'. switch_begin c nxt s = Some s'" using a n
    by (auto simp: switch_begin_def prepare_task_switch_def prepare_task_def fire_sched_out_preempt_notifiers_def upd_sw_def Let_def split: option.splits)
  then obtain s' where s': "switch_begin c nxt s = Some s'" by blast
  show thesis
    by (rule that [OF s']) (use s' a n in \<open>auto simp: switch_begin_def prepare_task_switch_def prepare_task_def fire_sched_out_preempt_notifiers_def
        upd_sw_def mmgrab_def Let_def split: option.splits if_splits\<close>)
qed

lemma switch_begin_ok:
  assumes ok: "switch_ok cpus r s" and ph: "sw_phase s c = In_task" and n: "nxt \<noteq> sw_curr s c"
    and off: "\<not> t_on_cpu (sw_tasks s nxt)" and alive: "t_state (sw_tasks s nxt) \<noteq> TASK_DEAD"
  obtains s' where "switch_begin c nxt s = Some s'" "switch_ok cpus r s'"
proof -
  let ?prev = "sw_curr s c"
  note D = switch_okD [OF ok]
  have c: "c \<in> cpus" using D(2) ph by fastforce
  note cc = D(6) [OF c, unfolded cpu_ok_def]
  obtain old where old: "t_active_mm (sw_tasks s ?prev) = Some old" using cc by blast
  have lc: "leaving s c = None" "sw_prev_mm s c = None" "sw_loaded s c = old" using ph cc old by (auto simp: leaving_def)
  obtain s' where s': "switch_begin c nxt s = Some s'" and f: "sw_tasks s' = (sw_tasks s)(nxt := (sw_tasks s nxt)\<lparr>t_on_cpu := True,
         t_active_mm := if t_mm (sw_tasks s nxt) = None then Some old else t_active_mm (sw_tasks s nxt)\<rparr>,
       ?prev := (sw_tasks s ?prev)\<lparr>t_active_mm := if t_mm (sw_tasks s ?prev) = None then None else Some old\<rparr>)"
    "sw_curr s' = (sw_curr s)(c := nxt)" "sw_phase s' = (sw_phase s)(c := Switched ?prev)"
    "sw_prev_mm s' = (if t_mm (sw_tasks s ?prev) = None then (sw_prev_mm s)(c := Some old) else sw_prev_mm s)"
    "sw_loaded s' = (case t_mm (sw_tasks s nxt) of None \<Rightarrow> sw_loaded s | Some m \<Rightarrow> (sw_loaded s)(c := m))"
    "sw_mm_count s' = (if t_mm (sw_tasks s nxt) = None then (sw_mm_count s)(old := sw_mm_count s old + 1) else sw_mm_count s)"
    by (rule switch_begin_fields [OF old n]) (rule that; assumption)
  have others: "sw_curr s d \<noteq> nxt" "sw_curr s d \<noteq> ?prev" "leaving s d \<noteq> Some nxt" if "d \<in> cpus" "d \<noteq> c" for d
    using D(7) [of nxt] D(8) [OF that(1) c] off that by blast+
  have prev: "t_on_cpu (sw_tasks s ?prev)" using D(7) c by blast
  have lv: "leaving s' d = (if d = c then Some ?prev else leaving s d)" for d by (simp add: leaving_def f(3))
  have dy: "dying s' d p \<longleftrightarrow> dying s d p" for d p using ph by (auto simp: dying_def f(3))
  have notdy: "\<not> dying s d nxt" "\<not> dying s d ?prev" for d using D(12) [of d] alive prev by blast+
  have bo: "borrowed s' m d = borrowed s m d" if "d \<in> cpus" "d \<noteq> c" for d m
    using others [OF that] that(2) by (simp add: borrowed_def f)
  have bc: "borrowed s' m c =
      borrowed s m c + (if t_mm (sw_tasks s nxt) = None \<and> m = old then 1 else 0)" for m
    using n old lc ph D(11) [of nxt] by (auto simp: borrowed_def f)
  have "sw_mm_count s' m = r_mm r m + (\<Sum>d\<in>cpus. borrowed s' m d)" for m
    using sum_one [where f' = "borrowed s' m" and f = "borrowed s m", OF D(1) c bo] bc [of m] D(3) [of m] by (auto simp: f(6) split: if_splits)
  moreover have cr: "current_ref s' p = current_ref s p" for p
    unfolding current_ref_def dy using n prev off alive notdy by (auto simp: f(1))
  then have "t_usage (sw_tasks s' p) = r_task r p + current_ref s' p" "t_stack_refs (sw_tasks s' p) = r_stack r p + current_ref s' p" for p
    using D(4,5) [of p] by (auto simp: f(1) cr)
  ultimately have cnt: "counts_ok cpus r s'" by (simp add: counts_ok_def)
  have "cpu_ok s' d" if "d \<in> cpus" for d
    using D(6) [OF that] others [OF that] n old lc D(11) [of nxt] by (cases "d = c") (auto simp: cpu_ok_def lv f split: option.splits)
  moreover have "tasks_ok cpus r s'"
    unfolding tasks_ok_def lv dy
  proof (intro conjI allI ballI impI)
    fix p
    show "t_on_cpu (sw_tasks s' p) = (\<exists>d\<in>cpus. sw_curr s' d = p \<or> (if d = c then Some ?prev else leaving s d) = Some p)"
    proof -
      let ?else = "\<exists>d\<in>cpus. d \<noteq> c \<and> (sw_curr s d = p \<or> leaving s d = Some p)"
      have "t_on_cpu (sw_tasks s p) \<longleftrightarrow> p = ?prev \<or> ?else" using D(7) [of p] c lc(1) by fastforce
      moreover have "(\<exists>d\<in>cpus. sw_curr s' d = p \<or> (if d = c then Some ?prev else leaving s d) = Some p) \<longleftrightarrow> p = nxt \<or> p = ?prev \<or> ?else"
        using c unfolding f(2) by (auto split: if_splits)
      ultimately show ?thesis using prev by (auto simp: f(1))
    qed
  next
    fix p m assume "t_mm (sw_tasks s' p) = Some m"
    then show "t_active_mm (sw_tasks s' p) = Some m" "0 < r_mm r m" using D(11) [of p m] old by (auto simp: f(1) split: if_splits)
  next
    fix d e p assume "dying s d p"
    then show "t_state (sw_tasks s' p) = TASK_DEAD" "\<not> t_on_cpu (sw_tasks s' p)" "dying s e p \<Longrightarrow> e = d"
      using D(12) [of d p] D(13) [of d p e] notdy by (auto simp: f(1))
  next
    fix d e assume de: "d \<in> cpus" "e \<in> cpus" "d \<noteq> e"
    then show "sw_curr s' d \<noteq> sw_curr s' e" using D(8) [of d e] others(1) [of d] others(1) [of e] by (auto simp: f(2))
    fix p assume "(if d = c then Some ?prev else leaving s d) = Some p"
    then show "(if e = c then Some ?prev else leaving s e) \<noteq> Some p"
      using D(9) [OF de(1,2), of p] D(10) [OF de(1) c] D(10) [OF de(2) c] de(3) by (auto split: if_splits)
  next
    fix d e assume de: "d \<in> cpus" "e \<in> cpus"
    then show "(if d = c then Some ?prev else leaving s d) \<noteq> Some (sw_curr s' e)"
      using others(2) [of e] others(3) [of d] D(10) [OF de] n by (cases "d = c"; cases "e = c") (auto simp: f(2))
  qed (rule D(14))
  ultimately have "switch_ok cpus r s'" using D(1,2) cnt c by (auto simp: switch_ok_def f(3))
  then show thesis using that [OF s'] by blast
qed

lemma finish_begin_ok:
  assumes ok: "switch_ok cpus r s" and ph: "sw_phase s c = Switched prev"
  shows "switch_ok cpus r (finish_begin c prev s)"
proof -
  define s' where "s' = finish_begin c prev s"
  note D = switch_okD [OF ok]
  have c: "c \<in> cpus" using D(2) ph by fastforce
  have f: "sw_tasks s' = (sw_tasks s)(prev := (sw_tasks s prev)\<lparr>t_on_cpu := False\<rparr>)" "sw_curr s' = sw_curr s"
    "sw_phase s' = (sw_phase s)(c := Finishing prev (t_state (sw_tasks s prev)) (sw_prev_mm s c))" "sw_prev_mm s' = (sw_prev_mm s)(c := None)"
    "sw_loaded s' = sw_loaded s" "sw_mm_count s' = sw_mm_count s"
    by (simp_all add: s'_def finish_begin_def finish_task_def upd_sw_def Let_def)
  have lc: "leaving s c = Some prev" using ph by (simp add: leaving_def)
  have prev: "t_on_cpu (sw_tasks s prev)" using D(7) c lc by blast
  have lv: "leaving s' d = (if d = c then None else leaving s d)" for d by (simp add: leaving_def f(3))
  have dy: "dying s' d p \<longleftrightarrow> (if d = c then p = prev \<and> t_state (sw_tasks s prev) = TASK_DEAD else dying s d p)" for d p by (auto simp: dying_def f(3))
  have notdy: "\<not> dying s d prev" "\<not> dying s c p" for d p using D(12) [of d] prev ph by (auto simp: dying_def)
  have t: "t_mm (sw_tasks s' p) = t_mm (sw_tasks s p)" "t_active_mm (sw_tasks s' p) = t_active_mm (sw_tasks s p)" "t_state (sw_tasks s' p) = t_state (sw_tasks s p)"
    "t_usage (sw_tasks s' p) = t_usage (sw_tasks s p)" "t_stack_refs (sw_tasks s' p) = t_stack_refs (sw_tasks s p)"
    "t_on_cpu (sw_tasks s' p) \<longleftrightarrow> p \<noteq> prev \<and> t_on_cpu (sw_tasks s p)" for p by (simp_all add: f(1))
  have "borrowed s' m d = borrowed s m d" for m d using ph by (simp add: borrowed_def t f(2,3,4))
  moreover have "current_ref s' p = current_ref s p" for p
  proof (cases "p = prev")
    case False
    then have "dying s' d p \<longleftrightarrow> dying s d p" for d using dy notdy(2) by auto
    then show ?thesis using False by (simp add: current_ref_def t)
  next
    case True
    have "dying s' c p" if "t_state (sw_tasks s p) = TASK_DEAD" using that dy True by simp
    then show ?thesis using prev True unfolding current_ref_def t by auto
  qed
  ultimately have cnt: "counts_ok cpus r s'" using D(3,4,5) by (simp add: counts_ok_def t f(6))
  have "cpu_ok s' d" if "d \<in> cpus" for d
    using D(6) [OF that] ph by (auto simp: cpu_ok_def lv t f(2,3,4,5))
  moreover have "tasks_ok cpus r s'"
    unfolding tasks_ok_def lv dy t
  proof (intro conjI allI ballI impI)
    fix p
    show "(p \<noteq> prev \<and> t_on_cpu (sw_tasks s p)) = (\<exists>d\<in>cpus. sw_curr s' d = p \<or> (if d = c then None else leaving s d) = Some p)"
    proof (cases "p = prev")
      case True
      have "sw_curr s d \<noteq> prev" "d \<noteq> c \<Longrightarrow> leaving s d \<noteq> Some prev" if "d \<in> cpus" for d
        using D(10) [OF c that] D(9) [OF c that lc] lc by auto
      then show ?thesis using True unfolding f(2) by auto
    next
      case False
      have "(\<exists>d\<in>cpus. sw_curr s d = p \<or> (if d = c then None else leaving s d) = Some p) \<longleftrightarrow> (\<exists>d\<in>cpus. sw_curr s d = p \<or> leaving s d = Some p)"
        by (rule bex_cong) (use lc False in auto)
      then show ?thesis using D(7) [of p] False unfolding f(2) by simp
    qed
  next
    fix d e p assume d: "if d = c then p = prev \<and> t_state (sw_tasks s prev) = TASK_DEAD else dying s d p"
    then show "t_state (sw_tasks s p) = TASK_DEAD" "\<not> (p \<noteq> prev \<and> t_on_cpu (sw_tasks s p))" using D(12) [of d p] by (auto split: if_splits)
    assume "if e = c then p = prev \<and> t_state (sw_tasks s prev) = TASK_DEAD else dying s e p"
    then show "e = d" using d D(13) [of d p e] notdy by (auto split: if_splits)
  next
    fix d e p assume de: "d \<in> cpus" "e \<in> cpus" "d \<noteq> e"
    then show "sw_curr s' d \<noteq> sw_curr s' e" using D(8) [of d e] by (auto simp: f(2))
    assume "(if d = c then None else leaving s d) = Some p"
    then show "(if e = c then None else leaving s e) \<noteq> Some p" using D(9) [OF de(1,2), of p] de(3) by (auto split: if_splits)
  next
    fix d e assume "d \<in> cpus" "e \<in> cpus"
    then show "(if d = c then None else leaving s d) \<noteq> Some (sw_curr s' e)" using D(10) [of d e] by (simp add: f(2))
  next
    fix p m assume "t_mm (sw_tasks s p) = Some m"
    then show "t_active_mm (sw_tasks s p) = Some m" "0 < r_mm r m" using D(11) [of p m] by blast+
  qed (rule D(14))
  ultimately show ?thesis using D(1,2) cnt c unfolding s'_def [symmetric] by (auto simp: switch_ok_def f(3))
qed

lemma finish_end_fields:
  assumes "\<And>m'. m = Some m' \<Longrightarrow> 0 < sw_mm_count s m'"
    and "st = TASK_DEAD \<Longrightarrow> 0 < t_usage (sw_tasks s prev)" "st = TASK_DEAD \<Longrightarrow> 0 < t_stack_refs (sw_tasks s prev)"
  defines "drop1 \<equiv> (if st = TASK_DEAD then 1 else 0)"
  obtains s' where "finish_end c prev st m s = Some s'" "sw_tasks s' = (sw_tasks s)(prev := (sw_tasks s prev)
      \<lparr>t_stack_refs := t_stack_refs (sw_tasks s prev) - drop1, t_usage := t_usage (sw_tasks s prev) - drop1\<rparr>)" "sw_curr s' = sw_curr s"
    "sw_phase s' = (sw_phase s)(c := In_task)" "sw_prev_mm s' = sw_prev_mm s" "sw_loaded s' = sw_loaded s"
    "sw_mm_count s' = (case m of None \<Rightarrow> sw_mm_count s | Some m \<Rightarrow> (sw_mm_count s)(m := sw_mm_count s m - 1))"
proof -
  define n where "n = fire_sched_in_preempt_notifiers c s"
  have n: "sw_tasks n = sw_tasks s" "sw_curr n = sw_curr s" "sw_phase n = sw_phase s" "sw_prev_mm n = sw_prev_mm s" "sw_loaded n = sw_loaded s"
    "sw_mm_count n = sw_mm_count s" by (simp_all add: n_def fire_sched_in_preempt_notifiers_def)
  define k where "k = (case m of None \<Rightarrow> n | Some m \<Rightarrow> n\<lparr>sw_mm_count := (sw_mm_count n)(m := sw_mm_count n m - 1)\<rparr>)"
  have k: "(case m of None \<Rightarrow> Some n | Some m \<Rightarrow> mmdrop m n) = Some k" using assms(1) by (auto simp: k_def mmdrop_def n(6) split: option.splits)
  have kf: "sw_tasks k = sw_tasks s" "sw_curr k = sw_curr s" "sw_phase k = sw_phase s" "sw_prev_mm k = sw_prev_mm s" "sw_loaded k = sw_loaded s"
    "sw_mm_count k = (case m of None \<Rightarrow> sw_mm_count s | Some m \<Rightarrow> (sw_mm_count s)(m := sw_mm_count s m - 1))"
    by (simp_all add: k_def n split: option.splits)
  define e where "e = (if st = TASK_DEAD then upd_sw prev (\<lambda>t. t\<lparr>t_usage := t_usage t - 1\<rparr>) (upd_sw prev (\<lambda>t. t\<lparr>t_stack_refs := t_stack_refs t - 1\<rparr>) k) else k)"
  have e: "(if st = TASK_DEAD then do { s \<leftarrow> put_task_stack prev k; put_task_struct prev s } else Some k) = Some e"
    using assms(2,3) by (cases "st = TASK_DEAD") (simp_all add: e_def put_task_stack_def put_task_struct_def kf(1) upd_sw_def)
  show thesis
    by (rule that [of "e\<lparr>sw_phase := (sw_phase e)(c := In_task)\<rparr>"])
      (simp_all add: finish_end_def n_def [symmetric] k e, simp_all add: e_def kf upd_sw_def drop1_def)
qed

lemma finish_end_ok:
  assumes ok: "switch_ok cpus r s" and ph: "sw_phase s c = Finishing prev st m"
  obtains s' where "finish_end c prev st m s = Some s'" "switch_ok cpus r s'"
proof -
  note D = switch_okD [OF ok]
  have c: "c \<in> cpus" using D(2) ph by fastforce
  have mcount: "0 < sw_mm_count s m'" if "m = Some m'" for m'
    using D(3) [of m'] sum.remove [OF D(1) c, of "borrowed s m'"] that ph by (simp add: borrowed_def)
  have dc: "dying s c prev \<longleftrightarrow> st = TASK_DEAD" using ph by (auto simp: dying_def)
  have ref: "0 < t_usage (sw_tasks s prev)" "0 < t_stack_refs (sw_tasks s prev)" if "st = TASK_DEAD"
    using D(4,5) [of prev] dc that by (auto simp: current_ref_def)
  let ?less = "if st = TASK_DEAD then 1 else 0"
  obtain s' where s': "finish_end c prev st m s = Some s'" and f: "sw_tasks s' = (sw_tasks s)(prev := (sw_tasks s prev)
      \<lparr>t_stack_refs := t_stack_refs (sw_tasks s prev) - ?less, t_usage := t_usage (sw_tasks s prev) - ?less\<rparr>)" "sw_curr s' = sw_curr s"
    "sw_phase s' = (sw_phase s)(c := In_task)" "sw_prev_mm s' = sw_prev_mm s" "sw_loaded s' = sw_loaded s"
    "sw_mm_count s' = (case m of None \<Rightarrow> sw_mm_count s | Some m \<Rightarrow> (sw_mm_count s)(m := sw_mm_count s m - 1))"
    by (rule finish_end_fields [of m s st prev c]) (erule mcount, erule ref(1), erule ref(2), (rule that; assumption))
  have lv: "leaving s' d = leaving s d" for d using ph by (simp add: leaving_def f(3))
  have dy: "dying s' d p \<longleftrightarrow> d \<noteq> c \<and> dying s d p" for d p by (auto simp: dying_def f(3))
  have t: "t_mm (sw_tasks s' p) = t_mm (sw_tasks s p)" "t_active_mm (sw_tasks s' p) = t_active_mm (sw_tasks s p)" "t_state (sw_tasks s' p) = t_state (sw_tasks s p)"
    "t_on_cpu (sw_tasks s' p) \<longleftrightarrow> t_on_cpu (sw_tasks s p)" for p by (simp_all add: f(1))
  have bo: "borrowed s' m' d = borrowed s m' d" if "d \<noteq> c" for m' d using that by (simp add: borrowed_def t f(2,3,4))
  have bc: "borrowed s m' c = borrowed s' m' c + (if m = Some m' then 1 else 0)" for m' using ph by (simp add: borrowed_def t f(2,3,4))
  have "sw_mm_count s' m' = r_mm r m' + (\<Sum>d\<in>cpus. borrowed s' m' d)" for m'
    using sum_one [where f' = "borrowed s' m'" and f = "borrowed s m'", OF D(1) c bo] bc [of m'] D(3) [of m'] mcount
    by (auto simp: f(6) split: option.splits if_splits)
  moreover have cr: "current_ref s p = current_ref s' p + (if p = prev then ?less else 0)" for p
  proof (cases "p = prev \<and> st = TASK_DEAD")
    case True
    then have "dying s c p" using dc by simp
    moreover from this have "\<not> dying s' d p" for d using D(13) [of c p d] dy by blast
    ultimately show ?thesis using D(12) [of c p] True unfolding current_ref_def t by auto
  next
    case False
    then have "dying s' d p \<longleftrightarrow> dying s d p" for d using dy ph by (auto simp: dying_def)
    then show ?thesis using False by (auto simp: current_ref_def t)
  qed
  have "t_usage (sw_tasks s' p) = r_task r p + current_ref s' p" "t_stack_refs (sw_tasks s' p) = r_stack r p + current_ref s' p" for p
    using D(4,5) [of p] cr [of p] by (auto simp: f(1))
  ultimately have cnt: "counts_ok cpus r s'" by (simp add: counts_ok_def)
  have "cpu_ok s' d" if "d \<in> cpus" for d
    using D(6) [OF that] ph by (auto simp: cpu_ok_def lv t f(2,3,4,5))
  moreover have "tasks_ok cpus r s'"
    using ok unfolding switch_ok_def tasks_ok_def lv dy t f(2) by blast
  ultimately have "switch_ok cpus r s'" using D(1,2) cnt c by (auto simp: switch_ok_def f(3))
  then show thesis using that [OF s'] by blast
qed

text \<open>Steps that leave address spaces, CPUs and counters alone, where only a task on a CPU may die.\<close>

lemma quiet_step_ok:
  assumes ok: "switch_ok cpus r s"
    and f: "sw_curr s' = sw_curr s" "sw_phase s' = sw_phase s" "sw_prev_mm s' = sw_prev_mm s" "sw_loaded s' = sw_loaded s" "sw_mm_count s' = sw_mm_count s"
    and t: "\<And>p. t_mm (sw_tasks s' p) = t_mm (sw_tasks s p) \<and> t_active_mm (sw_tasks s' p) = t_active_mm (sw_tasks s p) \<and>
       t_on_cpu (sw_tasks s' p) = t_on_cpu (sw_tasks s p) \<and> t_usage (sw_tasks s' p) = t_usage (sw_tasks s p) \<and> t_stack_refs (sw_tasks s' p) = t_stack_refs (sw_tasks s p)"
    and dead: "\<And>p. t_on_cpu (sw_tasks s p) \<and> t_state (sw_tasks s p) \<noteq> TASK_DEAD \<or> (t_state (sw_tasks s' p) = TASK_DEAD \<longleftrightarrow> t_state (sw_tasks s p) = TASK_DEAD)"
  shows "switch_ok cpus r s'"
proof -
  have lv: "leaving s' = leaving s" "dying s' = dying s" by (simp_all add: fun_eq_iff leaving_def dying_def f)
  have "borrowed s' = borrowed s" using t by (simp add: fun_eq_iff borrowed_def f)
  moreover have "current_ref s' p = current_ref s p" for p using dead [of p] t [of p] by (auto simp: current_ref_def lv)
  ultimately have "counts_ok cpus r s'" using ok t by (simp add: switch_ok_def counts_ok_def f)
  moreover have "cpu_ok s' c \<longleftrightarrow> cpu_ok s c" for c using t by (simp add: cpu_ok_def f lv)
  moreover have "t_state (sw_tasks s' p) = TASK_DEAD" if "dying s c p" for c p using switch_okD(12) [OF ok that] dead [of p] by blast
  then have "tasks_ok cpus r s'"
    using ok unfolding switch_ok_def tasks_ok_def f lv t [THEN conjunct1] t [THEN conjunct2, THEN conjunct1] t [THEN conjunct2, THEN conjunct2, THEN conjunct1] by blast
  ultimately show ?thesis using ok by (simp add: switch_ok_def f)
qed

lemma idle_task_exit_ok:
  assumes ok: "switch_ok cpus r s" and ph: "sw_phase s c = In_task" and "\<not> sw_online s c" "sw_curr s c = sw_idle s c"
  obtains s' where "idle_task_exit c s = Some s'" "switch_ok cpus r s'"
proof -
  note D = switch_okD [OF ok]
  have c: "c \<in> cpus" using D(2) ph by fastforce
  note cc = D(6) [OF c, unfolded cpu_ok_def]
  obtain s' where s': "idle_task_exit c s = Some s'" and f: "sw_tasks s' = sw_tasks s" "sw_curr s' = sw_curr s" "sw_phase s' = (sw_phase s)(c := Gone)"
    "sw_prev_mm s' = sw_prev_mm s" "sw_loaded s' = (sw_loaded s)(c := init_mm)" "sw_mm_count s' = sw_mm_count s"
    using assms(3,4) cc ph by (cases "t_active_mm (sw_tasks s (sw_curr s c)) = Some init_mm") (auto simp: idle_task_exit_def fun_upd_idem)
  have lv: "leaving s' = leaving s" "dying s' = dying s" using ph by (auto simp: fun_eq_iff leaving_def dying_def f)
  have "borrowed s' = borrowed s" using ph by (simp add: fun_eq_iff borrowed_def f)
  then have "counts_ok cpus r s'" using ok by (simp add: switch_ok_def counts_ok_def current_ref_def f lv)
  moreover have "cpu_ok s' d" if "d \<in> cpus" for d using D(6) [OF that] by (auto simp: cpu_ok_def f lv)
  moreover have "tasks_ok cpus r s'" using ok unfolding switch_ok_def tasks_ok_def f lv by blast
  ultimately have "switch_ok cpus r s'" using D(1,2) by (simp add: switch_ok_def f)
  then show thesis using that [OF s'] by blast
qed

definition switching_ok :: "cpu set \<Rightarrow> refs \<Rightarrow> switching option \<Rightarrow> bool" where
  "switching_ok cpus r s \<longleftrightarrow> (case s of None \<Rightarrow> False | Some s \<Rightarrow> switch_ok cpus r s)"

lemma switching_ok_simps [simp]: "\<not> switching_ok cpus r None" "switching_ok cpus r (Some s) \<longleftrightarrow> switch_ok cpus r s"
  by (simp_all add: switching_ok_def)

lemma switch_step_ok: "switch_step s s' \<Longrightarrow> switching_ok cpus r s \<Longrightarrow> switching_ok cpus r s'"
proof (induction rule: switch_step.induct)
  case (Switch s c nxt)
  then show ?case using switch_begin_ok [of cpus r s c nxt] by (metis switching_ok_simps(2))
next
  case (Finish s c prev)
  then show ?case using finish_begin_ok by simp
next
  case (Finish_end s c prev st m)
  then show ?case using finish_end_ok [of cpus r s c prev st m] by (metis switching_ok_simps(2))
next
  case (Die s c)
  then have ok: "switch_ok cpus r s" by simp
  then have "c \<in> cpus" using switch_okD(2) [OF ok] Die(1) by fastforce
  then have "t_on_cpu (sw_tasks s (sw_curr s c))" using switch_okD(7) [OF ok] by blast
  then show ?case using Die(3) by (auto intro!: quiet_step_ok [OF ok] simp: do_task_dead_def upd_sw_def split: if_splits)
next
  case (State s p v)
  then show ?case by (auto intro!: quiet_step_ok [of cpus r s] simp: upd_sw_def split: if_splits)
next
  case (Register s c n)
  then show ?case by (auto intro!: quiet_step_ok [of cpus r s] simp: preempt_notifier_register_def upd_sw_def split: if_splits)
next
  case (Unregister s c n)
  then show ?case by (auto intro!: quiet_step_ok [of cpus r s] simp: preempt_notifier_unregister_def upd_sw_def split: if_splits)
next
  case (Hotplug s on)
  then show ?case by (auto intro!: quiet_step_ok [of cpus r s])
next
  case (Exit s c)
  then show ?case using idle_task_exit_ok [of cpus r s c] by (metis switching_ok_simps(2))
qed

interpretation switches: step_invariant switch_step "switching_ok cpus r" for cpus r
  by unfold_locales (rule switch_step_ok)

text \<open>No CPU runs on an address space without references.\<close>

lemma loaded_alive:
  assumes ok: "switch_ok cpus r s" and c: "c \<in> cpus"
  shows "0 < sw_mm_count s (sw_loaded s c)"
proof -
  note D = switch_okD [OF ok] and cc = switch_okD(6) [OF ok c, unfolded cpu_ok_def]
  let ?m = "sw_loaded s c"
  show ?thesis
  proof (cases "sw_phase s c = Gone")
    case False
    then have a: "t_active_mm (sw_tasks s (sw_curr s c)) = Some ?m" using cc by simp
    show ?thesis
    proof (cases "t_mm (sw_tasks s (sw_curr s c))")
      case None
      then have "0 < borrowed s ?m c" using a by (simp add: borrowed_def)
      then show ?thesis using D(3) [of ?m] sum.remove [OF D(1) c, of "borrowed s ?m"] by simp
    qed (use D(3) [of ?m] D(11) [of "sw_curr s c"] a in auto)
  qed (use cc D(3,14) in auto)
qed

section \<open>The property\<close>

text \<open>Every CPU in its idle task, on the kernel's address space; no switch under way and no task dead.\<close>

definition switch_init :: "cpu set \<Rightarrow> refs \<Rightarrow> switching \<Rightarrow> bool" where
  "switch_init cpus r s \<longleftrightarrow> finite cpus \<and> 0 < r_mm r init_mm \<and>
     (\<forall>c. sw_phase s c = (if c \<in> cpus then In_task else Gone) \<and> sw_prev_mm s c = None) \<and>
     (\<forall>c\<in>cpus. sw_curr s c = sw_idle s c \<and> sw_loaded s c = init_mm) \<and> inj_on (sw_idle s) cpus \<and>
     (\<forall>m. sw_mm_count s m = r_mm r m + (if m = init_mm then card cpus else 0)) \<and>
     (\<forall>p. t_on_cpu (sw_tasks s p) = (p \<in> sw_idle s ` cpus) \<and> t_state (sw_tasks s p) \<noteq> TASK_DEAD \<and>
        t_usage (sw_tasks s p) = r_task r p + 1 \<and> t_stack_refs (sw_tasks s p) = r_stack r p + 1) \<and>
     (\<forall>p. if p \<in> sw_idle s ` cpus then t_mm (sw_tasks s p) = None \<and> t_active_mm (sw_tasks s p) = Some init_mm
          else t_active_mm (sw_tasks s p) = t_mm (sw_tasks s p) \<and> (\<forall>m. t_mm (sw_tasks s p) = Some m \<longrightarrow> 0 < r_mm r m))"

lemma switch_init_ok:
  assumes "switch_init cpus r s" shows "switch_ok cpus r s"
proof -
  note I = assms [unfolded switch_init_def]
  have ph: "sw_phase s c = (if c \<in> cpus then In_task else Gone)" "sw_prev_mm s c = None" for c using I by simp_all
  have idle: "sw_curr s c = sw_idle s c" "sw_loaded s c = init_mm" "t_mm (sw_tasks s (sw_idle s c)) = None" "t_active_mm (sw_tasks s (sw_idle s c)) = Some init_mm"
    if "c \<in> cpus" for c using I that by (meson imageI)+
  have lv: "leaving s c = None" "\<not> dying s c p" for c p by (simp_all add: leaving_def dying_def ph)
  have b: "borrowed s m c = (if m = init_mm then 1 else 0)" if "c \<in> cpus" for m c using that by (simp add: borrowed_def ph idle)
  have "(\<Sum>c\<in>cpus. borrowed s m c) = (if m = init_mm then card cpus else 0)" for m by (subst sum.cong [OF refl b]) simp_all
  then have "counts_ok cpus r s" using I by (simp add: counts_ok_def current_ref_def)
  moreover have "cpu_ok s c" if "c \<in> cpus" for c using that by (simp add: cpu_ok_def ph lv idle)
  moreover have "tasks_ok cpus r s"
    unfolding tasks_ok_def lv(1)
  proof (intro conjI allI ballI impI)
    show "t_on_cpu (sw_tasks s p) = (\<exists>c\<in>cpus. sw_curr s c = p \<or> None = Some p)" for p using I idle(1) by (auto simp: image_iff)
    show "t_mm (sw_tasks s p) = Some m \<Longrightarrow> t_active_mm (sw_tasks s p) = Some m" "t_mm (sw_tasks s p) = Some m \<Longrightarrow> 0 < r_mm r m" for p m
      using I by (metis option.distinct(1))+
  qed (use I idle(1) lv(2) in \<open>auto simp: inj_on_def\<close>)
  ultimately show ?thesis using I by (simp add: switch_ok_def ph)
qed

text \<open>
  C4: References across context switches are exact. However the CPUs' switches interleave, no count is dropped below zero; the count of an address space is the
  references of others plus one for every CPU that borrows it for a kernel thread, has it to drop after the switch, or is about to drop it, so
  no CPU runs on a freed address space and none leaks; a task that has died gives up the reference it had as a current task and its stack exactly once, after it has left
  its CPU for good, even if it went on to run and die elsewhere while the CPU it left was still finishing the switch.
\<close>

theorem switch_refs_exact:
  assumes "switch_init cpus r s0" "switch_step\<^sup>*\<^sup>* (Some s0) z"
  shows "\<exists>s. z = Some s \<and> (\<forall>m. sw_mm_count s m = r_mm r m + (\<Sum>c\<in>cpus. borrowed s m c)) \<and> (\<forall>c\<in>cpus. 0 < sw_mm_count s (sw_loaded s c)) \<and>
    (\<forall>p. t_usage (sw_tasks s p) = r_task r p + current_ref s p \<and> t_stack_refs (sw_tasks s p) = r_stack r p + current_ref s p) \<and>
    (\<forall>p. t_on_cpu (sw_tasks s p) \<longrightarrow> 0 < t_usage (sw_tasks s p) \<and> 0 < t_stack_refs (sw_tasks s p))"
proof -
  have "switching_ok cpus r z" using switches.reach_inv [OF assms(2)] switch_init_ok [OF assms(1)] by simp
  then obtain s where s: "z = Some s" "switch_ok cpus r s" by (cases z) simp_all
  have "current_ref s p = 1" if "t_on_cpu (sw_tasks s p)" for p using that by (simp add: current_ref_def)
  then show ?thesis using s(1) switch_okD(3,4,5) [OF s(2)] loaded_alive [OF s(2)] by auto
qed

text \<open>On CPU 0 the user task 5 runs and then the kernel thread 6, which borrows its address space.\<close>

definition switch_demo :: switching where
  "switch_demo = \<lparr>sw_tasks = (\<lambda>p. \<lparr>t_mm = (if p = 5 then Some 7 else None), t_active_mm = (if p = 5 then Some 7 else if p < 2 then Some 0 else None),
       t_state = 0, t_on_cpu = (p < 2), t_usage = 1, t_stack_refs = 1, t_notifiers = []\<rparr>),
     sw_curr = (\<lambda>c. c), sw_idle = (\<lambda>c. c), sw_online = (\<lambda>_. True), sw_phase = (\<lambda>c. if c < 2 then In_task else Gone), sw_prev_mm = (\<lambda>_. None),
     sw_loaded = (\<lambda>_. 0), sw_mm_count = (\<lambda>m. if m = 0 then 3 else 1), sw_notifier_key = False, sw_notices = []\<rparr>"

definition demo_refs :: refs where
  "demo_refs = \<lparr>r_mm = (\<lambda>_. 1), r_task = (\<lambda>_. 0), r_stack = (\<lambda>_. 0)\<rparr>"

lemma switch_demo_init: "switch_init {0, 1} demo_refs switch_demo"
proof -
  have "p < (2 :: nat) \<longleftrightarrow> p = 0 \<or> p = 1" for p by auto
  then show ?thesis by (simp add: switch_init_def switch_demo_def demo_refs_def init_mm_def TASK_DEAD_def)
qed

lemmas switch_eval = switch_begin_def prepare_task_switch_def prepare_task_def fire_sched_out_preempt_notifiers_def upd_sw_def mmgrab_def finish_begin_def finish_task_def
  finish_end_def fire_sched_in_preempt_notifiers_def mmdrop_def Let_def switch_demo_def TASK_DEAD_def

theorem switch_refs_exact_witness:
  "\<exists>s. switch_step\<^sup>*\<^sup>* (Some switch_demo) (Some s) \<and> sw_curr s 0 = 6 \<and> sw_loaded s 0 = 7 \<and> sw_mm_count s 7 = 2 \<and> 0 < t_usage (sw_tasks s 6)"
proof -
  define s1 where "s1 = the (switch_begin 0 5 switch_demo)"
  define s2 where "s2 = finish_begin 0 0 s1"
  define s3 where "s3 = the (finish_end 0 0 0 (Some 0) s2)"
  define s4 where "s4 = the (switch_begin 0 6 s3)"
  note d = s1_def s2_def s3_def s4_def switch_eval
  have "switch_step (Some switch_demo) (Some s1)" using switch_step.Switch [of switch_demo 0 5] by (simp add: d)
  moreover have "switch_step (Some s1) (Some s2)" unfolding s2_def by (rule switch_step.Finish) (simp add: d)
  moreover have "switch_step (Some s2) (Some s3)" using switch_step.Finish_end [of s2 0 0 0 "Some 0"] by (simp add: d)
  moreover have "switch_step (Some s3) (Some s4)" using switch_step.Switch [of s3 0 6] by (simp add: d)
  ultimately have r: "switch_step\<^sup>*\<^sup>* (Some switch_demo) (Some s4)" by (meson converse_rtranclp_into_rtranclp rtranclp.rtrancl_refl)
  have "sw_curr s4 0 = 6" "sw_loaded s4 0 = 7" "sw_mm_count s4 7 = 2" "t_on_cpu (sw_tasks s4 6)" by (simp_all add: d)
  then show ?thesis using switch_refs_exact [OF switch_demo_init r] r by auto
qed

end
