(* ===== verification/Sched_Kicks.thy ===== *)
theory Sched_Kicks
  imports Sched_Policy
begin

text \<open>
  How CPUs prod each other, and how a task waits for another (\<open>core.c\<close>): the high-resolution tick, which a remote CPU has to program by an interrupt, the flags of the
  idle loop, the choice of a CPU for timers and the kicks of \<open>NO_HZ\<close>, the reschedule interrupt, wake-up statistics, the debugging of preemption counts, and \<open>wait_task_inactive\<close>.
  Timers, housekeeping masks and scheduling domains are code outside the repository.
\<close>

section \<open>The high-resolution tick\<close>

text \<open>
  The timer of a run queue: the expiry that is set, the one the timer is queued with (\<open>None\<close>: not queued), the expiry programmed last, the flag of the
  run queue, and the calls in flight.
\<close>

record hrtick_rq =
  hr_expires :: u64
  hr_armed :: "u64 option"
  hr_programmed :: u64
  hr_csd_pending :: bool
  hr_csd :: nat







text \<open>\<open>hrtick\<close>: the timer has expired and is not restarted; the class's tick runs.\<close>

definition hrtick :: "kernel_env \<Rightarrow> cpu \<Rightarrow> hrtick_rq \<times> sched_state \<Rightarrow> (hrtick_rq \<times> sched_state) option" where
  "hrtick env c = (\<lambda>(h, st). do {
     let st = update_rq_clock c st;
     let p = curr_of st c;
     st \<leftarrow> class_tick env (p_class (tasks st p)) c p st;
     Some (h\<lparr>hr_armed := None\<rparr>, st)
   })"







section \<open>The flags of the idle loop\<close>

text \<open>
  \<open>set_nr_and_not_polling\<close> is one atomic operation on the flags of the thread; \<open>nr\<close> and \<open>pl\<close> are the bits of the architecture. \<open>set_nr_if_polling\<close> retries: \<open>vs\<close> are
  the values the flags have when its compare-and-exchange runs, which others may have changed. The result is the value it returns and, if it wrote, what it wrote;
  \<open>None\<close> while it has not succeeded.
\<close>

definition set_nr_and_not_polling :: "u32 \<Rightarrow> u32 \<Rightarrow> u32 \<Rightarrow> bool \<times> u32" where
  "set_nr_and_not_polling nr pl flags = (\<not> has_flag flags pl, flags OR nr)"

fun set_nr_if_polling_loop :: "u32 \<Rightarrow> u32 \<Rightarrow> u32 \<Rightarrow> u32 list \<Rightarrow> (bool \<times> u32 option) option" where
  "set_nr_if_polling_loop nr pl val vs =
    (if \<not> has_flag val pl then Some (False, None)
     else if has_flag val nr then Some (True, None)
     else case vs of [] \<Rightarrow> None
       | cur # vs \<Rightarrow> if cur = val then Some (True, Some (val OR nr)) else set_nr_if_polling_loop nr pl cur vs)"

declare set_nr_if_polling_loop.simps [simp del]

text \<open>What it writes is what it replaces with the one bit added, and it promises nothing unless the other CPU polls.\<close>

lemma set_nr_if_polling_loop_sound:
  "set_nr_if_polling_loop nr pl val vs = Some (b, w) \<Longrightarrow> (b \<longrightarrow> (\<exists>cur \<in> set (val # vs). has_flag cur pl \<and> (case w of None \<Rightarrow> has_flag cur nr | Some x \<Rightarrow> x = cur OR nr))) \<and> (\<not> b \<longrightarrow> w = None)"
proof (induction vs arbitrary: val)
  case Nil
  then show ?case by (auto simp: set_nr_if_polling_loop.simps split: if_splits)
next
  case (Cons v vs)
  show ?case
  proof (cases "has_flag val pl \<and> \<not> has_flag val nr \<and> v \<noteq> val")
    case True
    then have "set_nr_if_polling_loop nr pl v vs = Some (b, w)" using Cons.prems by (subst (asm) set_nr_if_polling_loop.simps) simp
    from Cons.IH [OF this] show ?thesis by (auto split: option.splits)
  next
    case False
    then show ?thesis using Cons.prems by (subst (asm) set_nr_if_polling_loop.simps) (auto split: if_splits)
  qed
qed

text \<open>It ends as soon as the flags stay the same between two looks.\<close>

lemma set_nr_if_polling_loop_ends:
  "vs = us @ [v, v] @ ws \<Longrightarrow> set_nr_if_polling_loop nr pl val vs \<noteq> None"
proof (induction us arbitrary: val vs)
  case Nil
  then show ?case by (auto simp: set_nr_if_polling_loop.simps [of nr pl val] set_nr_if_polling_loop.simps [of nr pl v])
next
  case (Cons u us)
  then show ?case using Cons.IH [OF refl, of u] by (auto simp: set_nr_if_polling_loop.simps [of nr pl val])
qed

section \<open>Timers and kicks\<close>

record nohz_env =
  nz_housekeeping :: "cpu \<Rightarrow> bool"
  nz_any_housekeeping :: cpu
  nz_full :: "cpu \<Rightarrow> bool"
  nz_tick_stopped :: bool
  nz_domains :: "cpu \<Rightarrow> cpu list list"

definition get_nohz_timer_target :: "nohz_env \<Rightarrow> sched_state \<Rightarrow> cpu" where
  "get_nohz_timer_target nz st =
    (let cpu = this_cpu st; busy = (\<lambda>i. \<not> idle_cpu st i \<and> nz_housekeeping nz i)
     in if busy cpu then cpu
        else case find (\<lambda>i. i \<noteq> cpu \<and> busy i) (concat (nz_domains nz cpu)) of
               Some i \<Rightarrow> i
             | None \<Rightarrow> if \<not> nz_housekeeping nz cpu then nz_any_housekeeping nz else cpu)"

text \<open>A timer always goes to a housekeeping CPU, and to an idle one only if no CPU in reach is busy.\<close>

lemma timer_target:
  assumes "nz_housekeeping nz (nz_any_housekeeping nz)"
  shows "nz_housekeeping nz (get_nohz_timer_target nz st)"
    "idle_cpu st (get_nohz_timer_target nz st) \<Longrightarrow> i \<in> insert (this_cpu st) (set (concat (nz_domains nz (this_cpu st)))) \<Longrightarrow> nz_housekeeping nz i \<Longrightarrow> idle_cpu st i"
proof -
  define c where "c = this_cpu st"
  define cs where "cs = concat (nz_domains nz c)"
  define P where "P i \<longleftrightarrow> i \<noteq> c \<and> \<not> idle_cpu st i \<and> nz_housekeeping nz i" for i
  let ?t = "get_nohz_timer_target nz st"
  have t: "?t = (if \<not> idle_cpu st c \<and> nz_housekeeping nz c then c else case find P cs of Some i \<Rightarrow> i
      | None \<Rightarrow> if \<not> nz_housekeeping nz c then nz_any_housekeeping nz else c)"
    unfolding get_nohz_timer_target_def Let_def c_def cs_def P_def [abs_def] by (rule refl)
  have "nz_housekeeping nz ?t \<and> (idle_cpu st ?t \<longrightarrow> (\<forall>i\<in>insert c (set cs). nz_housekeeping nz i \<longrightarrow> idle_cpu st i))"
  proof (cases "find P cs")
    case None
    then have "\<not> P i" if "i \<in> set cs" for i using that by (simp add: find_None_iff)
    then show ?thesis using assms None by (auto simp: t P_def)
  next
    case (Some j)
    then have "P j" by (auto simp: find_Some_iff)
    then show ?thesis using Some by (auto simp: t P_def)
  qed
  then show "nz_housekeeping nz ?t"
    "idle_cpu st ?t \<Longrightarrow> i \<in> insert (this_cpu st) (set (concat (nz_domains nz (this_cpu st)))) \<Longrightarrow> nz_housekeeping nz i \<Longrightarrow> idle_cpu st i"
    unfolding cs_def c_def by blast+
qed

text \<open>The kicks a CPU sends: reschedule interrupts in \<open>ipis\<close>, kicks of the full dynticks in the second component.\<close>

definition wake_up_idle_cpu :: "cpu \<Rightarrow> sched_state \<Rightarrow> sched_state" where
  "wake_up_idle_cpu c st =
    (if c = this_cpu st then st
     else let idle = rq_idle (rqs st c); polls = p_polling (tasks st idle); st = upd_task idle (\<lambda>t. t\<lparr>p_need_resched := True\<rparr>) st
          in if \<not> polls then st\<lparr>ipis := ipis st @ [c]\<rparr> else st)"

definition wake_up_full_nohz_cpu :: "nohz_env \<Rightarrow> cpu \<Rightarrow> sched_state \<Rightarrow> bool \<times> cpu list" where
  "wake_up_full_nohz_cpu nz c st =
    (if c \<notin> set (cpu_online_mask st) then (True, [])
     else if nz_full nz c then (True, if c \<noteq> this_cpu st \<or> nz_tick_stopped nz then [c] else [])
     else (False, []))"

definition wake_up_nohz_cpu :: "nohz_env \<Rightarrow> cpu \<Rightarrow> sched_state \<Rightarrow> cpu list \<times> sched_state" where
  "wake_up_nohz_cpu nz c st = (case wake_up_full_nohz_cpu nz c st of (done, kicks) \<Rightarrow> (kicks, if \<not> done then wake_up_idle_cpu c st else st))"

text \<open>No wake-up of an online CPU is lost: it is kicked, gets an interrupt, polls and sees the flag, or is the CPU itself.\<close>

lemma wake_up_nohz_reaches:
  assumes "c \<in> set (cpu_online_mask st)" "c \<noteq> this_cpu st" "wake_up_nohz_cpu nz c st = (kicks, st')"
  shows "c \<in> set kicks \<or> (p_need_resched (tasks st' (rq_idle (rqs st c))) \<and> (p_polling (tasks st (rq_idle (rqs st c))) \<or> c \<in> set (ipis st')))"
  using assms by (auto simp: wake_up_nohz_cpu_def wake_up_full_nohz_cpu_def wake_up_idle_cpu_def Let_def st_simps split: if_splits prod.splits)

text \<open>The reschedule interrupt: pending wake-ups, then a requested idle balance. \<open>nf\<close> are the \<open>nohz_flags\<close> of the CPU; the result tells whether the softirq is raised.\<close>

definition NOHZ_KICK_MASK :: u32 where "NOHZ_KICK_MASK = 3"

definition got_nohz_idle_kick :: "u32 \<Rightarrow> sched_state \<Rightarrow> bool \<times> u32" where
  "got_nohz_idle_kick nf st =
    (if \<not> has_flag nf NOHZ_KICK_MASK then (False, nf)
     else if idle_cpu st (this_cpu st) \<and> \<not> p_need_resched (tasks st (current st)) then (True, nf)
     else (False, nf AND NOT NOHZ_KICK_MASK))"

definition scheduler_ipi :: "kernel_env \<Rightarrow> u32 \<Rightarrow> sched_state \<Rightarrow> (bool \<times> u32 \<times> sched_state) option" where
  "scheduler_ipi env nf st =
    (let c = this_cpu st;
         st = (if p_need_resched (tasks st (current st)) then upd_rq c (\<lambda>r. r\<lparr>rq_preempt_resched := True\<rparr>) st else st);
         (kick, nf) = (if rq_wake_list (rqs st c) = [] then got_nohz_idle_kick nf st else (False, nf))
     in if rq_wake_list (rqs st c) = [] \<and> \<not> kick then Some (False, nf, st)
        else do {
          st \<leftarrow> sched_ttwu_pending env st;
          let (kick, nf) = got_nohz_idle_kick nf st;
          Some (kick, nf, st)
        })"

text \<open>A balance is raised only on an idle CPU, and a kick that cannot be served is taken back.\<close>

lemma scheduler_ipi_balance:
  assumes "scheduler_ipi env nf st = Some (raise, nf', st')"
  shows "raise \<Longrightarrow> idle_cpu st' (this_cpu st') \<and> \<not> p_need_resched (tasks st' (current st')) \<and> has_flag nf NOHZ_KICK_MASK"
    "has_flag nf' NOHZ_KICK_MASK \<Longrightarrow> raise"
proof -
  have g: "\<And>n s k n'. got_nohz_idle_kick n s = (k, n') \<Longrightarrow> (k \<longrightarrow> idle_cpu s (this_cpu s) \<and> \<not> p_need_resched (tasks s (current s)) \<and> has_flag n NOHZ_KICK_MASK \<and> n' = n) \<and>
      (has_flag n' NOHZ_KICK_MASK \<longrightarrow> k) \<and> (has_flag n' NOHZ_KICK_MASK \<longrightarrow> has_flag n NOHZ_KICK_MASK)"
    by (auto simp: got_nohz_idle_kick_def has_flag_def and.assoc split: if_splits)
  define s1 where "s1 = (if p_need_resched (tasks st (current st)) then upd_rq (this_cpu st) (\<lambda>r. r\<lparr>rq_preempt_resched := True\<rparr>) st else st)"
  define empty where "empty \<longleftrightarrow> rq_wake_list (rqs s1 (this_cpu st)) = []"
  obtain k1 n1 where k1: "(if empty then got_nohz_idle_kick nf s1 else (False, nf)) = (k1, n1)" by fastforce
  have n1: "has_flag n1 NOHZ_KICK_MASK \<Longrightarrow> has_flag nf NOHZ_KICK_MASK" "empty \<Longrightarrow> has_flag n1 NOHZ_KICK_MASK \<Longrightarrow> k1"
    using k1 g [of nf s1 k1 n1] by (auto split: if_splits)
  have run: "(if empty \<and> \<not> k1 then Some (False, n1, s1) else do { st \<leftarrow> sched_ttwu_pending env s1; let (kick, nf) = got_nohz_idle_kick n1 st; Some (kick, nf, st) }) = Some (raise, nf', st')"
    using assms k1 unfolding scheduler_ipi_def Let_def s1_def [symmetric] empty_def [symmetric] by simp
  have "(raise \<longrightarrow> idle_cpu st' (this_cpu st') \<and> \<not> p_need_resched (tasks st' (current st')) \<and> has_flag nf NOHZ_KICK_MASK) \<and> (has_flag nf' NOHZ_KICK_MASK \<longrightarrow> raise)"
  proof (cases "empty \<and> \<not> k1")
    case True
    then have "\<not> raise" "nf' = n1" using run by auto
    then show ?thesis using n1(2) True by blast
  next
    case False
    then have "got_nohz_idle_kick n1 st' = (raise, nf')" using run by (auto simp: bind_eq_Some_conv case_prod_beta prod_eq_iff)
    from g [OF this] show ?thesis using n1(1) by blast
  qed
  then show "raise \<Longrightarrow> idle_cpu st' (this_cpu st') \<and> \<not> p_need_resched (tasks st' (current st')) \<and> has_flag nf NOHZ_KICK_MASK" "has_flag nf' NOHZ_KICK_MASK \<Longrightarrow> raise"
    by blast+
qed

section \<open>Wake-up statistics\<close>

record ttwu_stats =
  ts_local :: u32
  ts_count :: u32
  ts_wakeups :: u64
  ts_wakeups_local :: u64
  ts_wakeups_remote :: u64
  ts_wakeups_migrate :: u64
  ts_wakeups_sync :: u64
  ts_domains :: "u32 list"

text \<open>The domain of the waker that contains the CPU of the wakee, counted once.\<close>

fun inc_domain :: "cpu \<Rightarrow> cpu list list \<Rightarrow> u32 list \<Rightarrow> u32 list" where
  "inc_domain cpu (span # spans) (n # ns) = (if cpu \<in> set span then (n + 1) # ns else n # inc_domain cpu spans ns)"
| "inc_domain cpu _ ns = ns"

definition ttwu_stat :: "bool \<Rightarrow> cpu \<Rightarrow> cpu list list \<Rightarrow> cpu \<Rightarrow> u32 \<Rightarrow> ttwu_stats \<Rightarrow> ttwu_stats" where
  "ttwu_stat enabled this spans cpu wake_flags s =
    (if \<not> enabled then s
     else
       let s = (if cpu = this then s\<lparr>ts_local := ts_local s + 1, ts_wakeups_local := ts_wakeups_local s + 1\<rparr>
                else s\<lparr>ts_wakeups_remote := ts_wakeups_remote s + 1, ts_domains := inc_domain cpu spans (ts_domains s)\<rparr>);
           s = (if has_flag wake_flags WF_MIGRATED then s\<lparr>ts_wakeups_migrate := ts_wakeups_migrate s + 1\<rparr> else s);
           s = s\<lparr>ts_count := ts_count s + 1, ts_wakeups := ts_wakeups s + 1\<rparr>
       in if has_flag wake_flags WF_SYNC then s\<lparr>ts_wakeups_sync := ts_wakeups_sync s + 1\<rparr> else s)"

text \<open>Every wake-up is local or remote: the totals stay the sums, wrap-around included.\<close>

lemma ttwu_stat_sums:
  "ts_wakeups s = ts_wakeups_local s + ts_wakeups_remote s \<Longrightarrow>
   ts_wakeups (ttwu_stat e this spans cpu f s) = ts_wakeups_local (ttwu_stat e this spans cpu f s) + ts_wakeups_remote (ttwu_stat e this spans cpu f s)"
  by (simp add: ttwu_stat_def Let_def)

lemma inc_domain_once:
  "length spans = length ns \<Longrightarrow> sum_list (inc_domain cpu spans ns) = sum_list ns + (if \<exists>span\<in>set spans. cpu \<in> set span then 1 else 0)"
  by (induction cpu spans ns rule: inc_domain.induct) auto

text \<open>The switch of the statistics on the command line and by sysctl; \<open>proc\<close> is \<open>proc_dointvec_minmax\<close>.\<close>

definition setup_schedstats :: "string option \<Rightarrow> bool \<Rightarrow> int \<times> bool" where
  "setup_schedstats str enabled =
    (case str of None \<Rightarrow> (0, enabled)
     | Some s \<Rightarrow> if s = ''enable'' then (1, True) else if s = ''disable'' then (1, False) else (0, enabled))"

definition sysctl_schedstats :: "(bool \<Rightarrow> int \<Rightarrow> int \<times> int) \<Rightarrow> bool \<Rightarrow> bool \<Rightarrow> bool \<Rightarrow> int \<times> bool" where
  "sysctl_schedstats proc admin write enabled =
    (if write \<and> \<not> admin then (- EPERM, enabled)
     else case proc write (if enabled then 1 else 0) of
            (err, state) \<Rightarrow> if err < 0 then (err, enabled) else (err, if write then state \<noteq> 0 else enabled))"

lemma sysctl_schedstats_guarded:
  "snd (sysctl_schedstats proc admin write enabled) \<noteq> enabled \<Longrightarrow> write \<and> admin \<and> 0 \<le> fst (sysctl_schedstats proc admin write enabled)"
  by (auto simp: sysctl_schedstats_def split: if_splits prod.splits)

section \<open>Preemption counts\<close>

text \<open>
  The checks around the preemption count: the count, whether a warning fired, and the times preemption was reported off and on. A count is a C \<open>int\<close>.
\<close>

definition PREEMPT_MASK :: "32 word" where "PREEMPT_MASK = 255"

record preempt =
  pr_count :: "32 word"
  pr_warned :: bool
  pr_off :: nat
  pr_on :: nat

definition preempt_count_add :: "32 word \<Rightarrow> preempt \<Rightarrow> preempt" where
  "preempt_count_add val s =
    (if sint (pr_count s) < 0 then s\<lparr>pr_warned := True\<rparr>
     else
       let s = s\<lparr>pr_count := pr_count s + val\<rparr>;
           s = (if PREEMPT_MASK - 10 \<le> pr_count s AND PREEMPT_MASK then s\<lparr>pr_warned := True\<rparr> else s)
       in if pr_count s = val then s\<lparr>pr_off := pr_off s + 1\<rparr> else s)"

definition preempt_count_sub :: "32 word \<Rightarrow> preempt \<Rightarrow> preempt" where
  "preempt_count_sub val s =
    (if sint val > sint (pr_count s) then s\<lparr>pr_warned := True\<rparr>
     else if sint val < sint PREEMPT_MASK \<and> pr_count s AND PREEMPT_MASK = 0 then s\<lparr>pr_warned := True\<rparr>
     else
       let s = (if pr_count s = val then s\<lparr>pr_on := pr_on s + 1\<rparr> else s)
       in s\<lparr>pr_count := pr_count s - val\<rparr>)"

text \<open>Preemption is off as often as it is on, and once more while the count is not zero: nesting of any depth reports one section.\<close>

definition preempt_ok :: "preempt \<Rightarrow> bool" where
  "preempt_ok s \<longleftrightarrow> pr_off s = pr_on s + (if pr_count s = 0 then 0 else 1)"

lemma preempt_balanced:
  assumes "preempt_ok s" "val \<noteq> 0"
  shows "pr_count s + val \<noteq> 0 \<Longrightarrow> preempt_ok (preempt_count_add val s)" "preempt_ok (preempt_count_sub val s)"
proof -
  have "sint PREEMPT_MASK = 255" by (simp add: PREEMPT_MASK_def)
  then show "pr_count s + val \<noteq> 0 \<Longrightarrow> preempt_ok (preempt_count_add val s)" "preempt_ok (preempt_count_sub val s)"
    using assms by (auto simp: preempt_ok_def preempt_count_add_def preempt_count_sub_def Let_def split: if_splits)
qed

section \<open>The letter of a task state\<close>

definition TASK_REPORT :: u32 where "TASK_REPORT = 0x7f"
definition TASK_REPORT_IDLE :: u32 where "TASK_REPORT_IDLE = TASK_REPORT + 1"
definition TASK_IDLE :: u32 where "TASK_IDLE = 0x402"

text \<open>\<open>fls\<close>: the number of the highest bit, counted from one.\<close>

fun fls :: "nat \<Rightarrow> nat" where
  "fls n = (if n = 0 then 0 else Suc (fls (n div 2)))"

declare fls.simps [simp del]

definition task_state_index :: "u32 \<Rightarrow> u32 \<Rightarrow> nat" where
  "task_state_index tsk_state exit_state =
    fls (unat (if tsk_state = TASK_IDLE then TASK_REPORT_IDLE else (tsk_state OR exit_state) AND TASK_REPORT))"

definition task_index_to_char :: "nat \<Rightarrow> char option" where
  "task_index_to_char i = (let state_char = ''RSDTtXZPI'' in if i < length state_char then Some (state_char ! i) else None)"

definition task_state_to_char :: "u32 \<Rightarrow> u32 \<Rightarrow> char option" where
  "task_state_to_char tsk_state exit_state = task_index_to_char (task_state_index tsk_state exit_state)"

lemma fls_bound: "n < 2 ^ k \<Longrightarrow> fls n \<le> k"
proof (induction k arbitrary: n)
  case 0
  then show ?case by (simp add: fls.simps)
next
  case (Suc k)
  then have "fls (n div 2) \<le> k" by (intro Suc.IH) simp
  then show ?case by (subst fls.simps) simp
qed

text \<open>Whatever bits a state has, the table is not left; a task without reported bits runs.\<close>

lemma task_state_char_total:
  "\<exists>ch \<in> set ''RSDTtXZPI''. task_state_to_char s e = Some ch" "task_state_to_char s e = Some (CHR ''R'') \<longleftrightarrow> s \<noteq> TASK_IDLE \<and> (s OR e) AND TASK_REPORT = 0"
proof -
  have b: "(s OR e) AND TASK_REPORT \<le> TASK_REPORT" by (rule word_and_le1)
  then have u: "unat ((s OR e) AND TASK_REPORT) < 2 ^ 7" by (simp add: word_le_nat_alt TASK_REPORT_def)
  have i: "task_state_index s e < 9"
    using fls_bound [OF u] fls_bound [of 128 8] by (auto simp: task_state_index_def TASK_REPORT_IDLE_def TASK_REPORT_def)
  then show "\<exists>ch \<in> set ''RSDTtXZPI''. task_state_to_char s e = Some ch"
    by (intro bexI [of _ "''RSDTtXZPI'' ! task_state_index s e"] nth_mem) (simp_all add: task_state_to_char_def task_index_to_char_def)
  have "task_state_to_char s e = Some (CHR ''R'') \<longleftrightarrow> task_state_index s e = 0"
  proof -
    have "\<forall>i < 9. ''RSDTtXZPI'' ! i = CHR ''R'' \<longrightarrow> i = 0" by code_simp
    then show ?thesis using i by (auto simp: task_state_to_char_def task_index_to_char_def)
  qed
  also have "\<dots> \<longleftrightarrow> s \<noteq> TASK_IDLE \<and> (s OR e) AND TASK_REPORT = 0"
    by (auto simp: task_state_index_def fls.simps TASK_REPORT_IDLE_def TASK_REPORT_def unat_eq_0 split: if_splits)
  finally show "task_state_to_char s e = Some (CHR ''R'') \<longleftrightarrow> s \<noteq> TASK_IDLE \<and> (s OR e) AND TASK_REPORT = 0" .
qed

section \<open>Waiting for a task to leave its CPU\<close>

text \<open>
  \<open>wait_task_inactive\<close> looks at the task again and again while it goes on to run: \<open>xs\<close> is what it finds at every look, with or without the lock. \<open>None\<close>
  means that it still waits after all of them.
\<close>

record snap =
  sn_running :: bool
  sn_queued :: bool
  sn_state :: u64
  sn_nvcsw :: u64

definition LONG_MIN :: u64 where "LONG_MIN = push_bit 63 1"

datatype spin = Gives_up | Waits | Looks "snap list"

fun wait_running :: "u64 \<Rightarrow> snap list \<Rightarrow> spin" where
  "wait_running ms [] = Waits"
| "wait_running ms (x # xs) =
    (if sn_running x then if ms \<noteq> 0 \<and> sn_state x \<noteq> ms then Gives_up else wait_running ms xs else Looks xs)"

lemma wait_running_Looks: "wait_running ms xs = Looks ys \<Longrightarrow> \<exists>us x. xs = us @ x # ys \<and> \<not> sn_running x"
  by (induction ms xs rule: wait_running.induct) (fastforce split: if_splits intro: exI [of _ "_ # _"] exI [of _ "[]"])+

definition ncsw_of :: "u64 \<Rightarrow> snap \<Rightarrow> u64" where
  "ncsw_of ms y = (if ms = 0 \<or> sn_state y = ms then sn_nvcsw y OR LONG_MIN else 0)"

function wait_task_inactive :: "u64 \<Rightarrow> snap list \<Rightarrow> u64 option" where
  "wait_task_inactive ms xs =
    (case wait_running ms xs of
       Gives_up \<Rightarrow> Some 0
     | Waits \<Rightarrow> None
     | Looks [] \<Rightarrow> None
     | Looks (y # ys) \<Rightarrow>
         let ncsw = ncsw_of ms y
         in if ncsw = 0 then Some 0
            else if sn_running y then wait_task_inactive ms ys
            else if sn_queued y then wait_task_inactive ms ys
            else Some ncsw)"
  by pat_completeness auto
termination
  by (relation "measure (\<lambda>(ms, xs). length xs)") (auto dest!: wait_running_Looks)

declare wait_task_inactive.simps [simp del]

lemma ncsw_nonzero: "ncsw_of ms y = 0 \<longleftrightarrow> ms \<noteq> 0 \<and> sn_state y \<noteq> ms"
proof -
  have "LONG_MIN \<le> sn_nvcsw y OR LONG_MIN" by (rule le_word_or1)
  then have "sn_nvcsw y OR LONG_MIN \<noteq> 0" by (auto simp: LONG_MIN_def)
  then show ?thesis by (simp add: ncsw_of_def)
qed

text \<open>What a look may show: that the task is off its CPU and its run queue, in the state asked for.\<close>

definition inactive :: "u64 \<Rightarrow> snap \<Rightarrow> bool" where
  "inactive ms y \<longleftrightarrow> \<not> sn_running y \<and> \<not> sn_queued y \<and> (ms = 0 \<or> sn_state y = ms)"

lemma wait_running_gives_up: "wait_running ms xs = Gives_up \<Longrightarrow> ms \<noteq> 0 \<and> (\<exists>x\<in>set xs. sn_state x \<noteq> ms)"
  by (induction ms xs rule: wait_running.induct) (auto split: if_splits)

lemma wait_running_inactive:
  assumes "\<forall>y\<in>set zs. inactive ms y" "zs \<noteq> []"
  shows "wait_running ms (us @ zs) = Gives_up \<or> (\<exists>vs. wait_running ms (us @ zs) = Looks (vs @ zs) \<and> length vs < length us) \<or> wait_running ms (us @ zs) = Looks (tl zs)"
proof (induction us)
  case Nil
  then show ?case using assms by (cases zs) (auto simp: inactive_def)
next
  case (Cons u us)
  then show ?case by (cases "sn_running u") (auto intro: less_SucI exI [of _ us])
qed

lemma wait_task_inactive_sound:
  "wait_task_inactive ms xs = Some v \<Longrightarrow> (if v = 0 then ms \<noteq> 0 \<and> (\<exists>x\<in>set xs. sn_state x \<noteq> ms) else \<exists>y\<in>set xs. inactive ms y \<and> v = sn_nvcsw y OR LONG_MIN)"
proof (induction ms xs rule: wait_task_inactive.induct)
  case (1 ms xs)
  show ?case
  proof (cases "wait_running ms xs")
    case Gives_up
    then show ?thesis using "1.prems" wait_running_gives_up [OF Gives_up] by (simp add: wait_task_inactive.simps [of ms xs])
  next
    case Waits
    then show ?thesis using "1.prems" by (simp add: wait_task_inactive.simps [of ms xs])
  next
    case (Looks zs)
    then obtain y ys where zs: "zs = y # ys" using "1.prems" by (cases zs) (simp_all add: wait_task_inactive.simps [of ms xs])
    obtain us x where xs: "xs = us @ x # y # ys" using wait_running_Looks [OF Looks] zs by auto
    have again: ?thesis if w: "wait_task_inactive ms ys = Some v" "ncsw_of ms y \<noteq> 0" "sn_running y \<or> sn_queued y"
    proof -
      have "if v = 0 then ms \<noteq> 0 \<and> (\<exists>x\<in>set ys. sn_state x \<noteq> ms) else \<exists>y\<in>set ys. inactive ms y \<and> v = sn_nvcsw y OR LONG_MIN"
        using "1.IH" [OF Looks zs refl w(2)] w(1,3) by blast
      then show ?thesis using xs by (auto split: if_splits)
    qed
    have run: "wait_task_inactive ms xs = (if ncsw_of ms y = 0 then Some 0 else if sn_running y \<or> sn_queued y then wait_task_inactive ms ys else Some (ncsw_of ms y))"
      by (simp add: wait_task_inactive.simps [of ms xs] Looks zs Let_def)
    consider "ncsw_of ms y = 0" | "ncsw_of ms y \<noteq> 0" "sn_running y \<or> sn_queued y" | "ncsw_of ms y \<noteq> 0" "\<not> sn_running y" "\<not> sn_queued y" by blast
    then show ?thesis
    proof cases
      case 1
      then show ?thesis using "1.prems" run ncsw_nonzero [of ms y] xs by simp
    next
      case 2
      then show ?thesis using "1.prems" run again by simp
    next
      case 3
      then have "v = sn_nvcsw y OR LONG_MIN" "v \<noteq> 0" "inactive ms y"
        using "1.prems" run ncsw_nonzero [of ms y] by (auto simp: inactive_def ncsw_of_def split: if_splits)
      then show ?thesis using xs by auto
    qed
  qed
qed

lemma wait_task_inactive_ends:
  assumes "\<forall>y\<in>set zs. inactive ms y" "2 \<le> length zs"
  shows "wait_task_inactive ms (us @ zs) \<noteq> None"
proof (induction us rule: length_induct)
  case (1 us)
  have ne: "zs \<noteq> []" using assms(2) by auto
  have look: "wait_task_inactive ms (us @ zs) \<noteq> None" if "wait_running ms (us @ zs) = Looks (y # ys)" "inactive ms y" for y ys
    using that by (simp add: wait_task_inactive.simps [of ms "us @ zs"] Let_def inactive_def)
  from wait_running_inactive [OF assms(1) ne, of us] consider "wait_running ms (us @ zs) = Gives_up"
    | vs where "wait_running ms (us @ zs) = Looks (vs @ zs)" "length vs < length us" | "wait_running ms (us @ zs) = Looks (tl zs)" by blast
  then show ?case
  proof cases
    case 1
    then show ?thesis by (simp add: wait_task_inactive.simps [of ms "us @ zs"])
  next
    case (2 vs)
    show ?thesis
    proof (cases vs)
      case Nil
      then show ?thesis using 2 look assms(1) ne by (cases zs) auto
    next
      case (Cons v vs')
      then have "wait_task_inactive ms (vs' @ zs) \<noteq> None" using 1 2 by auto
      then show ?thesis using 2 Cons by (simp add: wait_task_inactive.simps [of ms "us @ zs"] Let_def)
    qed
  next
    case 3
    then show ?thesis using look assms by (cases zs; cases "tl zs") auto
  qed
qed

text \<open>
  C20: \<open>wait_task_inactive\<close> returns, and what it returns is right. If the task is inactive in the end, for two looks, it returns whatever happened before. A number other than zero means that
  at one look the task was off its CPU and its run queue in the state asked for, and is the task's switch count then with the top bit set; zero means the task was
  found in another state than the one asked for. Two calls with the same result saw the same switch count, up to that bit.
\<close>

theorem wait_task_inactive_correct:
  assumes "\<forall>y\<in>set zs. inactive ms y" "2 \<le> length zs"
  shows "\<exists>v. wait_task_inactive ms (us @ zs) = Some v \<and>
    (if v = 0 then ms \<noteq> 0 \<and> (\<exists>x\<in>set us. sn_state x \<noteq> ms)
     else \<exists>y\<in>set (us @ zs). inactive ms y \<and> v = sn_nvcsw y OR LONG_MIN)"
proof -
  obtain v where v: "wait_task_inactive ms (us @ zs) = Some v" using wait_task_inactive_ends [OF assms] by blast
  have "sn_state x = ms" if "ms \<noteq> 0" "x \<in> set zs" for x using assms(1) that by (auto simp: inactive_def)
  then show ?thesis using v wait_task_inactive_sound [OF v] by (auto split: if_splits)
qed

text \<open>The task runs, is preempted, runs, and sleeps.\<close>

theorem wait_task_inactive_correct_witness:
  "wait_task_inactive 2 (map (\<lambda>(r, q). \<lparr>sn_running = r, sn_queued = q, sn_state = 2, sn_nvcsw = 5\<rparr>) [(True, True), (False, True), (False, True), (True, True), (False, False), (False, False)])
     = Some (5 OR LONG_MIN)"
proof -
  let ?s = "\<lambda>(r, q). \<lparr>sn_running = r, sn_queued = q, sn_state = 2, sn_nvcsw = 5\<rparr> :: snap"
  let ?us = "map ?s [(True, True), (False, True), (False, True), (True, True)]" and ?zs = "map ?s [(False, False), (False, False)]"
  have "\<forall>y\<in>set ?zs. inactive 2 y" "2 \<le> length ?zs" by (simp_all add: inactive_def)
  then obtain v where v: "wait_task_inactive 2 (?us @ ?zs) = Some v"
    "if v = 0 then (2 :: u64) \<noteq> 0 \<and> (\<exists>x\<in>set ?us. sn_state x \<noteq> 2) else \<exists>y\<in>set (?us @ ?zs). inactive 2 y \<and> v = sn_nvcsw y OR LONG_MIN"
    using wait_task_inactive_correct [of ?zs 2 ?us] by blast
  then have "v = 5 OR LONG_MIN" by (auto simp: inactive_def split: if_splits)
  then show ?thesis using v(1) by simp
qed

end
