(* ===== verification/Sched_RT_Groups.thy ===== *)
theory Sched_RT_Groups
  imports Sched_RT_Inv "HOL-Library.Sublist"
begin

text \<open>
  The real-time run queues with \<open>RT_GROUP_SCHED\<close> (\<open>rt.c\<close>): every task group has a run queue on every CPU, and an entity that stands for the group in the queue of its
  parent. The priority of a group is that of its best member, so whatever changes below has to take the groups above off their queues, top down, and put them back, bottom up.

  A group is named by its path, the number of the group first and its ancestors after it; the root is \<open>[]\<close> and has no entity. \<open>group_rq\<close> has the fields of
  \<open>struct rt_rq\<close> every group uses, and the flags of \<open>tg->rt_se[cpu]\<close>; what only the queue of the root uses (\<open>rt_queued\<close>, migration counters, pushable tasks) is
  in the run queue of the CPU as before. \<open>None\<close> is a \<open>BUG\<close>, an index outside the array, linking a linked entity, or a \<open>WARN_ON\<close>: the theorems show that none of them is reached.
\<close>

section \<open>State\<close>

type_synonym gid = "nat list"

datatype ent = Task tid | Group gid

record group_rq =
  g_queue :: "ent list list"
  g_bitmap :: "bool list"
  g_nr_running :: u32
  g_rr_nr_running :: u32
  g_highest :: int
  g_throttled :: bool
  g_time :: u64
  g_runtime :: u64
  g_nr_boosted :: u64
  g_on_rq :: bool
  g_on_list :: bool

record hier =
  h_st :: sched_state
  h_rq :: "cpu \<Rightarrow> gid \<Rightarrow> group_rq"
  h_bw :: "gid \<Rightarrow> rt_bandwidth"
  h_tg :: "tid \<Rightarrow> gid"

abbreviation tsk :: "hier \<Rightarrow> tid \<Rightarrow> task_struct" where
  "tsk h p \<equiv> tasks (h_st h) p"

definition upd_g :: "cpu \<Rightarrow> gid \<Rightarrow> (group_rq \<Rightarrow> group_rq) \<Rightarrow> hier \<Rightarrow> hier" where
  "upd_g c g f h = h\<lparr>h_rq := (h_rq h)(c := (h_rq h c)(g := f (h_rq h c g)))\<rparr>"

definition upd_st :: "(sched_state \<Rightarrow> sched_state) \<Rightarrow> hier \<Rightarrow> hier" where
  "upd_st f h = h\<lparr>h_st := f (h_st h)\<rparr>"

lemma upd_g_sel [st_simps]:
  "h_rq (upd_g c g f h) d x = (if d = c \<and> x = g then f (h_rq h c g) else h_rq h d x)"
  "h_st (upd_g c g f h) = h_st h" "h_bw (upd_g c g f h) = h_bw h" "h_tg (upd_g c g f h) = h_tg h"
  by (simp_all add: upd_g_def)

lemma upd_st_sel [st_simps]:
  "h_rq (upd_st f h) = h_rq h" "h_st (upd_st f h) = f (h_st h)" "h_bw (upd_st f h) = h_bw h" "h_tg (upd_st f h) = h_tg h"
  by (simp_all add: upd_st_def)

definition init_group_rq :: "u64 \<Rightarrow> group_rq" where
  "init_group_rq runtime = \<lparr>g_queue = replicate (nat MAX_RT_PRIO) [], g_bitmap = replicate (nat MAX_RT_PRIO) False @ [True],
     g_nr_running = 0, g_rr_nr_running = 0, g_highest = MAX_RT_PRIO, g_throttled = False, g_time = 0, g_runtime = runtime,
     g_nr_boosted = 0, g_on_rq = False, g_on_list = False\<rparr>"

section \<open>Entities\<close>

text \<open>The queue an entity is put on: that of the group of the task, or of the parent of the group.\<close>

definition se_group :: "hier \<Rightarrow> ent \<Rightarrow> gid" where
  "se_group h e = (case e of Task p \<Rightarrow> h_tg h p | Group g \<Rightarrow> tl g)"

text \<open>\<open>for_each_sched_rt_entity\<close>: an entity and those above it.\<close>

fun group_entities :: "gid \<Rightarrow> ent list" where
  "group_entities [] = []"
| "group_entities (i # g) = Group (i # g) # group_entities g"

definition sched_rt_entities :: "hier \<Rightarrow> ent \<Rightarrow> ent list" where
  "sched_rt_entities h e = (case e of Task p \<Rightarrow> Task p # group_entities (h_tg h p) | Group g \<Rightarrow> group_entities g)"

definition on_rt_rq :: "cpu \<Rightarrow> hier \<Rightarrow> ent \<Rightarrow> bool" where
  "on_rt_rq c h e = (case e of Task p \<Rightarrow> p_rt_on_rq (tsk h p) | Group g \<Rightarrow> g_on_rq (h_rq h c g))"

definition se_on_list :: "cpu \<Rightarrow> hier \<Rightarrow> ent \<Rightarrow> bool" where
  "se_on_list c h e = (case e of Task p \<Rightarrow> p_rt_on_list (tsk h p) | Group g \<Rightarrow> g_on_list (h_rq h c g))"

definition set_on_rq :: "cpu \<Rightarrow> ent \<Rightarrow> bool \<Rightarrow> hier \<Rightarrow> hier" where
  "set_on_rq c e b = (case e of Task p \<Rightarrow> upd_st (upd_task p (\<lambda>t. t\<lparr>p_rt_on_rq := b\<rparr>)) | Group g \<Rightarrow> upd_g c g (\<lambda>r. r\<lparr>g_on_rq := b\<rparr>))"

definition set_on_list :: "cpu \<Rightarrow> ent \<Rightarrow> bool \<Rightarrow> hier \<Rightarrow> hier" where
  "set_on_list c e b = (case e of Task p \<Rightarrow> upd_st (upd_task p (\<lambda>t. t\<lparr>p_rt_on_list := b\<rparr>)) | Group g \<Rightarrow> upd_g c g (\<lambda>r. r\<lparr>g_on_list := b\<rparr>))"

definition rt_rq_throttled_g :: "group_rq \<Rightarrow> bool" where
  "rt_rq_throttled_g r \<longleftrightarrow> g_throttled r \<and> g_nr_boosted r = 0"

definition rt_se_boosted :: "cpu \<Rightarrow> hier \<Rightarrow> ent \<Rightarrow> bool" where
  "rt_se_boosted c h e = (case e of
     Group g \<Rightarrow> g_nr_boosted (h_rq h c g) \<noteq> 0
   | Task p \<Rightarrow> p_prio (tsk h p) \<noteq> p_normal_prio (tsk h p))"

definition rt_se_prio_g :: "cpu \<Rightarrow> hier \<Rightarrow> ent \<Rightarrow> int" where
  "rt_se_prio_g c h e = (case e of Group g \<Rightarrow> g_highest (h_rq h c g) | Task p \<Rightarrow> p_prio (tsk h p))"

definition rt_se_nr_running_g :: "cpu \<Rightarrow> hier \<Rightarrow> ent \<Rightarrow> u32" where
  "rt_se_nr_running_g c h e = (case e of Group g \<Rightarrow> g_nr_running (h_rq h c g) | Task p \<Rightarrow> 1)"

definition rt_se_rr_nr_running_g :: "cpu \<Rightarrow> hier \<Rightarrow> ent \<Rightarrow> u32" where
  "rt_se_rr_nr_running_g c h e =
    (case e of Group g \<Rightarrow> g_rr_nr_running (h_rq h c g) | Task p \<Rightarrow> if p_policy (tsk h p) = SCHED_RR then 1 else 0)"

section \<open>Counters beside the array\<close>

definition inc_rt_prio_smp_g :: "cpu \<Rightarrow> gid \<Rightarrow> int \<Rightarrow> int \<Rightarrow> hier \<Rightarrow> hier" where
  "inc_rt_prio_smp_g c g prio prev_prio h =
    (if g \<noteq> [] then h
     else if rq_online (rqs (h_st h) c) \<and> prio < prev_prio then upd_st (cpupri_set c prio) h else h)"

definition dec_rt_prio_smp_g :: "cpu \<Rightarrow> gid \<Rightarrow> int \<Rightarrow> int \<Rightarrow> hier \<Rightarrow> hier" where
  "dec_rt_prio_smp_g c g prio prev_prio h =
    (if g \<noteq> [] then h
     else if rq_online (rqs (h_st h) c) \<and> g_highest (h_rq h c g) \<noteq> prev_prio
       then upd_st (cpupri_set c (g_highest (h_rq h c g))) h else h)"

definition inc_rt_prio_g :: "cpu \<Rightarrow> gid \<Rightarrow> int \<Rightarrow> hier \<Rightarrow> hier" where
  "inc_rt_prio_g c g prio h =
    (let prev_prio = g_highest (h_rq h c g);
         h = (if prio < prev_prio then upd_g c g (\<lambda>r. r\<lparr>g_highest := prio\<rparr>) h else h)
     in inc_rt_prio_smp_g c g prio prev_prio h)"

definition dec_rt_prio_g :: "cpu \<Rightarrow> gid \<Rightarrow> int \<Rightarrow> hier \<Rightarrow> hier option" where
  "dec_rt_prio_g c g prio h =
    (let prev_prio = g_highest (h_rq h c g) in do {
       h \<leftarrow> (if g_nr_running (h_rq h c g) \<noteq> 0
             then if prio < prev_prio then None
               else if prio = prev_prio
                 then Some (upd_g c g (\<lambda>r. r\<lparr>g_highest := int (sched_find_first_bit (g_bitmap r))\<rparr>) h)
               else Some h
             else Some (upd_g c g (\<lambda>r. r\<lparr>g_highest := MAX_RT_PRIO\<rparr>) h));
       Some (dec_rt_prio_smp_g c g prio prev_prio h)
     })"

definition start_rt_bandwidth_g :: "gid \<Rightarrow> hier \<Rightarrow> hier" where
  "start_rt_bandwidth_g g h =
    (if \<not> rt_bandwidth_enabled (h_st h) \<or> rtb_runtime (h_bw h g) = RUNTIME_INF then h
     else if \<not> rtb_active (h_bw h g) then h\<lparr>h_bw := (h_bw h)(g := (h_bw h g)\<lparr>rtb_active := True\<rparr>)\<rparr>
     else h)"

definition inc_rt_migration_g :: "cpu \<Rightarrow> ent \<Rightarrow> hier \<Rightarrow> hier" where
  "inc_rt_migration_g c e h = (case e of Group g \<Rightarrow> h | Task p \<Rightarrow> upd_st (inc_rt_migration p c) h)"

definition dec_rt_migration_g :: "cpu \<Rightarrow> ent \<Rightarrow> hier \<Rightarrow> hier" where
  "dec_rt_migration_g c e h = (case e of Group g \<Rightarrow> h | Task p \<Rightarrow> upd_st (dec_rt_migration p c) h)"

definition inc_rt_group_g :: "cpu \<Rightarrow> ent \<Rightarrow> gid \<Rightarrow> hier \<Rightarrow> hier" where
  "inc_rt_group_g c e g h =
     start_rt_bandwidth_g g
       (if rt_se_boosted c h e then upd_g c g (\<lambda>r. r\<lparr>g_nr_boosted := g_nr_boosted r + 1\<rparr>) h else h)"

definition dec_rt_group_g :: "cpu \<Rightarrow> ent \<Rightarrow> gid \<Rightarrow> hier \<Rightarrow> hier option" where
  "dec_rt_group_g c e g h =
    (let h = (if rt_se_boosted c h e then upd_g c g (\<lambda>r. r\<lparr>g_nr_boosted := g_nr_boosted r - 1\<rparr>) h else h)
     in if g_nr_running (h_rq h c g) = 0 \<and> g_nr_boosted (h_rq h c g) \<noteq> 0 then None else Some h)"

definition inc_rt_tasks_g :: "cpu \<Rightarrow> ent \<Rightarrow> gid \<Rightarrow> hier \<Rightarrow> hier option" where
  "inc_rt_tasks_g c e g h =
    (let prio = rt_se_prio_g c h e in
     if \<not> rt_prio prio then None
     else
       let h = upd_g c g (\<lambda>r. r\<lparr>g_nr_running := g_nr_running r + rt_se_nr_running_g c h e,
                 g_rr_nr_running := g_rr_nr_running r + rt_se_rr_nr_running_g c h e\<rparr>) h
       in Some (inc_rt_group_g c e g (inc_rt_migration_g c e (inc_rt_prio_g c g prio h))))"

definition dec_rt_tasks_g :: "cpu \<Rightarrow> ent \<Rightarrow> gid \<Rightarrow> hier \<Rightarrow> hier option" where
  "dec_rt_tasks_g c e g h =
    (if \<not> rt_prio (rt_se_prio_g c h e) then None
     else if g_nr_running (h_rq h c g) = 0 then None
     else
       let h = upd_g c g (\<lambda>r. r\<lparr>g_nr_running := g_nr_running r - rt_se_nr_running_g c h e,
                 g_rr_nr_running := g_rr_nr_running r - rt_se_rr_nr_running_g c h e\<rparr>) h
       in do {
         h \<leftarrow> dec_rt_prio_g c g (rt_se_prio_g c h e) h;
         dec_rt_group_g c e g (dec_rt_migration_g c e h)
       })"

section \<open>Linking and unlinking\<close>

text \<open>\<open>list_del_init\<close> takes the node off whatever queue of the CPU it is on.\<close>

definition unlink_g :: "cpu \<Rightarrow> ent \<Rightarrow> hier \<Rightarrow> hier" where
  "unlink_g c e h = h\<lparr>h_rq := (h_rq h)(c := (\<lambda>g. (h_rq h c g)\<lparr>g_queue := qs_del e (g_queue (h_rq h c g))\<rparr>))\<rparr>"

definition link_g :: "bool \<Rightarrow> cpu \<Rightarrow> gid \<Rightarrow> int \<Rightarrow> ent \<Rightarrow> hier \<Rightarrow> hier option" where
  "link_g head c g i e h =
    (if in_bounds i (g_queue (h_rq h c g))
     then Some (upd_g c g (\<lambda>r. r\<lparr>g_queue := (if head then qs_add else qs_add_tail) (nat i) e (g_queue r)\<rparr>) h)
     else None)"

definition delist_rt_entity_g :: "cpu \<Rightarrow> ent \<Rightarrow> hier \<Rightarrow> hier option" where
  "delist_rt_entity_g c e h =
    (let g = se_group h e; h = unlink_g c e h; prio = rt_se_prio_g c h e in
     if \<not> in_bounds prio (g_queue (h_rq h c g)) then None
     else
       let h = (if g_queue (h_rq h c g) ! nat prio = []
                then upd_g c g (\<lambda>r. r\<lparr>g_bitmap := (g_bitmap r)[nat prio := False]\<rparr>) h else h)
       in Some (set_on_list c e False h))"

definition group_off :: "cpu \<Rightarrow> hier \<Rightarrow> ent \<Rightarrow> bool" where
  "group_off c h e = (case e of Task p \<Rightarrow> False
     | Group g \<Rightarrow> rt_rq_throttled_g (h_rq h c g) \<or> g_nr_running (h_rq h c g) = 0)"

definition enqueue_rt_entity_raw_g :: "cpu \<Rightarrow> u32 \<Rightarrow> ent \<Rightarrow> hier \<Rightarrow> hier option" where
  "enqueue_rt_entity_raw_g c flags e h =
    (let g = se_group h e; prio = rt_se_prio_g c h e in
     if group_off c h e then if se_on_list c h e then delist_rt_entity_g c e h else Some h
     else do {
       h \<leftarrow> (if move_entity flags
             then if se_on_list c h e then None
                  else do {
                    h \<leftarrow> link_g (has_flag flags ENQUEUE_HEAD) c g prio e h;
                    Some (set_on_list c e True (upd_g c g (\<lambda>r. r\<lparr>g_bitmap := (g_bitmap r)[nat prio := True]\<rparr>) h))
                  }
             else Some h);
       inc_rt_tasks_g c e g (set_on_rq c e True h)
     })"

definition dequeue_rt_entity_raw_g :: "cpu \<Rightarrow> u32 \<Rightarrow> ent \<Rightarrow> hier \<Rightarrow> hier option" where
  "dequeue_rt_entity_raw_g c flags e h =
    (let g = se_group h e in do {
       h \<leftarrow> (if move_entity flags
             then if \<not> se_on_list c h e then None else delist_rt_entity_g c e h
             else Some h);
       dec_rt_tasks_g c e g (set_on_rq c e False h)
     })"

section \<open>The stack of entities\<close>

definition dequeue_top_rt_rq_g :: "cpu \<Rightarrow> gid \<Rightarrow> hier \<Rightarrow> hier option" where
  "dequeue_top_rt_rq_g c g h =
    (if g \<noteq> [] then None
     else if \<not> rt_queued (rtq (h_st h) c) then Some h
     else if rq_nr_running (rqs (h_st h) c) = 0 then None
     else Some (upd_st (\<lambda>st. upd_rt c (\<lambda>r. r\<lparr>rt_queued := False\<rparr>)
                  (sub_nr_running c (g_nr_running (h_rq h c g)) st)) h))"

definition enqueue_top_rt_rq_g :: "cpu \<Rightarrow> hier \<Rightarrow> hier" where
  "enqueue_top_rt_rq_g c h =
    (if rt_queued (rtq (h_st h) c) then h
     else if rt_rq_throttled_g (h_rq h c []) then h
     else if g_nr_running (h_rq h c []) \<noteq> 0
       then upd_st (\<lambda>st. upd_rt c (\<lambda>r. r\<lparr>rt_queued := True\<rparr>)
              (add_nr_running c (g_nr_running (h_rq h c [])) st)) h
     else h)"

fun stack_loop :: "cpu \<Rightarrow> u32 \<Rightarrow> ent list \<Rightarrow> hier \<Rightarrow> hier option" where
  "stack_loop c flags [] h = Some h"
| "stack_loop c flags (e # es) h = do {
     h \<leftarrow> (if on_rt_rq c h e then dequeue_rt_entity_raw_g c flags e h else Some h);
     stack_loop c flags es h
   }"

definition dequeue_rt_stack_g :: "cpu \<Rightarrow> u32 \<Rightarrow> ent \<Rightarrow> hier \<Rightarrow> hier option" where
  "dequeue_rt_stack_g c flags e h =
    (case rev (sched_rt_entities h e) of
       [] \<Rightarrow> None
     | back # es \<Rightarrow> do {
         h \<leftarrow> dequeue_top_rt_rq_g c (se_group h back) h;
         stack_loop c flags (back # es) h
       })"

fun enqueue_loop :: "cpu \<Rightarrow> u32 \<Rightarrow> ent list \<Rightarrow> hier \<Rightarrow> hier option" where
  "enqueue_loop c flags [] h = Some h"
| "enqueue_loop c flags (e # es) h = do {
     h \<leftarrow> enqueue_rt_entity_raw_g c flags e h;
     enqueue_loop c flags es h
   }"

definition enqueue_rt_entity_g :: "cpu \<Rightarrow> u32 \<Rightarrow> ent \<Rightarrow> hier \<Rightarrow> hier option" where
  "enqueue_rt_entity_g c flags e h = do {
     h \<leftarrow> dequeue_rt_stack_g c flags e h;
     h \<leftarrow> enqueue_loop c flags (sched_rt_entities h e) h;
     Some (enqueue_top_rt_rq_g c h)
   }"

fun dequeue_loop :: "cpu \<Rightarrow> u32 \<Rightarrow> ent list \<Rightarrow> hier \<Rightarrow> hier option" where
  "dequeue_loop c flags [] h = Some h"
| "dequeue_loop c flags (e # es) h = do {
     h \<leftarrow> (case e of
            Group g \<Rightarrow> if g_nr_running (h_rq h c g) \<noteq> 0 then enqueue_rt_entity_raw_g c flags e h else Some h
          | Task p \<Rightarrow> Some h);
     dequeue_loop c flags es h
   }"

definition dequeue_rt_entity_g :: "cpu \<Rightarrow> u32 \<Rightarrow> ent \<Rightarrow> hier \<Rightarrow> hier option" where
  "dequeue_rt_entity_g c flags e h = do {
     h \<leftarrow> dequeue_rt_stack_g c flags e h;
     h \<leftarrow> dequeue_loop c flags (sched_rt_entities h e) h;
     Some (enqueue_top_rt_rq_g c h)
   }"

section \<open>Throttling a group\<close>

definition sched_rt_rq_enqueue_g :: "cpu \<Rightarrow> gid \<Rightarrow> hier \<Rightarrow> hier option" where
  "sched_rt_rq_enqueue_g c g h =
    (if g_nr_running (h_rq h c g) \<noteq> 0 then do {
       h \<leftarrow> (if g = [] then Some (enqueue_top_rt_rq_g c h)
             else if \<not> g_on_rq (h_rq h c g) then enqueue_rt_entity_g c 0 (Group g) h
             else Some h);
       Some (if g_highest (h_rq h c g) < p_prio (tsk h (curr_of (h_st h) c)) then upd_st (resched_curr c) h else h)
     } else Some h)"

definition sched_rt_rq_dequeue_g :: "cpu \<Rightarrow> gid \<Rightarrow> hier \<Rightarrow> hier option" where
  "sched_rt_rq_dequeue_g c g h =
    (if g = [] then dequeue_top_rt_rq_g c g h
     else if g_on_rq (h_rq h c g) then dequeue_rt_entity_g c 0 (Group g) h
     else Some h)"

definition add_runtime_g :: "gid \<Rightarrow> cpu \<Rightarrow> u64 \<Rightarrow> hier \<Rightarrow> hier" where
  "add_runtime_g g i d = upd_g i g (\<lambda>r. r\<lparr>g_runtime := g_runtime r + d\<rparr>)"

fun balance_loop_g :: "gid \<Rightarrow> u64 \<Rightarrow> u64 \<Rightarrow> cpu \<Rightarrow> cpu list \<Rightarrow> hier \<Rightarrow> hier" where
  "balance_loop_g g period weight me [] h = h"
| "balance_loop_g g period weight me (i # is) h =
    (if i = me then balance_loop_g g period weight me is h
     else if g_runtime (h_rq h i g) = RUNTIME_INF then balance_loop_g g period weight me is h
     else let diff = g_runtime (h_rq h i g) - g_time (h_rq h i g) in
       if sint diff > 0 then
         let diff = diff div weight;
             diff = (if g_runtime (h_rq h me g) + diff > period then period - g_runtime (h_rq h me g) else diff);
             h = add_runtime_g g me diff (add_runtime_g g i (- diff) h)
         in if g_runtime (h_rq h me g) = period then h else balance_loop_g g period weight me is h
       else balance_loop_g g period weight me is h)"

definition do_balance_runtime_g :: "cpu \<Rightarrow> gid \<Rightarrow> hier \<Rightarrow> hier" where
  "do_balance_runtime_g c g h =
    (let span = rd_span (rd (h_st h))
     in balance_loop_g g (rtb_period (h_bw h g)) (of_nat (length span)) c span h)"

definition balance_runtime_g :: "cpu \<Rightarrow> gid \<Rightarrow> hier \<Rightarrow> hier" where
  "balance_runtime_g c g h =
    (if \<not> feat_rt_runtime_share (h_st h) then h
     else if g_time (h_rq h c g) > g_runtime (h_rq h c g) then do_balance_runtime_g c g h else h)"

definition sched_rt_runtime_exceeded_g :: "cpu \<Rightarrow> gid \<Rightarrow> hier \<Rightarrow> (bool \<times> hier) option" where
  "sched_rt_runtime_exceeded_g c g h =
    (if g_throttled (h_rq h c g) then Some (rt_rq_throttled_g (h_rq h c g), h)
     else if g_runtime (h_rq h c g) \<ge> rtb_period (h_bw h g) then Some (False, h)
     else
       let h = balance_runtime_g c g h; runtime = g_runtime (h_rq h c g) in
       if runtime = RUNTIME_INF then Some (False, h)
       else if g_time (h_rq h c g) > runtime then
         let h = (if rtb_runtime (h_bw h g) \<noteq> 0
                  then upd_g c g (\<lambda>r. r\<lparr>g_throttled := True\<rparr>) h
                  else upd_g c g (\<lambda>r. r\<lparr>g_time := 0\<rparr>) h)
         in if rt_rq_throttled_g (h_rq h c g)
            then do { h \<leftarrow> sched_rt_rq_dequeue_g c g h; Some (True, h) }
            else Some (False, h)
       else Some (False, h))"

text \<open>The run time of the current task is charged to every group above it.\<close>

fun account_loop :: "cpu \<Rightarrow> cpu \<Rightarrow> u64 \<Rightarrow> ent list \<Rightarrow> hier \<Rightarrow> hier option" where
  "account_loop rq c delta_exec [] h = Some h"
| "account_loop rq c delta_exec (e # es) h =
    (let g = se_group h e in do {
       h \<leftarrow> (if g_runtime (h_rq h c g) \<noteq> RUNTIME_INF then do {
               (exceeded, h) \<leftarrow> sched_rt_runtime_exceeded_g c g (upd_g c g (\<lambda>r. r\<lparr>g_time := g_time r + delta_exec\<rparr>) h);
               Some (if exceeded then upd_st (resched_curr rq) h else h)
             } else Some h);
       account_loop rq c delta_exec es h
     })"

definition update_curr_rt_g :: "cpu \<Rightarrow> hier \<Rightarrow> hier option" where
  "update_curr_rt_g c h =
    (let curr = curr_of (h_st h) c;
         now = rq_clock_task (rqs (h_st h) c);
         delta_exec = now - p_exec_start (tsk h curr)
     in if p_class (tsk h curr) \<noteq> Rt_class then Some h
        else if sint delta_exec \<le> 0 then Some h
        else
          let h = upd_st (upd_task curr (\<lambda>t. t\<lparr>p_sum_exec := p_sum_exec t + delta_exec, p_exec_start := now\<rparr>)) h
          in if \<not> rt_bandwidth_enabled (h_st h) then Some h
             else account_loop c (rt_rq_of_se (h_st h) curr) delta_exec (sched_rt_entities h (Task curr)) h)"

section \<open>The handlers\<close>

definition enqueue_task_rt_g :: "cpu \<Rightarrow> tid \<Rightarrow> u32 \<Rightarrow> hier \<Rightarrow> hier option" where
  "enqueue_task_rt_g c p flags h =
    (let h = (if has_flag flags ENQUEUE_WAKEUP then upd_st (upd_task p (\<lambda>t. t\<lparr>p_rt_timeout := 0\<rparr>)) h else h) in do {
       h \<leftarrow> enqueue_rt_entity_g (rt_rq_of_se (h_st h) p) flags (Task p) h;
       Some (if \<not> task_current (h_st h) c p \<and> p_nr_cpus_allowed (tsk h p) > 1
             then upd_st (enqueue_pushable_task c p) h else h)
     })"

definition dequeue_task_rt_g :: "cpu \<Rightarrow> tid \<Rightarrow> u32 \<Rightarrow> hier \<Rightarrow> hier option" where
  "dequeue_task_rt_g c p flags h = do {
     h \<leftarrow> update_curr_rt_g c h;
     h \<leftarrow> dequeue_rt_entity_g (rt_rq_of_se (h_st h) p) flags (Task p) h;
     Some (upd_st (dequeue_pushable_task c p) h)
   }"

definition requeue_rt_entity_g :: "cpu \<Rightarrow> bool \<Rightarrow> ent \<Rightarrow> hier \<Rightarrow> hier option" where
  "requeue_rt_entity_g c head e h =
    (if on_rt_rq c h e then link_g head c (se_group h e) (rt_se_prio_g c h e) e (unlink_g c e h) else Some h)"

fun requeue_loop :: "cpu \<Rightarrow> bool \<Rightarrow> ent list \<Rightarrow> hier \<Rightarrow> hier option" where
  "requeue_loop c head [] h = Some h"
| "requeue_loop c head (e # es) h = do {
     h \<leftarrow> requeue_rt_entity_g c head e h;
     requeue_loop c head es h
   }"

definition requeue_task_rt_g :: "tid \<Rightarrow> bool \<Rightarrow> hier \<Rightarrow> hier option" where
  "requeue_task_rt_g p head h = requeue_loop (rt_rq_of_se (h_st h) p) head (sched_rt_entities h (Task p)) h"

definition yield_task_rt_g :: "cpu \<Rightarrow> hier \<Rightarrow> hier option" where
  "yield_task_rt_g c h = requeue_task_rt_g (curr_of (h_st h) c) False h"

definition pick_next_rt_entity_g :: "cpu \<Rightarrow> gid \<Rightarrow> hier \<Rightarrow> ent option" where
  "pick_next_rt_entity_g c g h =
    (let idx = sched_find_first_bit (g_bitmap (h_rq h c g)) in
     if int idx \<ge> MAX_RT_PRIO then None
     else if \<not> in_bounds (int idx) (g_queue (h_rq h c g)) then None
     else case g_queue (h_rq h c g) ! idx of [] \<Rightarrow> None | e # _ \<Rightarrow> Some e)"

text \<open>The loop of \<open>_pick_next_task_rt\<close>: down through the groups to a task.\<close>

partial_function (option) pick_loop :: "cpu \<Rightarrow> hier \<Rightarrow> gid \<Rightarrow> tid option" where
  "pick_loop c h g = do {
     e \<leftarrow> pick_next_rt_entity_g c g h;
     case e of Task p \<Rightarrow> Some p | Group x \<Rightarrow> pick_loop c h x
   }"

definition pick_next_task_rt_raw_g :: "cpu \<Rightarrow> hier \<Rightarrow> (tid \<times> hier) option" where
  "pick_next_task_rt_raw_g c h = do {
     p \<leftarrow> pick_loop c h [];
     Some (p, upd_st (upd_task p (\<lambda>t. t\<lparr>p_exec_start := rq_clock_task (rqs (h_st h) c)\<rparr>)) h)
   }"

section \<open>The period timer of a group\<close>

text \<open>One CPU of the loop of \<open>do_sched_rt_period_timer\<close>; \<open>idle\<close> and \<open>throttled\<close> are the local flags of the function.\<close>

definition period_timer_cpu_g :: "u64 \<Rightarrow> gid \<Rightarrow> cpu \<Rightarrow> bool \<times> bool \<times> hier \<Rightarrow> (bool \<times> bool \<times> hier) option" where
  "period_timer_cpu_g overrun g i = (\<lambda>(idle, throttled, h).
    let h = (if \<not> feat_rt_runtime_share (h_st h) \<and> g_runtime (h_rq h i g) \<noteq> RUNTIME_INF
             then upd_g i g (\<lambda>r. r\<lparr>g_runtime := rtb_runtime (h_bw h g)\<rparr>) h else h)
    in if g_time (h_rq h i g) = 0 \<and> g_nr_running (h_rq h i g) = 0 then Some (idle, throttled, h)
    else
      let h = upd_st (update_rq_clock i) h;
          (enqueue, idle, h) =
            (if g_time (h_rq h i g) \<noteq> 0 then
               let h = (if g_throttled (h_rq h i g) then balance_runtime_g i g h else h);
                   runtime = g_runtime (h_rq h i g);
                   h = upd_g i g (\<lambda>r. r\<lparr>g_time := g_time r - min (g_time r) (overrun * runtime)\<rparr>) h;
                   (enqueue, h) =
                     (if g_throttled (h_rq h i g) \<and> g_time (h_rq h i g) < runtime
                      then (True,
                        let h = upd_g i g (\<lambda>r. r\<lparr>g_throttled := False\<rparr>) h
                        in if g_nr_running (h_rq h i g) \<noteq> 0 \<and> curr_of (h_st h) i = rq_idle (rqs (h_st h) i)
                           then upd_st (rq_clock_cancel_skipupdate i) h else h)
                      else (False, h));
                   idle = (if g_time (h_rq h i g) \<noteq> 0 \<or> g_nr_running (h_rq h i g) \<noteq> 0 then False else idle)
               in (enqueue, idle, h)
             else if g_nr_running (h_rq h i g) \<noteq> 0
               then (\<not> rt_rq_throttled_g (h_rq h i g), False, h)
             else (False, idle, h));
          throttled = (if g_throttled (h_rq h i g) then True else throttled)
      in do {
        h \<leftarrow> (if enqueue then sched_rt_rq_enqueue_g i g h else Some h);
        Some (idle, throttled, h)
      })"

fun period_timer_cpus :: "u64 \<Rightarrow> gid \<Rightarrow> cpu list \<Rightarrow> bool \<times> bool \<times> hier \<Rightarrow> (bool \<times> bool \<times> hier) option" where
  "period_timer_cpus overrun g [] s = Some s"
| "period_timer_cpus overrun g (i # is) s = do {
     s \<leftarrow> period_timer_cpu_g overrun g i s;
     period_timer_cpus overrun g is s
   }"

definition do_sched_rt_period_timer_g :: "u64 \<Rightarrow> gid \<Rightarrow> hier \<Rightarrow> (bool \<times> hier) option" where
  "do_sched_rt_period_timer_g overrun g h =
    (let span = (if g = [] then cpu_online_mask (h_st h) else rd_span (rd (h_st h))) in do {
       (idle, throttled, h) \<leftarrow> period_timer_cpus overrun g span (True, False, h);
       Some (if \<not> throttled \<and> (\<not> rt_bandwidth_enabled (h_st h) \<or> rtb_runtime (h_bw h g) = RUNTIME_INF)
             then (True, h) else (idle, h))
     })"

end
