(* ===== verification/Sched_RT_Groups_Props.thy ===== *)
theory Sched_RT_Groups_Props
  imports Sched_RT_Groups
begin

text \<open>
  The invariant of the hierarchy of real-time run queues and what the operations on it do. \<open>under\<close> is the set of tasks a group counts: the queued tasks below it that no group between
  has taken out. \<open>hier_wf\<close> ties arrays, bitmaps, counters, priorities and flags of all groups to it; groups in the set \<open>F\<close> may be off their queue although
  they have tasks, which is how an operation leaves the groups above an entity while it works.
\<close>

section \<open>The tasks a group counts\<close>

definition queued_tasks :: "cpu \<Rightarrow> hier \<Rightarrow> tid set" where
  "queued_tasks c h = {p. p_cpu (tsk h p) = c \<and> p_rt_on_rq (tsk h p)}"

definition under :: "cpu \<Rightarrow> hier \<Rightarrow> gid \<Rightarrow> tid set" where
  "under c h g = {p \<in> queued_tasks c h. suffix g (h_tg h p) \<and>
     (\<forall>g'. strict_suffix g g' \<and> suffix g' (h_tg h p) \<longrightarrow> g_on_rq (h_rq h c g'))}"

definition ent_tasks :: "cpu \<Rightarrow> hier \<Rightarrow> ent \<Rightarrow> tid set" where
  "ent_tasks c h e = (case e of Task p \<Rightarrow> {p} | Group g \<Rightarrow> under c h g)"

definition se_here :: "cpu \<Rightarrow> hier \<Rightarrow> ent \<Rightarrow> bool" where
  "se_here c h e = (case e of Task p \<Rightarrow> p_cpu (tsk h p) = c | Group g \<Rightarrow> g \<noteq> [])"

definition rr_tasks :: "hier \<Rightarrow> tid set" where
  "rr_tasks h = {p. p_policy (tsk h p) = SCHED_RR}"

section \<open>The invariant\<close>

abbreviation gmem :: "cpu \<Rightarrow> hier \<Rightarrow> gid \<Rightarrow> ent \<Rightarrow> bool" where
  "gmem c h g e \<equiv> qs_mem e (g_queue (h_rq h c g))"

definition members_ok :: "cpu \<Rightarrow> hier \<Rightarrow> gid \<Rightarrow> bool" where
  "members_ok c h g \<longleftrightarrow> (\<forall>i < 100. \<forall>e \<in> set (g_queue (h_rq h c g) ! i).
     se_here c h e \<and> se_group h e = g \<and> on_rt_rq c h e \<and> rt_se_prio_g c h e = int i)"

definition group_counts_ok :: "cpu \<Rightarrow> hier \<Rightarrow> gid \<Rightarrow> bool" where
  "group_counts_ok c h g \<longleftrightarrow> (let r = h_rq h c g in
     g_highest r = int (first_q (g_queue r)) \<and>
     unat (g_nr_running r) = card (under c h g) \<and>
     unat (g_rr_nr_running r) = card (under c h g \<inter> rr_tasks h) \<and>
     g_nr_boosted r = of_nat (card {e. gmem c h g e \<and> rt_se_boosted c h e}))"

definition ents_ok :: "cpu \<Rightarrow> hier \<Rightarrow> bool" where
  "ents_ok c h \<longleftrightarrow> (\<forall>e. se_here c h e \<longrightarrow> (on_rt_rq c h e \<longleftrightarrow> gmem c h (se_group h e) e) \<and>
     (se_on_list c h e \<longleftrightarrow> on_rt_rq c h e))"

definition groups_ok :: "gid set \<Rightarrow> cpu \<Rightarrow> hier \<Rightarrow> bool" where
  "groups_ok F c h \<longleftrightarrow> (\<forall>g. g \<noteq> [] \<longrightarrow> (g_on_rq (h_rq h c g) \<longrightarrow> g_nr_running (h_rq h c g) \<noteq> 0) \<and>
     (g \<notin> F \<longrightarrow> (g_on_rq (h_rq h c g) \<longleftrightarrow> g_nr_running (h_rq h c g) \<noteq> 0 \<and> \<not> rt_rq_throttled_g (h_rq h c g))))"

definition hier_wf :: "gid set \<Rightarrow> cpu \<Rightarrow> hier \<Rightarrow> bool" where
  "hier_wf F c h \<longleftrightarrow>
     (\<forall>g. rt_array_ok (g_queue (h_rq h c g)) (g_bitmap (h_rq h c g)) \<and> members_ok c h g \<and> group_counts_ok c h g) \<and>
     ents_ok c h \<and> groups_ok F c h \<and> finite (queued_tasks c h) \<and> card (queued_tasks c h) \<le> MAX_TASKS"

lemma hier_wfD:
  assumes "hier_wf F c h"
  shows "rt_array_ok (g_queue (h_rq h c g)) (g_bitmap (h_rq h c g))" "members_ok c h g" "group_counts_ok c h g"
    "ents_ok c h" "groups_ok F c h" "finite (queued_tasks c h)" "card (queued_tasks c h) \<le> MAX_TASKS"
  using assms by (auto simp: hier_wf_def)

lemma hier_wf_mono: "hier_wf F c h \<Longrightarrow> F \<subseteq> F' \<Longrightarrow> hier_wf F' c h"
  unfolding hier_wf_def groups_ok_def by blast

section \<open>Facts about members\<close>

lemma member_at:
  assumes "hier_wf F c h" "gmem c h g e"
  obtains i where "i < 100" "e \<in> set (g_queue (h_rq h c g) ! i)" "rt_se_prio_g c h e = int i"
    "se_here c h e" "se_group h e = g" "on_rt_rq c h e"
proof -
  obtain i where i: "i < 100" "e \<in> set (g_queue (h_rq h c g) ! i)"
    using assms(2) rt_array_okD(1) [OF hier_wfD(1) [OF assms(1)], of g] by (auto simp: qs_mem_nth)
  with that show ?thesis using hier_wfD(2) [OF assms(1), of g] by (auto simp: members_ok_def)
qed

lemma member_iff:
  assumes "hier_wf F c h"
  shows "gmem c h g e \<longleftrightarrow> se_here c h e \<and> se_group h e = g \<and> on_rt_rq c h e"
proof
  assume m: "gmem c h g e"
  show "se_here c h e \<and> se_group h e = g \<and> on_rt_rq c h e" by (rule member_at [OF assms m]) blast
qed (use hier_wfD(4) [OF assms] in \<open>auto simp: ents_ok_def\<close>)

lemma under_sub: "under c h g \<subseteq> queued_tasks c h"
  by (auto simp: under_def)

lemma under_finite: "hier_wf F c h \<Longrightarrow> finite (under c h g)"
  by (rule finite_subset [OF under_sub hier_wfD(6)])

lemma under_bound:
  assumes "hier_wf F c h" "A \<subseteq> queued_tasks c h" shows "card A < 2 ^ 32"
proof -
  have "card A \<le> MAX_TASKS" using card_mono [OF hier_wfD(6) [OF assms(1)] assms(2)] hier_wfD(7) [OF assms(1)] by linarith
  then show ?thesis unfolding MAX_TASKS_def by (rule le_less_trans) simp
qed

lemma suffix_Cons_cases: "suffix g t \<Longrightarrow> t = g \<or> (\<exists>i. suffix (i # g) t)"
  unfolding suffix_def by (metis append.assoc append_Cons append_Nil rev_exhaust)

lemma strict_suffix_Cons_cases:
  assumes "strict_suffix g g'" "suffix g' t" "suffix (i # g) t"
  shows "g' = i # g \<or> strict_suffix (i # g) g'"
proof (cases "suffix (i # g) g'")
  case False
  then have s: "suffix g' (i # g)" using suffix_same_cases assms(2,3) by blast
  have "length g < length g'" using assms(1) by (rule suffix_length_less)
  moreover obtain zs where z: "i # g = zs @ g'" using s by (auto simp: suffix_def)
  moreover have "Suc (length g) = length zs + length g'" using arg_cong [OF z, of length] by simp
  ultimately have "g' = i # g" by (cases zs) auto
  then show ?thesis by simp
qed (auto simp: strict_suffix_def)

lemma under_group:
  assumes "g_on_rq (h_rq h c (i # g))" shows "under c h (i # g) \<subseteq> under c h g"
proof
  fix p assume p: "p \<in> under c h (i # g)"
  have "g_on_rq (h_rq h c g')" if "strict_suffix g g'" "suffix g' (h_tg h p)" for g'
    using strict_suffix_Cons_cases [OF that, of i] p assms that(2) by (auto simp: under_def)
  then show "p \<in> under c h g" using p by (auto simp: under_def suffix_ConsD)
qed

lemma under_cases:
  assumes "p \<in> under c h g"
  obtains "h_tg h p = g" | i where "g_on_rq (h_rq h c (i # g))" "p \<in> under c h (i # g)"
proof -
  have p: "suffix g (h_tg h p)" "p \<in> queued_tasks c h"
    "\<And>g'. strict_suffix g g' \<Longrightarrow> suffix g' (h_tg h p) \<Longrightarrow> g_on_rq (h_rq h c g')"
    using assms by (auto simp: under_def)
  show ?thesis
  proof (cases "h_tg h p = g")
    case False
    then obtain i where i: "suffix (i # g) (h_tg h p)" using suffix_Cons_cases [OF p(1)] by blast
    have s: "strict_suffix g (i # g)" by (simp add: strict_suffix_def suffix_ConsI)
    have "p \<in> under c h (i # g)" using i p by (auto simp: under_def suffix_order.less_trans [OF s])
    with that(2) p(3) [OF s i] show ?thesis by blast
  qed (use that(1) in blast)
qed

text \<open>What a group counts is what its members stand for.\<close>

lemma under_members:
  assumes "hier_wf F c h" shows "under c h g = (\<Union>e \<in> {e. gmem c h g e}. ent_tasks c h e)"
proof (intro set_eqI iffI)
  fix p assume p: "p \<in> under c h g"
  then have q: "p \<in> queued_tasks c h" by (simp add: under_def)
  show "p \<in> (\<Union>e \<in> {e. gmem c h g e}. ent_tasks c h e)"
  proof (rule under_cases [OF p])
    assume "h_tg h p = g"
    then have "gmem c h g (Task p)" using q member_iff [OF assms] by (simp add: se_here_def se_group_def on_rt_rq_def queued_tasks_def)
    then show ?thesis by (auto simp: ent_tasks_def intro!: exI [of _ "Task p"])
  next
    fix i assume i: "g_on_rq (h_rq h c (i # g))" "p \<in> under c h (i # g)"
    then have "gmem c h g (Group (i # g))" using member_iff [OF assms] by (simp add: se_here_def se_group_def on_rt_rq_def)
    then show ?thesis using i by (auto simp: ent_tasks_def intro!: exI [of _ "Group (i # g)"])
  qed
next
  fix p assume "p \<in> (\<Union>e \<in> {e. gmem c h g e}. ent_tasks c h e)"
  then obtain e where e: "gmem c h g e" "p \<in> ent_tasks c h e" by blast
  then have m: "se_here c h e" "se_group h e = g" "on_rt_rq c h e" using member_iff [OF assms] by blast+
  show "p \<in> under c h g"
  proof (cases e)
    case (Task q)
    then show ?thesis using m e(2)
      by (auto simp: ent_tasks_def under_def queued_tasks_def se_here_def se_group_def on_rt_rq_def suffix_order.less_le_not_le)
  next
    case (Group x)
    then obtain i where "x = i # g" using m by (cases x) (auto simp: se_here_def se_group_def)
    then show ?thesis using under_group [of h c i g] Group m e(2) by (auto simp: ent_tasks_def on_rt_rq_def)
  qed
qed

lemma ent_tasks_nonempty:
  assumes wf: "hier_wf F c h" and e: "se_here c h e" "on_rt_rq c h e" shows "ent_tasks c h e \<noteq> {}"
proof (cases e)
  case (Group g)
  then have "unat (g_nr_running (h_rq h c g)) \<noteq> 0" using e hier_wfD(5) [OF wf] by (auto simp: groups_ok_def on_rt_rq_def se_here_def unat_eq_0)
  then have "card (under c h g) \<noteq> 0" using hier_wfD(3) [OF wf, of g] by (simp add: group_counts_ok_def Let_def)
  then show ?thesis using Group by (auto simp: ent_tasks_def)
qed (simp add: ent_tasks_def)

lemma under_empty_iff:
  assumes "hier_wf F c h" shows "under c h g = {} \<longleftrightarrow> (\<forall>e. \<not> gmem c h g e)"
  unfolding under_members [OF assms] using ent_tasks_nonempty [OF assms] member_iff [OF assms] by auto

section \<open>Moving one entity\<close>

text \<open>
  \<open>h'\<close> differs from \<open>h\<close> in the flags of \<open>e\<close>, which are \<open>b\<close> afterwards, and in array and counters of the group \<open>e\<close> belongs to.
\<close>

definition entity_moved :: "cpu \<Rightarrow> ent \<Rightarrow> bool \<Rightarrow> hier \<Rightarrow> hier \<Rightarrow> bool" where
  "entity_moved c e b h h' \<longleftrightarrow> h_tg h' = h_tg h \<and>
     (\<forall>p. p_cpu (tsk h' p) = p_cpu (tsk h p) \<and> p_prio (tsk h' p) = p_prio (tsk h p) \<and>
        p_normal_prio (tsk h' p) = p_normal_prio (tsk h p) \<and> p_policy (tsk h' p) = p_policy (tsk h p)) \<and>
     (\<forall>x. x \<noteq> se_group h e \<longrightarrow> g_queue (h_rq h' c x) = g_queue (h_rq h c x) \<and> g_bitmap (h_rq h' c x) = g_bitmap (h_rq h c x) \<and>
        g_nr_running (h_rq h' c x) = g_nr_running (h_rq h c x) \<and> g_rr_nr_running (h_rq h' c x) = g_rr_nr_running (h_rq h c x) \<and>
        g_highest (h_rq h' c x) = g_highest (h_rq h c x) \<and> g_nr_boosted (h_rq h' c x) = g_nr_boosted (h_rq h c x)) \<and>
     (\<forall>x. g_throttled (h_rq h' c x) = g_throttled (h_rq h c x)) \<and> (\<forall>d x. d \<noteq> c \<longrightarrow> h_rq h' d x = h_rq h d x) \<and>
     (\<forall>y. on_rt_rq c h' y = (if y = e then b else on_rt_rq c h y) \<and> se_on_list c h' y = (if y = e then b else se_on_list c h y))"

lemma entity_movedD:
  assumes "entity_moved c e b h h'"
  shows "h_tg h' = h_tg h" "p_cpu (tsk h' p) = p_cpu (tsk h p)" "p_prio (tsk h' p) = p_prio (tsk h p)"
    "p_normal_prio (tsk h' p) = p_normal_prio (tsk h p)" "p_policy (tsk h' p) = p_policy (tsk h p)"
    "x \<noteq> se_group h e \<Longrightarrow> g_queue (h_rq h' c x) = g_queue (h_rq h c x)"
    "x \<noteq> se_group h e \<Longrightarrow> g_bitmap (h_rq h' c x) = g_bitmap (h_rq h c x)"
    "x \<noteq> se_group h e \<Longrightarrow> g_nr_running (h_rq h' c x) = g_nr_running (h_rq h c x)"
    "x \<noteq> se_group h e \<Longrightarrow> g_rr_nr_running (h_rq h' c x) = g_rr_nr_running (h_rq h c x)"
    "x \<noteq> se_group h e \<Longrightarrow> g_highest (h_rq h' c x) = g_highest (h_rq h c x)"
    "x \<noteq> se_group h e \<Longrightarrow> g_nr_boosted (h_rq h' c x) = g_nr_boosted (h_rq h c x)"
    "g_throttled (h_rq h' c x) = g_throttled (h_rq h c x)"
    "on_rt_rq c h' y = (if y = e then b else on_rt_rq c h y)" "se_on_list c h' y = (if y = e then b else se_on_list c h y)"
    "p_rt_on_rq (tsk h' p) = (if Task p = e then b else p_rt_on_rq (tsk h p))"
    "g_on_rq (h_rq h' c x) = (if Group x = e then b else g_on_rq (h_rq h c x))"
    "d \<noteq> c \<Longrightarrow> h_rq h' d x = h_rq h d x" "p_rt_on_list (tsk h' p) = (if Task p = e then b else p_rt_on_list (tsk h p))"
  using assms unfolding entity_moved_def by (simp_all add: on_rt_rq_def se_on_list_def split: ent.splits)

lemma moved_static:
  assumes "entity_moved c e b h h'"
  shows "se_here c h' y = se_here c h y" "se_group h' y = se_group h y" "rr_tasks h' = rr_tasks h"
    "y \<noteq> Group (se_group h e) \<Longrightarrow> rt_se_prio_g c h' y = rt_se_prio_g c h y"
    "y \<noteq> Group (se_group h e) \<Longrightarrow> rt_se_boosted c h' y = rt_se_boosted c h y"
proof -
  note m = entity_movedD [OF assms]
  show "se_here c h' y = se_here c h y" "se_group h' y = se_group h y" "rr_tasks h' = rr_tasks h"
    using m(1,2,5) by (simp_all add: se_here_def se_group_def rr_tasks_def split: ent.splits)
  show "rt_se_prio_g c h' y = rt_se_prio_g c h y" "rt_se_boosted c h' y = rt_se_boosted c h y" if "y \<noteq> Group (se_group h e)"
    using m(3,4) m(10,11) that by (cases y; simp add: rt_se_prio_g_def rt_se_boosted_def)+
qed

text \<open>The tasks of a group change only in the group of the entity, if that group is itself off its queue.\<close>

lemma under_moved:
  assumes mv: "entity_moved c e b h h'" and here: "se_here c h e"
    and off: "se_group h e = [] \<or> \<not> g_on_rq (h_rq h c (se_group h e))"
  shows "under c h' x = (if x = se_group h e then if b then under c h x \<union> ent_tasks c h e else under c h x - ent_tasks c h e
    else under c h x)"
proof (rule set_eqI)
  fix q
  note m = entity_movedD [OF mv]
  have above: "\<not> g_on_rq (h_rq h c (se_group h e))" if "strict_suffix x (se_group h e)" using off that by auto
  show "q \<in> under c h' x \<longleftrightarrow> q \<in> (if x = se_group h e then if b then under c h x \<union> ent_tasks c h e else under c h x - ent_tasks c h e
    else under c h x)"
  proof (cases e)
    case (Task p)
    have g: "se_group h e = h_tg h p" "p_cpu (tsk h p) = c" using Task here by (simp_all add: se_group_def se_here_def)
    show ?thesis
    proof (cases "q = p")
      case False
      then show ?thesis using Task m(1,2,15,16) by (simp add: under_def queued_tasks_def ent_tasks_def)
    next
      case True
      have "q \<notin> under c h x \<and> q \<notin> under c h' x" if "x \<noteq> h_tg h p"
        using above that g(1) m(1,16) Task True by (auto simp: under_def strict_suffix_def)
      moreover have "q \<in> under c h' x \<longleftrightarrow> b" if "x = h_tg h p"
        using that g m(1,2,15) Task True by (auto simp: under_def queued_tasks_def)
      ultimately show ?thesis using Task True g by (simp add: ent_tasks_def)
    qed
  next
    case (Group y)
    then obtain i where y: "y = i # se_group h e" using here by (cases y) (auto simp: se_here_def se_group_def)
    have q: "queued_tasks c h' = queued_tasks c h" using m(2,15) Group by (simp add: queued_tasks_def)
    have on: "g_on_rq (h_rq h' c z) = g_on_rq (h_rq h c z)" if "z \<noteq> y" for z using m(16) that Group by simp
    have ony: "g_on_rq (h_rq h' c z) = g_on_rq (h_rq h c z)" if "strict_suffix y z" for z using on [of z] that by auto
    show ?thesis
    proof (cases "suffix y (h_tg h q) \<and> strict_suffix x y")
      case False
      then have "q \<in> under c h' x \<longleftrightarrow> q \<in> under c h x" using on q m(1) by (auto simp: under_def)
      moreover have "q \<notin> under c h y" if "x = se_group h e" using False that y by (auto simp: under_def strict_suffix_def suffix_ConsI)
      ultimately show ?thesis using Group by (simp add: ent_tasks_def)
    next
      case True
      then have sg: "suffix x (se_group h e)" "suffix (se_group h e) (h_tg h q)"
        using y by (auto simp: strict_suffix_def suffix_Cons suffix_ConsD)
      show ?thesis
      proof (cases "x = se_group h e")
        case False
        then have s: "strict_suffix x (se_group h e)" using sg by (simp add: strict_suffix_def)
        have "q \<notin> under c h x \<and> q \<notin> under c h' x" using above [OF s] s sg(2) on [of "se_group h e"] m(1) y by (auto simp: under_def)
        then show ?thesis using False by simp
      next
        case x: True
        have sy: "strict_suffix x y" using True by blast
        have "q \<in> under c h' x \<longleftrightarrow> b \<and> q \<in> under c h y"
        proof
          assume a: "q \<in> under c h' x"
          then have b using True m(1,16) Group by (auto simp: under_def)
          moreover have "q \<in> under c h y"
            using a True ony q m(1) suffix_order.less_trans [OF sy] by (auto simp: under_def)
          ultimately show "b \<and> q \<in> under c h y" by blast
        next
          assume a: "b \<and> q \<in> under c h y"
          have "g_on_rq (h_rq h' c z)" if z: "strict_suffix x z" "suffix z (h_tg h q)" for z
          proof (cases "z = y")
            case False
            then have sz: "strict_suffix y z" using strict_suffix_Cons_cases [OF z, of i] True x y by blast
            then show ?thesis using a ony [OF sz] z(2) by (auto simp: under_def)
          qed (use a m(16) Group in simp)
          then show "q \<in> under c h' x" using a sg q m(1) x by (auto simp: under_def)
        qed
        moreover have "q \<in> under c h x \<Longrightarrow> q \<in> under c h y"
          using True suffix_order.less_trans [OF sy] by (auto simp: under_def)
        ultimately show ?thesis using x Group by (auto simp: ent_tasks_def)
      qed
    qed
  qed
qed

text \<open>An entity that may be moved: the group it belongs to is the root or off its queue.\<close>

definition movable :: "cpu \<Rightarrow> hier \<Rightarrow> ent \<Rightarrow> bool" where
  "movable c h e \<longleftrightarrow> se_here c h e \<and> (se_group h e = [] \<or> \<not> g_on_rq (h_rq h c (se_group h e)))"

lemma not_own_group: "se_here c h e \<Longrightarrow> e \<noteq> Group (se_group h e)"
  by (cases e) (auto simp: se_here_def se_group_def neq_Nil_conv)

lemma movable_group_off:
  assumes "hier_wf F c h" "movable c h e" shows "\<not> gmem c h x (Group (se_group h e))"
  using member_iff [OF assms(1), where g = x and e = "Group (se_group h e)"] assms(2) by (auto simp: movable_def se_here_def on_rt_rq_def)

lemma hier_wf_moved:
  assumes wf: "hier_wf F c h" and mv: "entity_moved c e b h h'" and ok: "movable c h e"
    and arr: "rt_array_ok (g_queue (h_rq h' c g)) (g_bitmap (h_rq h' c g))" and g: "g = se_group h e"
    and mem: "\<And>i y. i < 100 \<Longrightarrow> y \<in> set (g_queue (h_rq h' c g) ! i) \<longleftrightarrow>
      (y = e \<and> b \<and> rt_se_prio_g c h e = int i) \<or> (y \<noteq> e \<and> y \<in> set (g_queue (h_rq h c g) ! i))"
    and prio: "b \<Longrightarrow> 0 \<le> rt_se_prio_g c h e \<and> rt_se_prio_g c h e < 100"
    and high: "g_highest (h_rq h' c g) = int (first_q (g_queue (h_rq h' c g)))"
    and nr: "unat (g_nr_running (h_rq h' c g)) = card (under c h' g)"
    and rr: "unat (g_rr_nr_running (h_rq h' c g)) = card (under c h' g \<inter> rr_tasks h)"
    and boost: "g_nr_boosted (h_rq h' c g) = of_nat (card {y. gmem c h' g y \<and> rt_se_boosted c h y})"
    and size: "finite (queued_tasks c h')" "card (queued_tasks c h') \<le> MAX_TASKS"
    and gr: "\<And>x. e = Group x \<Longrightarrow> b \<Longrightarrow> g_nr_running (h_rq h c x) \<noteq> 0 \<and> \<not> rt_rq_throttled_g (h_rq h c x)"
    and F: "g = [] \<or> g \<in> F'" "\<And>x. x \<in> F \<Longrightarrow> x \<in> F' \<or> e = Group x \<and> b" "\<And>x. e = Group x \<Longrightarrow> \<not> b \<Longrightarrow> x \<in> F'"
  shows "hier_wf F' c h'"
proof -
  note m = entity_movedD [OF mv] and s = moved_static [OF mv]
  have here: "se_here c h e" using ok by (simp add: movable_def)
  have eg: "e \<noteq> Group g" using not_own_group [OF here] g by simp
  have gm: "gmem c h' g y \<longleftrightarrow> (y = e \<and> b) \<or> (y \<noteq> e \<and> gmem c h g y)" for y
  proof -
    have "length (g_queue (h_rq h' c g)) = 100" "length (g_queue (h_rq h c g)) = 100"
      using rt_array_okD(1) [OF arr] rt_array_okD(1) [OF hier_wfD(1) [OF wf]] by simp_all
    moreover have "\<exists>i<100. rt_se_prio_g c h e = int i" if b using prio [OF that] by (intro exI [of _ "nat (rt_se_prio_g c h e)"]) auto
    ultimately show ?thesis using mem by (auto simp: qs_mem_nth)
  qed
  have off: "\<not> gmem c h x (Group g)" for x using movable_group_off [OF wf ok] g by simp
  have same: "gmem c h' x y \<longleftrightarrow> gmem c h x y" if "x \<noteq> g" for x y using m(6) that g by simp
  have wf': "members_ok c h' x" for x
  proof (cases "x = g")
    case True
    have ng: "y \<noteq> Group g" if "y \<in> set (g_queue (h_rq h c g) ! i)" "i < 100" for y i
      using off [of g] that rt_array_okD(1) [OF hier_wfD(1) [OF wf]] by (auto simp: qs_mem_nth)
    have old: "se_here c h' y \<and> se_group h' y = g \<and> on_rt_rq c h' y \<and> rt_se_prio_g c h' y = int i"
      if "y \<in> set (g_queue (h_rq h c g) ! i)" "i < 100" "y \<noteq> e" for y i
    proof -
      have "se_here c h y \<and> se_group h y = g \<and> on_rt_rq c h y \<and> rt_se_prio_g c h y = int i" "y \<noteq> Group g"
        using hier_wfD(2) [OF wf, of g] ng that(1,2) unfolding members_ok_def by blast+
      then show ?thesis using that(3) m(13) [of y] s(1,2,4) [of y] g by simp
    qed
    have new: "se_here c h' e \<and> se_group h' e = g \<and> on_rt_rq c h' e \<and> rt_se_prio_g c h' e = int i"
      if b "rt_se_prio_g c h e = int i" for i
      using that m(13) [of e] s(1,2,4) [of e] here eg g by simp
    show ?thesis unfolding members_ok_def True
    proof (intro allI impI ballI)
      fix i y assume i: "i < (100 :: nat)" "y \<in> set (g_queue (h_rq h' c g) ! i)"
      show "se_here c h' y \<and> se_group h' y = g \<and> on_rt_rq c h' y \<and> rt_se_prio_g c h' y = int i"
      proof (cases "y = e")
        case True
        then have "b" "rt_se_prio_g c h e = int i" using mem [OF i(1), of y] i(2) by simp_all
        then show ?thesis using new True by simp
      next
        case False
        then have "y \<in> set (g_queue (h_rq h c g) ! i)" using mem [OF i(1), of y] i(2) by simp
        then show ?thesis using old i(1) False by simp
      qed
    qed
  next
    case False
    have "y \<noteq> Group g \<and> y \<noteq> e" if "y \<in> set (g_queue (h_rq h c x) ! i)" "i < 100" for y i
    proof -
      have y: "gmem c h x y" using that rt_array_okD(1) [OF hier_wfD(1) [OF wf], of x] by (auto simp: qs_mem_nth)
      then have "se_group h y = x" using member_iff [OF wf] by blast
      then show ?thesis using off [of x] y False g by auto
    qed
    then show ?thesis using hier_wfD(2) [OF wf, of x] m(6) m(13) s(1,2,4) g False by (simp add: members_ok_def)
  qed
  have bset: "{y. gmem c h' x y \<and> rt_se_boosted c h' y} = {y. gmem c h' x y \<and> rt_se_boosted c h y}" for x
  proof -
    have "\<not> gmem c h' x (Group g)" using off gm [of "Group g"] same [of x "Group g"] eg by (cases "x = g") auto
    then have "rt_se_boosted c h' y = rt_se_boosted c h y" if "gmem c h' x y" for y using s(5) [of y] that g by auto
    then show ?thesis by blast
  qed
  have "group_counts_ok c h' x" for x
  proof (cases "x = g")
    case True
    then show ?thesis using high nr rr boost bset [of g] s(3) by (simp add: group_counts_ok_def Let_def)
  next
    case False
    have "under c h' x = under c h x" using under_moved [OF mv here] ok False g by (simp add: movable_def)
    then show ?thesis using hier_wfD(3) [OF wf, of x] False m(6,8,9,10,11) [of x] bset [of x] same [OF False] s(3) g
      by (simp add: group_counts_ok_def Let_def)
  qed
  moreover have "ents_ok c h'"
    unfolding ents_ok_def
  proof (intro allI impI)
    fix y assume "se_here c h' y"
    then have y: "se_here c h y" using s(1) by simp
    have e: "on_rt_rq c h y \<longleftrightarrow> gmem c h (se_group h y) y" "se_on_list c h y \<longleftrightarrow> on_rt_rq c h y"
      using hier_wfD(4) [OF wf] y by (simp_all add: ents_ok_def)
    show "(on_rt_rq c h' y \<longleftrightarrow> gmem c h' (se_group h' y) y) \<and> (se_on_list c h' y \<longleftrightarrow> on_rt_rq c h' y)"
      using e gm [of y] same [of "se_group h y" y] m(13,14) [of y] s(2) [of y] g by (cases "se_group h y = g") auto
  qed
  moreover have "groups_ok F' c h'"
    unfolding groups_ok_def
  proof (intro allI impI)
    fix x :: gid assume x: "x \<noteq> []"
    have w: "(g_on_rq (h_rq h c x) \<longrightarrow> g_nr_running (h_rq h c x) \<noteq> 0)"
      "x \<notin> F \<Longrightarrow> g_on_rq (h_rq h c x) \<longleftrightarrow> g_nr_running (h_rq h c x) \<noteq> 0 \<and> \<not> rt_rq_throttled_g (h_rq h c x)"
      using hier_wfD(5) [OF wf] x by (auto simp: groups_ok_def)
    have on: "g_on_rq (h_rq h' c x) = (if Group x = e then b else g_on_rq (h_rq h c x))" by (rule m(16))
    show "(g_on_rq (h_rq h' c x) \<longrightarrow> g_nr_running (h_rq h' c x) \<noteq> 0) \<and>
      (x \<notin> F' \<longrightarrow> (g_on_rq (h_rq h' c x) \<longleftrightarrow> g_nr_running (h_rq h' c x) \<noteq> 0 \<and> \<not> rt_rq_throttled_g (h_rq h' c x)))"
    proof (cases "x = g")
      case True
      then have "\<not> g_on_rq (h_rq h' c x)" using on ok g x eg by (auto simp: movable_def)
      then show ?thesis using True F(1) x by auto
    next
      case False
      then have eq: "g_nr_running (h_rq h' c x) = g_nr_running (h_rq h c x)" "rt_rq_throttled_g (h_rq h' c x) = rt_rq_throttled_g (h_rq h c x)"
        using m(8,11,12) [of x] g by (simp_all add: rt_rq_throttled_g_def)
      show ?thesis
      proof (cases "e = Group x")
        case True
        then show ?thesis using on eq gr [OF True] F(3) [OF True] by auto
      next
        case False
        then show ?thesis using on eq w F(2) [of x] by auto
      qed
    qed
  qed
  moreover have "rt_array_ok (g_queue (h_rq h' c x)) (g_bitmap (h_rq h' c x))" for x
    using arr hier_wfD(1) [OF wf, of x] m(6,7) [of x] g by (cases "x = g") simp_all
  ultimately show ?thesis using wf' size by (simp add: hier_wf_def)
qed

section \<open>Linking and unlinking an entity\<close>

text \<open>What the accounting helpers keep: tasks, groups, and the part of the run queue the scheduler core sees.\<close>

definition same_rest :: "hier \<Rightarrow> hier \<Rightarrow> bool" where
  "same_rest h h' \<longleftrightarrow> (\<forall>d. rt_core (h_st h') d = rt_core (h_st h) d) \<and> h_tg h' = h_tg h"

lemma same_rest_refl [simp]: "same_rest h h"
  by (simp add: same_rest_def)

lemma same_rest_trans: "same_rest h h' \<Longrightarrow> same_rest h' h'' \<Longrightarrow> same_rest h h''"
  by (simp add: same_rest_def)

lemma inc_rt_tasks_g_eq:
  assumes "rt_prio (rt_se_prio_g c h e)" "e \<noteq> Group g"
  obtains h' where "inc_rt_tasks_g c e g h = Some h'" "tasks (h_st h') = tasks (h_st h)" "same_rest h h'"
    "h_rq h' = (h_rq h)(c := (h_rq h c)(g := (h_rq h c g)\<lparr>
       g_nr_running := g_nr_running (h_rq h c g) + rt_se_nr_running_g c h e,
       g_rr_nr_running := g_rr_nr_running (h_rq h c g) + rt_se_rr_nr_running_g c h e,
       g_highest := min (rt_se_prio_g c h e) (g_highest (h_rq h c g)),
       g_nr_boosted := g_nr_boosted (h_rq h c g) + (if rt_se_boosted c h e then 1 else 0)\<rparr>))"
proof -
  define r where "r = (h_rq h c g)\<lparr>
       g_nr_running := g_nr_running (h_rq h c g) + rt_se_nr_running_g c h e,
       g_rr_nr_running := g_rr_nr_running (h_rq h c g) + rt_se_rr_nr_running_g c h e\<rparr>"
  define h1 where "h1 = upd_g c g (\<lambda>_. r) h"
  define h2 where "h2 = inc_rt_prio_g c g (rt_se_prio_g c h e) h1"
  define h3 where "h3 = inc_rt_migration_g c e h2"
  have run: "inc_rt_tasks_g c e g h = Some (inc_rt_group_g c e g h3)"
    using assms(1) by (simp add: inc_rt_tasks_g_def Let_def h1_def h2_def h3_def r_def upd_g_def)
  have 2: "tasks (h_st h2) = tasks (h_st h)" "rt_core (h_st h2) d = rt_core (h_st h) d" "h_tg h2 = h_tg h"
    "h_rq h2 = (h_rq h)(c := (h_rq h c)(g := r\<lparr>g_highest := min (rt_se_prio_g c h e) (g_highest r)\<rparr>))" for d
    by (auto simp: h2_def h1_def inc_rt_prio_g_def inc_rt_prio_smp_g_def Let_def st_simps overload_frame rt_core_def upd_g_def fun_eq_iff)
  have 3: "tasks (h_st h3) = tasks (h_st h)" "rt_core (h_st h3) d = rt_core (h_st h) d" "h_tg h3 = h_tg h" "h_rq h3 = h_rq h2" for d
    using 2 by (auto simp: h3_def inc_rt_migration_g_def migration_frame st_simps split: ent.splits)
  have b: "rt_se_boosted c h3 e = rt_se_boosted c h e"
    using 3 2(4) assms(2) by (auto simp: rt_se_boosted_def split: ent.splits)
  have bw: "h_rq (start_rt_bandwidth_g g x) = h_rq x" "h_st (start_rt_bandwidth_g g x) = h_st x" "h_tg (start_rt_bandwidth_g g x) = h_tg x" for x
    by (simp_all add: start_rt_bandwidth_g_def)
  show ?thesis
  proof (rule that [OF run])
    show "tasks (h_st (inc_rt_group_g c e g h3)) = tasks (h_st h)" using 3 by (simp add: inc_rt_group_g_def bw st_simps)
    show "same_rest h (inc_rt_group_g c e g h3)" using 3 by (simp add: same_rest_def inc_rt_group_g_def bw st_simps)
  qed (use b 3(4) 2(4) in \<open>simp add: inc_rt_group_g_def bw upd_g_def r_def fun_eq_iff\<close>)
qed

lemma dec_rt_tasks_g_eq:
  assumes "rt_prio (rt_se_prio_g c h e)" "e \<noteq> Group g" "g_nr_running (h_rq h c g) \<noteq> 0"
    and n: "n = g_nr_running (h_rq h c g) - rt_se_nr_running_g c h e"
    and b: "b = g_nr_boosted (h_rq h c g) - (if rt_se_boosted c h e then 1 else 0)"
    and ok: "n \<noteq> 0 \<Longrightarrow> g_highest (h_rq h c g) \<le> rt_se_prio_g c h e" "n = 0 \<Longrightarrow> b = 0"
  obtains h' where "dec_rt_tasks_g c e g h = Some h'" "tasks (h_st h') = tasks (h_st h)" "same_rest h h'"
    "h_rq h' = (h_rq h)(c := (h_rq h c)(g := (h_rq h c g)\<lparr>
       g_nr_running := n,
       g_rr_nr_running := g_rr_nr_running (h_rq h c g) - rt_se_rr_nr_running_g c h e,
       g_highest := (if n = 0 then MAX_RT_PRIO
         else if rt_se_prio_g c h e = g_highest (h_rq h c g) then int (sched_find_first_bit (g_bitmap (h_rq h c g)))
         else g_highest (h_rq h c g)),
       g_nr_boosted := b\<rparr>))"
proof -
  define r where "r = (h_rq h c g)\<lparr>g_nr_running := n, g_rr_nr_running := g_rr_nr_running (h_rq h c g) - rt_se_rr_nr_running_g c h e\<rparr>"
  define v where "v = (if n = 0 then MAX_RT_PRIO
         else if rt_se_prio_g c h e = g_highest (h_rq h c g) then int (sched_find_first_bit (g_bitmap (h_rq h c g)))
         else g_highest (h_rq h c g))"
  define h1 where "h1 = upd_g c g (\<lambda>_. r) h"
  define h2 where "h2 = dec_rt_prio_smp_g c g (rt_se_prio_g c h e) (g_highest (h_rq h c g)) (upd_g c g (\<lambda>x. x\<lparr>g_highest := v\<rparr>) h1)"
  define h3 where "h3 = dec_rt_migration_g c e h2"
  have p: "rt_se_prio_g c h1 e = rt_se_prio_g c h e" using assms(2) by (auto simp: h1_def rt_se_prio_g_def st_simps split: ent.splits)
  have "dec_rt_prio_g c g (rt_se_prio_g c h e) h1 = Some h2"
  proof (cases "n \<noteq> 0 \<and> rt_se_prio_g c h e \<noteq> g_highest (h_rq h c g)")
    case True
    then have "upd_g c g (\<lambda>x. x\<lparr>g_highest := v\<rparr>) h1 = h1" by (simp add: upd_g_def h1_def v_def r_def)
    then show ?thesis using ok(1) True by (simp add: dec_rt_prio_g_def Let_def h1_def h2_def r_def st_simps)
  next
    case False
    then show ?thesis using ok(1) by (auto simp: dec_rt_prio_g_def Let_def h1_def h2_def r_def v_def upd_g_def)
  qed
  then have run: "dec_rt_tasks_g c e g h = dec_rt_group_g c e g h3"
    using assms(1,3) n p by (simp add: dec_rt_tasks_g_def Let_def h1_def h3_def r_def upd_g_def)
  have 2: "tasks (h_st h2) = tasks (h_st h)" "rt_core (h_st h2) d = rt_core (h_st h) d" "h_tg h2 = h_tg h"
    "h_rq h2 = (h_rq h)(c := (h_rq h c)(g := r\<lparr>g_highest := v\<rparr>))" for d
    by (auto simp: h2_def h1_def dec_rt_prio_smp_g_def Let_def st_simps overload_frame rt_core_def upd_g_def fun_eq_iff)
  have 3: "tasks (h_st h3) = tasks (h_st h)" "rt_core (h_st h3) d = rt_core (h_st h) d" "h_tg h3 = h_tg h" "h_rq h3 = h_rq h2" for d
    using 2 by (auto simp: h3_def dec_rt_migration_g_def migration_frame st_simps split: ent.splits)
  have bb: "rt_se_boosted c h3 e = rt_se_boosted c h e"
    using 3 2(4) assms(2) by (auto simp: rt_se_boosted_def split: ent.splits)
  define h4 where "h4 = upd_g c g (\<lambda>x. x\<lparr>g_nr_boosted := b\<rparr>) h3"
  have b3: "g_nr_boosted (h_rq h3 c g) = g_nr_boosted (h_rq h c g)" "g_nr_running (h_rq h3 c g) = n" using 3(4) 2(4) by (simp_all add: r_def)
  have "upd_g c g (\<lambda>x. x\<lparr>g_nr_boosted := g_nr_boosted x - 1\<rparr>) h3 = h4" if "rt_se_boosted c h e"
    using that b b3 by (simp add: h4_def upd_g_def)
  moreover have "h3 = h4" if "\<not> rt_se_boosted c h e" using that b b3(1) [symmetric] by (simp add: h4_def upd_g_def)
  ultimately have e4: "(if rt_se_boosted c h3 e then upd_g c g (\<lambda>x. x\<lparr>g_nr_boosted := g_nr_boosted x - 1\<rparr>) h3 else h3) = h4"
    using bb by (cases "rt_se_boosted c h e") simp_all
  have "g_nr_running (h_rq h4 c g) = n" "g_nr_boosted (h_rq h4 c g) = b" using b3 by (simp_all add: h4_def st_simps)
  then have "dec_rt_group_g c e g h3 = Some h4"
    unfolding dec_rt_group_g_def e4 Let_def using ok(2) by auto
  then show ?thesis
    using that [of h4] run 3 2(4) by (simp add: h4_def st_simps same_rest_def upd_g_def r_def v_def)
qed

lemma set_flags_sel [st_simps]:
  "h_tg (set_on_rq c e b h) = h_tg h" "h_tg (set_on_list c e b h) = h_tg h"
  "h_rq (set_on_rq c e b h) d x = (if d = c \<and> e = Group x then (h_rq h d x)\<lparr>g_on_rq := b\<rparr> else h_rq h d x)"
  "h_rq (set_on_list c e b h) d x = (if d = c \<and> e = Group x then (h_rq h d x)\<lparr>g_on_list := b\<rparr> else h_rq h d x)"
  "tasks (h_st (set_on_rq c e b h)) p = (if e = Task p then (tsk h p)\<lparr>p_rt_on_rq := b\<rparr> else tsk h p)"
  "tasks (h_st (set_on_list c e b h)) p = (if e = Task p then (tsk h p)\<lparr>p_rt_on_list := b\<rparr> else tsk h p)"
  "rt_core (h_st (set_on_rq c e b h)) d = rt_core (h_st h) d" "rt_core (h_st (set_on_list c e b h)) d = rt_core (h_st h) d"
  by (auto simp: set_on_rq_def set_on_list_def st_simps rt_core_def split: ent.splits)

lemma enqueue_raw_eq:
  assumes flags: "move_entity flags" and e: "se_here c h e" "\<not> se_on_list c h e" "\<not> group_off c h e"
    and prio: "rt_se_prio_g c h e = int i" "i < 100" and len: "length (g_queue (h_rq h c g)) = 100" and g: "g = se_group h e"
  obtains h' where "enqueue_rt_entity_raw_g c flags e h = Some h'" "entity_moved c e True h h'" "same_rest h h'"
    "g_queue (h_rq h' c g) = (if has_flag flags ENQUEUE_HEAD then qs_add else qs_add_tail) i e (g_queue (h_rq h c g))"
    "g_bitmap (h_rq h' c g) = (g_bitmap (h_rq h c g))[i := True]"
    "g_nr_running (h_rq h' c g) = g_nr_running (h_rq h c g) + rt_se_nr_running_g c h e"
    "g_rr_nr_running (h_rq h' c g) = g_rr_nr_running (h_rq h c g) + rt_se_rr_nr_running_g c h e"
    "g_highest (h_rq h' c g) = min (int i) (g_highest (h_rq h c g))"
    "g_nr_boosted (h_rq h' c g) = g_nr_boosted (h_rq h c g) + (if rt_se_boosted c h e then 1 else 0)"
proof -
  have eg: "e \<noteq> Group g" using not_own_group [OF e(1)] g by simp
  define q where "q = (if has_flag flags ENQUEUE_HEAD then qs_add else qs_add_tail) i e (g_queue (h_rq h c g))"
  define h1 where "h1 = set_on_rq c e True (set_on_list c e True (upd_g c g (\<lambda>r. r\<lparr>g_queue := q, g_bitmap := (g_bitmap r)[i := True]\<rparr>) h))"
  have "in_bounds (int i) (g_queue (h_rq h c g))" using len prio(2) by (simp add: in_bounds_def)
  then have run: "enqueue_rt_entity_raw_g c flags e h = inc_rt_tasks_g c e g h1"
    using flags e(2,3) prio(1) g by (simp add: enqueue_rt_entity_raw_g_def link_g_def Let_def h1_def q_def upd_g_def)
  have rq1: "h_rq h1 c g = (h_rq h c g)\<lparr>g_queue := q, g_bitmap := (g_bitmap (h_rq h c g))[i := True]\<rparr>"
    using eg by (simp add: h1_def st_simps)
  have sel: "rt_se_prio_g c h1 e = int i" "rt_se_nr_running_g c h1 e = rt_se_nr_running_g c h e"
    "rt_se_rr_nr_running_g c h1 e = rt_se_rr_nr_running_g c h e" "rt_se_boosted c h1 e = rt_se_boosted c h e"
    using eg prio(1) by (auto simp: h1_def st_simps rt_se_prio_g_def rt_se_nr_running_g_def rt_se_rr_nr_running_g_def rt_se_boosted_def
        split: ent.splits)
  have "rt_prio (rt_se_prio_g c h1 e)" using sel(1) prio(2) by (simp add: rt_prio_def MAX_RT_PRIO_def)
  then obtain h' where h': "inc_rt_tasks_g c e g h1 = Some h'" "tasks (h_st h') = tasks (h_st h1)" "same_rest h1 h'"
    "h_rq h' = (h_rq h1)(c := (h_rq h1 c)(g := (h_rq h1 c g)\<lparr>
       g_nr_running := g_nr_running (h_rq h1 c g) + rt_se_nr_running_g c h1 e,
       g_rr_nr_running := g_rr_nr_running (h_rq h1 c g) + rt_se_rr_nr_running_g c h1 e,
       g_highest := min (rt_se_prio_g c h1 e) (g_highest (h_rq h1 c g)),
       g_nr_boosted := g_nr_boosted (h_rq h1 c g) + (if rt_se_boosted c h1 e then 1 else 0)\<rparr>))"
    by (rule inc_rt_tasks_g_eq [OF _ eg])
  have "same_rest h h1" by (simp add: same_rest_def h1_def st_simps)
  then have rest: "same_rest h h'" using same_rest_trans h'(3) by blast
  have mv: "entity_moved c e True h h'"
    unfolding entity_moved_def h'(2,4) using rest eg
    by (auto simp: same_rest_def h1_def st_simps g on_rt_rq_def se_on_list_def h'(2,4) split: ent.splits)
  show ?thesis
    by (rule that [OF _ mv rest]) (use run h'(1,4) rq1 sel in \<open>simp_all add: q_def\<close>)
qed

lemma dequeue_raw_eq:
  assumes flags: "move_entity flags" and wf: "hier_wf F c h" and e: "se_here c h e" "on_rt_rq c h e"
    and prio: "rt_se_prio_g c h e = int i" "i < 100" and g: "g = se_group h e"
    and n: "n = g_nr_running (h_rq h c g) - rt_se_nr_running_g c h e" "g_nr_running (h_rq h c g) \<noteq> 0"
    and b: "b = g_nr_boosted (h_rq h c g) - (if rt_se_boosted c h e then 1 else 0)"
    and ok: "n \<noteq> 0 \<Longrightarrow> g_highest (h_rq h c g) \<le> int i" "n = 0 \<Longrightarrow> b = 0"
    and bm: "bm = (if qs_del e (g_queue (h_rq h c g)) ! i = [] then (g_bitmap (h_rq h c g))[i := False] else g_bitmap (h_rq h c g))"
  obtains h' where "dequeue_rt_entity_raw_g c flags e h = Some h'" "entity_moved c e False h h'" "same_rest h h'"
    "g_queue (h_rq h' c g) = qs_del e (g_queue (h_rq h c g))" "g_bitmap (h_rq h' c g) = bm"
    "g_nr_running (h_rq h' c g) = n"
    "g_rr_nr_running (h_rq h' c g) = g_rr_nr_running (h_rq h c g) - rt_se_rr_nr_running_g c h e"
    "g_highest (h_rq h' c g) = (if n = 0 then MAX_RT_PRIO
         else if int i = g_highest (h_rq h c g) then int (sched_find_first_bit bm) else g_highest (h_rq h c g))"
    "g_nr_boosted (h_rq h' c g) = b"
proof -
  have eg: "e \<noteq> Group g" using not_own_group [OF e(1)] g by simp
  have len: "length (g_queue (h_rq h c g)) = 100" by (rule rt_array_okD(1) [OF hier_wfD(1) [OF wf]])
  have on_list: "se_on_list c h e" using hier_wfD(4) [OF wf] e by (simp add: ents_ok_def)
  have un: "unlink_g c e h = upd_g c g (\<lambda>r. r\<lparr>g_queue := qs_del e (g_queue r)\<rparr>) h"
  proof -
    have "qs_del e (g_queue (h_rq h c x)) = g_queue (h_rq h c x)" if "x \<noteq> g" for x
      using that member_iff [OF wf] g by (intro qs_del_absent) auto
    then have "(\<lambda>x. (h_rq h c x)\<lparr>g_queue := qs_del e (g_queue (h_rq h c x))\<rparr>) =
      (h_rq h c)(g := (h_rq h c g)\<lparr>g_queue := qs_del e (g_queue (h_rq h c g))\<rparr>)" by (auto simp: fun_eq_iff)
    then show ?thesis by (simp add: unlink_g_def upd_g_def)
  qed
  define h1 where "h1 = set_on_rq c e False (set_on_list c e False (upd_g c g (\<lambda>r. r\<lparr>g_queue := qs_del e (g_queue r), g_bitmap := bm\<rparr>) h))"
  have pu: "rt_se_prio_g c (upd_g c g (\<lambda>r. r\<lparr>g_queue := qs_del e (g_queue r)\<rparr>) h) e = int i"
    using prio(1) eg by (auto simp: rt_se_prio_g_def st_simps split: ent.splits)
  have ib: "in_bounds (int i) (qs_del e (g_queue (h_rq h c g)))" using len prio(2) by (simp add: in_bounds_def)
  have "delist_rt_entity_g c e h = Some (set_on_list c e False (upd_g c g (\<lambda>r. r\<lparr>g_queue := qs_del e (g_queue r), g_bitmap := bm\<rparr>) h))"
    using pu ib g by (auto simp: delist_rt_entity_g_def un Let_def upd_g_def bm)
  then have run: "dequeue_rt_entity_raw_g c flags e h = dec_rt_tasks_g c e g h1"
    using flags on_list g by (simp add: dequeue_rt_entity_raw_g_def Let_def h1_def)
  have rq1: "h_rq h1 c g = (h_rq h c g)\<lparr>g_queue := qs_del e (g_queue (h_rq h c g)), g_bitmap := bm\<rparr>"
    using eg by (simp add: h1_def st_simps)
  have sel: "rt_se_prio_g c h1 e = int i" "rt_se_nr_running_g c h1 e = rt_se_nr_running_g c h e"
    "rt_se_rr_nr_running_g c h1 e = rt_se_rr_nr_running_g c h e" "rt_se_boosted c h1 e = rt_se_boosted c h e"
    using eg prio(1) by (auto simp: h1_def st_simps rt_se_prio_g_def rt_se_nr_running_g_def rt_se_rr_nr_running_g_def rt_se_boosted_def
        split: ent.splits)
  have rp: "rt_prio (rt_se_prio_g c h1 e)" using sel(1) prio(2) by (simp add: rt_prio_def MAX_RT_PRIO_def)
  obtain h' where h': "dec_rt_tasks_g c e g h1 = Some h'" "tasks (h_st h') = tasks (h_st h1)" "same_rest h1 h'"
    "h_rq h' = (h_rq h1)(c := (h_rq h1 c)(g := (h_rq h1 c g)\<lparr>
       g_nr_running := n,
       g_rr_nr_running := g_rr_nr_running (h_rq h1 c g) - rt_se_rr_nr_running_g c h1 e,
       g_highest := (if n = 0 then MAX_RT_PRIO
         else if rt_se_prio_g c h1 e = g_highest (h_rq h1 c g) then int (sched_find_first_bit (g_bitmap (h_rq h1 c g)))
         else g_highest (h_rq h1 c g)),
       g_nr_boosted := b\<rparr>))"
    by (rule dec_rt_tasks_g_eq [OF rp eg, of n b]) (use n b ok rq1 sel in simp_all)
  have "same_rest h h1" by (simp add: same_rest_def h1_def st_simps)
  then have rest: "same_rest h h'" using same_rest_trans h'(3) by blast
  have mv: "entity_moved c e False h h'"
    unfolding entity_moved_def h'(2,4) using rest eg
    by (auto simp: same_rest_def h1_def st_simps g on_rt_rq_def se_on_list_def h'(2,4) split: ent.splits)
  show ?thesis
    by (rule that [OF _ mv rest]) (use run h'(1,4) rq1 sel in simp_all)
qed

section \<open>One step of an operation keeps the invariant\<close>

lemma ent_tasks_disjoint:
  assumes "se_here c h e" "se_here c h y" "se_group h e = se_group h y" "e \<noteq> y"
  shows "ent_tasks c h e \<inter> ent_tasks c h y = {}"
proof -
  have up: "suffix a (h_tg h p)" if "p \<in> ent_tasks c h (Group a)" for a p using that by (simp add: ent_tasks_def under_def)
  have dd: "p \<notin> ent_tasks c h (Group a) \<or> p \<notin> ent_tasks c h (Group b)" if ab: "a \<noteq> []" "b \<noteq> []" "tl a = tl b" "a \<noteq> b" for a b p
  proof (rule ccontr)
    assume "\<not> ?thesis"
    then have "suffix a (h_tg h p)" "suffix b (h_tg h p)" using up by blast+
    moreover have "length a = length b" using ab(1-3) by (metis length_greater_0_conv length_tl One_nat_def Suc_pred)
    ultimately have "a = b" by (auto simp: suffix_def)
    then show False using ab(4) by simp
  qed
  have tg: "p \<notin> ent_tasks c h (Group a)" if "a \<noteq> []" "h_tg h p = tl a" for a p
    using up [of p a] suffix_length_le [of a "tl a"] that by (auto simp: neq_Nil_conv)
  show ?thesis
  proof (cases e)
    case (Task p)
    then show ?thesis using assms tg [of _ p] by (cases y) (auto simp: se_here_def se_group_def ent_tasks_def)
  next
    case (Group a)
    show ?thesis
    proof (cases y)
      case y: (Task p)
      then show ?thesis using assms tg [of a p] Group by (auto simp: se_here_def se_group_def ent_tasks_def)
    next
      case y: (Group b)
      then show ?thesis using assms dd [of a b] Group by (auto simp: se_here_def se_group_def)
    qed
  qed
qed

lemma ent_counts:
  assumes "hier_wf F c h"
  shows "unat (rt_se_nr_running_g c h e) = card (ent_tasks c h e)"
    "unat (rt_se_rr_nr_running_g c h e) = card (ent_tasks c h e \<inter> rr_tasks h)"
  using hier_wfD(3) [OF assms]
  by (cases e; simp add: rt_se_nr_running_g_def rt_se_rr_nr_running_g_def ent_tasks_def group_counts_ok_def Let_def rr_tasks_def)+

lemma member_set_finite [simp]: "finite {y. qs_mem y qs \<and> P y}"
  by (rule finite_subset [of _ "set (concat qs)"]) (auto simp: qs_mem_def)

lemma unat_add_cards:
  assumes "unat (a :: u32) = card A" "unat b = card B" "finite A" "finite B" "A \<inter> B = {}" "card (A \<union> B) < 2 ^ 32"
  shows "unat (a + b) = card (A \<union> B)"
  using assms by (simp add: card_Un_disjoint unat_word_ariths)

lemma unat_diff_cards:
  assumes "unat (a :: u32) = card A" "unat b = card B" "finite A" "B \<subseteq> A"
  shows "unat (a - b) = card (A - B)"
  using assms card_mono [of A B] finite_subset [of B A] by (simp add: card_Diff_subset unat_sub_if')

lemma enqueue_raw_wf:
  assumes wf: "hier_wf F c h" and ok: "movable c h e" and flags: "move_entity flags"
    and off: "\<not> on_rt_rq c h e" "\<not> group_off c h e"
    and task: "\<And>p. e = Task p \<Longrightarrow> 0 \<le> p_prio (tsk h p) \<and> p_prio (tsk h p) < 100 \<and> card (insert p (queued_tasks c h)) \<le> MAX_TASKS"
    and g: "g = se_group h e" "g = [] \<or> g \<in> F"
  obtains h' where "enqueue_rt_entity_raw_g c flags e h = Some h'" "entity_moved c e True h h'" "same_rest h h'"
    "hier_wf (F - {x. e = Group x}) c h'"
    "g_queue (h_rq h' c g) = (if has_flag flags ENQUEUE_HEAD then qs_add else qs_add_tail) (nat (rt_se_prio_g c h e)) e (g_queue (h_rq h c g))"
proof -
  have here: "se_here c h e" using ok by (simp add: movable_def)
  have onl: "\<not> se_on_list c h e" using hier_wfD(4) [OF wf] here off(1) by (simp add: ents_ok_def)
  have arr: "rt_array_ok (g_queue (h_rq h c x)) (g_bitmap (h_rq h c x))" for x by (rule hier_wfD(1) [OF wf])
  have gr: "g_nr_running (h_rq h c x) \<noteq> 0 \<and> \<not> rt_rq_throttled_g (h_rq h c x)" if "e = Group x" for x using off(2) that by (simp add: group_off_def)
  have "0 \<le> rt_se_prio_g c h e \<and> rt_se_prio_g c h e < 100"
  proof (cases e)
    case (Group x)
    have "under c h x \<noteq> {}" using hier_wfD(3) [OF wf, of x] gr [OF Group] by (auto simp: group_counts_ok_def Let_def unat_eq_0)
    then have "concat (g_queue (h_rq h c x)) \<noteq> []" using under_empty_iff [OF wf] by (force simp: qs_mem_def)
    then have "first_q (g_queue (h_rq h c x)) < 100"
      using first_q_none [of "g_queue (h_rq h c x)"] first_q_le [of "g_queue (h_rq h c x)"] rt_array_okD(1) [OF arr, of x] by linarith
    then show ?thesis using hier_wfD(3) [OF wf, of x] Group by (simp add: rt_se_prio_g_def group_counts_ok_def Let_def)
  qed (use task in \<open>simp add: rt_se_prio_g_def\<close>)
  then obtain i where i: "rt_se_prio_g c h e = int i" "i < 100" by (metis nat_0_le nat_less_iff of_nat_numeral)
  obtain h' where h': "enqueue_rt_entity_raw_g c flags e h = Some h'" "entity_moved c e True h h'" "same_rest h h'"
    "g_queue (h_rq h' c g) = (if has_flag flags ENQUEUE_HEAD then qs_add else qs_add_tail) i e (g_queue (h_rq h c g))"
    "g_bitmap (h_rq h' c g) = (g_bitmap (h_rq h c g))[i := True]"
    "g_nr_running (h_rq h' c g) = g_nr_running (h_rq h c g) + rt_se_nr_running_g c h e"
    "g_rr_nr_running (h_rq h' c g) = g_rr_nr_running (h_rq h c g) + rt_se_rr_nr_running_g c h e"
    "g_highest (h_rq h' c g) = min (int i) (g_highest (h_rq h c g))"
    "g_nr_boosted (h_rq h' c g) = g_nr_boosted (h_rq h c g) + (if rt_se_boosted c h e then 1 else 0)"
    by (rule enqueue_raw_eq [OF flags here onl off(2) i rt_array_okD(1) [OF arr] g(1)])
  note m = entity_movedD [OF h'(2)]
  have nm: "\<not> gmem c h g e" using member_iff [OF wf] off(1) by blast
  have q: "g_queue (h_rq h' c g) = qs_add i e (g_queue (h_rq h c g)) \<or> g_queue (h_rq h' c g) = qs_add_tail i e (g_queue (h_rq h c g))"
    using h'(4) by simp
  note ins = rt_array_insert [OF arr i(2) nm q]
  have und: "under c h' g = under c h g \<union> ent_tasks c h e" using under_moved [OF h'(2) here] ok g(1) by (simp add: movable_def)
  have dis: "under c h g \<inter> ent_tasks c h e = {}"
    using member_iff [OF wf] ent_tasks_disjoint [OF _ here] off(1) g(1) unfolding under_members [OF wf, of g] by blast
  have qd: "queued_tasks c h' = queued_tasks c h \<union> {p. e = Task p}"
    using m(2,15) here by (auto simp: queued_tasks_def se_here_def)
  have size: "finite (queued_tasks c h')" "card (queued_tasks c h') \<le> MAX_TASKS"
    using hier_wfD(6,7) [OF wf] task qd by (cases e; simp)+
  have fin: "finite (under c h g)" "finite (ent_tasks c h e)" using under_finite [OF wf] by (simp_all add: ent_tasks_def split: ent.splits)
  have "card (under c h g \<union> ent_tasks c h e) \<le> MAX_TASKS"
    using card_mono [OF size(1) under_sub [of c h' g]] size(2) und by simp
  then have small: "card (under c h g \<union> ent_tasks c h e) < 2 ^ 32" unfolding MAX_TASKS_def by (rule le_less_trans) simp
  have cnt: "g_highest (h_rq h c g) = int (first_q (g_queue (h_rq h c g)))" "unat (g_nr_running (h_rq h c g)) = card (under c h g)"
    "unat (g_rr_nr_running (h_rq h c g)) = card (under c h g \<inter> rr_tasks h)"
    "g_nr_boosted (h_rq h c g) = of_nat (card {y. gmem c h g y \<and> rt_se_boosted c h y})"
    using hier_wfD(3) [OF wf, of g] by (simp_all add: group_counts_ok_def Let_def)
  have "hier_wf (F - {x. e = Group x}) c h'"
  proof (rule hier_wf_moved [OF wf h'(2) ok _ g(1)])
    show "rt_array_ok (g_queue (h_rq h' c g)) (g_bitmap (h_rq h' c g))" using ins(1) h'(5) by simp
    show "y \<in> set (g_queue (h_rq h' c g) ! k) \<longleftrightarrow>
      (y = e \<and> True \<and> rt_se_prio_g c h e = int k) \<or> (y \<noteq> e \<and> y \<in> set (g_queue (h_rq h c g) ! k))" if "k < 100" for k y
      using ins(5) [OF that, of y] nm i(1) that rt_array_okD(1) [OF arr, of g] by (auto simp: qs_mem_nth)
    show "g_highest (h_rq h' c g) = int (first_q (g_queue (h_rq h' c g)))" using h'(8) ins(2) cnt(1) by simp
    show "unat (g_nr_running (h_rq h' c g)) = card (under c h' g)"
      unfolding h'(6) und by (rule unat_add_cards [OF cnt(2) ent_counts(1) [OF wf] fin dis small])
    have "card ((under c h g \<inter> rr_tasks h) \<union> (ent_tasks c h e \<inter> rr_tasks h)) < 2 ^ 32"
      by (rule le_less_trans [OF card_mono small]) (use fin in auto)
    then show "unat (g_rr_nr_running (h_rq h' c g)) = card (under c h' g \<inter> rr_tasks h)"
      unfolding h'(7) und Int_Un_distrib2 by (intro unat_add_cards [OF cnt(3) ent_counts(2) [OF wf]]) (use fin dis in auto)
    have "{y. gmem c h' g y \<and> rt_se_boosted c h y} =
      {y. gmem c h g y \<and> rt_se_boosted c h y} \<union> (if rt_se_boosted c h e then {e} else {})"
      using ins(4) by auto
    then show "g_nr_boosted (h_rq h' c g) = of_nat (card {y. gmem c h' g y \<and> rt_se_boosted c h y})"
      using h'(9) cnt(4) nm by (simp add: card_insert_disjoint)
  qed (use i size gr g in \<open>auto simp: not_own_group [OF here]\<close>)
  then show ?thesis using that [OF h'(1-3)] h'(4) i by simp
qed

lemma dequeue_raw_wf:
  assumes wf: "hier_wf F c h" and ok: "movable c h e" and flags: "move_entity flags" and on: "on_rt_rq c h e"
    and g: "g = se_group h e" "g = [] \<or> g \<in> F"
  obtains h' where "dequeue_rt_entity_raw_g c flags e h = Some h'" "entity_moved c e False h h'" "same_rest h h'"
    "hier_wf (F \<union> {x. e = Group x}) c h'" "g_queue (h_rq h' c g) = qs_del e (g_queue (h_rq h c g))"
proof -
  define q where "q = g_queue (h_rq h c g)"
  have here: "se_here c h e" using ok by (simp add: movable_def)
  have arr: "rt_array_ok q (g_bitmap (h_rq h c g))" unfolding q_def by (rule hier_wfD(1) [OF wf])
  have gm: "gmem c h g e" using member_iff [OF wf] here on g(1) by blast
  obtain i where i: "rt_se_prio_g c h e = int i" "i < 100" "e \<in> set (q ! i)" unfolding q_def by (rule member_at [OF wf gm]) blast
  define bm where "bm = (if qs_del e q ! i = [] then (g_bitmap (h_rq h c g))[i := False] else g_bitmap (h_rq h c g))"
  note del = rt_array_delete [OF arr i(2,3)]
  have cnt: "g_highest (h_rq h c g) = int (first_q q)" "unat (g_nr_running (h_rq h c g)) = card (under c h g)"
    "unat (g_rr_nr_running (h_rq h c g)) = card (under c h g \<inter> rr_tasks h)"
    "g_nr_boosted (h_rq h c g) = of_nat (card {y. gmem c h g y \<and> rt_se_boosted c h y})"
    using hier_wfD(3) [OF wf, of g] by (simp_all add: group_counts_ok_def Let_def q_def)
  have sub: "ent_tasks c h e \<subseteq> under c h g" "ent_tasks c h e \<noteq> {}"
    using under_members [OF wf, of g] gm ent_tasks_nonempty [OF wf here on] by blast+
  have fin: "finite (under c h g)" by (rule under_finite [OF wf])
  define n where "n = g_nr_running (h_rq h c g) - rt_se_nr_running_g c h e"
  define b where "b = g_nr_boosted (h_rq h c g) - (if rt_se_boosted c h e then 1 else 0)"
  have n: "unat n = card (under c h g - ent_tasks c h e)"
    unfolding n_def by (rule unat_diff_cards [OF cnt(2) ent_counts(1) [OF wf] fin sub(1)])
  have nz: "g_nr_running (h_rq h c g) \<noteq> 0" using cnt(2) sub fin by (auto simp: unat_eq_0)
  have mem': "qs_mem y (qs_del e q) \<longleftrightarrow> y \<noteq> e \<and> gmem c h g y" for y by (simp add: qs_mem_del q_def)
  have last: "\<not> qs_mem y (qs_del e q)" if "n = 0" for y
  proof
    assume y: "qs_mem y (qs_del e q)"
    then have ym: "se_here c h y" "se_group h y = g" "on_rt_rq c h y" "y \<noteq> e" "gmem c h g y" using mem' member_iff [OF wf] by blast+
    have "ent_tasks c h y \<inter> ent_tasks c h e = {}" by (rule ent_tasks_disjoint [OF ym(1) here _ ym(4)]) (use ym(2) g(1) in simp)
    then have "ent_tasks c h y \<subseteq> under c h g - ent_tasks c h e" using under_members [OF wf, of g] ym(5) by blast
    then have "under c h g - ent_tasks c h e \<noteq> {}" using ent_tasks_nonempty [OF wf ym(1,3)] by blast
    then show False using n that fin by simp
  qed
  have bset: "{y. qs_mem y (qs_del e q) \<and> rt_se_boosted c h y} = {y. gmem c h g y \<and> rt_se_boosted c h y} - {e}"
    using mem' by auto
  have b: "b = of_nat (card {y. qs_mem y (qs_del e q) \<and> rt_se_boosted c h y})"
  proof (cases "rt_se_boosted c h e")
    case True
    then have "e \<in> {y. gmem c h g y \<and> rt_se_boosted c h y}" using gm by blast
    then have "card {y. gmem c h g y \<and> rt_se_boosted c h y} = Suc (card {y. qs_mem y (qs_del e q) \<and> rt_se_boosted c h y})"
      unfolding bset by (intro card.remove) simp_all
    then show ?thesis using True cnt(4) by (simp add: b_def)
  next
    case False
    then have "{y. gmem c h g y \<and> rt_se_boosted c h y} - {e} = {y. gmem c h g y \<and> rt_se_boosted c h y}" by blast
    then show ?thesis using False cnt(4) by (simp add: b_def bset)
  qed
  have b0: "b = 0" if "n = 0" using b last [OF that] by simp
  have low: "first_q q \<le> i"
  proof (rule ccontr)
    assume "\<not> first_q q \<le> i"
    then have "q ! i = []" using first_q_before [of i q] by simp
    then show False using i(3) by simp
  qed
  obtain h' where h': "dequeue_rt_entity_raw_g c flags e h = Some h'" "entity_moved c e False h h'" "same_rest h h'"
    "g_queue (h_rq h' c g) = qs_del e (g_queue (h_rq h c g))" "g_bitmap (h_rq h' c g) = bm"
    "g_nr_running (h_rq h' c g) = n"
    "g_rr_nr_running (h_rq h' c g) = g_rr_nr_running (h_rq h c g) - rt_se_rr_nr_running_g c h e"
    "g_highest (h_rq h' c g) = (if n = 0 then MAX_RT_PRIO
         else if int i = g_highest (h_rq h c g) then int (sched_find_first_bit bm) else g_highest (h_rq h c g))"
    "g_nr_boosted (h_rq h' c g) = b"
    by (rule dequeue_raw_eq [OF flags wf here on i(1,2) g(1) n_def nz b_def _ b0]) (use low cnt(1) in \<open>auto simp: bm_def q_def\<close>)
  have und: "under c h' g = under c h g - ent_tasks c h e" using under_moved [OF h'(2) here] ok g(1) by (simp add: movable_def)
  have "hier_wf (F \<union> {x. e = Group x}) c h'"
  proof (rule hier_wf_moved [OF wf h'(2) ok _ g(1)])
    show arr': "rt_array_ok (g_queue (h_rq h' c g)) (g_bitmap (h_rq h' c g))" using del(1) h'(4,5) by (simp add: bm_def q_def)
    show "y \<in> set (g_queue (h_rq h' c g) ! k) \<longleftrightarrow>
      (y = e \<and> False \<and> rt_se_prio_g c h e = int k) \<or> (y \<noteq> e \<and> y \<in> set (g_queue (h_rq h c g) ! k))" if "k < 100" for k y
      using that h'(4) rt_array_okD(1) [OF arr] by (auto simp: nth_qs_del q_def)
    have e100: "first_q (qs_del e q) = 100" if "n = 0"
    proof -
      have "hd (concat (qs_del e q)) \<notin> set (concat (qs_del e q))" using last [OF that] unfolding qs_mem_def .
      then have "concat (qs_del e q) = []" using list.set_sel(1) by blast
      then show ?thesis using first_q_none [of "qs_del e q"] rt_array_okD(1) [OF arr] by simp
    qed
    have "int (sched_find_first_bit bm) = int (first_q (qs_del e q))" using rt_array_first [OF arr'] h'(4,5) by (simp add: q_def)
    then show "g_highest (h_rq h' c g) = int (first_q (g_queue (h_rq h' c g)))"
      using h'(4,8) cnt(1) e100 del(2) by (auto simp: q_def MAX_RT_PRIO_def)
    show "unat (g_nr_running (h_rq h' c g)) = card (under c h' g)" using h'(6) n und by simp
    show "unat (g_rr_nr_running (h_rq h' c g)) = card (under c h' g \<inter> rr_tasks h)"
      unfolding h'(7) und Diff_Int_distrib2 by (rule unat_diff_cards [OF cnt(3) ent_counts(2) [OF wf]]) (use fin sub in auto)
    show "g_nr_boosted (h_rq h' c g) = of_nat (card {y. gmem c h' g y \<and> rt_se_boosted c h y})" using h'(4,9) b by (simp add: q_def)
    have "queued_tasks c h' \<subseteq> queued_tasks c h" using entity_movedD(2,15) [OF h'(2)] by (auto simp: queued_tasks_def split: if_splits)
    then show "finite (queued_tasks c h')" "card (queued_tasks c h') \<le> MAX_TASKS"
      using hier_wfD(6,7) [OF wf] finite_subset card_mono [of "queued_tasks c h" "queued_tasks c h'"] by (auto intro: le_trans)
  qed (use g in auto)
  then show ?thesis using that [OF h'(1-3)] h'(4) by simp
qed

section \<open>Down the stack and up again\<close>

text \<open>What no operation on the queues changes of groups and tasks.\<close>

definition hier_static :: "cpu \<Rightarrow> hier \<Rightarrow> hier \<Rightarrow> bool" where
  "hier_static c h h' \<longleftrightarrow> h_tg h' = h_tg h \<and>
     (\<forall>p. p_cpu (tsk h' p) = p_cpu (tsk h p) \<and> p_prio (tsk h' p) = p_prio (tsk h p) \<and>
        p_normal_prio (tsk h' p) = p_normal_prio (tsk h p) \<and> p_policy (tsk h' p) = p_policy (tsk h p)) \<and>
     (\<forall>x. g_throttled (h_rq h' c x) = g_throttled (h_rq h c x)) \<and>
     (\<forall>d. d \<noteq> c \<longrightarrow> (\<forall>x. h_rq h' d x = h_rq h d x) \<and> rt_core (h_st h') d = rt_core (h_st h) d) \<and>
     (\<forall>p. p_cpu (tsk h p) \<noteq> c \<longrightarrow> p_rt_on_rq (tsk h' p) = p_rt_on_rq (tsk h p) \<and> p_rt_on_list (tsk h' p) = p_rt_on_list (tsk h p))"

lemma hier_static_refl [simp]: "hier_static c h h"
  by (simp add: hier_static_def)

lemma hier_static_trans: "hier_static c h h' \<Longrightarrow> hier_static c h' h'' \<Longrightarrow> hier_static c h h''"
  by (simp add: hier_static_def)

lemma moved_hier_static:
  assumes "entity_moved c e b h h'" "same_rest h h'" "se_here c h e" shows "hier_static c h h'"
  using assms(2,3) entity_movedD [OF assms(1)] by (auto simp: hier_static_def same_rest_def se_here_def)

lemma hier_static_sel:
  assumes "hier_static c h h'"
  shows "h_tg h' = h_tg h" "se_group h' y = se_group h y" "se_here c h' y = se_here c h y" "sched_rt_entities h' y = sched_rt_entities h y"
    "p_prio (tsk h' p) = p_prio (tsk h p)" "p_cpu (tsk h' p) = p_cpu (tsk h p)"
  using assms by (auto simp: hier_static_def se_group_def se_here_def sched_rt_entities_def split: ent.splits)

text \<open>A list of entities, each in the queue of the group before it.\<close>

fun down_path :: "hier \<Rightarrow> gid \<Rightarrow> ent list \<Rightarrow> bool" where
  "down_path h g [] \<longleftrightarrow> True"
| "down_path h g (e # es) \<longleftrightarrow> se_group h e = g \<and> (case e of Task p \<Rightarrow> es = [] | Group x \<Rightarrow> x \<noteq> [] \<and> down_path h x es)"

lemma down_path_static: "h_tg h' = h_tg h \<Longrightarrow> down_path h' g es = down_path h g es"
  by (induction es arbitrary: g) (auto simp: se_group_def split: ent.splits)

lemma down_path_groups: "down_path h [] (rev (group_entities g) @ es) = down_path h g es"
  by (induction g arbitrary: es) (simp_all add: se_group_def)

lemma down_path_entities: "down_path h [] (rev (sched_rt_entities h e))"
  using down_path_groups [of h "h_tg h p" "[Task p]" for p] down_path_groups [of h g "[]" for g]
  by (auto simp: sched_rt_entities_def se_group_def split: ent.splits)

lemma group_entities_set: "Task p \<notin> set (group_entities g)" "Group x \<in> set (group_entities g) \<longleftrightarrow> x \<noteq> [] \<and> suffix x g"
  by (induction g) (auto simp: suffix_Cons)

lemma stack_loop_wf:
  assumes "down_path h g es" "hier_wf F c h" "\<forall>e \<in> set es. se_here c h e" "g = [] \<or> g \<in> F \<and> \<not> g_on_rq (h_rq h c g)" "move_entity flags"
  shows "\<exists>h'. stack_loop c flags es h = Some h' \<and> hier_wf (F \<union> {x. Group x \<in> set es}) c h' \<and> same_rest h h' \<and> hier_static c h h' \<and>
    (\<forall>y. on_rt_rq c h' y = (y \<notin> set es \<and> on_rt_rq c h y)) \<and>
    (\<forall>x. x \<notin> se_group h ` {e \<in> set es. on_rt_rq c h e} \<longrightarrow> g_queue (h_rq h' c x) = g_queue (h_rq h c x))"
  using assms
proof (induction es arbitrary: h g F)
  case (Cons e es)
  have g: "se_group h e = g" "se_here c h e" using Cons.prems(1,3) by simp_all
  then have mov: "movable c h e" using Cons.prems(4) by (auto simp: movable_def)
  obtain h1 where h1: "(if on_rt_rq c h e then dequeue_rt_entity_raw_g c flags e h else Some h) = Some h1"
    "hier_wf (F \<union> {x. e = Group x}) c h1" "same_rest h h1" "hier_static c h h1"
    "\<And>y. on_rt_rq c h1 y = (y \<noteq> e \<and> on_rt_rq c h y)" "\<And>x. x \<noteq> g \<or> \<not> on_rt_rq c h e \<Longrightarrow> g_queue (h_rq h1 c x) = g_queue (h_rq h c x)"
  proof (cases "on_rt_rq c h e")
    case True
    obtain h' where h': "dequeue_rt_entity_raw_g c flags e h = Some h'" "entity_moved c e False h h'" "same_rest h h'"
      "hier_wf (F \<union> {x. e = Group x}) c h'"
      by (rule dequeue_raw_wf [OF Cons.prems(2) mov Cons.prems(5) True g(1) [symmetric]]) (use Cons.prems(4) in auto)
    show ?thesis
      by (rule that [of h']) (use True h' moved_hier_static [OF h'(2,3) g(2)] entity_movedD(6,13) [OF h'(2)] g(1) in auto)
  next
    case False
    have "hier_wf (F \<union> {x. e = Group x}) c h" by (rule hier_wf_mono [OF Cons.prems(2)]) blast
    then show ?thesis using that [of h] False by auto
  qed
  show ?case
  proof (cases e)
    case (Task p)
    then have "es = []" using Cons.prems(1) by simp
    then have s: "set (e # es) = {e}" by simp
    show ?thesis
    proof (intro exI conjI)
      show "stack_loop c flags (e # es) h = Some h1" using h1(1) \<open>es = []\<close> by simp
      show "\<forall>x. x \<notin> se_group h ` {y \<in> set (e # es). on_rt_rq c h y} \<longrightarrow> g_queue (h_rq h1 c x) = g_queue (h_rq h c x)"
        unfolding s using h1(6) g(1) by auto
    qed (use h1 \<open>es = []\<close> Task in auto)
  next
    case (Group x)
    then have x: "x \<noteq> []" "down_path h1 x es" using Cons.prems(1) down_path_static [OF hier_static_sel(1) [OF h1(4)]] by simp_all
    have "\<not> g_on_rq (h_rq h1 c x)" using h1(5) [of e] Group by (simp add: on_rt_rq_def)
    then obtain h' where h': "stack_loop c flags es h1 = Some h'" "hier_wf ((F \<union> {z. e = Group z}) \<union> {z. Group z \<in> set es}) c h'"
      "same_rest h1 h'" "hier_static c h1 h'" "\<And>y. on_rt_rq c h' y = (y \<notin> set es \<and> on_rt_rq c h1 y)"
      "\<And>z. z \<notin> se_group h1 ` {e \<in> set es. on_rt_rq c h1 e} \<Longrightarrow> g_queue (h_rq h' c z) = g_queue (h_rq h1 c z)"
      using Cons.IH [OF x(2) h1(2)] Cons.prems(3,5) Group hier_static_sel(3) [OF h1(4)] by auto
    have F: "(F \<union> {z. e = Group z}) \<union> {z. Group z \<in> set es} = F \<union> {z. Group z \<in> set (e # es)}" by auto
    show ?thesis
    proof (intro exI conjI)
      show "stack_loop c flags (e # es) h = Some h'" using h1(1) h'(1) by simp
      show "hier_wf (F \<union> {z. Group z \<in> set (e # es)}) c h'" using h'(2) unfolding F .
      show "same_rest h h'" using h1(3) h'(3) by (rule same_rest_trans)
      show "hier_static c h h'" using h1(4) h'(4) by (rule hier_static_trans)
      show "\<forall>y. on_rt_rq c h' y = (y \<notin> set (e # es) \<and> on_rt_rq c h y)" using h1(5) h'(5) by auto
      show "\<forall>z. z \<notin> se_group h ` {y \<in> set (e # es). on_rt_rq c h y} \<longrightarrow> g_queue (h_rq h' c z) = g_queue (h_rq h c z)"
      proof (intro allI impI)
        fix z assume z: "z \<notin> se_group h ` {y \<in> set (e # es). on_rt_rq c h y}"
        then have "z \<notin> se_group h1 ` {e \<in> set es. on_rt_rq c h1 e}" using h1(5) hier_static_sel(2) [OF h1(4)] by auto
        moreover have "z \<noteq> g \<or> \<not> on_rt_rq c h e" using z g(1) by auto
        ultimately show "g_queue (h_rq h' c z) = g_queue (h_rq h c z)" using h'(6) [of z] h1(6) [of z] by simp
      qed
    qed
  qed
qed (intro exI, auto)

text \<open>Putting a group back, in the way of the enqueue and of the dequeue.\<close>

lemma group_step_wf:
  assumes wf: "hier_wf F c h" and off: "\<not> g_on_rq (h_rq h c (i # g))" and up: "g = [] \<or> g \<in> F \<and> \<not> g_on_rq (h_rq h c g)" and flags: "move_entity flags"
  obtains h' where "enqueue_rt_entity_raw_g c flags (Group (i # g)) h = Some h'" "hier_wf (F - {i # g}) c h'" "same_rest h h'"
    "hier_static c h h'" "\<And>y. y \<noteq> Group (i # g) \<Longrightarrow> on_rt_rq c h' y = on_rt_rq c h y"
    "\<And>x. x \<noteq> g \<Longrightarrow> g_queue (h_rq h' c x) = g_queue (h_rq h c x)" "g_nr_running (h_rq h c (i # g)) = 0 \<Longrightarrow> h' = h"
proof (cases "group_off c h (Group (i # g))")
  case True
  have l: "\<not> se_on_list c h (Group (i # g))"
    using hier_wfD(4) [OF wf] off by (auto simp: ents_ok_def on_rt_rq_def se_here_def)
  have "hier_wf (F - {i # g}) c h"
    using wf True off unfolding hier_wf_def groups_ok_def group_off_def by auto
  then show ?thesis using that [of h] True l by (simp add: enqueue_rt_entity_raw_g_def Let_def)
next
  case False
  have mov: "movable c h (Group (i # g))" using up by (auto simp: movable_def se_here_def se_group_def)
  obtain h' where h': "enqueue_rt_entity_raw_g c flags (Group (i # g)) h = Some h'" "entity_moved c (Group (i # g)) True h h'" "same_rest h h'"
    "hier_wf (F - {x. Group (i # g) = Group x}) c h'"
    by (rule enqueue_raw_wf [OF wf mov flags _ False _ refl]) (use off up in \<open>auto simp: on_rt_rq_def se_group_def\<close>)
  have "{x. Group (i # g) = Group x} = {i # g}" by auto
  with h'(4) have w: "hier_wf (F - {i # g}) c h'" by simp
  show ?thesis
    by (rule that [OF h'(1) w h'(3) moved_hier_static [OF h'(2,3)]])
      (use False entity_movedD(6,13) [OF h'(2)] in \<open>auto simp: se_group_def group_off_def se_here_def\<close>)
qed

text \<open>The way up: all groups above an entity, whether the operation adds or removes.\<close>

lemma climb_wf:
  assumes "hier_wf {x. Group x \<in> set (group_entities g)} c h" "\<forall>x. Group x \<in> set (group_entities g) \<longrightarrow> \<not> g_on_rq (h_rq h c x)" "move_entity flags"
  shows "\<exists>h'. enqueue_loop c flags (group_entities g) h = Some h' \<and> dequeue_loop c flags (group_entities g) h = Some h' \<and>
    hier_wf {} c h' \<and> same_rest h h' \<and> hier_static c h h' \<and> (\<forall>p. on_rt_rq c h' (Task p) = on_rt_rq c h (Task p)) \<and>
    (\<forall>x. x = g \<or> \<not> suffix x g \<longrightarrow> g_queue (h_rq h' c x) = g_queue (h_rq h c x))"
  using assms
proof (induction g arbitrary: h)
  case (Cons i g)
  have off: "\<not> g_on_rq (h_rq h c (i # g))" using Cons.prems(2) by simp
  have up: "g = [] \<or> g \<in> {x. Group x \<in> set (group_entities (i # g))} \<and> \<not> g_on_rq (h_rq h c g)"
    using Cons.prems(2) by (auto simp: group_entities_set)
  obtain h1 where h1: "enqueue_rt_entity_raw_g c flags (Group (i # g)) h = Some h1"
    "hier_wf ({x. Group x \<in> set (group_entities (i # g))} - {i # g}) c h1" "same_rest h h1" "hier_static c h h1"
    "\<And>y. y \<noteq> Group (i # g) \<Longrightarrow> on_rt_rq c h1 y = on_rt_rq c h y"
    "\<And>x. x \<noteq> g \<Longrightarrow> g_queue (h_rq h1 c x) = g_queue (h_rq h c x)" "g_nr_running (h_rq h c (i # g)) = 0 \<Longrightarrow> h1 = h"
    by (rule group_step_wf [OF Cons.prems(1) off up Cons.prems(3)]) blast
  have "{x. Group x \<in> set (group_entities (i # g))} - {i # g} = {x. Group x \<in> set (group_entities g)}"
    by (auto simp: group_entities_set suffix_Cons dest: suffix_length_le)
  with h1(2) have w: "hier_wf {x. Group x \<in> set (group_entities g)} c h1" by simp
  have "\<not> g_on_rq (h_rq h1 c x)" if "Group x \<in> set (group_entities g)" for x
  proof -
    have "x \<noteq> i # g" using that suffix_length_le [of x g] by (auto simp: group_entities_set)
    then show ?thesis using h1(5) [of "Group x"] Cons.prems(2) that by (simp add: on_rt_rq_def)
  qed
  then obtain h' where h': "enqueue_loop c flags (group_entities g) h1 = Some h'" "dequeue_loop c flags (group_entities g) h1 = Some h'"
    "hier_wf {} c h'" "same_rest h1 h'" "hier_static c h1 h'" "\<And>p. on_rt_rq c h' (Task p) = on_rt_rq c h1 (Task p)"
    "\<And>x. x = g \<or> \<not> suffix x g \<Longrightarrow> g_queue (h_rq h' c x) = g_queue (h_rq h1 c x)"
    using Cons.IH [OF w _ Cons.prems(3)] by blast
  have d: "dequeue_loop c flags (group_entities (i # g)) h = dequeue_loop c flags (group_entities g) h1" using h1(1,7) by simp
  have q: "g_queue (h_rq h' c x) = g_queue (h_rq h c x)" if "x = i # g \<or> \<not> suffix x (i # g)" for x
  proof -
    have "\<not> suffix x g" using that suffix_length_le [of x g] by (auto simp: suffix_Cons)
    then show ?thesis using h'(7) [of x] h1(6) [of x] by auto
  qed
  show ?case using h1 h' d q same_rest_trans [OF h1(3) h'(4)] hier_static_trans [OF h1(4) h'(5)] by (intro exI [of _ h']) simp
qed (intro exI, auto)

section \<open>The top of the hierarchy\<close>

text \<open>
  \<open>hier_ok\<close> is the invariant between operations: no group is out of place, the queue of the root is counted in \<open>nr_running\<close> unless it is
  empty or throttled. \<open>hier_rest\<close> is the share of the other classes in \<open>nr_running\<close>.
\<close>

definition hier_rest :: "cpu \<Rightarrow> hier \<Rightarrow> u32" where
  "hier_rest c h = rq_nr_running (rqs (h_st h) c) - (if rt_queued (rtq (h_st h) c) then g_nr_running (h_rq h c []) else 0)"

definition hier_ok :: "cpu \<Rightarrow> hier \<Rightarrow> bool" where
  "hier_ok c h \<longleftrightarrow> hier_wf {} c h \<and> unat (hier_rest c h) \<le> MAX_TASKS \<and>
     (rt_queued (rtq (h_st h) c) \<longleftrightarrow> g_nr_running (h_rq h c []) \<noteq> 0 \<and> \<not> rt_rq_throttled_g (h_rq h c []))"

lemma nr_small: "hier_wf F c h \<Longrightarrow> unat (g_nr_running (h_rq h c g)) \<le> MAX_TASKS"
  using hier_wfD(3) [of F c h g] card_mono [OF hier_wfD(6) under_sub, of F c h g] hier_wfD(7) [of F c h]
  by (simp add: group_counts_ok_def Let_def)

lemma dequeue_top_g:
  assumes wf: "hier_wf F c h" and rest: "unat (hier_rest c h) \<le> MAX_TASKS"
    and q: "rt_queued (rtq (h_st h) c) \<Longrightarrow> g_nr_running (h_rq h c []) \<noteq> 0"
  obtains h' where "dequeue_top_rt_rq_g c [] h = Some h'" "h_rq h' = h_rq h" "tasks (h_st h') = tasks (h_st h)" "h_tg h' = h_tg h"
    "\<not> rt_queued (rtq (h_st h') c)" "rq_nr_running (rqs (h_st h') c) = hier_rest c h" "\<forall>d. d \<noteq> c \<longrightarrow> rt_core (h_st h') d = rt_core (h_st h) d"
proof (cases "rt_queued (rtq (h_st h) c)")
  case True
  have e: "rq_nr_running (rqs (h_st h) c) = hier_rest c h + g_nr_running (h_rq h c [])" using True by (simp add: hier_rest_def)
  have "unat (hier_rest c h) + unat (g_nr_running (h_rq h c [])) < 2 ^ 32"
    using rest nr_small [OF wf, of "[]"] by (simp add: MAX_TASKS_def)
  then have "unat (rq_nr_running (rqs (h_st h) c)) = unat (hier_rest c h) + unat (g_nr_running (h_rq h c []))"
    unfolding e by (simp add: unat_word_ariths)
  then have "rq_nr_running (rqs (h_st h) c) \<noteq> 0" using q [OF True] by (auto simp: unat_eq_0)
  then show ?thesis using that True by (simp add: dequeue_top_rt_rq_g_def sub_nr_running_def hier_rest_def rt_core_def st_simps)
qed (use that in \<open>simp add: dequeue_top_rt_rq_g_def hier_rest_def\<close>)

lemma enqueue_top_g:
  assumes "\<not> rt_queued (rtq (h_st h) c)"
  shows "h_rq (enqueue_top_rt_rq_g c h) = h_rq h" "tasks (h_st (enqueue_top_rt_rq_g c h)) = tasks (h_st h)" "h_tg (enqueue_top_rt_rq_g c h) = h_tg h"
    "rt_queued (rtq (h_st (enqueue_top_rt_rq_g c h)) c) \<longleftrightarrow> g_nr_running (h_rq h c []) \<noteq> 0 \<and> \<not> rt_rq_throttled_g (h_rq h c [])"
    "hier_rest c (enqueue_top_rt_rq_g c h) = rq_nr_running (rqs (h_st h) c)"
    "d \<noteq> c \<Longrightarrow> rt_core (h_st (enqueue_top_rt_rq_g c h)) d = rt_core (h_st h) d"
  using assms by (auto simp: enqueue_top_rt_rq_g_def hier_rest_def add_nr_running_def rt_core_def Let_def st_simps)

section \<open>The operations\<close>

lemma hier_wf_cong:
  assumes "h_rq h' = h_rq h" "tasks (h_st h') = tasks (h_st h)" "h_tg h' = h_tg h" shows "hier_wf F c h' = hier_wf F c h"
  unfolding hier_wf_def members_ok_def group_counts_ok_def ents_ok_def groups_ok_def under_def queued_tasks_def se_here_def se_group_def on_rt_rq_def
    se_on_list_def rt_se_prio_g_def rt_se_boosted_def rr_tasks_def assms ..

lemma stack_wf:
  assumes wf: "hier_wf F c h" and F: "F \<subseteq> {x. Group x \<in> set (sched_rt_entities h e)}" and here: "se_here c h e"
    and rest: "unat (hier_rest c h) \<le> MAX_TASKS" and q: "rt_queued (rtq (h_st h) c) \<Longrightarrow> g_nr_running (h_rq h c []) \<noteq> 0"
    and flags: "move_entity flags"
  obtains h' where "dequeue_rt_stack_g c flags e h = Some h'" "hier_wf {x. Group x \<in> set (sched_rt_entities h e)} c h'" "hier_static c h h'"
    "\<And>y. on_rt_rq c h' y = (y \<notin> set (sched_rt_entities h e) \<and> on_rt_rq c h y)"
    "\<not> rt_queued (rtq (h_st h') c)" "rq_nr_running (rqs (h_st h') c) = hier_rest c h"
    "\<And>x. x \<notin> se_group h ` {y \<in> set (sched_rt_entities h e). on_rt_rq c h y} \<Longrightarrow> g_queue (h_rq h' c x) = g_queue (h_rq h c x)"
proof -
  obtain h1 where h1: "dequeue_top_rt_rq_g c [] h = Some h1" "h_rq h1 = h_rq h" "tasks (h_st h1) = tasks (h_st h)" "h_tg h1 = h_tg h"
    "\<not> rt_queued (rtq (h_st h1) c)" "rq_nr_running (rqs (h_st h1) c) = hier_rest c h" "\<forall>d. d \<noteq> c \<longrightarrow> rt_core (h_st h1) d = rt_core (h_st h) d"
    by (rule dequeue_top_g [OF wf rest q])
  let ?es = "rev (sched_rt_entities h e)"
  have ne: "?es \<noteq> []" using here by (auto simp: sched_rt_entities_def se_here_def neq_Nil_conv split: ent.splits)
  have p: "down_path h [] ?es" by (rule down_path_entities)
  then have "down_path h1 [] ?es" using down_path_static [OF h1(4)] by simp
  moreover have "\<forall>y \<in> set ?es. se_here c h1 y"
    using here h1(3) by (auto simp: sched_rt_entities_def se_here_def group_entities_set split: ent.splits)
  moreover have w1: "hier_wf F c h1" using hier_wf_cong [OF h1(2,3,4)] wf by simp
  ultimately obtain h' where h': "stack_loop c flags ?es h1 = Some h'" "hier_wf (F \<union> {x. Group x \<in> set ?es}) c h'" "same_rest h1 h'" "hier_static c h1 h'"
    "\<And>y. on_rt_rq c h' y = (y \<notin> set ?es \<and> on_rt_rq c h1 y)"
    "\<And>x. x \<notin> se_group h1 ` {y \<in> set ?es. on_rt_rq c h1 y} \<Longrightarrow> g_queue (h_rq h' c x) = g_queue (h_rq h1 c x)"
    using stack_loop_wf [of h1 "[]" ?es F c flags] flags by blast
  have eq: "on_rt_rq c h1 y = on_rt_rq c h y" "se_group h1 y = se_group h y" for y
    using h1(2,3,4) by (simp_all add: on_rt_rq_def se_group_def split: ent.splits)
  have st: "hier_static c h h1" using h1(2,3,4,7) by (simp add: hier_static_def)
  show ?thesis
  proof (rule that)
    have "se_group h (hd ?es) = []" using p ne by (cases ?es) simp_all
    then show "dequeue_rt_stack_g c flags e h = Some h'"
      using h1(1) h'(1) ne by (auto simp: dequeue_rt_stack_g_def split: list.splits)
    have "F \<union> {x. Group x \<in> set ?es} = {x. Group x \<in> set (sched_rt_entities h e)}" using F by auto
    then show "hier_wf {x. Group x \<in> set (sched_rt_entities h e)} c h'" using h'(2) by simp
    show "hier_static c h h'" using st h'(4) by (rule hier_static_trans)
    show "\<not> rt_queued (rtq (h_st h') c)" "rq_nr_running (rqs (h_st h') c) = hier_rest c h"
      using h'(3) h1(5,6) rt_core_fields(5,7) [of "h_st h'" c "h_st h1"] by (simp_all add: same_rest_def)
  qed (use h'(5,6) h1(2) eq in auto)
qed

text \<open>After the way up the queue of the root is counted again.\<close>

lemma climb_ok:
  assumes "hier_wf {x. Group x \<in> set (group_entities g)} c h" "\<And>x. Group x \<in> set (group_entities g) \<Longrightarrow> \<not> g_on_rq (h_rq h c x)"
    and flags: "move_entity flags" and q: "\<not> rt_queued (rtq (h_st h) c)" "unat (rq_nr_running (rqs (h_st h) c)) \<le> MAX_TASKS"
  obtains h' where "enqueue_loop c flags (group_entities g) h \<bind> (\<lambda>h. Some (enqueue_top_rt_rq_g c h)) = Some h'"
    "dequeue_loop c flags (group_entities g) h \<bind> (\<lambda>h. Some (enqueue_top_rt_rq_g c h)) = Some h'"
    "hier_ok c h'" "hier_rest c h' = rq_nr_running (rqs (h_st h) c)" "hier_static c h h'"
    "\<And>p. p_rt_on_rq (tsk h' p) = p_rt_on_rq (tsk h p)"
    "\<And>x. x = g \<or> \<not> suffix x g \<Longrightarrow> g_queue (h_rq h' c x) = g_queue (h_rq h c x)"
proof -
  obtain h1 where h1: "enqueue_loop c flags (group_entities g) h = Some h1" "dequeue_loop c flags (group_entities g) h = Some h1"
    "hier_wf {} c h1" "same_rest h h1" "hier_static c h h1" "\<And>p. on_rt_rq c h1 (Task p) = on_rt_rq c h (Task p)"
    "\<And>x. x = g \<or> \<not> suffix x g \<Longrightarrow> g_queue (h_rq h1 c x) = g_queue (h_rq h c x)"
    using climb_wf [OF assms(1) _ flags] assms(2) by blast
  have q1: "\<not> rt_queued (rtq (h_st h1) c)" "rq_nr_running (rqs (h_st h1) c) = rq_nr_running (rqs (h_st h) c)"
    using h1(4) q rt_core_fields(5,7) [of "h_st h1" c "h_st h"] by (simp_all add: same_rest_def)
  note t = enqueue_top_g [OF q1(1)]
  have w: "hier_wf {} c (enqueue_top_rt_rq_g c h1)" using hier_wf_cong [OF t(1-3)] h1(3) by simp
  show ?thesis
  proof (rule that [of "enqueue_top_rt_rq_g c h1"])
    show "hier_ok c (enqueue_top_rt_rq_g c h1)" using w t(1,4,5) q1(2) q(2) by (simp add: hier_ok_def)
    show "hier_static c h (enqueue_top_rt_rq_g c h1)"
      using h1(5) t(1-3,6) by (simp add: hier_static_def)
  qed (use h1 t q1(2) in \<open>simp_all add: on_rt_rq_def\<close>)
qed

lemma chain_task: "sched_rt_entities h (Task p) = Task p # group_entities (h_tg h p)"
  by (simp add: sched_rt_entities_def)

lemma chain_groups: "{x. Group x \<in> set (sched_rt_entities h (Task p))} = {x. Group x \<in> set (group_entities (h_tg h p))}"
  by (simp add: chain_task)

lemma own_queue_untouched:
  assumes "\<not> on_rt_rq c h (Task p)"
  shows "h_tg h p \<notin> se_group h ` {y \<in> set (sched_rt_entities h (Task p)). on_rt_rq c h y}"
proof
  assume "h_tg h p \<in> se_group h ` {y \<in> set (sched_rt_entities h (Task p)). on_rt_rq c h y}"
  then obtain y where y: "y \<in> set (sched_rt_entities h (Task p))" "on_rt_rq c h y" "h_tg h p = se_group h y" by blast
  then have "y \<in> set (group_entities (h_tg h p))" using assms by (auto simp: chain_task)
  then obtain x where x: "y = Group x" "x \<noteq> []" "suffix x (h_tg h p)" by (metis ent.exhaust group_entities_set)
  then show False using y(3) suffix_length_le [OF x(3)] by (cases x) (simp_all add: se_group_def)
qed

lemma enqueue_task_ok:
  assumes ok: "hier_ok c h" and p: "p_cpu (tsk h p) = c" "\<not> p_rt_on_rq (tsk h p)" "0 \<le> p_prio (tsk h p)" "p_prio (tsk h p) < 100"
    and size: "card (insert p (queued_tasks c h)) \<le> MAX_TASKS" and flags: "move_entity flags"
  obtains h' where "enqueue_rt_entity_g c flags (Task p) h = Some h'" "hier_ok c h'" "hier_rest c h' = hier_rest c h" "hier_static c h h'"
    "\<And>q. p_rt_on_rq (tsk h' q) = (q = p \<or> p_rt_on_rq (tsk h q))"
    "g_queue (h_rq h' c (h_tg h p)) =
       (if has_flag flags ENQUEUE_HEAD then qs_add else qs_add_tail) (nat (p_prio (tsk h p))) (Task p) (g_queue (h_rq h c (h_tg h p)))"
proof -
  have wf: "hier_wf {} c h" "unat (hier_rest c h) \<le> MAX_TASKS" "rt_queued (rtq (h_st h) c) \<Longrightarrow> g_nr_running (h_rq h c []) \<noteq> 0"
    using ok by (auto simp: hier_ok_def)
  have here: "se_here c h (Task p)" and off: "\<not> on_rt_rq c h (Task p)" using p(1,2) by (simp_all add: se_here_def on_rt_rq_def)
  obtain h1 where h1: "dequeue_rt_stack_g c flags (Task p) h = Some h1" "hier_wf {x. Group x \<in> set (sched_rt_entities h (Task p))} c h1" "hier_static c h h1"
    "\<And>y. on_rt_rq c h1 y = (y \<notin> set (sched_rt_entities h (Task p)) \<and> on_rt_rq c h y)"
    "\<not> rt_queued (rtq (h_st h1) c)" "rq_nr_running (rqs (h_st h1) c) = hier_rest c h"
    "\<And>x. x \<notin> se_group h ` {y \<in> set (sched_rt_entities h (Task p)). on_rt_rq c h y} \<Longrightarrow> g_queue (h_rq h1 c x) = g_queue (h_rq h c x)"
    by (rule stack_wf [OF wf(1) _ here wf(2,3) flags]) blast+
  let ?g = "h_tg h p" let ?F = "{x. Group x \<in> set (group_entities ?g)}"
  note s1 = hier_static_sel [OF h1(3)]
  have w1: "hier_wf ?F c h1" using h1(2) by (simp add: chain_task)
  have offg: "\<not> g_on_rq (h_rq h1 c x)" if "Group x \<in> set (group_entities ?g)" for x
    using h1(4) [of "Group x"] that by (simp add: on_rt_rq_def chain_task)
  have gF: "?g = [] \<or> ?g \<in> ?F" by (simp add: group_entities_set)
  have mov: "movable c h1 (Task p)" using s1(1,6) p(1) offg gF by (auto simp: movable_def se_here_def se_group_def)
  have q1: "queued_tasks c h1 = queued_tasks c h"
    using h1(4) [of "Task q" for q] s1(6) p(2) by (auto simp: queued_tasks_def on_rt_rq_def chain_task group_entities_set)
  have g1: "?g = se_group h1 (Task p)" using s1(1) by (simp add: se_group_def)
  have off1: "\<not> on_rt_rq c h1 (Task p)" "\<not> group_off c h1 (Task p)" using h1(4) off by (simp_all add: group_off_def)
  obtain h2 where h2: "enqueue_rt_entity_raw_g c flags (Task p) h1 = Some h2" "entity_moved c (Task p) True h1 h2" "same_rest h1 h2"
    "hier_wf (?F - {x. Task p = Group x}) c h2"
    "g_queue (h_rq h2 c ?g) = (if has_flag flags ENQUEUE_HEAD then qs_add else qs_add_tail) (nat (rt_se_prio_g c h1 (Task p))) (Task p) (g_queue (h_rq h1 c ?g))"
    by (rule enqueue_raw_wf [OF w1 mov flags off1 _ g1 gF]) (use s1(5) p(3,4) q1 size in auto)
  have w2: "hier_wf ?F c h2" using h2(4) by simp
  have offg2: "\<not> g_on_rq (h_rq h2 c x)" if "Group x \<in> set (group_entities ?g)" for x
    using entity_movedD(16) [OF h2(2), of x] offg [OF that] by simp
  have q2: "\<not> rt_queued (rtq (h_st h2) c)" "rq_nr_running (rqs (h_st h2) c) = hier_rest c h"
    using h2(3) h1(5,6) rt_core_fields(5,7) [of "h_st h2" c "h_st h1"] by (simp_all add: same_rest_def)
  obtain h' where h': "enqueue_loop c flags (group_entities ?g) h2 \<bind> (\<lambda>h. Some (enqueue_top_rt_rq_g c h)) = Some h'"
    "hier_ok c h'" "hier_rest c h' = rq_nr_running (rqs (h_st h2) c)" "hier_static c h2 h'"
    "\<And>q. p_rt_on_rq (tsk h' q) = p_rt_on_rq (tsk h2 q)" "\<And>x. x = ?g \<or> \<not> suffix x ?g \<Longrightarrow> g_queue (h_rq h' c x) = g_queue (h_rq h2 c x)"
    by (rule climb_ok [OF w2 offg2 flags q2(1)]) (use q2(2) wf(2) in auto)
  show ?thesis
  proof (rule that [of h'])
    show "enqueue_rt_entity_g c flags (Task p) h = Some h'"
      using h1(1) h2(1) h'(1) s1(1) by (simp add: enqueue_rt_entity_g_def chain_task)
    show "hier_static c h h'" using hier_static_trans [OF h1(3) hier_static_trans [OF moved_hier_static [OF h2(2,3)] h'(4)]] mov by (simp add: movable_def)
    show "p_rt_on_rq (tsk h' q) = (q = p \<or> p_rt_on_rq (tsk h q))" for q
      using h'(5) entity_movedD(15) [OF h2(2), of q] h1(4) [of "Task q"] by (auto simp: on_rt_rq_def chain_task group_entities_set)
    show "g_queue (h_rq h' c ?g) = (if has_flag flags ENQUEUE_HEAD then qs_add else qs_add_tail) (nat (p_prio (tsk h p))) (Task p) (g_queue (h_rq h c ?g))"
      using h'(6) [of ?g] h2(5) h1(7) [OF own_queue_untouched [OF off]] s1(5) [of p] by (simp add: rt_se_prio_g_def)
  qed (use h'(2,3) q2(2) in simp_all)
qed

lemma dequeue_task_ok:
  assumes ok: "hier_ok c h" and p: "p_cpu (tsk h p) = c" and flags: "move_entity flags"
  obtains h' where "dequeue_rt_entity_g c flags (Task p) h = Some h'" "hier_ok c h'" "hier_rest c h' = hier_rest c h" "hier_static c h h'"
    "\<And>q. p_rt_on_rq (tsk h' q) = (q \<noteq> p \<and> p_rt_on_rq (tsk h q))"
proof -
  have wf: "hier_wf {} c h" "unat (hier_rest c h) \<le> MAX_TASKS" "rt_queued (rtq (h_st h) c) \<Longrightarrow> g_nr_running (h_rq h c []) \<noteq> 0"
    using ok by (auto simp: hier_ok_def)
  have here: "se_here c h (Task p)" using p by (simp add: se_here_def)
  obtain h1 where h1: "dequeue_rt_stack_g c flags (Task p) h = Some h1" "hier_wf {x. Group x \<in> set (sched_rt_entities h (Task p))} c h1" "hier_static c h h1"
    "\<And>y. on_rt_rq c h1 y = (y \<notin> set (sched_rt_entities h (Task p)) \<and> on_rt_rq c h y)"
    "\<not> rt_queued (rtq (h_st h1) c)" "rq_nr_running (rqs (h_st h1) c) = hier_rest c h"
    by (rule stack_wf [OF wf(1) _ here wf(2,3) flags]) blast+
  have w1: "hier_wf {x. Group x \<in> set (group_entities (h_tg h p))} c h1" using h1(2) by (simp add: chain_task)
  have offg: "\<not> g_on_rq (h_rq h1 c x)" if "Group x \<in> set (group_entities (h_tg h p))" for x
    using h1(4) [of "Group x"] that by (simp add: on_rt_rq_def chain_task)
  obtain h' where h': "dequeue_loop c flags (group_entities (h_tg h p)) h1 \<bind> (\<lambda>h. Some (enqueue_top_rt_rq_g c h)) = Some h'"
    "hier_ok c h'" "hier_rest c h' = rq_nr_running (rqs (h_st h1) c)" "hier_static c h1 h'"
    "\<And>q. p_rt_on_rq (tsk h' q) = p_rt_on_rq (tsk h1 q)"
    by (rule climb_ok [OF w1 offg flags h1(5)]) (use h1(6) wf(2) in auto)
  show ?thesis
  proof (rule that [of h'])
    show "dequeue_rt_entity_g c flags (Task p) h = Some h'"
      using h1(1) h'(1) hier_static_sel(1) [OF h1(3)] by (simp add: dequeue_rt_entity_g_def chain_task)
    show "hier_static c h h'" by (rule hier_static_trans [OF h1(3) h'(4)])
    show "p_rt_on_rq (tsk h' q) = (q \<noteq> p \<and> p_rt_on_rq (tsk h q))" for q
      using h'(5) [of q] h1(4) [of "Task q"] by (auto simp: on_rt_rq_def chain_task group_entities_set)
  qed (use h'(2,3) h1(6) in simp_all)
qed

text \<open>Putting a group back on its queue, or taking it off, after something about it has changed.\<close>

lemma group_ok:
  assumes wf: "hier_wf {g} c h" and g: "g \<noteq> []" and rest: "unat (hier_rest c h) \<le> MAX_TASKS"
    and q: "rt_queued (rtq (h_st h) c) \<Longrightarrow> g_nr_running (h_rq h c []) \<noteq> 0" and flags: "move_entity flags"
  obtains h' where "enqueue_rt_entity_g c flags (Group g) h = Some h'" "dequeue_rt_entity_g c flags (Group g) h = Some h'"
    "hier_ok c h'" "hier_rest c h' = hier_rest c h" "hier_static c h h'" "\<And>p. p_rt_on_rq (tsk h' p) = p_rt_on_rq (tsk h p)"
proof -
  have ch: "sched_rt_entities x (Group g) = group_entities g" for x by (simp add: sched_rt_entities_def)
  have F: "{g} \<subseteq> {x. Group x \<in> set (sched_rt_entities h (Group g))}" using g by (simp add: ch group_entities_set)
  have here: "se_here c h (Group g)" using g by (simp add: se_here_def)
  obtain h1 where h1: "dequeue_rt_stack_g c flags (Group g) h = Some h1" "hier_wf {x. Group x \<in> set (sched_rt_entities h (Group g))} c h1" "hier_static c h h1"
    "\<And>y. on_rt_rq c h1 y = (y \<notin> set (sched_rt_entities h (Group g)) \<and> on_rt_rq c h y)"
    "\<not> rt_queued (rtq (h_st h1) c)" "rq_nr_running (rqs (h_st h1) c) = hier_rest c h"
    by (rule stack_wf [OF wf F here rest q flags]) blast+
  have w1: "hier_wf {x. Group x \<in> set (group_entities g)} c h1" using h1(2) by (simp add: ch)
  have offg: "\<not> g_on_rq (h_rq h1 c x)" if "Group x \<in> set (group_entities g)" for x
    using h1(4) [of "Group x"] that by (simp add: on_rt_rq_def ch)
  obtain h' where h': "enqueue_loop c flags (group_entities g) h1 \<bind> (\<lambda>h. Some (enqueue_top_rt_rq_g c h)) = Some h'"
    "dequeue_loop c flags (group_entities g) h1 \<bind> (\<lambda>h. Some (enqueue_top_rt_rq_g c h)) = Some h'"
    "hier_ok c h'" "hier_rest c h' = rq_nr_running (rqs (h_st h1) c)" "hier_static c h1 h'"
    "\<And>q. p_rt_on_rq (tsk h' q) = p_rt_on_rq (tsk h1 q)"
    by (rule climb_ok [OF w1 offg flags h1(5)]) (use h1(6) rest in auto)
  show ?thesis
  proof (rule that [of h'])
    show "hier_static c h h'" by (rule hier_static_trans [OF h1(3) h'(5)])
    show "p_rt_on_rq (tsk h' p) = p_rt_on_rq (tsk h p)" for p
      using h'(6) [of p] h1(4) [of "Task p"] by (auto simp: on_rt_rq_def ch group_entities_set)
  qed (use h1(1,6) h' in \<open>simp_all add: enqueue_rt_entity_g_def dequeue_rt_entity_g_def ch\<close>)
qed

end
