(* ===== verification/Sched_RT_Groups_System.thy ===== *)
theory Sched_RT_Groups_System
  imports Sched_RT_Groups_Props
begin

text \<open>
  The hierarchy of real-time run queues as a whole: the descent of the pick finds a task of the best priority among those no throttled group holds back, throttling and
  replenishing groups, and every sequence of operations on the queues of all CPUs.
\<close>

section \<open>What a CPU sees\<close>

text \<open>States that agree on everything the invariant of a CPU is about.\<close>

definition group_view :: "group_rq \<Rightarrow> ent list list \<times> bool list \<times> u32 \<times> u32 \<times> int \<times> bool \<times> u64 \<times> bool \<times> bool" where
  "group_view r = (g_queue r, g_bitmap r, g_nr_running r, g_rr_nr_running r, g_highest r, g_throttled r, g_nr_boosted r, g_on_rq r, g_on_list r)"

definition hier_view :: "cpu \<Rightarrow> hier \<Rightarrow> hier \<Rightarrow> bool" where
  "hier_view c h h' \<longleftrightarrow> h_tg h' = h_tg h \<and> (\<forall>x. group_view (h_rq h' c x) = group_view (h_rq h c x)) \<and> rt_core (h_st h') c = rt_core (h_st h) c \<and>
     (\<forall>p. p_cpu (tsk h' p) = p_cpu (tsk h p) \<and> p_prio (tsk h' p) = p_prio (tsk h p) \<and>
        p_normal_prio (tsk h' p) = p_normal_prio (tsk h p) \<and> p_policy (tsk h' p) = p_policy (tsk h p) \<and>
        (p_cpu (tsk h p) = c \<longrightarrow> p_rt_on_rq (tsk h' p) = p_rt_on_rq (tsk h p) \<and> p_rt_on_list (tsk h' p) = p_rt_on_list (tsk h p)))"

lemma hier_view_refl [simp]: "hier_view c h h"
  by (simp add: hier_view_def)

lemma hier_view_trans: "hier_view c h h' \<Longrightarrow> hier_view c h' h'' \<Longrightarrow> hier_view c h h''"
  by (simp add: hier_view_def)

lemma hier_viewD:
  assumes "hier_view c h h'"
  shows "g_queue (h_rq h' c x) = g_queue (h_rq h c x)" "g_bitmap (h_rq h' c x) = g_bitmap (h_rq h c x)"
    "g_nr_running (h_rq h' c x) = g_nr_running (h_rq h c x)" "g_rr_nr_running (h_rq h' c x) = g_rr_nr_running (h_rq h c x)"
    "g_highest (h_rq h' c x) = g_highest (h_rq h c x)" "g_throttled (h_rq h' c x) = g_throttled (h_rq h c x)"
    "g_nr_boosted (h_rq h' c x) = g_nr_boosted (h_rq h c x)" "g_on_rq (h_rq h' c x) = g_on_rq (h_rq h c x)"
    "g_on_list (h_rq h' c x) = g_on_list (h_rq h c x)" "h_tg h' = h_tg h" "rt_core (h_st h') c = rt_core (h_st h) c"
    "p_cpu (tsk h' p) = p_cpu (tsk h p)" "p_prio (tsk h' p) = p_prio (tsk h p)"
    "p_normal_prio (tsk h' p) = p_normal_prio (tsk h p)" "p_policy (tsk h' p) = p_policy (tsk h p)"
    "p_cpu (tsk h p) = c \<Longrightarrow> p_rt_on_rq (tsk h' p) = p_rt_on_rq (tsk h p)" "p_cpu (tsk h p) = c \<Longrightarrow> p_rt_on_list (tsk h' p) = p_rt_on_list (tsk h p)"
  using assms by (simp_all add: hier_view_def group_view_def)

lemma hier_view_sets:
  assumes "hier_view c h h'"
  shows "queued_tasks c h' = queued_tasks c h" "under c h' g = under c h g" "se_here c h' e = se_here c h e" "se_group h' e = se_group h e"
    "rt_rq_throttled_g (h_rq h' c g) = rt_rq_throttled_g (h_rq h c g)" "hier_rest c h' = hier_rest c h"
    "rt_se_prio_g c h' e = rt_se_prio_g c h e" "rt_se_boosted c h' e = rt_se_boosted c h e" "rr_tasks h' = rr_tasks h"
proof -
  note v = hier_viewD [OF assms]
  show q: "queued_tasks c h' = queued_tasks c h" using v(12,16) by (auto simp: queued_tasks_def)
  show "under c h' g = under c h g" unfolding under_def q using v(8,10) by simp
  show "rt_rq_throttled_g (h_rq h' c g) = rt_rq_throttled_g (h_rq h c g)" using v(6,7) by (simp add: rt_rq_throttled_g_def)
  show "hier_rest c h' = hier_rest c h" using rt_core_fields [OF v(11)] v(3) by (simp add: hier_rest_def)
qed (use hier_viewD [OF assms] in \<open>auto simp: se_here_def se_group_def rt_se_prio_g_def rt_se_boosted_def rr_tasks_def split: ent.splits\<close>)

lemma hier_view_flags:
  assumes "hier_view c h h'" "se_here c h e"
  shows "on_rt_rq c h' e = on_rt_rq c h e" "se_on_list c h' e = se_on_list c h e"
  using hier_viewD [OF assms(1)] assms(2) by (auto simp: on_rt_rq_def se_on_list_def se_here_def split: ent.splits)

lemma hier_view_wf:
  assumes "hier_view c h h'" "hier_wf F c h" shows "hier_wf F c h'"
proof -
  note v = hier_viewD [OF assms(1)] and s = hier_view_sets [OF assms(1)] and f = hier_view_flags [OF assms(1)]
  have "members_ok c h' g" "group_counts_ok c h' g" for g
    using hier_wfD(2,3) [OF assms(2), of g] f by (auto simp: members_ok_def group_counts_ok_def Let_def v s)
  moreover have "ents_ok c h'" using hier_wfD(4) [OF assms(2)] f by (auto simp: ents_ok_def v s)
  moreover have "groups_ok F c h'" using hier_wfD(5) [OF assms(2)] by (auto simp: groups_ok_def v s)
  ultimately show ?thesis using hier_wfD(1,6,7) [OF assms(2)] by (simp add: hier_wf_def v s)
qed

lemma hier_view_ok:
  assumes "hier_view c h h'" "hier_ok c h" shows "hier_ok c h'"
  using hier_view_wf [OF assms(1), of "{}"] assms(2) hier_view_sets [OF assms(1)] hier_viewD [OF assms(1)]
    rt_core_fields [OF hier_viewD(11) [OF assms(1)]] by (simp add: hier_ok_def)

text \<open>An operation on one CPU is not seen on the others.\<close>

lemma static_other:
  assumes "hier_static c h h'" "d \<noteq> c" shows "hier_view d h h'"
  using assms by (auto simp: hier_static_def hier_view_def)

section \<open>The pick\<close>

text \<open>The tasks that may run: no group above them is throttled.\<close>

definition runnable :: "cpu \<Rightarrow> hier \<Rightarrow> tid set" where
  "runnable c h = {p \<in> queued_tasks c h. \<forall>g. g \<noteq> [] \<and> suffix g (h_tg h p) \<longrightarrow> \<not> rt_rq_throttled_g (h_rq h c g)}"

lemma hier_view_runnable: "hier_view c h h' \<Longrightarrow> runnable c h' = runnable c h"
  by (simp add: runnable_def hier_view_sets hier_viewD)

lemma nr_iff:
  assumes "hier_wf F c h" shows "g_nr_running (h_rq h c g) \<noteq> 0 \<longleftrightarrow> under c h g \<noteq> {}"
proof -
  have "unat (g_nr_running (h_rq h c g)) = card (under c h g)" using hier_wfD(3) [OF assms, of g] by (simp add: group_counts_ok_def Let_def)
  then have "g_nr_running (h_rq h c g) = 0 \<longleftrightarrow> card (under c h g) = 0" by (simp add: unat_eq_0 [symmetric])
  then show ?thesis using under_finite [OF assms, of g] by simp
qed

lemma under_root:
  assumes wf: "hier_wf {} c h" shows "under c h [] = runnable c h"
proof (intro set_eqI iffI)
  fix p assume p: "p \<in> under c h []"
  have "\<not> rt_rq_throttled_g (h_rq h c g)" if g: "g \<noteq> []" "suffix g (h_tg h p)" for g
  proof -
    have "g_on_rq (h_rq h c g)" using p g by (auto simp: under_def strict_suffix_def)
    then show ?thesis using hier_wfD(5) [OF wf] g(1) by (auto simp: groups_ok_def)
  qed
  then show "p \<in> runnable c h" using p by (auto simp: runnable_def under_def)
next
  fix p assume p: "p \<in> runnable c h"
  have "p \<in> under c h g" if "h_tg h p = zs @ g" for zs g
    using that
  proof (induction zs arbitrary: g rule: rev_induct)
    case Nil
    then show ?case using p by (auto simp: under_def runnable_def)
  next
    case (snoc i zs)
    then have u: "p \<in> under c h (i # g)" by simp
    then have "g_nr_running (h_rq h c (i # g)) \<noteq> 0" using nr_iff [OF wf] by blast
    moreover have "\<not> rt_rq_throttled_g (h_rq h c (i # g))" using p snoc.prems by (auto simp: runnable_def suffix_def)
    ultimately have "g_on_rq (h_rq h c (i # g))" using hier_wfD(5) [OF wf] by (auto simp: groups_ok_def)
    then show ?case using under_group u by blast
  qed
  then show "p \<in> under c h []" by simp
qed

lemma member_prio_ge:
  assumes wf: "hier_wf F c h" and e: "gmem c h g e" shows "g_highest (h_rq h c g) \<le> rt_se_prio_g c h e"
proof -
  obtain i where i: "i < 100" "e \<in> set (g_queue (h_rq h c g) ! i)" "rt_se_prio_g c h e = int i" by (rule member_at [OF wf e])
  have "first_q (g_queue (h_rq h c g)) \<le> i" using first_q_before [of i "g_queue (h_rq h c g)"] i(2) by (cases "i < first_q (g_queue (h_rq h c g))") auto
  then show ?thesis using hier_wfD(3) [OF wf, of g] i(3) by (simp add: group_counts_ok_def Let_def)
qed

lemma highest_le:
  assumes wf: "hier_wf F c h" and p: "p \<in> under c h g" shows "g_highest (h_rq h c g) \<le> p_prio (tsk h p)"
  using p
proof (induction "length (h_tg h p) - length g" arbitrary: g rule: less_induct)
  case less
  show ?case
  proof (rule under_cases [OF less.prems])
    assume "h_tg h p = g"
    then have "gmem c h g (Task p)" using less.prems member_iff [OF wf]
      by (simp add: se_here_def se_group_def on_rt_rq_def under_def queued_tasks_def)
    then show ?thesis using member_prio_ge [OF wf] by (fastforce simp: rt_se_prio_g_def)
  next
    fix i assume i: "g_on_rq (h_rq h c (i # g))" "p \<in> under c h (i # g)"
    then have m: "gmem c h g (Group (i # g))" using member_iff [OF wf] by (simp add: se_here_def se_group_def on_rt_rq_def)
    have "length (i # g) \<le> length (h_tg h p)" using i(2) suffix_length_le [of "i # g" "h_tg h p"] by (simp add: under_def)
    then have "g_highest (h_rq h c (i # g)) \<le> p_prio (tsk h p)" by (intro less.hyps i(2)) simp
    then show ?thesis using member_prio_ge [OF wf m] by (simp add: rt_se_prio_g_def)
  qed
qed

lemma pick_entity:
  assumes wf: "hier_wf F c h" and ne: "under c h g \<noteq> {}"
  obtains e where "pick_next_rt_entity_g c g h = Some e" "gmem c h g e" "rt_se_prio_g c h e = g_highest (h_rq h c g)"
proof -
  let ?q = "g_queue (h_rq h c g)"
  have arr: "rt_array_ok ?q (g_bitmap (h_rq h c g))" by (rule hier_wfD(1) [OF wf])
  have len: "length ?q = 100" by (rule rt_array_okD(1) [OF arr])
  obtain e0 where "gmem c h g e0" using ne under_empty_iff [OF wf] by blast
  then have "concat ?q \<noteq> []" by (metis qs_mem_def empty_iff list.set(1))
  then have f: "first_q ?q < 100" using first_q_none [of ?q] first_q_le [of ?q] len by linarith
  then obtain e es where e: "?q ! first_q ?q = e # es" using first_q_at [of ?q] len by (cases "?q ! first_q ?q") auto
  have "sched_find_first_bit (g_bitmap (h_rq h c g)) = first_q ?q" by (rule rt_array_first [OF arr])
  then have "pick_next_rt_entity_g c g h = Some e" using f e len by (simp add: pick_next_rt_entity_g_def Let_def MAX_RT_PRIO_def in_bounds_def)
  moreover have "gmem c h g e" using e f len by (auto simp: qs_mem_nth)
  moreover have "rt_se_prio_g c h e = int (first_q ?q)" using hier_wfD(2) [OF wf, of g] e f by (auto simp: members_ok_def)
  ultimately show ?thesis using that hier_wfD(3) [OF wf, of g] by (simp add: group_counts_ok_def Let_def)
qed

text \<open>The descent ends: every group on the way has a task below it, and paths are finite.\<close>

lemma pick_loop_ok:
  assumes wf: "hier_wf F c h" and ne: "under c h g \<noteq> {}" and k: "\<forall>p \<in> queued_tasks c h. length (h_tg h p) \<le> length g + k"
  shows "\<exists>p \<in> under c h g. pick_loop c h g = Some p \<and> p_prio (tsk h p) = g_highest (h_rq h c g)"
  using ne k
proof (induction k arbitrary: g)
  case (0 g)
  obtain e where e: "pick_next_rt_entity_g c g h = Some e" "gmem c h g e" "rt_se_prio_g c h e = g_highest (h_rq h c g)"
    by (rule pick_entity [OF wf 0(1)])
  have m: "se_here c h e" "se_group h e = g" "on_rt_rq c h e" using member_iff [OF wf] e(2) by blast+
  show ?case
  proof (cases e)
    case (Task p)
    have "p \<in> under c h g" using under_members [OF wf, of g] e(2) Task by (auto simp: ent_tasks_def)
    then show ?thesis using e Task by (intro bexI [of _ p]) (simp_all add: pick_loop.simps rt_se_prio_g_def)
  next
    case (Group x)
    have "ent_tasks c h e \<noteq> {}" by (rule ent_tasks_nonempty [OF wf m(1,3)])
    then obtain p where p: "p \<in> under c h x" using Group by (auto simp: ent_tasks_def)
    have "length x \<le> length (h_tg h p)" using p suffix_length_le by (auto simp: under_def)
    moreover have "length (h_tg h p) \<le> length g" using p 0(2) by (auto simp: under_def)
    moreover have "length x = Suc (length g)" using m(1,2) Group by (cases x) (auto simp: se_here_def se_group_def)
    ultimately show ?thesis by simp
  qed
next
  case (Suc k g)
  obtain e where e: "pick_next_rt_entity_g c g h = Some e" "gmem c h g e" "rt_se_prio_g c h e = g_highest (h_rq h c g)"
    by (rule pick_entity [OF wf Suc.prems(1)])
  have m: "se_here c h e" "se_group h e = g" "on_rt_rq c h e" using member_iff [OF wf] e(2) by blast+
  have sub: "ent_tasks c h e \<subseteq> under c h g" using under_members [OF wf, of g] e(2) by blast
  show ?case
  proof (cases e)
    case (Task p)
    then show ?thesis using e sub by (intro bexI [of _ p]) (simp_all add: pick_loop.simps rt_se_prio_g_def ent_tasks_def)
  next
    case (Group x)
    have x: "length x = Suc (length g)" using m(1,2) Group by (cases x) (auto simp: se_here_def se_group_def)
    have "under c h x \<noteq> {}" using ent_tasks_nonempty [OF wf m(1,3)] Group by (simp add: ent_tasks_def)
    then obtain p where "p \<in> under c h x" "pick_loop c h x = Some p" "p_prio (tsk h p) = g_highest (h_rq h c x)"
      using Suc.IH [of x] Suc.prems(2) x by auto
    then show ?thesis using e sub Group
      by (intro bexI [of _ p]) (auto simp: pick_loop.simps [of c h g] rt_se_prio_g_def ent_tasks_def)
  qed
qed

lemma pick_runnable:
  assumes ok: "hier_ok c h" and ne: "runnable c h \<noteq> {}"
  shows "\<exists>p \<in> runnable c h. pick_loop c h [] = Some p \<and> (\<forall>q \<in> runnable c h. p_prio (tsk h p) \<le> p_prio (tsk h q))"
proof -
  have wf: "hier_wf {} c h" using ok by (simp add: hier_ok_def)
  have u: "under c h [] = runnable c h" by (rule under_root [OF wf])
  have fin: "finite ((\<lambda>p. length (h_tg h p)) ` queued_tasks c h)" using hier_wfD(6) [OF wf] by blast
  then have "\<forall>p \<in> queued_tasks c h. length (h_tg h p) \<le> length [] + Max ((\<lambda>p. length (h_tg h p)) ` queued_tasks c h)" by simp
  from pick_loop_ok [OF wf _ this] obtain p where p: "p \<in> under c h []" "pick_loop c h [] = Some p" "p_prio (tsk h p) = g_highest (h_rq h c [])"
    using u ne by blast
  then have "p_prio (tsk h p) \<le> p_prio (tsk h q)" if "q \<in> runnable c h" for q using highest_le [OF wf, of q "[]"] that u by simp
  then show ?thesis using p u by blast
qed

section \<open>Steps the invariant does not see\<close>

definition hier_quiet :: "hier \<Rightarrow> hier \<Rightarrow> bool" where
  "hier_quiet h h' \<longleftrightarrow> (\<forall>c. hier_view c h h')"

lemma hier_quiet_refl [simp]: "hier_quiet h h"
  by (simp add: hier_quiet_def)

lemma hier_quiet_trans: "hier_quiet h h' \<Longrightarrow> hier_quiet h' h'' \<Longrightarrow> hier_quiet h h''"
  unfolding hier_quiet_def by (blast intro: hier_view_trans)

lemma upd_g_quiet: "group_view (f (h_rq h c g)) = group_view (h_rq h c g) \<Longrightarrow> hier_quiet h (upd_g c g f h)"
  by (simp add: hier_quiet_def hier_view_def st_simps)

lemma upd_st_quiet:
  assumes "\<And>d. rt_core (f (h_st h)) d = rt_core (h_st h) d"
    "\<And>p. p_cpu (tasks (f (h_st h)) p) = p_cpu (tsk h p)" "\<And>p. p_prio (tasks (f (h_st h)) p) = p_prio (tsk h p)"
    "\<And>p. p_normal_prio (tasks (f (h_st h)) p) = p_normal_prio (tsk h p)" "\<And>p. p_policy (tasks (f (h_st h)) p) = p_policy (tsk h p)"
    "\<And>p. p_rt_on_rq (tasks (f (h_st h)) p) = p_rt_on_rq (tsk h p)" "\<And>p. p_rt_on_list (tasks (f (h_st h)) p) = p_rt_on_list (tsk h p)"
  shows "hier_quiet h (upd_st f h)"
  using assms by (simp add: hier_quiet_def hier_view_def st_simps)

lemma resched_hier_quiet: "hier_quiet h (upd_st (resched_curr c) h)"
  by (rule upd_st_quiet) (auto simp: resched_curr_def Let_def rt_core_def st_simps)

lemma upd_task_hier_quiet:
  assumes "\<And>t. p_cpu (f t) = p_cpu t \<and> p_prio (f t) = p_prio t \<and> p_normal_prio (f t) = p_normal_prio t \<and> p_policy (f t) = p_policy t \<and>
    p_rt_on_rq (f t) = p_rt_on_rq t \<and> p_rt_on_list (f t) = p_rt_on_list t"
  shows "hier_quiet h (upd_st (upd_task p f) h)"
  by (rule upd_st_quiet) (use assms in \<open>simp_all add: st_simps rt_core_def\<close>)

lemma clock_hier_quiet: "hier_quiet h (upd_st (update_rq_clock c) h)" "hier_quiet h (upd_st (rq_clock_cancel_skipupdate c) h)"
  by (rule upd_st_quiet; auto simp: update_rq_clock_def update_rq_clock_task_def rq_clock_cancel_skipupdate_def Let_def rt_core_def st_simps)+

lemma pushable_hier_quiet: "hier_quiet h (upd_st (enqueue_pushable_task c p) h)" "hier_quiet h (upd_st (dequeue_pushable_task c p) h)"
  by (rule upd_st_quiet; simp add: pushable_frame)+

lemma balance_loop_quiet: "hier_quiet h (balance_loop_g g period weight me is h)"
proof (induction "is" arbitrary: h)
  case (Cons i "is")
  have a: "hier_quiet x (add_runtime_g g d v x)" for d v x unfolding add_runtime_g_def by (rule upd_g_quiet) (simp add: group_view_def)
  have b: "hier_quiet h (add_runtime_g g me v (add_runtime_g g i w h))" for v w using hier_quiet_trans [OF a a] .
  have "hier_quiet h (balance_loop_g g period weight me is (add_runtime_g g me v (add_runtime_g g i w h)))" for v w
    by (rule hier_quiet_trans [OF b Cons.IH])
  then show ?case using b Cons.IH [of h] by (simp add: Let_def)
qed simp

lemma balance_hier_quiet: "hier_quiet h (balance_runtime_g c g h)"
  by (simp add: balance_runtime_g_def do_balance_runtime_g_def Let_def balance_loop_quiet)

section \<open>The invariant of all CPUs\<close>

definition hier_all :: "hier \<Rightarrow> bool" where
  "hier_all h \<longleftrightarrow> (\<forall>c. hier_ok c h)"

text \<open>Membership and flags of tasks stay.\<close>

definition tasks_kept :: "hier \<Rightarrow> hier \<Rightarrow> bool" where
  "tasks_kept h h' \<longleftrightarrow> h_tg h' = h_tg h \<and> (\<forall>p. p_cpu (tsk h' p) = p_cpu (tsk h p) \<and> p_prio (tsk h' p) = p_prio (tsk h p) \<and>
     p_rt_on_rq (tsk h' p) = p_rt_on_rq (tsk h p))"

lemma tasks_kept_refl [simp]: "tasks_kept h h"
  by (simp add: tasks_kept_def)

lemma tasks_kept_trans: "tasks_kept h h' \<Longrightarrow> tasks_kept h' h'' \<Longrightarrow> tasks_kept h h''"
  by (simp add: tasks_kept_def)

lemma quiet_kept: "hier_quiet h h' \<Longrightarrow> tasks_kept h h'"
  unfolding hier_quiet_def tasks_kept_def by (metis hier_viewD(10,12,13,16))

lemma quiet_all: "hier_quiet h h' \<Longrightarrow> hier_all h \<Longrightarrow> hier_all h'"
  unfolding hier_quiet_def hier_all_def by (blast intro: hier_view_ok)

lemma static_all:
  assumes "hier_static c h h'" "hier_ok c h'" "\<And>d. d \<noteq> c \<Longrightarrow> hier_ok d h" shows "hier_all h'"
  unfolding hier_all_def
proof
  fix d show "hier_ok d h'" using assms hier_view_ok [OF static_other [OF assms(1)]] by (cases "d = c") auto
qed

section \<open>Throttling and replenishing\<close>

lemma set_throttled_view:
  assumes "h' = upd_g c g (\<lambda>r. r\<lparr>g_throttled := b\<rparr>) h"
  shows "g_queue (h_rq h' d x) = g_queue (h_rq h d x)" "g_bitmap (h_rq h' d x) = g_bitmap (h_rq h d x)"
    "g_nr_running (h_rq h' d x) = g_nr_running (h_rq h d x)" "g_rr_nr_running (h_rq h' d x) = g_rr_nr_running (h_rq h d x)"
    "g_highest (h_rq h' d x) = g_highest (h_rq h d x)" "g_nr_boosted (h_rq h' d x) = g_nr_boosted (h_rq h d x)"
    "g_on_rq (h_rq h' d x) = g_on_rq (h_rq h d x)" "g_on_list (h_rq h' d x) = g_on_list (h_rq h d x)"
    "h_tg h' = h_tg h" "h_st h' = h_st h" "d \<noteq> c \<or> x \<noteq> g \<Longrightarrow> h_rq h' d x = h_rq h d x" "g_throttled (h_rq h' c g) = b"
  by (auto simp: assms st_simps)

lemma set_throttled_wf:
  assumes wf: "hier_wf F c h" and h': "h' = upd_g c g (\<lambda>r. r\<lparr>g_throttled := b\<rparr>) h" shows "hier_wf (insert g F) c h'"
proof -
  note s = set_throttled_view [OF h']
  have q: "queued_tasks c h' = queued_tasks c h" by (simp add: queued_tasks_def s)
  have u: "under c h' x = under c h x" for x unfolding under_def q by (simp add: s)
  have "members_ok c h' x" "group_counts_ok c h' x" for x
    using hier_wfD(2,3) [OF wf, of x]
    by (simp_all add: members_ok_def group_counts_ok_def Let_def s u se_here_def se_group_def on_rt_rq_def rt_se_prio_g_def rt_se_boosted_def rr_tasks_def
        cong: ent.case_cong)
  moreover have "ents_ok c h'" using hier_wfD(4) [OF wf] by (simp add: ents_ok_def s se_here_def se_group_def on_rt_rq_def se_on_list_def cong: ent.case_cong)
  moreover have "groups_ok (insert g F) c h'" using hier_wfD(5) [OF wf] s(3,7,11) by (auto simp: groups_ok_def)
  ultimately show ?thesis using hier_wfD(1,6,7) [OF wf] by (simp add: hier_wf_def s q)
qed

lemma hier_wf_settle:
  assumes "hier_wf {g} c h" "g = [] \<or> (g_on_rq (h_rq h c g) \<longleftrightarrow> g_nr_running (h_rq h c g) \<noteq> 0 \<and> \<not> rt_rq_throttled_g (h_rq h c g))"
  shows "hier_wf {} c h"
  using assms unfolding hier_wf_def groups_ok_def by auto

lemma set_throttled_other: "d \<noteq> c \<Longrightarrow> hier_view d h (upd_g c g f h)"
  by (simp add: hier_view_def st_simps)

lemma move_zero: "move_entity 0"
  by (simp add: move_entity_def DEQUEUE_SAVE_def)

lemma hier_okD:
  assumes "hier_ok c h"
  shows "hier_wf {} c h" "unat (hier_rest c h) \<le> MAX_TASKS"
    "rt_queued (rtq (h_st h) c) \<longleftrightarrow> g_nr_running (h_rq h c []) \<noteq> 0 \<and> \<not> rt_rq_throttled_g (h_rq h c [])"
  using assms by (simp_all add: hier_ok_def)

text \<open>Setting or clearing the flag, and then moving the group, keeps the invariant.\<close>

lemma throttle_ok:
  assumes all: "hier_all h" and h1: "h1 = upd_g c g (\<lambda>r. r\<lparr>g_throttled := True\<rparr>) h"
  shows "if rt_rq_throttled_g (h_rq h1 c g) then \<exists>h'. sched_rt_rq_dequeue_g c g h1 = Some h' \<and> hier_all h' \<and> tasks_kept h h' else hier_all h1"
proof -
  have ok: "hier_ok c h" using all by (simp add: hier_all_def)
  note s = set_throttled_view [OF h1] and o = hier_okD [OF ok]
  have wf: "hier_wf {g} c h1" by (rule set_throttled_wf [OF o(1) h1])
  have others: "hier_ok d h1" if "d \<noteq> c" for d
    using all hier_view_ok [OF set_throttled_other [OF that]] unfolding h1 hier_all_def by blast
  have rest: "hier_rest c h1 = hier_rest c h" by (simp add: hier_rest_def s)
  have w: "g \<noteq> [] \<Longrightarrow> g_on_rq (h_rq h c g) \<longleftrightarrow> g_nr_running (h_rq h c g) \<noteq> 0 \<and> \<not> rt_rq_throttled_g (h_rq h c g)"
    using hier_wfD(5) [OF o(1)] by (simp add: groups_ok_def)
  have kept: "tasks_kept h h1" by (simp add: tasks_kept_def s)
  have nz: "g_nr_running (h_rq h1 c []) \<noteq> 0" if "rt_queued (rtq (h_st h1) c)" using that o(3) by (simp add: s)
  show ?thesis
  proof (cases "rt_rq_throttled_g (h_rq h1 c g)")
    case False
    then have "\<not> rt_rq_throttled_g (h_rq h c g)" using s(6,12) by (auto simp: rt_rq_throttled_g_def)
    then have "hier_wf {} c h1" "rt_rq_throttled_g (h_rq h1 c []) = rt_rq_throttled_g (h_rq h c [])"
      using hier_wf_settle [OF wf] w False s(3,7) s(11) [of c "[]"] by (cases "g = []"; auto)+
    then have "hier_ok c h1" using o rest by (simp add: hier_ok_def s)
    then have "hier_all h1" using others unfolding hier_all_def by metis
    then show ?thesis using False by simp
  next
    case True
    have "\<exists>h'. sched_rt_rq_dequeue_g c g h1 = Some h' \<and> hier_all h' \<and> tasks_kept h1 h'"
    proof (cases "g = []")
      case g: True
      obtain h' where h': "dequeue_top_rt_rq_g c [] h1 = Some h'" "h_rq h' = h_rq h1" "tasks (h_st h') = tasks (h_st h1)" "h_tg h' = h_tg h1"
        "\<not> rt_queued (rtq (h_st h') c)" "rq_nr_running (rqs (h_st h') c) = hier_rest c h1" "\<forall>d. d \<noteq> c \<longrightarrow> rt_core (h_st h') d = rt_core (h_st h1) d"
        by (rule dequeue_top_g [OF wf]) (use o(2) rest nz in auto)
      have "hier_wf {} c h'" using hier_wf_settle [OF wf] g hier_wf_cong [OF h'(2-4)] by simp
      moreover have "hier_rest c h' = hier_rest c h1" using h'(5,6) by (simp add: hier_rest_def)
      ultimately have "hier_ok c h'" using True g h'(2,5) o(2) rest by (simp add: hier_ok_def)
      moreover have "hier_static c h1 h'" using h' by (simp add: hier_static_def)
      ultimately show ?thesis using static_all others h'(1,3,4) g by (auto simp: sched_rt_rq_dequeue_g_def tasks_kept_def)
    next
      case g: False
      show ?thesis
      proof (cases "g_on_rq (h_rq h1 c g)")
        case on: True
        obtain h' where h': "dequeue_rt_entity_g c 0 (Group g) h1 = Some h'" "hier_ok c h'" "hier_static c h1 h'"
          "\<And>p. p_rt_on_rq (tsk h' p) = p_rt_on_rq (tsk h1 p)"
          by (rule group_ok [OF wf g _ nz move_zero]) (use o(2) rest in auto)
        have "hier_all h'" by (rule static_all [OF h'(3,2) others])
        moreover have "tasks_kept h1 h'" using h'(3,4) by (simp add: hier_static_def tasks_kept_def)
        ultimately show ?thesis using h'(1) g on by (simp add: sched_rt_rq_dequeue_g_def)
      next
        case off: False
        have "hier_wf {} c h1" using hier_wf_settle [OF wf] off True by simp
        moreover have "rt_rq_throttled_g (h_rq h1 c []) = rt_rq_throttled_g (h_rq h c [])" using s(11) [of c "[]"] g by simp
        ultimately have "hier_ok c h1" using o rest by (simp add: hier_ok_def s)
        then have "hier_all h1" using others unfolding hier_all_def by metis
        then show ?thesis using g off by (simp add: sched_rt_rq_dequeue_g_def)
      qed
    qed
    then show ?thesis using True tasks_kept_trans [OF kept] by auto
  qed
qed

lemma sched_rt_rq_enqueue_ok:
  assumes others: "\<And>d. d \<noteq> c \<Longrightarrow> hier_ok d h" and wf: "hier_wf {g} c h" and rest: "unat (hier_rest c h) \<le> MAX_TASKS"
    and q: "rt_queued (rtq (h_st h) c) \<Longrightarrow> g_nr_running (h_rq h c []) \<noteq> 0 \<and> \<not> rt_rq_throttled_g (h_rq h c [])"
    and root: "g \<noteq> [] \<Longrightarrow> rt_queued (rtq (h_st h) c) \<longleftrightarrow> g_nr_running (h_rq h c []) \<noteq> 0 \<and> \<not> rt_rq_throttled_g (h_rq h c [])"
    and on: "g \<noteq> [] \<Longrightarrow> g_on_rq (h_rq h c g) \<Longrightarrow> \<not> rt_rq_throttled_g (h_rq h c g)"
  shows "\<exists>h'. sched_rt_rq_enqueue_g c g h = Some h' \<and> hier_all h' \<and> tasks_kept h h'"
proof -
  have grp: "g_on_rq (h_rq h c g) \<Longrightarrow> g_nr_running (h_rq h c g) \<noteq> 0" if "g \<noteq> []" using hier_wfD(5) [OF wf] that by (simp add: groups_ok_def)
  have all: "hier_all h" if "hier_ok c h" using that others unfolding hier_all_def by metis
  have root0: "hier_wf {} c h" if "g = []" using hier_wf_settle [OF wf] that by simp
  have main: "\<exists>h1. (if g = [] then Some (enqueue_top_rt_rq_g c h) else if \<not> g_on_rq (h_rq h c g) then enqueue_rt_entity_g c 0 (Group g) h else Some h) = Some h1 \<and>
    hier_all h1 \<and> tasks_kept h h1"
  proof (cases "g = []")
    case True
    show ?thesis
    proof (cases "rt_queued (rtq (h_st h) c)")
      case rq: True
      then have "hier_ok c h" using root0 [OF True] rest q by (simp add: hier_ok_def)
      then show ?thesis using all rq True by (auto simp: enqueue_top_rt_rq_g_def)
    next
      case rq: False
      note t = enqueue_top_g [OF rq]
      have "hier_ok c (enqueue_top_rt_rq_g c h)"
        using root0 [OF True] hier_wf_cong [OF t(1-3)] t rest rq by (simp add: hier_ok_def hier_rest_def [of c h])
      moreover have "hier_static c h (enqueue_top_rt_rq_g c h)" using t by (simp add: hier_static_def)
      ultimately have "hier_all (enqueue_top_rt_rq_g c h)" using static_all others by blast
      then show ?thesis using True t(2,3) by (simp add: tasks_kept_def)
    qed
  next
    case g: False
    show ?thesis
    proof (cases "g_on_rq (h_rq h c g)")
      case True
      then have "hier_wf {} c h" using hier_wf_settle [OF wf] on grp g by blast
      then have "hier_ok c h" using rest root g by (simp add: hier_ok_def)
      then show ?thesis using all True g by auto
    next
      case False
      obtain h' where h': "enqueue_rt_entity_g c 0 (Group g) h = Some h'" "hier_ok c h'" "hier_static c h h'"
        "\<And>p. p_rt_on_rq (tsk h' p) = p_rt_on_rq (tsk h p)"
        by (rule group_ok [OF wf g rest _ move_zero]) (use q in auto)
      have "hier_all h'" by (rule static_all [OF h'(3,2) others])
      moreover have "tasks_kept h h'" using h'(3,4) by (simp add: hier_static_def tasks_kept_def)
      ultimately show ?thesis using h'(1) False g by simp
    qed
  qed
  show ?thesis
  proof (cases "g_nr_running (h_rq h c g) = 0")
    case True
    then have "hier_wf {} c h" using hier_wf_settle [OF wf] grp by blast
    then have "hier_ok c h" using rest root q True by (cases "g = []") (auto simp: hier_ok_def)
    then show ?thesis using all True by (simp add: sched_rt_rq_enqueue_g_def)
  next
    case False
    obtain h1 where h1: "(if g = [] then Some (enqueue_top_rt_rq_g c h) else if \<not> g_on_rq (h_rq h c g) then enqueue_rt_entity_g c 0 (Group g) h else Some h) = Some h1"
      "hier_all h1" "tasks_kept h h1" using main by blast
    then have "sched_rt_rq_enqueue_g c g h = Some h1 \<or> sched_rt_rq_enqueue_g c g h = Some (upd_st (resched_curr c) h1)"
      using False by (simp add: sched_rt_rq_enqueue_g_def)
    then show ?thesis
      using h1(2,3) quiet_all [OF resched_hier_quiet h1(2)] tasks_kept_trans [OF h1(3) quiet_kept [OF resched_hier_quiet]] by auto
  qed
qed

lemma enqueue_settled:
  assumes all: "hier_all h" shows "\<exists>h'. sched_rt_rq_enqueue_g c g h = Some h' \<and> hier_all h' \<and> tasks_kept h h'"
proof -
  have o: "hier_ok d h" for d using all by (simp add: hier_all_def)
  note w = hier_okD [OF o [of c]]
  have "hier_wf {g} c h" by (rule hier_wf_mono [OF w(1)]) simp
  then show ?thesis
    by (rule sched_rt_rq_enqueue_ok [OF o]) (use w hier_wfD(5) [OF w(1)] in \<open>auto simp: groups_ok_def\<close>)
qed

lemma unthrottle_ok:
  assumes all: "hier_all h" and h1: "h1 = upd_g c g (\<lambda>r. r\<lparr>g_throttled := False\<rparr>) h" and q: "hier_quiet h1 h2"
  shows "\<exists>h'. sched_rt_rq_enqueue_g c g h2 = Some h' \<and> hier_all h' \<and> tasks_kept h2 h'"
proof -
  have o: "hier_ok d h" for d using all by (simp add: hier_all_def)
  note w = hier_okD [OF o [of c]] and s = set_throttled_view [OF h1]
  have v: "hier_view d h1 h2" for d using q by (simp add: hier_quiet_def)
  note vc = hier_viewD [OF v [of c]] and vs = hier_view_sets [OF v [of c]]
  have vq: "rt_queued (rtq (h_st h2) c) = rt_queued (rtq (h_st h) c)" using rt_core_fields(5) [OF vc(11)] s(10) by simp
  have others: "hier_ok d h2" if "d \<noteq> c" for d
    using hier_view_ok [OF v] hier_view_ok [OF set_throttled_other [OF that] o] unfolding h1 by blast
  have un: "\<not> rt_rq_throttled_g (h_rq h2 c g)" using s(12) vs(5) by (simp add: rt_rq_throttled_g_def)
  have r: "g \<noteq> [] \<Longrightarrow> rt_rq_throttled_g (h_rq h2 c []) = rt_rq_throttled_g (h_rq h c [])" using s(11) [of c "[]"] vs(5) by simp
  have "hier_rest c h1 = hier_rest c h" by (simp add: hier_rest_def s)
  then have rest: "unat (hier_rest c h2) \<le> MAX_TASKS" using w(2) vs(6) by simp
  have nr: "g_nr_running (h_rq h2 c x) = g_nr_running (h_rq h c x)" for x using vc(3) s(3) by simp
  show ?thesis
  proof (rule sched_rt_rq_enqueue_ok [OF others hier_view_wf [OF v set_throttled_wf [OF w(1) h1]] rest])
    show "g_nr_running (h_rq h2 c []) \<noteq> 0 \<and> \<not> rt_rq_throttled_g (h_rq h2 c [])" if "rt_queued (rtq (h_st h2) c)"
      using that w(3) r un vq nr by (cases "g = []") simp_all
  qed (use w(3) r un vq nr in simp_all)
qed

section \<open>Accounting, and the period timer\<close>

lemma runtime_exceeded_ok:
  assumes all: "hier_all h" shows "\<exists>b h'. sched_rt_runtime_exceeded_g c g h = Some (b, h') \<and> hier_all h' \<and> tasks_kept h h'"
proof -
  define h1 where "h1 = balance_runtime_g c g h"
  have q1: "hier_quiet h h1" unfolding h1_def by (rule balance_hier_quiet)
  have a1: "hier_all h1" "tasks_kept h h1" using quiet_all [OF q1 all] quiet_kept [OF q1] .
  define h2 where "h2 = upd_g c g (\<lambda>r. r\<lparr>g_throttled := True\<rparr>) h1"
  have k2: "tasks_kept h1 h2" by (simp add: h2_def tasks_kept_def st_simps)
  have t: "if rt_rq_throttled_g (h_rq h2 c g) then \<exists>h'. sched_rt_rq_dequeue_g c g h2 = Some h' \<and> hier_all h' \<and> tasks_kept h1 h' else hier_all h2"
    by (rule throttle_ok [OF a1(1) h2_def])
  define h3 where "h3 = upd_g c g (\<lambda>r. r\<lparr>g_time := 0\<rparr>) h1"
  have q3: "hier_quiet h1 h3" unfolding h3_def by (rule upd_g_quiet) (simp add: group_view_def)
  have a3: "hier_all h3" "tasks_kept h h3" using quiet_all [OF q3 a1(1)] tasks_kept_trans [OF a1(2) quiet_kept [OF q3]] .
  show ?thesis
  proof (cases "g_throttled (h_rq h c g) \<or> g_runtime (h_rq h c g) \<ge> rtb_period (h_bw h g) \<or> g_runtime (h_rq h1 c g) = RUNTIME_INF \<or>
      \<not> g_time (h_rq h1 c g) > g_runtime (h_rq h1 c g)")
    case True
    then show ?thesis using all a1 by (auto simp: sched_rt_runtime_exceeded_g_def Let_def h1_def [symmetric])
  next
    case False
    have nt: "\<not> rt_rq_throttled_g (h_rq h3 c g)"
      using False hier_viewD(6) [of c h h1] q1 by (simp add: h3_def rt_rq_throttled_g_def st_simps hier_quiet_def)
    have run: "sched_rt_runtime_exceeded_g c g h = (let h = (if rtb_runtime (h_bw h1 g) \<noteq> 0 then h2 else h3)
        in if rt_rq_throttled_g (h_rq h c g) then do { h \<leftarrow> sched_rt_rq_dequeue_g c g h; Some (True, h) } else Some (False, h))"
      using False by (simp add: sched_rt_runtime_exceeded_g_def Let_def h1_def [symmetric] h2_def [symmetric] h3_def [symmetric])
    show ?thesis
    proof (cases "rtb_runtime (h_bw h1 g) \<noteq> 0")
      case False
      then show ?thesis using run nt a3 by auto
    next
      case b: True
      show ?thesis
      proof (cases "rt_rq_throttled_g (h_rq h2 c g)")
        case True
        then obtain h' where "sched_rt_rq_dequeue_g c g h2 = Some h'" "hier_all h'" "tasks_kept h1 h'" using t by auto
        then show ?thesis using run b True tasks_kept_trans [OF a1(2)] by auto
      next
        case False
        then show ?thesis using run b t tasks_kept_trans [OF a1(2) k2] by auto
      qed
    qed
  qed
qed

lemma account_loop_ok:
  "hier_all h \<Longrightarrow> \<exists>h'. account_loop rq c delta es h = Some h' \<and> hier_all h' \<and> tasks_kept h h'"
proof (induction es arbitrary: h)
  case (Cons e es)
  let ?g = "se_group h e"
  have "\<exists>h1. (if g_runtime (h_rq h c ?g) \<noteq> RUNTIME_INF then do {
               (exceeded, h) \<leftarrow> sched_rt_runtime_exceeded_g c ?g (upd_g c ?g (\<lambda>r. r\<lparr>g_time := g_time r + delta\<rparr>) h);
               Some (if exceeded then upd_st (resched_curr rq) h else h)
             } else Some h) = Some h1 \<and> hier_all h1 \<and> tasks_kept h h1"
  proof (cases "g_runtime (h_rq h c ?g) = RUNTIME_INF")
    case False
    let ?h = "upd_g c ?g (\<lambda>r. r\<lparr>g_time := g_time r + delta\<rparr>) h"
    have q: "hier_quiet h ?h" by (rule upd_g_quiet) (simp add: group_view_def)
    obtain b h1 where h1: "sched_rt_runtime_exceeded_g c ?g ?h = Some (b, h1)" "hier_all h1" "tasks_kept ?h h1"
      using runtime_exceeded_ok [OF quiet_all [OF q Cons.prems]] by blast
    have k: "tasks_kept h h1" by (rule tasks_kept_trans [OF quiet_kept [OF q] h1(3)])
    show ?thesis
      using h1(1,2) k False quiet_all [OF resched_hier_quiet h1(2)] tasks_kept_trans [OF k quiet_kept [OF resched_hier_quiet]] by simp
  qed (use Cons.prems in auto)
  then obtain h1 where h1: "(if g_runtime (h_rq h c ?g) \<noteq> RUNTIME_INF then do {
               (exceeded, h) \<leftarrow> sched_rt_runtime_exceeded_g c ?g (upd_g c ?g (\<lambda>r. r\<lparr>g_time := g_time r + delta\<rparr>) h);
               Some (if exceeded then upd_st (resched_curr rq) h else h)
             } else Some h) = Some h1" "hier_all h1" "tasks_kept h h1" by blast
  obtain h' where h': "account_loop rq c delta es h1 = Some h'" "hier_all h'" "tasks_kept h1 h'" using Cons.IH [OF h1(2)] by blast
  have run: "account_loop rq c delta (e # es) h = account_loop rq c delta es h1" unfolding account_loop.simps Let_def h1(1) by simp
  show ?case unfolding run using h' tasks_kept_trans [OF h1(3) h'(3)] by blast
qed simp

lemma update_curr_ok:
  assumes "hier_all h" shows "\<exists>h'. update_curr_rt_g c h = Some h' \<and> hier_all h' \<and> tasks_kept h h'"
proof -
  define now where "now = rq_clock_task (rqs (h_st h) c)"
  define d where "d = now - p_exec_start (tsk h (curr_of (h_st h) c))"
  define h1 where "h1 = upd_st (upd_task (curr_of (h_st h) c) (\<lambda>t. t\<lparr>p_sum_exec := p_sum_exec t + d, p_exec_start := now\<rparr>)) h"
  have q: "hier_quiet h h1" unfolding h1_def by (rule upd_task_hier_quiet) simp
  note a = quiet_all [OF q assms] and k = quiet_kept [OF q]
  obtain h' where h': "account_loop c (rt_rq_of_se (h_st h1) (curr_of (h_st h) c)) d (sched_rt_entities h1 (Task (curr_of (h_st h) c))) h1 = Some h'"
    "hier_all h'" "tasks_kept h1 h'" using account_loop_ok [OF a] by blast
  show ?thesis
    using h' assms a k tasks_kept_trans [OF k h'(3)]
    by (auto simp: update_curr_rt_g_def Let_def now_def [symmetric] d_def [symmetric] h1_def [symmetric])
qed

text \<open>One CPU in the loop of the period timer: every way through it ends in a good state.\<close>

definition good_step :: "hier \<Rightarrow> hier option \<Rightarrow> bool" where
  "good_step h r \<longleftrightarrow> (\<exists>h'. r = Some h' \<and> hier_all h' \<and> tasks_kept h h')"

lemma good_stepI: "hier_all h' \<Longrightarrow> tasks_kept h h' \<Longrightarrow> good_step h (Some h')"
  by (simp add: good_step_def)

lemma good_step_pre: "tasks_kept h h1 \<Longrightarrow> good_step h1 r \<Longrightarrow> good_step h r"
  by (auto simp: good_step_def dest: tasks_kept_trans)

lemma period_timer_cpu_ok:
  assumes all: "hier_all h"
  shows "\<exists>x y h'. period_timer_cpu_g overrun g i (idle, throttled, h) = Some (x, y, h') \<and> hier_all h' \<and> tasks_kept h h'"
proof -
  define h1 where "h1 = (if \<not> feat_rt_runtime_share (h_st h) \<and> g_runtime (h_rq h i g) \<noteq> RUNTIME_INF
             then upd_g i g (\<lambda>r. r\<lparr>g_runtime := rtb_runtime (h_bw h g)\<rparr>) h else h)"
  define h2 where "h2 = upd_st (update_rq_clock i) h1"
  define h3 where "h3 = (if g_throttled (h_rq h2 i g) then balance_runtime_g i g h2 else h2)"
  define h4 where "h4 = upd_g i g (\<lambda>r. r\<lparr>g_time := g_time r - min (g_time r) (overrun * g_runtime (h_rq h3 i g))\<rparr>) h3"
  define h5 where "h5 = upd_g i g (\<lambda>r. r\<lparr>g_throttled := False\<rparr>) h4"
  define h6 where "h6 = (if g_nr_running (h_rq h5 i g) \<noteq> 0 \<and> curr_of (h_st h5) i = rq_idle (rqs (h_st h5) i)
                           then upd_st (rq_clock_cancel_skipupdate i) h5 else h5)"
  note stages = h1_def [symmetric] h2_def [symmetric] h3_def [symmetric] h4_def [symmetric] h5_def [symmetric] h6_def [symmetric]
    if_True if_False prod.case case_prod_conv simp_thms not_False_eq_True
  have q1: "hier_quiet h h1" unfolding h1_def by (simp add: upd_g_quiet group_view_def)
  have q2: "hier_quiet h h2" using hier_quiet_trans [OF q1 clock_hier_quiet(1)] unfolding h2_def .
  have q3: "hier_quiet h h3" using hier_quiet_trans [OF q2 balance_hier_quiet] q2 unfolding h3_def by simp
  have "hier_quiet h3 h4" unfolding h4_def by (rule upd_g_quiet) (simp add: group_view_def)
  then have q4: "hier_quiet h h4" using hier_quiet_trans [OF q3] by blast
  have q6: "hier_quiet h5 h6" unfolding h6_def by (simp add: clock_hier_quiet(2))
  have k6: "tasks_kept h4 h6" using tasks_kept_trans [OF _ quiet_kept [OF q6], of h4] by (simp add: h5_def tasks_kept_def st_simps)
  have g1: "good_step h (Some h1)" "good_step h (Some h2)" "good_step h (Some h4)"
    by (rule good_stepI [OF quiet_all [OF q1 all] quiet_kept [OF q1]], rule good_stepI [OF quiet_all [OF q2 all] quiet_kept [OF q2]],
        rule good_stepI [OF quiet_all [OF q4 all] quiet_kept [OF q4]])
  have g2: "good_step h (sched_rt_rq_enqueue_g i g h2)"
    by (rule good_step_pre [OF quiet_kept [OF q2]]) (use enqueue_settled [OF quiet_all [OF q2 all]] in \<open>simp add: good_step_def\<close>)
  have g6: "good_step h (sched_rt_rq_enqueue_g i g h6)"
    by (rule good_step_pre [OF tasks_kept_trans [OF quiet_kept [OF q4] k6]])
      (use unthrottle_ok [OF quiet_all [OF q4 all] h5_def q6] in \<open>simp add: good_step_def\<close>)
  have "\<exists>a b r. good_step h r \<and> period_timer_cpu_g overrun g i (idle, throttled, h) = r \<bind> (\<lambda>h. Some (a, b, h))"
  proof (cases "g_time (h_rq h1 i g) = 0 \<and> g_nr_running (h_rq h1 i g) = 0")
    case True
    then have "period_timer_cpu_g overrun g i (idle, throttled, h) = Some h1 \<bind> (\<lambda>h. Some (idle, throttled, h))"
      unfolding period_timer_cpu_g_def Let_def by (simp add: h1_def [symmetric])
    then show ?thesis using g1(1) by blast
  next
    case c1: False
    show ?thesis
    proof (cases "g_time (h_rq h2 i g) \<noteq> 0")
      case t: True
      show ?thesis
      proof (cases "g_throttled (h_rq h4 i g) \<and> g_time (h_rq h4 i g) < g_runtime (h_rq h3 i g)")
        case True
        have "period_timer_cpu_g overrun g i (idle, throttled, h) = sched_rt_rq_enqueue_g i g h6 \<bind>
          (\<lambda>h. Some (if g_time (h_rq h6 i g) \<noteq> 0 \<or> g_nr_running (h_rq h6 i g) \<noteq> 0 then False else idle, if g_throttled (h_rq h6 i g) then True else throttled, h))"
          unfolding period_timer_cpu_g_def Let_def by (simp only: stages c1 t True)
        then show ?thesis using g6 by blast
      next
        case False
        have "period_timer_cpu_g overrun g i (idle, throttled, h) = Some h4 \<bind>
          (\<lambda>h. Some (if g_time (h_rq h4 i g) \<noteq> 0 \<or> g_nr_running (h_rq h4 i g) \<noteq> 0 then False else idle, if g_throttled (h_rq h4 i g) then True else throttled, h))"
          unfolding period_timer_cpu_g_def Let_def by (simp only: stages c1 t False)
        then show ?thesis using g1(3) by blast
      qed
    next
      case t: False
      show ?thesis
      proof (cases "g_nr_running (h_rq h2 i g) \<noteq> 0")
        case True
        have "period_timer_cpu_g overrun g i (idle, throttled, h) =
          (if \<not> rt_rq_throttled_g (h_rq h2 i g) then sched_rt_rq_enqueue_g i g h2 else Some h2) \<bind>
          (\<lambda>h. Some (False, if g_throttled (h_rq h2 i g) then True else throttled, h))"
          unfolding period_timer_cpu_g_def Let_def by (simp only: stages c1 t True)
        moreover have "good_step h (if \<not> rt_rq_throttled_g (h_rq h2 i g) then sched_rt_rq_enqueue_g i g h2 else Some h2)" using g1(2) g2 by simp
        ultimately show ?thesis by blast
      next
        case False
        have "period_timer_cpu_g overrun g i (idle, throttled, h) = Some h2 \<bind>
          (\<lambda>h. Some (idle, if g_throttled (h_rq h2 i g) then True else throttled, h))"
          unfolding period_timer_cpu_g_def Let_def by (simp only: stages c1 t False)
        then show ?thesis using g1(2) by blast
      qed
    qed
  qed
  then obtain a b r where "good_step h r" "period_timer_cpu_g overrun g i (idle, throttled, h) = r \<bind> (\<lambda>h. Some (a, b, h))" by blast
  then show ?thesis by (auto simp: good_step_def)
qed

lemma period_timer_ok:
  assumes "hier_all h" shows "\<exists>idle h'. do_sched_rt_period_timer_g overrun g h = Some (idle, h') \<and> hier_all h' \<and> tasks_kept h h'"
proof -
  have "\<exists>x y h'. period_timer_cpus overrun g is (idle, throttled, h) = Some (x, y, h') \<and> hier_all h' \<and> tasks_kept h h'"
    if "hier_all h" for "is" idle throttled h
    using that
  proof (induction "is" arbitrary: idle throttled h)
    case (Cons i "is")
    obtain x y h1 where h1: "period_timer_cpu_g overrun g i (idle, throttled, h) = Some (x, y, h1)" "hier_all h1" "tasks_kept h h1"
      using period_timer_cpu_ok [OF Cons.prems] by blast
    obtain x' y' h' where "period_timer_cpus overrun g is (x, y, h1) = Some (x', y', h')" "hier_all h'" "tasks_kept h1 h'"
      using Cons.IH [OF h1(2)] by blast
    then show ?case using h1 tasks_kept_trans [OF h1(3)] by auto
  qed simp
  then obtain x y h' where "period_timer_cpus overrun g (if g = [] then cpu_online_mask (h_st h) else rd_span (rd (h_st h))) (True, False, h) = Some (x, y, h')"
    "hier_all h'" "tasks_kept h h'" using assms by blast
  then show ?thesis unfolding do_sched_rt_period_timer_g_def Let_def by auto
qed

section \<open>The handlers\<close>

text \<open>Requeueing changes the order within a priority and nothing else.\<close>

lemma reorder_wf:
  assumes wf: "hier_wf F c h" and arr: "rt_array_ok q (g_bitmap (h_rq h c g))" and same: "\<And>i. i < 100 \<Longrightarrow> set (q ! i) = set (g_queue (h_rq h c g) ! i)"
    and h': "h' = upd_g c g (\<lambda>r. r\<lparr>g_queue := q\<rparr>) h"
  shows "hier_wf F c h'"
proof -
  have sel: "g_bitmap (h_rq h' c x) = g_bitmap (h_rq h c x)" "g_nr_running (h_rq h' c x) = g_nr_running (h_rq h c x)"
    "g_rr_nr_running (h_rq h' c x) = g_rr_nr_running (h_rq h c x)" "g_highest (h_rq h' c x) = g_highest (h_rq h c x)"
    "g_throttled (h_rq h' c x) = g_throttled (h_rq h c x)" "g_nr_boosted (h_rq h' c x) = g_nr_boosted (h_rq h c x)"
    "g_on_rq (h_rq h' c x) = g_on_rq (h_rq h c x)" "g_on_list (h_rq h' c x) = g_on_list (h_rq h c x)"
    "h_tg h' = h_tg h" "h_st h' = h_st h" "g_queue (h_rq h' c x) = (if x = g then q else g_queue (h_rq h c x))" for x
    by (simp_all add: h' st_simps)
  have old: "rt_array_ok (g_queue (h_rq h c g)) (g_bitmap (h_rq h c g))" by (rule hier_wfD(1) [OF wf])
  have f: "first_q q = first_q (g_queue (h_rq h c g))" using rt_array_first [OF arr] rt_array_first [OF old] by simp
  have m: "qs_mem e (g_queue (h_rq h' c x)) \<longleftrightarrow> gmem c h x e" for e x
    using same rt_array_okD(1) [OF arr] rt_array_okD(1) [OF old] by (auto simp: sel(11) qs_mem_nth)
  have st: "se_here c h' e = se_here c h e" "se_group h' e = se_group h e" "on_rt_rq c h' e = on_rt_rq c h e" "se_on_list c h' e = se_on_list c h e"
    "rt_se_prio_g c h' e = rt_se_prio_g c h e" "rt_se_boosted c h' e = rt_se_boosted c h e" "rr_tasks h' = rr_tasks h" for e
    by (simp_all add: se_here_def se_group_def on_rt_rq_def se_on_list_def rt_se_prio_g_def rt_se_boosted_def rr_tasks_def sel(4-10) split: ent.splits)
  have qd: "queued_tasks c h' = queued_tasks c h" by (simp add: queued_tasks_def sel(10))
  have u: "under c h' x = under c h x" for x unfolding under_def qd by (simp add: sel(7,9))
  have "rt_array_ok (g_queue (h_rq h' c x)) (g_bitmap (h_rq h' c x))" for x using arr hier_wfD(1) [OF wf, of x] by (simp add: sel(1,11))
  moreover have "members_ok c h' x" for x
    using hier_wfD(2) [OF wf, of x] same unfolding members_ok_def st by (cases "x = g") (simp_all add: sel(11))
  moreover have "group_counts_ok c h' x" for x
    using hier_wfD(3) [OF wf, of x] f unfolding group_counts_ok_def Let_def u m st by (simp add: sel(2-4,6,11))
  moreover have "ents_ok c h'" using hier_wfD(4) [OF wf] unfolding ents_ok_def m st .
  moreover have "groups_ok F c h'" using hier_wfD(5) [OF wf] unfolding groups_ok_def rt_rq_throttled_g_def sel(2,5-7) .
  ultimately show ?thesis using hier_wfD(6,7) [OF wf] qd by (simp add: hier_wf_def)
qed

lemma requeue_entity_ok:
  assumes all: "hier_all h" and here: "se_here c h e"
  shows "good_step h (requeue_rt_entity_g c head e h)"
proof (cases "on_rt_rq c h e")
  case True
  have ok: "hier_ok c h" using all by (simp add: hier_all_def)
  note o = hier_okD [OF ok]
  let ?g = "se_group h e"
  let ?q = "g_queue (h_rq h c ?g)"
  have gm: "gmem c h ?g e" using member_iff [OF o(1)] here True by blast
  have arr: "rt_array_ok ?q (g_bitmap (h_rq h c ?g))" by (rule hier_wfD(1) [OF o(1)])
  obtain i where i: "i < 100" "e \<in> set (?q ! i)" "rt_se_prio_g c h e = int i" by (rule member_at [OF o(1) gm])
  define q where "q = (if head then qs_add else qs_add_tail) i e (qs_del e ?q)"
  have un: "unlink_g c e h = upd_g c ?g (\<lambda>r. r\<lparr>g_queue := qs_del e (g_queue r)\<rparr>) h"
  proof -
    have "qs_del e (g_queue (h_rq h c x)) = g_queue (h_rq h c x)" if "x \<noteq> ?g" for x using that member_iff [OF o(1)] by (intro qs_del_absent) auto
    then have "(\<lambda>x. (h_rq h c x)\<lparr>g_queue := qs_del e (g_queue (h_rq h c x))\<rparr>) = (h_rq h c)(?g := (h_rq h c ?g)\<lparr>g_queue := qs_del e ?q\<rparr>)" by (auto simp: fun_eq_iff)
    then show ?thesis by (simp add: unlink_g_def upd_g_def)
  qed
  define h' where "h' = upd_g c ?g (\<lambda>r. r\<lparr>g_queue := q\<rparr>) h"
  have run: "requeue_rt_entity_g c head e h = Some h'"
    using True i rt_array_okD(1) [OF arr] by (simp add: requeue_rt_entity_g_def un link_g_def in_bounds_def st_simps h'_def q_def upd_g_def)
  note del = rt_array_delete(1) [OF arr i(1,2)]
  have nm: "\<not> qs_mem e (qs_del e ?q)" by (simp add: qs_mem_del)
  have qq: "q = qs_add i e (qs_del e ?q) \<or> q = qs_add_tail i e (qs_del e ?q)" by (simp add: q_def)
  note ins = rt_array_insert [OF del i(1) nm qq]
  have b: "(g_bitmap (h_rq h c ?g))[i := True] = g_bitmap (h_rq h c ?g)" using rt_array_okD(4) [OF arr, of i] i by (auto simp: list_update_same_conv rt_array_okD(2) [OF arr])
  then have bm: "(if qs_del e ?q ! i = [] then (g_bitmap (h_rq h c ?g))[i := False] else g_bitmap (h_rq h c ?g))[i := True] = g_bitmap (h_rq h c ?g)" by simp
  have arr': "rt_array_ok q (g_bitmap (h_rq h c ?g))" using ins(1) unfolding bm .
  have same: "set (q ! k) = set (?q ! k)" if "k < 100" for k
    using ins(5) [OF that] i qs_ok_unique [OF rt_array_okD(5) [OF arr], of k i e] that rt_array_okD(1) [OF arr] by (auto simp: nth_qs_del)
  have w: "hier_wf {} c h'" by (rule reorder_wf [OF o(1) arr' same h'_def])
  have nr: "g_nr_running (h_rq h' c x) = g_nr_running (h_rq h c x)" "rt_rq_throttled_g (h_rq h' c x) = rt_rq_throttled_g (h_rq h c x)" "h_st h' = h_st h" for x
    by (simp_all add: h'_def st_simps rt_rq_throttled_g_def)
  have "hier_rest c h' = hier_rest c h" by (simp add: hier_rest_def nr)
  then have "hier_ok c h'" using w o by (simp add: hier_ok_def nr)
  moreover have "hier_static c h h'" by (simp add: h'_def hier_static_def st_simps)
  ultimately have "hier_all h'" using static_all all by (auto simp: hier_all_def)
  moreover have "tasks_kept h h'" by (simp add: h'_def tasks_kept_def st_simps)
  ultimately show ?thesis unfolding run by (rule good_stepI)
qed (use all in \<open>simp add: requeue_rt_entity_g_def good_step_def\<close>)

lemma requeue_ok:
  assumes "hier_all h" shows "good_step h (requeue_task_rt_g p head h)"
proof -
  let ?c = "rt_rq_of_se (h_st h) p"
  have "good_step h (requeue_loop ?c head es h)" if "hier_all h" "\<forall>e \<in> set es. se_here ?c h e" for es h
    using that
  proof (induction es arbitrary: h)
    case (Cons e es)
    obtain h1 where h1: "requeue_rt_entity_g ?c head e h = Some h1" "hier_all h1" "tasks_kept h h1"
      using requeue_entity_ok [OF Cons.prems(1), of ?c e head] Cons.prems(2) by (auto simp: good_step_def)
    have "\<forall>y \<in> set es. se_here ?c h1 y" using Cons.prems(2) h1(3) by (auto simp: se_here_def tasks_kept_def split: ent.splits)
    then have "good_step h1 (requeue_loop ?c head es h1)" using Cons.IH [OF h1(2)] by blast
    then show ?case using good_step_pre [OF h1(3)] h1(1) by simp
  qed (simp add: good_step_def)
  moreover have "\<forall>e \<in> set (sched_rt_entities h (Task p)). se_here ?c h e"
    by (auto simp: sched_rt_entities_def se_here_def rt_rq_of_se_def group_entities_set split: ent.splits)
  ultimately show ?thesis using assms by (simp add: requeue_task_rt_g_def)
qed

lemma enqueue_handler_ok:
  assumes all: "hier_all h" and p: "\<not> p_rt_on_rq (tsk h p)" "0 \<le> p_prio (tsk h p)" "p_prio (tsk h p) < 100"
    and size: "card (insert p (queued_tasks (p_cpu (tsk h p)) h)) \<le> MAX_TASKS" and flags: "move_entity flags"
  obtains h' where "enqueue_task_rt_g c p flags h = Some h'" "hier_all h'" "h_tg h' = h_tg h"
    "\<And>q. p_cpu (tsk h' q) = p_cpu (tsk h q) \<and> p_prio (tsk h' q) = p_prio (tsk h q) \<and> p_rt_on_rq (tsk h' q) = (q = p \<or> p_rt_on_rq (tsk h q))"
    "g_queue (h_rq h' (p_cpu (tsk h p)) (h_tg h p)) =
       (if has_flag flags ENQUEUE_HEAD then qs_add else qs_add_tail) (nat (p_prio (tsk h p))) (Task p) (g_queue (h_rq h (p_cpu (tsk h p)) (h_tg h p)))"
    "\<And>x. g_throttled (h_rq h' (p_cpu (tsk h p)) x) = g_throttled (h_rq h (p_cpu (tsk h p)) x)"
proof -
  define h1 where "h1 = (if has_flag flags ENQUEUE_WAKEUP then upd_st (upd_task p (\<lambda>t. t\<lparr>p_rt_timeout := 0\<rparr>)) h else h)"
  have q1: "hier_quiet h h1" unfolding h1_def by (simp add: upd_task_hier_quiet)
  let ?d = "p_cpu (tsk h p)"
  note k1 = quiet_kept [OF q1] and a1 = quiet_all [OF q1 all]
  have v: "hier_view ?d h h1" using q1 by (simp add: hier_quiet_def)
  note kd = hier_view_sets(1) [OF v] hier_viewD(1,6) [OF v]
  obtain h2 where h2: "enqueue_rt_entity_g ?d flags (Task p) h1 = Some h2" "hier_ok ?d h2" "hier_static ?d h1 h2"
    "\<And>q. p_rt_on_rq (tsk h2 q) = (q = p \<or> p_rt_on_rq (tsk h1 q))"
    "g_queue (h_rq h2 ?d (h_tg h1 p)) =
       (if has_flag flags ENQUEUE_HEAD then qs_add else qs_add_tail) (nat (p_prio (tsk h1 p))) (Task p) (g_queue (h_rq h1 ?d (h_tg h1 p)))"
    by (rule enqueue_task_ok [of ?d h1 p flags]) (use a1 k1 p size flags kd(1) in \<open>auto simp: hier_all_def tasks_kept_def\<close>)
  have a2: "hier_all h2" by (rule static_all [OF h2(3,2)]) (use a1 in \<open>simp add: hier_all_def\<close>)
  define h3 where "h3 = (if \<not> task_current (h_st h2) c p \<and> p_nr_cpus_allowed (tsk h2 p) > 1 then upd_st (enqueue_pushable_task c p) h2 else h2)"
  have q3: "hier_quiet h2 h3" unfolding h3_def by (simp add: pushable_hier_quiet)
  have run: "enqueue_task_rt_g c p flags h = Some h3"
    using h2(1) k1 unfolding enqueue_task_rt_g_def Let_def h1_def [symmetric] by (simp add: h3_def rt_rq_of_se_def tasks_kept_def)
  have v3: "hier_view ?d h2 h3" using q3 by (simp add: hier_quiet_def)
  show ?thesis
    by (rule that [OF run quiet_all [OF q3 a2]])
      (use k1 quiet_kept [OF q3] h2(3-5) hier_viewD(1,6) [OF v3] kd(2,3) in \<open>auto simp: tasks_kept_def hier_static_def\<close>)
qed

lemma dequeue_handler_ok:
  assumes all: "hier_all h" and flags: "move_entity flags"
  obtains h' where "dequeue_task_rt_g c p flags h = Some h'" "hier_all h'" "h_tg h' = h_tg h"
    "\<And>q. p_cpu (tsk h' q) = p_cpu (tsk h q) \<and> p_prio (tsk h' q) = p_prio (tsk h q) \<and> p_rt_on_rq (tsk h' q) = (q \<noteq> p \<and> p_rt_on_rq (tsk h q))"
proof -
  obtain h1 where h1: "update_curr_rt_g c h = Some h1" "hier_all h1" "tasks_kept h h1" using update_curr_ok [OF all] by blast
  let ?d = "p_cpu (tsk h1 p)"
  have ok1: "hier_ok ?d h1" using h1(2) by (simp add: hier_all_def)
  obtain h2 where h2: "dequeue_rt_entity_g ?d flags (Task p) h1 = Some h2" "hier_ok ?d h2" "hier_static ?d h1 h2"
    "\<And>q. p_rt_on_rq (tsk h2 q) = (q \<noteq> p \<and> p_rt_on_rq (tsk h1 q))"
    by (rule dequeue_task_ok [OF ok1 refl flags]) blast
  have a2: "hier_all h2" by (rule static_all [OF h2(3,2)]) (use h1(2) in \<open>simp add: hier_all_def\<close>)
  have run: "dequeue_task_rt_g c p flags h = Some (upd_st (dequeue_pushable_task c p) h2)"
    using h1(1) h2(1) by (simp add: dequeue_task_rt_g_def rt_rq_of_se_def)
  note q3 = pushable_hier_quiet(2) [of h2 c p]
  show ?thesis
    by (rule that [OF run quiet_all [OF q3 a2]]) (use h1(3) quiet_kept [OF q3] h2(3,4) in \<open>auto simp: tasks_kept_def hier_static_def\<close>)
qed

lemma pick_handler_ok: "hier_all h \<Longrightarrow> pick_next_task_rt_raw_g c h = Some (p, h') \<Longrightarrow> hier_all h'"
  using quiet_all [OF upd_task_hier_quiet] by (auto simp: pick_next_task_rt_raw_g_def bind_eq_Some_conv)

section \<open>Every sequence of operations\<close>

text \<open>
  A task that is not queued may change its priority, its policy, its CPU and its group (\<open>set_task_rq\<close>, \<open>__setscheduler\<close>, \<open>rt_mutex_setprio\<close>), and the current task changes.
\<close>

definition retarget :: "tid \<Rightarrow> int \<Rightarrow> int \<Rightarrow> int \<Rightarrow> cpu \<Rightarrow> gid \<Rightarrow> hier \<Rightarrow> hier" where
  "retarget p prio normal policy c g h =
    (upd_st (upd_task p (\<lambda>t. t\<lparr>p_prio := prio, p_normal_prio := normal, p_policy := policy, p_cpu := c\<rparr>)) h)\<lparr>h_tg := (h_tg h)(p := g)\<rparr>"

inductive hier_step :: "hier \<Rightarrow> hier \<Rightarrow> bool" where
  Enqueue: "\<not> p_rt_on_rq (tsk h p) \<Longrightarrow> 0 \<le> p_prio (tsk h p) \<Longrightarrow> p_prio (tsk h p) < 100 \<Longrightarrow>
    card (insert p (queued_tasks (p_cpu (tsk h p)) h)) \<le> MAX_TASKS \<Longrightarrow> move_entity flags \<Longrightarrow>
    enqueue_task_rt_g c p flags h = Some h' \<Longrightarrow> hier_step h h'"
| Dequeue: "move_entity flags \<Longrightarrow> dequeue_task_rt_g c p flags h = Some h' \<Longrightarrow> hier_step h h'"
| Update_curr: "update_curr_rt_g c h = Some h' \<Longrightarrow> hier_step h h'"
| Requeue: "requeue_task_rt_g p head h = Some h' \<Longrightarrow> hier_step h h'"
| Timer: "do_sched_rt_period_timer_g overrun g h = Some (idle, h') \<Longrightarrow> hier_step h h'"
| Pick: "pick_next_task_rt_raw_g c h = Some (p, h') \<Longrightarrow> hier_step h h'"
| Retarget: "\<not> p_rt_on_rq (tsk h p) \<Longrightarrow> hier_step h (retarget p prio normal policy c g h)"
| Switch: "hier_step h (upd_st (upd_rq c (\<lambda>r. r\<lparr>rq_curr := p\<rparr>)) h)"

lemma retarget_ok:
  assumes all: "hier_all h" and p: "\<not> p_rt_on_rq (tsk h p)" shows "hier_all (retarget p prio normal policy c g h)" (is "hier_all ?h")
proof -
  have sel: "h_rq ?h = h_rq h" "rqs (h_st ?h) = rqs (h_st h)" "\<And>q. q \<noteq> p \<Longrightarrow> tsk ?h q = tsk h q" "\<And>q. q \<noteq> p \<Longrightarrow> h_tg ?h q = h_tg h q"
    "\<And>q. p_rt_on_rq (tsk ?h q) = p_rt_on_rq (tsk h q)" "\<And>q. p_rt_on_list (tsk ?h q) = p_rt_on_list (tsk h q)"
    by (simp_all add: retarget_def st_simps)
  have "hier_ok d ?h" for d
  proof -
    have ok: "hier_ok d h" "hier_ok (p_cpu (tsk h p)) h" using all by (simp_all add: hier_all_def)
    note w = hier_okD(1) [OF ok(1)]
    have nm: "\<not> gmem d h x (Task p)" for x using member_iff [OF w, where e = "Task p"] p by (simp add: on_rt_rq_def)
    have nl: "\<not> p_rt_on_list (tsk h p)"
    proof -
      have "se_on_list (p_cpu (tsk h p)) h (Task p) = on_rt_rq (p_cpu (tsk h p)) h (Task p)"
        using hier_wfD(4) [OF hier_okD(1) [OF ok(2)]] by (simp add: ents_ok_def se_here_def)
      then show ?thesis using p by (simp add: se_on_list_def on_rt_rq_def)
    qed
    have st: "se_here d ?h e = se_here d h e" "se_group ?h e = se_group h e" "rt_se_prio_g d ?h e = rt_se_prio_g d h e" "rt_se_boosted d ?h e = rt_se_boosted d h e"
      if "e \<noteq> Task p" for e
      using that sel(1) sel(3,4) by (cases e; simp add: se_here_def se_group_def rt_se_prio_g_def rt_se_boosted_def)+
    have fl: "on_rt_rq d ?h e = on_rt_rq d h e" "se_on_list d ?h e = se_on_list d h e" for e
      using sel by (auto simp: on_rt_rq_def se_on_list_def split: ent.splits)
    have qd: "queued_tasks d ?h = queued_tasks d h"
    proof (intro set_eqI)
      fix q show "q \<in> queued_tasks d ?h \<longleftrightarrow> q \<in> queued_tasks d h" using sel(3) [of q] sel(5) p by (cases "q = p") (auto simp: queued_tasks_def)
    qed
    have nq: "p \<notin> queued_tasks d h" using p by (simp add: queued_tasks_def)
    have u: "under d ?h x = under d h x" for x
    proof (intro set_eqI)
      fix q show "q \<in> under d ?h x \<longleftrightarrow> q \<in> under d h x" using sel(1) sel(4) [of q] nq by (cases "q = p") (auto simp: under_def qd)
    qed
    have rr: "under d h x \<inter> rr_tasks ?h = under d h x \<inter> rr_tasks h" for x using sel(3) nq under_sub [of d h x] by (auto simp: rr_tasks_def) (metis subsetD)+
    have ne: "e \<noteq> Task p" if "e \<in> set (g_queue (h_rq h d x) ! i)" "i < 100" for e x i
      using nm [of x] that rt_array_okD(1) [OF hier_wfD(1) [OF w], of x] by (auto simp: qs_mem_nth)
    have mem: "members_ok d ?h x" for x
      unfolding members_ok_def
    proof (intro allI impI ballI)
      fix i e assume i: "i < (100 :: nat)" "e \<in> set (g_queue (h_rq ?h d x) ! i)"
      then have i': "e \<in> set (g_queue (h_rq h d x) ! i)" using sel(1) by simp
      show "se_here d ?h e \<and> se_group ?h e = x \<and> on_rt_rq d ?h e \<and> rt_se_prio_g d ?h e = int i"
        using hier_wfD(2) [OF w, of x] i(1) i' st [OF ne [OF i' i(1)]] fl by (simp add: members_ok_def)
    qed
    have bs: "{e. gmem d ?h x e \<and> rt_se_boosted d ?h e} = {e. gmem d h x e \<and> rt_se_boosted d h e}" for x
    proof -
      have "rt_se_boosted d ?h e = rt_se_boosted d h e" if "gmem d h x e" for e using nm [of x] that st(4) [of e] by auto
      then show ?thesis unfolding sel(1) by blast
    qed
    have cnt: "group_counts_ok d ?h x" for x using hier_wfD(3) [OF w, of x] by (simp add: group_counts_ok_def Let_def u rr bs [unfolded sel(1)] sel(1))
    have ents: "ents_ok d ?h"
      unfolding ents_ok_def
    proof (intro allI impI)
      fix e assume e: "se_here d ?h e"
      show "(on_rt_rq d ?h e \<longleftrightarrow> gmem d ?h (se_group ?h e) e) \<and> (se_on_list d ?h e \<longleftrightarrow> on_rt_rq d ?h e)"
      proof (cases "e = Task p")
        case True
        then show ?thesis using nm p nl unfolding fl sel(1) by (simp add: on_rt_rq_def se_on_list_def)
      next
        case False
        then show ?thesis using hier_wfD(4) [OF w] e st [OF False] unfolding fl sel(1) ents_ok_def by simp
      qed
    qed
    have "groups_ok {} d ?h" using hier_wfD(5) [OF w] unfolding groups_ok_def sel(1) .
    then have "hier_wf {} d ?h" using mem cnt ents hier_wfD(1,6,7) [OF w] by (simp add: hier_wf_def sel(1) qd)
    moreover have "hier_rest d ?h = hier_rest d h" by (simp add: hier_rest_def sel(1,2))
    ultimately show ?thesis using hier_okD(2,3) [OF ok(1)] by (simp add: hier_ok_def sel(1,2))
  qed
  then show ?thesis by (simp add: hier_all_def)
qed

lemma switch_ok:
  assumes "hier_all h" shows "hier_all (upd_st (upd_rq c (\<lambda>r. r\<lparr>rq_curr := p\<rparr>)) h)" (is "hier_all ?h")
proof -
  have "hier_ok d ?h" for d
  proof -
    have ok: "hier_ok d h" using assms by (simp add: hier_all_def)
    have "hier_wf {} d ?h = hier_wf {} d h" by (rule hier_wf_cong) (simp_all add: st_simps)
    moreover have "hier_rest d ?h = hier_rest d h" by (simp add: hier_rest_def st_simps)
    ultimately show ?thesis using ok by (auto simp: hier_ok_def st_simps)
  qed
  then show ?thesis by (simp add: hier_all_def)
qed

lemma hier_step_all:
  assumes "hier_step h h'" "hier_all h" shows "hier_all h'"
  using assms
proof (cases rule: hier_step.cases)
  case (Enqueue p flags c)
  then show ?thesis using enqueue_handler_ok [of h p flags c] assms(2) by (metis option.inject)
next
  case (Dequeue flags c p)
  then show ?thesis using dequeue_handler_ok [of h flags c p] assms(2) by (metis option.inject)
next
  case (Update_curr c)
  then show ?thesis using update_curr_ok [OF assms(2), of c] by auto
next
  case (Requeue p head)
  then show ?thesis using requeue_ok [OF assms(2), of p head] by (auto simp: good_step_def)
next
  case (Timer overrun g idle)
  then show ?thesis using period_timer_ok [OF assms(2), of overrun g] by auto
next
  case (Pick c p)
  then show ?thesis using pick_handler_ok assms(2) by blast
next
  case (Retarget p prio normal policy c g)
  then show ?thesis using retarget_ok assms(2) by blast
next
  case (Switch c p)
  then show ?thesis using switch_ok assms(2) by blast
qed

interpretation rt_groups: step_invariant hier_step hier_all
  by unfold_locales (rule hier_step_all)

text \<open>At boot no task is queued, and every group is in the root.\<close>

definition hier_init :: "sched_state \<Rightarrow> (gid \<Rightarrow> rt_bandwidth) \<Rightarrow> hier" where
  "hier_init st bw = \<lparr>h_st = st, h_rq = (\<lambda>c g. init_group_rq (rtb_runtime (bw g))), h_bw = bw, h_tg = (\<lambda>p. [])\<rparr>"

definition boot_state :: "sched_state \<Rightarrow> bool" where
  "boot_state st \<longleftrightarrow> (\<forall>p. \<not> p_rt_on_rq (tasks st p) \<and> \<not> p_rt_on_list (tasks st p)) \<and>
     (\<forall>c. \<not> rt_queued (rtq st c) \<and> unat (rq_nr_running (rqs st c)) \<le> MAX_TASKS)"

lemma init_ok:
  assumes "boot_state st" shows "hier_all (hier_init st bw)"
proof -
  let ?h = "hier_init st bw"
  have b: "\<And>p. \<not> p_rt_on_rq (tsk ?h p) \<and> \<not> p_rt_on_list (tsk ?h p)" "\<And>c. \<not> rt_queued (rtq (h_st ?h) c) \<and> unat (rq_nr_running (rqs (h_st ?h) c)) \<le> MAX_TASKS"
    "\<And>c g. h_rq ?h c g = init_group_rq (rtb_runtime (bw g))" using assms by (simp_all add: boot_state_def hier_init_def)
  have qd: "queued_tasks c ?h = {}" "under c ?h x = {}" for c x using b(1) by (simp_all add: queued_tasks_def under_def)
  have arr: "rt_array_ok (replicate 100 []) (replicate 100 False @ [True])" by (simp add: rt_array_ok_def nth_append)
  have f: "first_q (replicate 100 []) = 100" by (rule first_q_eqI) simp_all
  have m: "\<not> qs_mem e (replicate 100 [])" for e :: ent by (simp add: qs_mem_def)
  have "hier_wf {} c ?h" for c
    unfolding hier_wf_def
  proof (intro conjI allI)
    show "rt_array_ok (g_queue (h_rq ?h c g)) (g_bitmap (h_rq ?h c g))" for g using arr by (simp add: b(3) init_group_rq_def MAX_RT_PRIO_def)
    show "members_ok c ?h g" for g by (simp add: members_ok_def b(3) init_group_rq_def MAX_RT_PRIO_def)
    show "group_counts_ok c ?h g" for g by (simp add: group_counts_ok_def b(3) qd init_group_rq_def MAX_RT_PRIO_def f m)
    show "ents_ok c ?h" using b(1) m by (auto simp: ents_ok_def on_rt_rq_def se_on_list_def b(3) init_group_rq_def MAX_RT_PRIO_def split: ent.splits)
    show "groups_ok {} c ?h" by (simp add: groups_ok_def b(3) init_group_rq_def)
  qed (simp_all add: qd)
  moreover have "hier_rest c ?h = rq_nr_running (rqs (h_st ?h) c)" for c using b(2) by (simp add: hier_rest_def)
  ultimately show ?thesis using b(2) by (simp add: hier_all_def hier_ok_def b(3) init_group_rq_def)
qed

lemma reachable_all: "boot_state st \<Longrightarrow> hier_step\<^sup>*\<^sup>* (hier_init st bw) h \<Longrightarrow> hier_all h"
  using rt_groups.reach_inv init_ok by blast

section \<open>What every sequence of operations guarantees\<close>

text \<open>A task of priority 10 in the group \<open>[3, 1]\<close>, queued from boot.\<close>

definition groups_demo0 :: hier where
  "groups_demo0 = retarget 1 10 10 SCHED_FIFO 0 [3, 1] (hier_init blank_state (\<lambda>g. init_rt_bandwidth 1000000000 950000000))"

definition groups_demo1 :: hier where
  "groups_demo1 = the (enqueue_task_rt_g 0 1 0 groups_demo0)"

lemma blank_boot: "boot_state blank_state"
  by (simp add: boot_state_def blank_state_def blank_task_def blank_rq_def blank_rt_rq_def MAX_TASKS_def)

lemma groups_demo:
  shows "hier_step\<^sup>*\<^sup>* (hier_init blank_state (\<lambda>g. init_rt_bandwidth 1000000000 950000000)) groups_demo1" "1 \<in> runnable 0 groups_demo1"
    "\<not> rt_rq_throttled_g (h_rq groups_demo1 0 [])"
proof -
  let ?i = "hier_init blank_state (\<lambda>g. init_rt_bandwidth 1000000000 950000000)"
  have f: "\<not> p_rt_on_rq (tsk ?i p)" "p_cpu (tsk ?i p) = 0" for p by (simp_all add: hier_init_def blank_state_def blank_task_def)
  have s0: "hier_step ?i groups_demo0" unfolding groups_demo0_def by (rule hier_step.Retarget [OF f(1)])
  have a: "hier_all groups_demo0" by (rule hier_step_all [OF s0 init_ok [OF blank_boot]])
  have t: "\<not> p_rt_on_rq (tsk groups_demo0 q)" "p_prio (tsk groups_demo0 1) = 10" "p_cpu (tsk groups_demo0 q) = 0" "\<not> g_throttled (h_rq groups_demo0 0 x)" for q x
    using f by (auto simp: groups_demo0_def retarget_def st_simps) (simp_all add: hier_init_def init_group_rq_def)
  have n: "queued_tasks 0 groups_demo0 = {}" using t(1) by (simp add: queued_tasks_def)
  obtain h' where h': "enqueue_task_rt_g 0 1 0 groups_demo0 = Some h'" "h_tg h' = h_tg groups_demo0"
    "\<And>q. p_cpu (tsk h' q) = p_cpu (tsk groups_demo0 q) \<and> p_rt_on_rq (tsk h' q) = (q = 1 \<or> p_rt_on_rq (tsk groups_demo0 q))"
    "\<And>x. g_throttled (h_rq h' 0 x) = g_throttled (h_rq groups_demo0 0 x)"
    by (rule enqueue_handler_ok [OF a, of 1 0 0]) (use t n move_zero in \<open>auto simp: MAX_TASKS_def\<close>)
  then have d: "groups_demo1 = h'" by (simp add: groups_demo1_def)
  have "hier_step groups_demo0 groups_demo1"
    unfolding d by (rule hier_step.Enqueue [of _ 1, OF t(1) _ _ _ move_zero h'(1)]) (use t n in \<open>simp_all add: MAX_TASKS_def\<close>)
  with s0 show "hier_step\<^sup>*\<^sup>* ?i groups_demo1" by (meson rtranclp.rtrancl_into_rtrancl r_into_rtranclp)
  have th: "\<not> rt_rq_throttled_g (h_rq groups_demo1 0 x)" for x using h'(4) t(4) by (simp add: d rt_rq_throttled_g_def)
  then show "\<not> rt_rq_throttled_g (h_rq groups_demo1 0 [])" .
  show "1 \<in> runnable 0 groups_demo1" using th h'(3) [of 1] t(3) by (simp add: runnable_def queued_tasks_def d)
qed

text \<open>
  C5: With task groups, no operation on the real-time run queues faults or warns, in any state reached from boot by any sequence of operations on any CPUs: enqueue and dequeue (other than
  the save-and-restore pair that leaves the entity linked), accounting with throttling of every group above the current task, requeueing, and the replenishing timer of any group.
\<close>

theorem rt_groups_no_fault:
  assumes "boot_state st" "hier_step\<^sup>*\<^sup>* (hier_init st bw) h" "move_entity flags"
  shows "(\<not> p_rt_on_rq (tsk h p) \<and> 0 \<le> p_prio (tsk h p) \<and> p_prio (tsk h p) < 100 \<and> card (insert p (queued_tasks (p_cpu (tsk h p)) h)) \<le> MAX_TASKS
      \<longrightarrow> enqueue_task_rt_g c p flags h \<noteq> None) \<and>
    dequeue_task_rt_g c p flags h \<noteq> None \<and> update_curr_rt_g c h \<noteq> None \<and> requeue_task_rt_g p head h \<noteq> None \<and>
    do_sched_rt_period_timer_g overrun g h \<noteq> None"
proof -
  have a: "hier_all h" by (rule reachable_all [OF assms(1,2)])
  have "enqueue_task_rt_g c p flags h \<noteq> None" if "\<not> p_rt_on_rq (tsk h p)" "0 \<le> p_prio (tsk h p)" "p_prio (tsk h p) < 100"
    "card (insert p (queued_tasks (p_cpu (tsk h p)) h)) \<le> MAX_TASKS"
    by (rule enqueue_handler_ok [OF a that assms(3), of c]) simp
  moreover have "dequeue_task_rt_g c p flags h \<noteq> None" by (rule dequeue_handler_ok [OF a assms(3), of c p]) simp
  ultimately show ?thesis
    using update_curr_ok [OF a, of c] requeue_ok [OF a, of p head] period_timer_ok [OF a, of overrun g] by (auto simp: good_step_def)
qed

theorem rt_groups_no_fault_witness:
  "dequeue_task_rt_g 0 1 0 groups_demo1 \<noteq> None \<and> update_curr_rt_g 0 groups_demo1 \<noteq> None \<and> do_sched_rt_period_timer_g 1 [3, 1] groups_demo1 \<noteq> None"
  using rt_groups_no_fault [OF blank_boot groups_demo(1) move_zero, of 1 0 True 1 "[3, 1]"] by simp

text \<open>
  C6: With task groups, the real-time class has something to run on a CPU exactly if the root is not throttled and some queued task has no throttled group above it; the descent through the
  groups then ends, and returns such a task, of the best priority among all of them.
\<close>

theorem rt_groups_pick_best:
  assumes "boot_state st" "hier_step\<^sup>*\<^sup>* (hier_init st bw) h"
  shows "(rt_queued (rtq (h_st h) c) \<longleftrightarrow> runnable c h \<noteq> {} \<and> \<not> rt_rq_throttled_g (h_rq h c [])) \<and>
    (rt_queued (rtq (h_st h) c) \<longrightarrow> (\<exists>p \<in> runnable c h. \<exists>h'. pick_next_task_rt_raw_g c h = Some (p, h') \<and>
       (\<forall>q \<in> runnable c h. p_prio (tsk h p) \<le> p_prio (tsk h q))))"
proof -
  have ok: "hier_ok c h" using reachable_all [OF assms] by (simp add: hier_all_def)
  note o = hier_okD [OF ok]
  have "g_nr_running (h_rq h c []) \<noteq> 0 \<longleftrightarrow> runnable c h \<noteq> {}" using nr_iff [OF o(1), of "[]"] under_root [OF o(1)] by simp
  then have q: "rt_queued (rtq (h_st h) c) \<longleftrightarrow> runnable c h \<noteq> {} \<and> \<not> rt_rq_throttled_g (h_rq h c [])" using o(3) by simp
  moreover have "\<exists>p \<in> runnable c h. \<exists>h'. pick_next_task_rt_raw_g c h = Some (p, h') \<and> (\<forall>q \<in> runnable c h. p_prio (tsk h p) \<le> p_prio (tsk h q))"
    if "runnable c h \<noteq> {}" using pick_runnable [OF ok that] by (auto simp: pick_next_task_rt_raw_g_def)
  ultimately show ?thesis by blast
qed

theorem rt_groups_pick_best_witness:
  "rt_queued (rtq (h_st groups_demo1) 0) \<and> (\<exists>p \<in> runnable 0 groups_demo1. \<exists>h'. pick_next_task_rt_raw_g 0 groups_demo1 = Some (p, h') \<and>
     (\<forall>q \<in> runnable 0 groups_demo1. p_prio (tsk groups_demo1 p) \<le> p_prio (tsk groups_demo1 q)))"
  using rt_groups_pick_best [OF blank_boot groups_demo(1), of 0] groups_demo(2,3) by blast

text \<open>
  C12: The share of the real-time class in \<open>nr_running\<close> is the number of queued tasks that no throttled group holds back, and nothing while the root is throttled; the count of the root
  is that number.
\<close>

theorem rt_groups_counted:
  assumes "boot_state st" "hier_step\<^sup>*\<^sup>* (hier_init st bw) h"
  shows "unat (g_nr_running (h_rq h c [])) = card (runnable c h) \<and>
    unat (rq_nr_running (rqs (h_st h) c)) =
      unat (hier_rest c h) + (if rt_rq_throttled_g (h_rq h c []) then 0 else card (runnable c h))"
proof -
  have ok: "hier_ok c h" using reachable_all [OF assms] by (simp add: hier_all_def)
  note o = hier_okD [OF ok]
  have n: "unat (g_nr_running (h_rq h c [])) = card (runnable c h)"
    using hier_wfD(3) [OF o(1), of "[]"] under_root [OF o(1)] by (simp add: group_counts_ok_def Let_def)
  have "unat (hier_rest c h) + unat (g_nr_running (h_rq h c [])) < 2 ^ 32" using o(2) nr_small [OF o(1), of "[]"] by (simp add: MAX_TASKS_def)
  then have "unat (hier_rest c h + g_nr_running (h_rq h c [])) = unat (hier_rest c h) + card (runnable c h)" using n by (simp add: unat_word_ariths)
  moreover have "rq_nr_running (rqs (h_st h) c) = hier_rest c h + (if rt_queued (rtq (h_st h) c) then g_nr_running (h_rq h c []) else 0)" by (simp add: hier_rest_def)
  ultimately show ?thesis using n o(3) by (auto simp: unat_eq_0)
qed

theorem rt_groups_counted_witness:
  "unat (g_nr_running (h_rq groups_demo1 0 [])) = card (runnable 0 groups_demo1)"
  using rt_groups_counted [OF blank_boot groups_demo(1), of 0] by simp

end
