(* ===== verification/Kernel_Modules.thy ===== *)
theory Kernel_Modules
  imports Prelude
begin

text \<open>
  The smaller kernel code: the \<open>xmerge\<close> system call (\<open>assignment4-1/xmerge.c\<close>), the character
  device of \<open>myfirst.c\<close> and the summing module \<open>mysum.c\<close>. The VFS calls of \<open>xmerge\<close>
  (\<open>ksys_open\<close>, \<open>ksys_read\<close>, \<open>ksys_write\<close>, \<open>ksys_close\<close>) act on an abstract kernel state and are
  parameters; what a correct file system promises is the hypothesis \<open>fs_laws\<close>. The
  registration calls of \<open>myfirst\<close> return the numbers they are given and what they hold is
  tracked as flags.
\<close>

section \<open>\<open>xmerge\<close>\<close>

record 'k file_ops =
  x_open :: "string \<Rightarrow> int \<Rightarrow> u32 \<Rightarrow> 'k \<Rightarrow> int \<times> 'k"
  x_read :: "int \<Rightarrow> nat \<Rightarrow> 'k \<Rightarrow> int \<times> string \<times> 'k"
  x_write :: "int \<Rightarrow> string \<Rightarrow> 'k \<Rightarrow> int \<times> 'k"
  x_close :: "int \<Rightarrow> 'k \<Rightarrow> int \<times> 'k"

text \<open>
  \<open>struct xmerge_params\<close>; reading entry \<open>i\<close> of \<open>infiles\<close> from user memory gives a file name
  or fails (\<open>get_user\<close> returns \<open>-EFAULT\<close>), \<open>xp_count_ok\<close> is whether \<open>ofile_count\<close> can be written.
\<close>

record xmerge_params =
  xp_outfile :: string
  xp_infiles :: "nat \<Rightarrow> string option"
  xp_num_files :: u32
  xp_oflags :: int
  xp_mode :: u32
  xp_count_ok :: bool

text \<open>The loop that copies one open file: 0 or the error, the bytes written so far, the state.\<close>

partial_function (option) xm_copy ::
  "'k file_ops \<Rightarrow> int \<Rightarrow> int \<Rightarrow> int \<Rightarrow> 'k \<Rightarrow> (int \<times> int \<times> 'k) option" where
  "xm_copy ops out inF acculen k =
    (let r = x_read ops inF 1024 k; n = fst r; buf = fst (snd r); k = snd (snd r) in
     if n = 0 then Some (0, acculen, k)
     else if n < 0 then Some (n, acculen, k)
     else
       let w = x_write ops out buf k in
       if fst w < 0 then Some (fst w, acculen, snd w)
       else xm_copy ops out inF (acculen + fst w) (snd w))"

text \<open>
  The loop over the input files, \<open>n\<close> of them left: 0 or the error, the bytes and files so far, the
  last descriptor opened, the state.
\<close>

fun xm_files :: "'k file_ops \<Rightarrow> xmerge_params \<Rightarrow> int \<Rightarrow> nat \<Rightarrow> nat \<Rightarrow> int \<Rightarrow> int \<Rightarrow> int \<Rightarrow> 'k \<Rightarrow>
    (int \<times> int \<times> int \<times> int \<times> 'k) option" where
  "xm_files ops p out i 0 acculen nfiles inF k = Some (0, acculen, nfiles, inF, k)"
| "xm_files ops p out i (Suc n) acculen nfiles inF k =
    (case xp_infiles p i of
       None \<Rightarrow> Some (-14, acculen, nfiles, inF, k)
     | Some name \<Rightarrow>
         let (inF, k) = x_open ops name 0 0 k in
         if inF < 0 then Some (inF, acculen, nfiles, inF, k)
         else do {
           (r, acculen, k) \<leftarrow> xm_copy ops out inF acculen k;
           if r \<noteq> 0 then Some (r, acculen, nfiles + 1, inF, k)
           else
             let (c, k) = x_close ops inF k in
             if c < 0 then Some (c, acculen, nfiles + 1, inF, k)
             else xm_files ops p out (Suc i) n acculen (nfiles + 1) inF k
         })"

text \<open>The clean-up at \<open>__error_return\<close>: the result and the state.\<close>

definition xm_cleanup :: "'k file_ops \<Rightarrow> xmerge_params \<Rightarrow> int \<Rightarrow> int \<Rightarrow> int \<Rightarrow> 'k \<Rightarrow> int \<times> 'k" where
  "xm_cleanup ops p ret inF out k =
    (let ret = (if xp_count_ok p then ret else -14);
         (ret, k) = (if inF > 0 then let (c, k) = x_close ops inF k in (if c < 0 then c else ret, k) else (ret, k))
     in if out > 0 then let (c, k) = x_close ops out k in (if c < 0 then c else ret, k) else (ret, k))"

text \<open>
  The system call: its result, the file count stored for the caller (if it could be), the
  state. \<open>argslen\<close> bytes are copied over a 40-byte structure on the stack: anything but 40 is
  a fault here (an overrun, or fields that are never set). \<open>user\<close> is the structure, or
  nothing when it cannot be read.
\<close>

definition xmerge :: "'k file_ops \<Rightarrow> xmerge_params option \<Rightarrow> nat \<Rightarrow> 'k \<Rightarrow> (int \<times> int option \<times> 'k) option" where
  "xmerge ops user argslen k =
    (if argslen \<noteq> 40 then None
     else case user of None \<Rightarrow> Some (-14, None, k)
     | Some p \<Rightarrow>
         let (out, k) = x_open ops (xp_outfile p) (xp_oflags p) (xp_mode p) k;
             count = (\<lambda>n. if xp_count_ok p then Some n else None)
         in if out < 0 then (let (r, k) = xm_cleanup ops p out 0 out k in Some (r, count 0, k))
            else do {
              (r, acculen, nfiles, inF, k) \<leftarrow> xm_files ops p out 0 (unat (xp_num_files p)) 0 0 0 k;
              let (ret, k) = (if r \<noteq> 0 then xm_cleanup ops p r inF out k else xm_cleanup ops p acculen 0 out k);
              Some (ret, count nfiles, k)
            })"

section \<open>\<open>myfirst\<close>\<close>

record myfirst_state =
  mf_region :: bool
  mf_class :: bool
  mf_device :: bool
  mf_cdev :: bool
  mf_last :: char

text \<open>\<open>myfirst_read\<close>: the number of bytes, the byte stored, the new position; \<open>ok\<close> is the outcome of \<open>copy_to_user\<close>.\<close>

definition myfirst_read :: "bool \<Rightarrow> nat \<Rightarrow> nat \<Rightarrow> myfirst_state \<Rightarrow> int \<times> char option \<times> nat" where
  "myfirst_read ok count pos s =
    (if pos = 0 then if ok then (1, Some (mf_last s), pos + 1) else (-14, None, pos)
     else (0, None, pos))"

definition myfirst_write :: "char option \<Rightarrow> nat \<Rightarrow> myfirst_state \<Rightarrow> int \<times> myfirst_state" where
  "myfirst_write buf count s =
    (case buf of None \<Rightarrow> (-14, s) | Some ch \<Rightarrow> (int count, s\<lparr>mf_last := ch\<rparr>))"

text \<open>The results of the four registrations, negative for an error.\<close>

definition myfirst_init :: "int \<Rightarrow> int \<Rightarrow> int \<Rightarrow> int \<Rightarrow> myfirst_state \<Rightarrow> int \<times> myfirst_state" where
  "myfirst_init region class device cdev s =
    (if region < 0 then (region, s)
     else let s = s\<lparr>mf_region := True\<rparr> in
     if class < 0 then (class, s\<lparr>mf_region := False\<rparr>)
     else let s = s\<lparr>mf_class := True\<rparr> in
     if device < 0 then (device, s\<lparr>mf_class := False, mf_region := False\<rparr>)
     else let s = s\<lparr>mf_device := True\<rparr> in
     if cdev < 0 then (cdev, s\<lparr>mf_device := False, mf_class := False, mf_region := False\<rparr>)
     else (0, s\<lparr>mf_cdev := True\<rparr>))"

definition myfirst_exit :: "myfirst_state \<Rightarrow> myfirst_state" where
  "myfirst_exit s = s\<lparr>mf_cdev := False, mf_device := False, mf_class := False, mf_region := False\<rparr>"

section \<open>\<open>mysum\<close>\<close>

text \<open>
  The loop of \<open>init\<close>; \<open>result\<close> wraps. Incrementing \<open>i\<close> past \<open>INT_MAX\<close> would keep the loop
  running for ever: that is \<open>None\<close>.
\<close>

definition INT_MAX :: int where "INT_MAX = 2147483647"

function sum_loop :: "int \<Rightarrow> int \<Rightarrow> u32 \<Rightarrow> u32 option" where
  "sum_loop i hi result =
    (if i \<le> hi then if i = INT_MAX then None else sum_loop (i + 1) hi (result + word_of_int i)
     else Some result)"
  by pat_completeness auto
termination by (relation "measure (\<lambda>(i, hi, result). nat (hi - i + 1))") auto

declare sum_loop.simps [simp del]

definition mysum_init :: "int \<Rightarrow> int \<Rightarrow> u32 option" where
  "mysum_init from hi = (if hi < from then Some 0 else sum_loop from hi 0)"

section \<open>Correctness of \<open>xmerge\<close>\<close>

text \<open>
  What a correct file system promises, in terms of the files it has (\<open>data\<close>), the bytes still to
  be read from a descriptor (\<open>left\<close>), what was written to one (\<open>outp\<close>) and the open descriptors:
  an existing file opens with a positive descriptor not in use, a read returns a prefix of what
  is left and nothing only at the end, a write writes everything, a close succeeds.
\<close>

definition fs_laws ::
  "'k file_ops \<Rightarrow> (string \<Rightarrow> string option) \<Rightarrow> ('k \<Rightarrow> int \<Rightarrow> string) \<Rightarrow> ('k \<Rightarrow> int \<Rightarrow> string) \<Rightarrow> ('k \<Rightarrow> int set) \<Rightarrow> bool" where
  "fs_laws ops data left outp opn \<longleftrightarrow>
    (\<forall>name d k. data name = Some d \<longrightarrow> (\<exists>fd k'. x_open ops name 0 0 k = (fd, k') \<and> 0 < fd \<and> fd \<notin> opn k \<and>
       opn k' = insert fd (opn k) \<and> left k' fd = d \<and> (\<forall>g \<in> opn k. outp k' g = outp k g))) \<and>
    (\<forall>fd k. fd \<in> opn k \<longrightarrow> (\<exists>n k'. x_read ops fd 1024 k = (int n, take n (left k fd), k') \<and> n \<le> length (left k fd) \<and>
       (left k fd \<noteq> [] \<longrightarrow> 0 < n) \<and> left k' fd = drop n (left k fd) \<and> opn k' = opn k \<and> (\<forall>g \<in> opn k. outp k' g = outp k g))) \<and>
    (\<forall>fd bs k. fd \<in> opn k \<longrightarrow> (\<exists>k'. x_write ops fd bs k = (int (length bs), k') \<and> outp k' fd = outp k fd @ bs \<and>
       opn k' = opn k \<and> (\<forall>g. g \<noteq> fd \<longrightarrow> left k' g = left k g))) \<and>
    (\<forall>fd k. fd \<in> opn k \<longrightarrow> (\<exists>k'. x_close ops fd k = (0, k') \<and> opn k' = opn k - {fd} \<and> (\<forall>g. outp k' g = outp k g)))"

lemma fs_lawsD:
  assumes "fs_laws ops data left outp opn"
  shows "data name = Some d \<Longrightarrow> \<exists>fd k'. x_open ops name 0 0 k = (fd, k') \<and> 0 < fd \<and> fd \<notin> opn k \<and>
       opn k' = insert fd (opn k) \<and> left k' fd = d \<and> (\<forall>g \<in> opn k. outp k' g = outp k g)"
    "fd \<in> opn k \<Longrightarrow> \<exists>n k'. x_read ops fd 1024 k = (int n, take n (left k fd), k') \<and> n \<le> length (left k fd) \<and>
       (left k fd \<noteq> [] \<longrightarrow> 0 < n) \<and> left k' fd = drop n (left k fd) \<and> opn k' = opn k \<and> (\<forall>g \<in> opn k. outp k' g = outp k g)"
    "fd \<in> opn k \<Longrightarrow> \<exists>k'. x_write ops fd bs k = (int (length bs), k') \<and> outp k' fd = outp k fd @ bs \<and>
       opn k' = opn k \<and> (\<forall>g. g \<noteq> fd \<longrightarrow> left k' g = left k g)"
    "fd \<in> opn k \<Longrightarrow> \<exists>k'. x_close ops fd k = (0, k') \<and> opn k' = opn k - {fd} \<and> (\<forall>g. outp k' g = outp k g)"
  using assms by (simp_all add: fs_laws_def)

text \<open>Copying one file: it ends, by induction on what is left to read, and appends exactly that.\<close>

lemma xm_copy_total:
  assumes laws: "fs_laws ops data left outp opn"
  shows "fd \<in> opn k \<Longrightarrow> out \<in> opn k \<Longrightarrow> fd \<noteq> out \<Longrightarrow>
    \<exists>k'. xm_copy ops out fd acc k = Some (0, acc + int (length (left k fd)), k') \<and> opn k' = opn k \<and>
       outp k' out = outp k out @ left k fd"
proof (induction "length (left k fd)" arbitrary: k acc rule: less_induct)
  case less
  obtain n k1 where r: "x_read ops fd 1024 k = (int n, take n (left k fd), k1)" "n \<le> length (left k fd)"
    "left k fd \<noteq> [] \<longrightarrow> 0 < n" "left k1 fd = drop n (left k fd)" "opn k1 = opn k" "\<forall>g \<in> opn k. outp k1 g = outp k g"
    using fs_lawsD(2) [OF laws less.prems(1)] by blast
  show ?case
  proof (cases "n = 0")
    case True
    then show ?thesis using r less.prems by (subst xm_copy.simps) auto
  next
    case False
    obtain k2 where w: "x_write ops out (take n (left k fd)) k1 = (int (length (take n (left k fd))), k2)"
      "outp k2 out = outp k1 out @ take n (left k fd)" "opn k2 = opn k1" "\<forall>g. g \<noteq> out \<longrightarrow> left k2 g = left k1 g"
      using fs_lawsD(3) [OF laws, of out k1] less.prems(2) r(5) by metis
    have l2: "left k2 fd = drop n (left k fd)" using w(4) less.prems(3) r(4) by simp
    have "length (left k2 fd) < length (left k fd)" using False r(2) l2 by simp
    from less.hyps [OF this] less.prems r(5) w(3) obtain k3 where
      k3: "xm_copy ops out fd (acc + int n) k2 = Some (0, acc + int n + int (length (left k2 fd)), k3)"
        "opn k3 = opn k2" "outp k3 out = outp k2 out @ left k2 fd" by blast
    have wn: "x_write ops out (take n (left k fd)) k1 = (int n, k2)" using w(1) r(2) by simp
    have "xm_copy ops out fd acc k = xm_copy ops out fd (acc + int n) k2"
      using False r(1) wn by (subst xm_copy.simps) simp
    then show ?thesis
      using k3 l2 r w less.prems(2) by (auto simp: min_def)
  qed
qed

text \<open>The files that can be read are appended one after the other, before whatever comes next.\<close>

lemma xm_files_prefix:
  assumes laws: "fs_laws ops data left outp opn"
  shows "out \<in> opn k \<Longrightarrow> length ds = n \<Longrightarrow>
    \<forall>j < n. \<exists>name. xp_infiles p (i + j) = Some name \<and> data name = Some (ds ! j) \<Longrightarrow>
    \<exists>inF' k'. xm_files ops p out i (n + m) acc nf inF k =
        xm_files ops p out (i + n) m (acc + int (length (concat ds))) (nf + int n) inF' k' \<and>
       opn k' = opn k \<and> outp k' out = outp k out @ concat ds"
proof (induction n arbitrary: i acc nf inF k ds)
  case 0
  then show ?case by auto
next
  case (Suc n)
  then obtain d ds' where ds: "ds = d # ds'" by (cases ds) auto
  obtain name where nm: "xp_infiles p i = Some name" "data name = Some d" using Suc.prems(3) ds by fastforce
  obtain fd k1 where o: "x_open ops name 0 0 k = (fd, k1)" "0 < fd" "fd \<notin> opn k" "opn k1 = insert fd (opn k)"
    "left k1 fd = d" "\<forall>g \<in> opn k. outp k1 g = outp k g" using fs_lawsD(1) [OF laws nm(2)] by blast
  have fd: "fd \<in> opn k1" "out \<in> opn k1" "fd \<noteq> out" using o Suc.prems(1) by auto
  obtain k2 where c: "xm_copy ops out fd acc k1 = Some (0, acc + int (length d), k2)" "opn k2 = opn k1"
    "outp k2 out = outp k1 out @ d" using xm_copy_total [OF laws fd, of acc] o(5) by auto
  obtain k3 where cl: "x_close ops fd k2 = (0, k3)" "opn k3 = opn k2 - {fd}" "\<forall>g. outp k3 g = outp k2 g"
    using fs_lawsD(4) [OF laws, of fd k2] fd c(2) by auto
  have op: "opn k3 = opn k" using cl c(2) o(3,4) by auto
  have rest: "\<forall>j < n. \<exists>name. xp_infiles p (Suc i + j) = Some name \<and> data name = Some (ds' ! j)"
  proof (intro allI impI)
    fix j assume "j < n"
    then show "\<exists>name. xp_infiles p (Suc i + j) = Some name \<and> data name = Some (ds' ! j)"
      using Suc.prems(3) [rule_format, of "Suc j"] ds by simp
  qed
  obtain inF' k4 where k4: "xm_files ops p out (Suc i) (n + m) (acc + int (length d)) (nf + 1) fd k3 =
      xm_files ops p out (Suc i + n) m (acc + int (length d) + int (length (concat ds'))) (nf + 1 + int n) inF' k4"
    "opn k4 = opn k3" "outp k4 out = outp k3 out @ concat ds'"
    using Suc.IH [of k3 ds' "Suc i" "acc + int (length d)" "nf + 1" fd] Suc.prems(1,2) op ds rest by auto
  have "xm_files ops p out i (Suc n + m) acc nf inF k = xm_files ops p out (Suc i) (n + m) (acc + int (length d)) (nf + 1) fd k3"
    using nm o(1,2) c(1) cl(1) by simp
  then show ?case
    using k4 op cl(3) c(3) o(6) Suc.prems(1) ds by (auto simp: algebra_simps)
qed

text \<open>
  On a file system that keeps \<open>fs_laws\<close>, \<open>xmerge\<close> appends the contents of all its input files,
  in order, to the output file, returns their total length and the number of files, and
  leaves no descriptor of its own open: the copy loops end.
\<close>

theorem xmerge_concatenates:
  assumes "fs_laws ops data left outp opn"
    and "x_open ops (xp_outfile p) (xp_oflags p) (xp_mode p) k = (out, k1)" "0 < out" "out \<in> opn k1"
    and "xp_count_ok p" "length ds = unat (xp_num_files p)"
    and "\<forall>j < length ds. \<exists>name. xp_infiles p j = Some name \<and> data name = Some (ds ! j)"
  shows "\<exists>k'. xmerge ops (Some p) 40 k = Some (int (length (concat ds)), Some (int (length ds)), k') \<and>
      outp k' out = outp k1 out @ concat ds \<and> opn k' = opn k1 - {out}"
proof -
  obtain inF k2 where f: "xm_files ops p out 0 (length ds) 0 0 0 k1 =
      Some (0, int (length (concat ds)), int (length ds), inF, k2)"
    "opn k2 = opn k1" "outp k2 out = outp k1 out @ concat ds"
    using xm_files_prefix [OF assms(1,4), of ds "length ds" p 0 0 0 0 0] assms(7) by auto
  obtain k3 where c: "x_close ops out k2 = (0, k3)" "opn k3 = opn k2 - {out}" "\<forall>g. outp k3 g = outp k2 g"
    using fs_lawsD(4) [OF assms(1), of out k2] assms(4) f(2) by auto
  have "xmerge ops (Some p) 40 k = Some (int (length (concat ds)), Some (int (length ds)), k3)"
    using assms(2,3,5,6) f(1) c(1) by (simp add: xmerge_def xm_cleanup_def)
  then show ?thesis using f c by auto
qed

text \<open>
  When input file \<open>j\<close> is the first that cannot be opened, \<open>xmerge\<close> returns the error of that
  open and reports \<open>j\<close> files; the files before it have been appended in full and the output
  descriptor is closed.
\<close>

theorem xmerge_missing_input:
  assumes "fs_laws ops data left outp opn"
    and "x_open ops (xp_outfile p) (xp_oflags p) (xp_mode p) k = (out, k1)" "0 < out" "out \<in> opn k1"
    and "xp_count_ok p" "length ds < unat (xp_num_files p)"
    and "\<forall>j < length ds. \<exists>name. xp_infiles p j = Some name \<and> data name = Some (ds ! j)"
    and "xp_infiles p (length ds) = Some missing" "\<forall>k. x_open ops missing 0 0 k = (e, k)" "e < 0"
  shows "\<exists>k'. xmerge ops (Some p) 40 k = Some (e, Some (int (length ds)), k') \<and>
      outp k' out = outp k1 out @ concat ds \<and> opn k' = opn k1 - {out}"
proof -
  obtain m where m: "unat (xp_num_files p) = length ds + Suc m" using assms(6) less_iff_Suc_add by auto
  obtain inF k2 where "xm_files ops p out 0 (length ds + Suc m) 0 0 0 k1 =
      xm_files ops p out (length ds) (Suc m) (int (length (concat ds))) (int (length ds)) inF k2"
    and f: "opn k2 = opn k1" "outp k2 out = outp k1 out @ concat ds"
    using xm_files_prefix [OF assms(1,4), of ds "length ds" p 0 "Suc m" 0 0 0] assms(7) by auto
  then have e: "xm_files ops p out 0 (length ds + Suc m) 0 0 0 k1 =
      Some (e, int (length (concat ds)), int (length ds), e, k2)"
    using assms(8-10) by simp
  obtain k3 where c: "x_close ops out k2 = (0, k3)" "opn k3 = opn k2 - {out}" "\<forall>g. outp k3 g = outp k2 g"
    using fs_lawsD(4) [OF assms(1), of out k2] assms(4) f(1) by auto
  have "xmerge ops (Some p) 40 k = Some (e, Some (int (length ds)), k3)"
    using assms(2,3,5,10) e c(1) m by (simp add: xmerge_def xm_cleanup_def)
  then show ?thesis using f c by auto
qed

subsection \<open>A file system in memory\<close>

text \<open>
  An instance of \<open>fs_laws\<close>: the state is the list of the descriptors handed out, descriptor \<open>i + 1\<close>
  being entry \<open>i\<close>: whether it is open, what is left to read, what was written.
\<close>

type_synonym mem_fs = "(bool \<times> string \<times> string) list"

definition mem_data :: "string \<Rightarrow> string option" where
  "mem_data = map_of [(''a'', ''one''), (''b'', []), (''c'', ''two'')]"

definition mem_open :: "string \<Rightarrow> int \<Rightarrow> u32 \<Rightarrow> mem_fs \<Rightarrow> int \<times> mem_fs" where
  "mem_open name flags mode k =
    (if name = ''missing'' then (-2, k)
     else (int (length k) + 1, k @ [(True, case mem_data name of Some d \<Rightarrow> d | None \<Rightarrow> [], [])]))"

definition mem_slot :: "int \<Rightarrow> nat" where "mem_slot fd = nat (fd - 1)"

definition mem_opn :: "mem_fs \<Rightarrow> int set" where
  "mem_opn k = {fd. 0 < fd \<and> mem_slot fd < length k \<and> fst (k ! mem_slot fd)}"

definition mem_left :: "mem_fs \<Rightarrow> int \<Rightarrow> string" where
  "mem_left k fd = (if 0 < fd \<and> mem_slot fd < length k then fst (snd (k ! mem_slot fd)) else [])"

definition mem_outp :: "mem_fs \<Rightarrow> int \<Rightarrow> string" where
  "mem_outp k fd = (if 0 < fd \<and> mem_slot fd < length k then snd (snd (k ! mem_slot fd)) else [])"

definition mem_ops :: "mem_fs file_ops" where
  "mem_ops = \<lparr>
    x_open = mem_open,
    x_read = (\<lambda>fd n k. let l = mem_left k fd; m = min n (length l) in
       (int m, take m l, k[mem_slot fd := (fst (k ! mem_slot fd), drop m l, mem_outp k fd)])),
    x_write = (\<lambda>fd bs k. (int (length bs), k[mem_slot fd := (fst (k ! mem_slot fd), mem_left k fd, mem_outp k fd @ bs)])),
    x_close = (\<lambda>fd k. (0, k[mem_slot fd := (False, mem_left k fd, mem_outp k fd)])) \<rparr>"

lemmas mem_defs = mem_opn_def mem_left_def mem_outp_def mem_slot_def

lemma mem_slot_inj: "0 < fd \<Longrightarrow> 0 < g \<Longrightarrow> nat (fd - 1) = nat (g - 1) \<longleftrightarrow> fd = g"
  by auto

lemma mem_fs_laws: "fs_laws mem_ops mem_data mem_left mem_outp mem_opn"
  unfolding fs_laws_def
proof (intro conjI allI impI)
  fix name d and k :: mem_fs
  assume d: "mem_data name = Some d"
  then have "name \<noteq> ''missing''" by (auto simp: mem_data_def)
  then have "x_open mem_ops name 0 0 k = (int (length k) + 1, k @ [(True, d, [])])"
    using d by (simp add: mem_ops_def mem_open_def)
  moreover have "int (length k) + 1 \<notin> mem_opn k" "mem_left (k @ [(True, d, [])]) (int (length k) + 1) = d"
    "mem_opn (k @ [(True, d, [])]) = insert (int (length k) + 1) (mem_opn k)"
    "\<forall>g \<in> mem_opn k. mem_outp (k @ [(True, d, [])]) g = mem_outp k g"
    by (auto simp: mem_defs nth_append split: if_splits)
  ultimately show "\<exists>fd k'. x_open mem_ops name 0 0 k = (fd, k') \<and> 0 < fd \<and> fd \<notin> mem_opn k \<and>
       mem_opn k' = insert fd (mem_opn k) \<and> mem_left k' fd = d \<and> (\<forall>g \<in> mem_opn k. mem_outp k' g = mem_outp k g)"
    by auto
next
  fix fd and k :: mem_fs
  assume fd: "fd \<in> mem_opn k"
  define n where "n = min 1024 (length (mem_left k fd))"
  define k' where "k' = k[mem_slot fd := (fst (k ! mem_slot fd), drop n (mem_left k fd), mem_outp k fd)]"
  have "x_read mem_ops fd 1024 k = (int n, take n (mem_left k fd), k')"
    by (simp add: mem_ops_def n_def k'_def Let_def)
  moreover have "mem_left k' fd = drop n (mem_left k fd)" "mem_opn k' = mem_opn k"
    "\<forall>g \<in> mem_opn k. mem_outp k' g = mem_outp k g"
    using fd by (auto simp: k'_def mem_defs nth_list_update split: if_splits)
  moreover have "n \<le> length (mem_left k fd)" "mem_left k fd \<noteq> [] \<longrightarrow> 0 < n" by (auto simp: n_def)
  ultimately show "\<exists>n k'. x_read mem_ops fd 1024 k = (int n, take n (mem_left k fd), k') \<and> n \<le> length (mem_left k fd) \<and>
       (mem_left k fd \<noteq> [] \<longrightarrow> 0 < n) \<and> mem_left k' fd = drop n (mem_left k fd) \<and> mem_opn k' = mem_opn k \<and>
       (\<forall>g \<in> mem_opn k. mem_outp k' g = mem_outp k g)" by blast
next
  fix fd bs and k :: mem_fs
  assume fd: "fd \<in> mem_opn k"
  show "\<exists>k'. x_write mem_ops fd bs k = (int (length bs), k') \<and> mem_outp k' fd = mem_outp k fd @ bs \<and>
       mem_opn k' = mem_opn k \<and> (\<forall>g. g \<noteq> fd \<longrightarrow> mem_left k' g = mem_left k g)"
    using fd by (auto simp: mem_ops_def mem_defs nth_list_update split: if_splits)
next
  fix fd and k :: mem_fs
  assume fd: "fd \<in> mem_opn k"
  show "\<exists>k'. x_close mem_ops fd k = (0, k') \<and> mem_opn k' = mem_opn k - {fd} \<and> (\<forall>g. mem_outp k' g = mem_outp k g)"
    using fd by (auto simp: mem_ops_def mem_defs nth_list_update mem_slot_inj split: if_splits)
qed

definition xm_example :: "nat \<Rightarrow> xmerge_params" where
  "xm_example n = \<lparr>xp_outfile = ''out'', xp_infiles = (\<lambda>j. if j < 4 then Some ([''a'', ''b'', ''c'', ''missing''] ! j) else None),
     xp_num_files = of_nat n, xp_oflags = 65, xp_mode = 420, xp_count_ok = True\<rparr>"

lemma xm_example_files:
  "\<forall>j < length [''one'', [], ''two'']. \<exists>name. xp_infiles (xm_example n) j = Some name \<and> mem_data name = Some ([''one'', [], ''two''] ! j)"
  by (auto simp: xm_example_def mem_data_def less_Suc_eq)

lemma xm_example_open:
  "x_open mem_ops (xp_outfile (xm_example n)) (xp_oflags (xm_example n)) (xp_mode (xm_example n)) [] = (1, [(True, [], [])])"
  by (simp add: mem_ops_def mem_open_def xm_example_def mem_data_def)

lemma xm_example_simps:
  "xp_count_ok (xm_example n)" "unat (xp_num_files (xm_example 3)) = 3" "unat (xp_num_files (xm_example 4)) = 4"
  "xp_infiles (xm_example n) 3 = Some ''missing''" "\<forall>k. x_open mem_ops ''missing'' 0 0 k = (-2, k)"
  "1 \<in> mem_opn [(True, [], [])]" "mem_outp [(True, [], [])] 1 = []"
  by (simp_all add: xm_example_def mem_ops_def mem_open_def mem_defs)

theorem xmerge_concatenates_witness:
  "\<exists>k'. xmerge mem_ops (Some (xm_example 3)) 40 [] = Some (6, Some 3, k') \<and> mem_outp k' 1 = ''onetwo''"
proof -
  have "\<exists>k'. xmerge mem_ops (Some (xm_example 3)) 40 [] =
      Some (int (length (concat [''one'', [], ''two''])), Some (int (length [''one'', [], ''two''])), k') \<and>
      mem_outp k' 1 = mem_outp [(True, [], [])] 1 @ concat [''one'', [], ''two''] \<and>
      mem_opn k' = mem_opn [(True, [], [])] - {1}"
    by (rule xmerge_concatenates [OF mem_fs_laws xm_example_open _ _ _ _ xm_example_files])
      (simp_all add: xm_example_simps)
  then show ?thesis by (simp only: xm_example_simps) fastforce
qed

theorem xmerge_missing_input_witness:
  "\<exists>k'. xmerge mem_ops (Some (xm_example 4)) 40 [] = Some (-2, Some 3, k') \<and> mem_outp k' 1 = ''onetwo''"
proof -
  have "\<exists>k'. xmerge mem_ops (Some (xm_example 4)) 40 [] =
      Some (-2, Some (int (length [''one'', [], ''two''])), k') \<and>
      mem_outp k' 1 = mem_outp [(True, [], [])] 1 @ concat [''one'', [], ''two''] \<and>
      mem_opn k' = mem_opn [(True, [], [])] - {1}"
    by (rule xmerge_missing_input [OF mem_fs_laws xm_example_open _ _ _ _ xm_example_files, where missing = "''missing''"])
      (simp_all add: xm_example_simps numeral_3_eq_3 [symmetric])
  then show ?thesis by (simp only: xm_example_simps) fastforce
qed

section \<open>Correctness of \<open>myfirst\<close> and \<open>mysum\<close>\<close>

text \<open>
  Loading \<open>myfirst\<close> is all or nothing: it returns 0 exactly when all four registrations
  succeed, and then holds all four; otherwise it returns the error of the first that fails and
  everything registered before it has been released again. Unloading releases everything.
\<close>

theorem myfirst_init_all_or_nothing:
  assumes "\<not> mf_region s" "\<not> mf_class s" "\<not> mf_device s" "\<not> mf_cdev s"
  shows "myfirst_init r c d a s =
      (case filter (\<lambda>x. x < 0) [r, c, d, a] of
         [] \<Rightarrow> (0, s\<lparr>mf_region := True, mf_class := True, mf_device := True, mf_cdev := True\<rparr>)
       | e # _ \<Rightarrow> (e, s)) \<and>
    myfirst_exit (snd (myfirst_init r c d a s)) = s"
  using assms by (cases s) (auto simp: myfirst_init_def myfirst_exit_def)

theorem myfirst_init_all_or_nothing_witness:
  "let s = \<lparr>mf_region = False, mf_class = False, mf_device = False, mf_cdev = False, mf_last = CHR ''x''\<rparr> in
   myfirst_init 0 0 (-12) 0 s = (-12, s)"
  using myfirst_init_all_or_nothing
    [of "\<lparr>mf_region = False, mf_class = False, mf_device = False, mf_cdev = False, mf_last = CHR ''x''\<rparr>" 0 0 "-12" 0]
  by simp

lemma sum_loop_closed:
  assumes "hi < INT_MAX" "i \<le> hi + 1"
  shows "sum_loop i hi acc = Some (acc + word_of_int (\<Sum>j \<in> {i..hi}. j))"
  using assms
proof (induction i hi acc rule: sum_loop.induct)
  case (1 i hi acc)
  show ?case
  proof (cases "i \<le> hi")
    case True
    then have "{i..hi} = insert i {i + 1..hi}" by auto
    then have "(\<Sum>j \<in> {i..hi}. j) = i + (\<Sum>j \<in> {i + 1..hi}. j)" by simp
    then show ?thesis using True 1 by (subst sum_loop.simps) (auto simp: add.assoc)
  qed (use 1 in \<open>subst sum_loop.simps, auto\<close>)
qed

lemma gauss_int:
  fixes a b :: int
  assumes "a \<le> b"
  shows "2 * (\<Sum>j \<in> {a..b}. j) = (a + b) * (b - a + 1)"
  using assms
proof (induction b rule: int_ge_induct)
  case base
  then show ?case by simp
next
  case (step b)
  have "{a..b + 1} = insert (b + 1) {a..b}" using step.hyps by auto
  then show ?case using step by (simp add: algebra_simps)
qed

text \<open>
  For every upper bound below \<open>INT_MAX\<close> the summing module ends, and its \<open>result\<close> is
  \<open>(from + to) (to - from + 1) / 2\<close> modulo \<open>2 ^ 32\<close>, or 0 for an empty range.
\<close>

theorem mysum_gauss:
  assumes "hi < INT_MAX"
  shows "mysum_init lo hi =
    Some (if hi < lo then 0 else word_of_int ((lo + hi) * (hi - lo + 1) div 2))"
proof (cases "hi < lo")
  case False
  then have "(\<Sum>j \<in> {lo..hi}. j) = (lo + hi) * (hi - lo + 1) div 2"
    using gauss_int [of lo hi] by simp
  then show ?thesis using False assms sum_loop_closed [of hi lo 0] by (simp add: mysum_init_def)
qed (simp add: mysum_init_def)

theorem mysum_gauss_witness: "mysum_init 1 100 = Some 5050"
  using mysum_gauss [of 100 1] by (simp add: INT_MAX_def)

text \<open>What was written is what the first read returns, and the second read is at end of file.\<close>

lemma myfirst_write_read:
  "myfirst_read True n 0 (snd (myfirst_write (Some ch) m s)) = (1, Some ch, 1)"
  "myfirst_read ok n 1 s' = (0, None, 1)"
  by (simp_all add: myfirst_read_def myfirst_write_def)

end
