(* ===== verification/User_Programs.thy ===== *)
theory User_Programs
  imports Kernel_Modules
begin

text \<open>
  The small user programs: the first shell (\<open>myshell.c\<close>), the reaping exercise (\<open>lab4.c\<close>), the command line of the merge
  tool (\<open>assignment4-1/test_xmerge.c\<close>), composed with the system call it makes. Strings are
  C strings without their NUL.
\<close>

section \<open>\<open>myshell\<close>\<close>

definition MAX_CMDLINE_LEN :: nat where "MAX_CMDLINE_LEN = 256"

text \<open>\<open>fgets\<close>: a line with its newline, at most \<open>n - 1\<close> characters; none at the end of the input.\<close>

definition fgets :: "nat \<Rightarrow> string \<Rightarrow> string option \<times> string" where
  "fgets n inp =
    (let line = takeWhile (\<lambda>c. c \<noteq> CHR 0x0A) inp;
         m = min (n - 1) (if length line < length inp then length line + 1 else length line)
     in if inp = [] then (None, []) else (Some (take m inp), drop m inp))"

text \<open>
  \<open>get_cmd_line\<close>: the line without its last character, or none for \<open>-1\<close>, and the rest of the
  input. A line that starts with NUL makes it write before the buffer: \<open>None\<close>.
\<close>

definition get_cmd_line :: "string \<Rightarrow> (string option \<times> string) option" where
  "get_cmd_line inp =
    (case fgets MAX_CMDLINE_LEN inp of (None, rest) \<Rightarrow> Some (None, rest)
     | (Some line, rest) \<Rightarrow>
         let cmdline = takeWhile (\<lambda>c. c \<noteq> CHR 0x00) line in
         if cmdline = [] then None
         else
           let cmdline = butlast cmdline in
           if dropWhile (\<lambda>c. c = CHR '' '') cmdline = [] then Some (None, rest) else Some (Some cmdline, rest))"

text \<open>One call of \<open>strtok\<close> with the delimiter space: the token, and where the next call goes on.\<close>

definition strtok :: "string \<Rightarrow> string option \<times> string" where
  "strtok s =
    (let r = dropWhile (\<lambda>c. c = CHR '' '') s in
     if r = [] then (None, [])
     else (Some (takeWhile (\<lambda>c. c \<noteq> CHR '' '') r), drop 1 (dropWhile (\<lambda>c. c \<noteq> CHR '' '') r)))"

fun strtok_n :: "nat \<Rightarrow> string \<Rightarrow> string option list" where
  "strtok_n 0 s = []"
| "strtok_n (Suc n) s = fst (strtok s) # strtok_n n (snd (strtok s))"

text \<open>The array \<open>tokens\<close> of \<open>process_cmd\<close>, and what \<open>execvp\<close> sees of it.\<close>

definition cmd_tokens :: "string \<Rightarrow> string option list" where
  "cmd_tokens cmdline = (let count = length (filter (\<lambda>c. c = CHR '' '') cmdline) in strtok_n (count + 1) cmdline @ [None])"

definition process_cmd :: "string \<Rightarrow> string list" where
  "process_cmd cmdline = map the (takeWhile (\<lambda>t. t \<noteq> None) (cmd_tokens cmdline))"

text \<open>The reference: split at every space and drop the empty pieces.\<close>

fun split_on :: "char \<Rightarrow> string \<Rightarrow> string list" where
  "split_on d [] = [[]]"
| "split_on d (c # cs) = (if c = d then [] # split_on d cs else (c # hd (split_on d cs)) # tl (split_on d cs))"

definition words_of :: "string \<Rightarrow> string list" where
  "words_of s = filter (\<lambda>w. w \<noteq> []) (split_on (CHR '' '') s)"

lemma split_on_nonempty [simp]: "split_on d s \<noteq> []" by (induction s) auto

lemma words_of_space: "words_of (CHR '' '' # s) = words_of s" by (simp add: words_of_def)

lemma words_of_skip: "words_of (dropWhile (\<lambda>c. c = CHR '' '') s) = words_of s"
  by (induction s) (simp_all add: words_of_space)

lemma split_on_word:
  "split_on d s = takeWhile (\<lambda>c. c \<noteq> d) s # (if dropWhile (\<lambda>c. c \<noteq> d) s = [] then [] else split_on d (drop 1 (dropWhile (\<lambda>c. c \<noteq> d) s)))"
  by (induction s) auto

lemma words_of_first:
  assumes "r \<noteq> []" "hd r \<noteq> CHR '' ''"
  shows "words_of r = takeWhile (\<lambda>c. c \<noteq> CHR '' '') r # words_of (drop 1 (dropWhile (\<lambda>c. c \<noteq> CHR '' '') r))"
proof -
  obtain c cs where r: "r = c # cs" "c \<noteq> CHR '' ''" using assms by (cases r) auto
  then have t: "takeWhile (\<lambda>c. c \<noteq> CHR '' '') r \<noteq> []" by simp
  have "words_of r = takeWhile (\<lambda>c. c \<noteq> CHR '' '') r # filter (\<lambda>w. w \<noteq> []) (if dropWhile (\<lambda>c. c \<noteq> CHR '' '') r = [] then []
      else split_on (CHR '' '') (drop 1 (dropWhile (\<lambda>c. c \<noteq> CHR '' '') r)))"
    unfolding words_of_def using t by (subst split_on_word) simp
  moreover have "filter (\<lambda>w. w \<noteq> []) (if d = [] then [] else split_on (CHR '' '') (drop 1 d)) = words_of (drop 1 d)" for d
    by (cases d) (simp_all add: words_of_def)
  ultimately show ?thesis by (simp only:)
qed

lemma strtok_words: "strtok s = (case words_of s of [] \<Rightarrow> (None, []) | w # ws \<Rightarrow> (Some w, snd (strtok s)))"
    "words_of (snd (strtok s)) = tl (words_of s)"
proof -
  let ?r = "dropWhile (\<lambda>c. c = CHR '' '') s"
  have nil: "words_of [] = []" by (simp add: words_of_def)
  have w: "words_of s = (if ?r = [] then [] else takeWhile (\<lambda>c. c \<noteq> CHR '' '') ?r # words_of (drop 1 (dropWhile (\<lambda>c. c \<noteq> CHR '' '') ?r)))"
  proof (cases "?r = []")
    case True
    have "words_of s = []" using words_of_skip [of s] nil unfolding True by simp
    then show ?thesis using True by (simp only: if_True refl)
  next
    case False
    then have "hd ?r \<noteq> CHR '' ''" by (rule hd_dropWhile)
    then have "words_of ?r = takeWhile (\<lambda>c. c \<noteq> CHR '' '') ?r # words_of (drop 1 (dropWhile (\<lambda>c. c \<noteq> CHR '' '') ?r))"
      using False by (intro words_of_first)
    then show ?thesis using False words_of_skip [of s] by (simp only: if_False)
  qed
  show "strtok s = (case words_of s of [] \<Rightarrow> (None, []) | w # ws \<Rightarrow> (Some w, snd (strtok s)))"
    unfolding w by (simp add: strtok_def Let_def)
  show "words_of (snd (strtok s)) = tl (words_of s)"
    unfolding w by (simp add: strtok_def Let_def nil)
qed

lemma strtok_n_words: "strtok_n n s = map Some (take n (words_of s)) @ replicate (n - length (words_of s)) None"
proof (induction n arbitrary: s)
  case (Suc n)
  show ?case
  proof (cases "words_of s")
    case Nil
    then show ?thesis using Suc.IH [of "snd (strtok s)"] strtok_words [of s] by simp
  next
    case (Cons w ws)
    then have "fst (strtok s) = Some w" "words_of (snd (strtok s)) = ws"
      using strtok_words [of s] by (metis fst_conv list.simps(5), simp)
    then show ?thesis using Suc.IH [of "snd (strtok s)"] Cons by simp
  qed
qed simp

lemma length_split_on: "length (split_on d s) = length (filter (\<lambda>c. c = d) s) + 1"
proof (induction s)
  case (Cons c s)
  then show ?case using split_on_nonempty [of d s] by (auto simp: length_tl neq_Nil_conv)
qed simp

text \<open>
  The arguments \<open>process_cmd\<close> of the first shell hands to \<open>execvp\<close> are exactly the non-empty words of the line, however many
  spaces stand between, before and after them; and the array, sized by counting spaces, has
  room for all of them and for the final null pointer.
\<close>

theorem myshell_arguments:
  "process_cmd cmdline = words_of cmdline \<and> length (cmd_tokens cmdline) = length (filter (\<lambda>c. c = CHR '' '') cmdline) + 2 \<and>
   cmd_tokens cmdline = map Some (words_of cmdline) @ replicate (length (cmd_tokens cmdline) - length (words_of cmdline)) None \<and>
   length (words_of cmdline) < length (cmd_tokens cmdline)"
proof -
  let ?n = "length (filter (\<lambda>c. c = CHR '' '') cmdline) + 1"
  have le: "length (words_of cmdline) \<le> ?n"
    using length_filter_le [of "\<lambda>w. w \<noteq> []" "split_on (CHR '' '') cmdline"] length_split_on [of "CHR '' ''" cmdline] by (simp add: words_of_def)
  then have t: "cmd_tokens cmdline = map Some (words_of cmdline) @ replicate (?n - length (words_of cmdline)) None @ [None]"
    using strtok_n_words [of ?n cmdline] by (simp add: cmd_tokens_def)
  have r: "replicate (?n - length (words_of cmdline)) None @ [None] = replicate (?n + 1 - length (words_of cmdline)) (None :: string option)"
    using le by (simp add: replicate_append_same Suc_diff_le)
  have "takeWhile (\<lambda>t. t \<noteq> None) (cmd_tokens cmdline) = map Some (words_of cmdline)"
    unfolding t r by (simp add: takeWhile_append takeWhile_replicate)
  then show ?thesis using le unfolding process_cmd_def t r by simp
qed

section \<open>\<open>lab4\<close>\<close>

text \<open>
  The state of the reaping exercise: the children that run, those that have exited and not been waited for, whether a
  \<open>SIGCHLD\<close> is pending, \<open>count\<close>, and how often the loop called \<open>fork\<close>.
\<close>

record lab4 =
  l4_alive :: nat
  l4_zombies :: nat
  l4_pending :: bool
  l4_count :: nat
  l4_i :: nat
  l4_forked :: nat

text \<open>
  The handler: \<open>wait(0)\<close> blocks until some child has exited and fails only when there is none left, so the loop
  ends when every child has been reaped. Signals raised meanwhile are left pending.
\<close>

function reap :: "lab4 \<Rightarrow> lab4" where
  "reap s =
    (if l4_zombies s > 0 then reap (s\<lparr>l4_zombies := l4_zombies s - 1, l4_count := l4_count s + 1\<rparr>)
     else if l4_alive s > 0 then reap (s\<lparr>l4_alive := l4_alive s - 1, l4_zombies := 1, l4_pending := True\<rparr>)
     else s)"
  by pat_completeness auto
termination by (relation "measure (\<lambda>s. 2 * l4_alive s + l4_zombies s)") auto

declare reap.simps [simp del]

definition handler :: "lab4 \<Rightarrow> lab4" where
  "handler s = reap (s\<lparr>l4_pending := False\<rparr>)"

inductive lab4_step :: "lab4 \<Rightarrow> lab4 \<Rightarrow> bool" where
  Fork: "l4_i s < 1000 \<Longrightarrow> lab4_step s (s\<lparr>l4_i := l4_i s + 1, l4_alive := l4_alive s + 1, l4_forked := l4_forked s + 1\<rparr>)"
| Fork_fails: "l4_i s < 1000 \<Longrightarrow> lab4_step s (s\<lparr>l4_i := l4_i s + 1\<rparr>)"
| Exit: "l4_alive s > 0 \<Longrightarrow> lab4_step s (s\<lparr>l4_alive := l4_alive s - 1, l4_zombies := l4_zombies s + 1, l4_pending := True\<rparr>)"
| Signal: "l4_pending s \<Longrightarrow> lab4_step s (handler s)"

definition lab4_init :: lab4 where
  "lab4_init = \<lparr>l4_alive = 0, l4_zombies = 0, l4_pending = False, l4_count = 0, l4_i = 0, l4_forked = 0\<rparr>"

lemma reap_spec:
  "l4_alive (reap s) = 0 \<and> l4_zombies (reap s) = 0 \<and> l4_count (reap s) = l4_count s + l4_zombies s + l4_alive s \<and>
   l4_i (reap s) = l4_i s \<and> l4_forked (reap s) = l4_forked s"
proof (induction s rule: reap.induct)
  case (1 s)
  then show ?case by (subst (1 2 3 4 5) reap.simps) auto
qed

definition lab4_ok :: "lab4 \<Rightarrow> bool" where
  "lab4_ok s \<longleftrightarrow> l4_count s + l4_zombies s + l4_alive s = l4_forked s \<and> (l4_zombies s > 0 \<longrightarrow> l4_pending s) \<and> l4_i s \<le> 1000"

lemma lab4_step_ok: "lab4_step s s' \<Longrightarrow> lab4_ok s \<Longrightarrow> lab4_ok s'"
proof (induction rule: lab4_step.induct)
  case (Signal s)
  then show ?case using reap_spec [of "s\<lparr>l4_pending := False\<rparr>"] by (simp add: lab4_ok_def handler_def)
qed (auto simp: lab4_ok_def)

interpretation lab4: step_invariant lab4_step lab4_ok
  by unfold_locales (rule lab4_step_ok)

lemma lab4_init_ok: "lab4_ok lab4_init" by (simp add: lab4_ok_def lab4_init_def)

text \<open>
  Every child is counted exactly once, whatever the order of forks, exits and signals, although one signal may stand for
  several exits: when no child runs and no signal is pending, \<open>count\<close> is the number of children started.
\<close>

theorem lab4_counts_all:
  assumes "lab4_step\<^sup>*\<^sup>* lab4_init s" "l4_alive s = 0" "\<not> l4_pending s"
  shows "l4_count s = l4_forked s \<and> l4_zombies s = 0"
  using lab4.reach_inv [OF assms(1) lab4_init_ok] assms(2,3) by (auto simp: lab4_ok_def)

section \<open>\<open>test_xmerge\<close>\<close>

text \<open>Flags of \<open>open\<close> on x86 and the permission bits of the default mode.\<close>

definition O_WRONLY :: u32 where "O_WRONLY = 1"
definition O_CREAT :: u32 where "O_CREAT = 64"
definition O_EXCL :: u32 where "O_EXCL = 128"
definition O_TRUNC :: u32 where "O_TRUNC = 512"
definition O_APPEND :: u32 where "O_APPEND = 1024"

lemmas open_flags = O_WRONLY_def O_CREAT_def O_EXCL_def O_TRUNC_def O_APPEND_def
















end
