(* ===== verification/Proc_Tools.thy ===== *)
theory Proc_Tools
  imports User_Programs "HOL-Library.Multiset"
begin

text \<open>
  The tools that read \<open>/proc\<close> (\<open>assignment 1/myps.c\<close> and \<open>assignment 1/info.c\<close>): the options, the comparison functions, the choice,
  order and layout of the rows of \<open>myps\<close>; the up time, the memory line and the per-CPU counters of \<open>info\<close>. What \<open>getThings\<close> reads of a
  process (its \<open>stat\<close>, \<open>status\<close> and \<open>comm\<close> files and the user data base) is a parameter, and so is
  \<open>qsort\<close>, of which the C standard promises a permutation ordered by the comparison. The divisions of \<open>double\<close> values
  that are truncated at once are whole divisions.
\<close>

section \<open>\<open>myps\<close>\<close>

record processInfo =
  pi_pid :: int
  pi_username :: string
  pi_cputime :: u64
  pi_vmem :: u64
  pi_commands :: string

definition cmpPid :: "processInfo \<Rightarrow> processInfo \<Rightarrow> int" where
  "cmpPid p q = pi_pid p - pi_pid q"

definition cmp_signed :: "u64 \<Rightarrow> int" where
  "cmp_signed temp = (if sint temp > 0 then 1 else if sint temp < 0 then -1 else 0)"

definition cmpVm :: "processInfo \<Rightarrow> processInfo \<Rightarrow> int" where
  "cmpVm p q = cmp_signed (pi_vmem q - pi_vmem p)"

definition cmpCpu :: "processInfo \<Rightarrow> processInfo \<Rightarrow> int" where
  "cmpCpu p q = cmp_signed (pi_cputime q - pi_cputime p)"

datatype sort_by = By_pid | By_vmet | By_cpu

definition callback :: "sort_by \<Rightarrow> processInfo \<Rightarrow> processInfo \<Rightarrow> int" where
  "callback f = (case f of By_pid \<Rightarrow> cmpPid | By_cpu \<Rightarrow> cmpCpu | By_vmet \<Rightarrow> cmpVm)"

definition lpad :: "nat \<Rightarrow> string \<Rightarrow> string" where "lpad n s = replicate (n - length s) (CHR '' '') @ s"
definition rpad :: "nat \<Rightarrow> string \<Rightarrow> string" where "rpad n s = s @ replicate (n - length s) (CHR '' '')"
definition zpad2 :: "nat \<Rightarrow> string" where "zpad2 n = (if n < 10 then ''0'' else []) @ nat_to_string n"

text \<open>A row; without a process it is the header. \<open>tck\<close> is \<open>sysconf(_SC_CLK_TCK)\<close>.\<close>

definition print_process :: "nat \<Rightarrow> processInfo option \<Rightarrow> string" where
  "print_process tck p =
    (case p of None \<Rightarrow> lpad 7 ''PID'' @ '' '' @ rpad 20 ''USER'' @ '' '' @ lpad 8 ''TIME'' @ '' '' @ lpad 10 ''VIRT'' @ '' CMD'' @ [CHR 0x0A]
     | Some p \<Rightarrow>
         let t = unat (pi_cputime p) div tck; hour = t div 3600; minute = t div 60 mod 60; second = t mod 60
         in lpad 7 (int_to_string (pi_pid p)) @ '' '' @ rpad 20 (pi_username p) @ '' '' @ zpad2 hour @ '':'' @ zpad2 minute @ '':'' @ zpad2 second @
            '' '' @ lpad 10 (nat_to_string (unat (drop_bit 10 (pi_vmem p)))) @ '' '' @ pi_commands p @ [CHR 0x0A])"

text \<open>\<open>atoi\<close> of a directory entry: the digits it starts with (0 when there is none).\<close>

definition entry_pid :: "string \<Rightarrow> int" where
  "entry_pid name = int (digits_val (takeWhile is_digit name))"

text \<open>\<open>info\<close> is \<open>getThings\<close>; \<open>entries\<close> is what \<open>readdir\<close> gives, if \<open>/proc\<close> can be opened.\<close>

definition printProcess ::
  "((processInfo \<Rightarrow> processInfo \<Rightarrow> int) \<Rightarrow> processInfo list \<Rightarrow> processInfo list) \<Rightarrow> (int \<Rightarrow> processInfo) \<Rightarrow> nat \<Rightarrow> sort_by \<Rightarrow> string option \<Rightarrow>
     string list option \<Rightarrow> string" where
  "printProcess qsort info tck sortFlags username entries =
    (case entries of None \<Rightarrow> []
     | Some names \<Rightarrow>
         let pids = filter (\<lambda>pid. pid \<noteq> 0) (map entry_pid names);
             processes = filter (\<lambda>p. \<not> (case username of Some u \<Rightarrow> u \<noteq> pi_username p | None \<Rightarrow> False)) (map info pids)
         in print_process tck None @ concat (map (\<lambda>p. print_process tck (Some p)) (qsort (callback sortFlags) processes)))"

text \<open>The options: the last \<open>-m\<close> or \<open>-p\<close> wins; \<open>-u\<close> at the end leaves no user.\<close>

fun myps_options :: "string list \<Rightarrow> sort_by \<times> string option \<Rightarrow> sort_by \<times> string option" where
  "myps_options [] o' = o'"
| "myps_options (a # as) o' =
    (let o' = (if a = ''-m'' then (By_vmet, snd o') else if a = ''-p'' then (By_cpu, snd o') else o')
     in if a = ''-u'' then (case as of [] \<Rightarrow> (fst o', None) | u # as \<Rightarrow> myps_options as (fst o', Some u))
        else myps_options as o')"

definition myps_main ::
  "((processInfo \<Rightarrow> processInfo \<Rightarrow> int) \<Rightarrow> processInfo list \<Rightarrow> processInfo list) \<Rightarrow> (int \<Rightarrow> processInfo) \<Rightarrow> nat \<Rightarrow> (string \<Rightarrow> bool) \<Rightarrow>
     string list \<Rightarrow> string list option \<Rightarrow> string" where
  "myps_main qsort info tck user_exists argv entries =
    (case myps_options argv (By_pid, None) of (sortFlags, username) \<Rightarrow>
      (case username of Some u \<Rightarrow> if \<not> user_exists u then ''invalid user: '' @ u @ [CHR 0x0A]
                                  else printProcess qsort info tck sortFlags username entries
       | None \<Rightarrow> printProcess qsort info tck sortFlags username entries))"

section \<open>\<open>info\<close>\<close>

definition printTime :: "nat \<Rightarrow> string" where
  "printTime time =
    (let day = time div 86400; hour = time div 3600 mod 24; minute = time div 60 mod 60; second = time mod 60
     in ''Uptime: '' @ nat_to_string day @ '' Day(s), '' @ nat_to_string hour @ '':'' @ zpad2 minute @ '':'' @ zpad2 second @ [CHR 0x0A])"

text \<open>The scan of \<open>/proc/meminfo\<close>, line by line as \<open>sscanf\<close> splits it: total and used memory, unset at first.\<close>

fun scan_meminfo :: "(string \<times> u64) list \<Rightarrow> u64 option \<times> u64 option \<Rightarrow> u64 option \<times> u64 option" where
  "scan_meminfo [] m = m"
| "scan_meminfo ((key, v) # ls) m =
    scan_meminfo ls
      (if key = ''MemTotal:'' then (Some v, snd m)
       else if key = ''MemFree:'' then (fst m, map_option (\<lambda>t. t - v) (fst m))
       else m)"

definition isCpu :: "string \<Rightarrow> bool" where
  "isCpu str \<longleftrightarrow> take 3 str = ''cpu'' \<and> \<not> (length str = 3 \<or> str ! 3 = CHR '' '')"

definition countCpu :: "string list \<Rightarrow> nat" where
  "countCpu stat = length (filter isCpu stat)"

text \<open>\<open>scan\<close> gives the first word of a line and the three counters \<open>sscanf\<close> reads.\<close>

definition getCpuUsage :: "(string \<Rightarrow> string \<times> int \<times> int \<times> int) \<Rightarrow> string list \<Rightarrow> int list" where
  "getCpuUsage scan stat =
     map (\<lambda>l. case scan l of (_, user, lowUser, sys) \<Rightarrow> user + sys + lowUser) (filter (\<lambda>l. isCpu (fst (scan l))) stat)"

section \<open>What they show\<close>

lemma cmp_signed_diff:
  assumes "unat a < 2 ^ 63" "unat b < 2 ^ 63"
  shows "cmp_signed (a - b) = sgn (int (unat a) - int (unat b))"
proof -
  let ?d = "int (unat a) - int (unat b)"
  have u: "uint a = int (unat a)" "uint b = int (unat b)" by simp_all
  have "sint (a - b) = signed_take_bit 63 ?d"
    unfolding u [symmetric] by (simp add: sint_uint uint_word_ariths signed_take_bit_eq_iff_take_bit_eq take_bit_eq_mod)
  also have "\<dots> = ?d"
  proof (rule signed_take_bit_int_eq_self)
    have "int (unat a) < int (2 ^ 63)" "int (unat b) < int (2 ^ 63)" using assms by (simp_all only: of_nat_less_iff)
    moreover have "int (2 ^ 63) = 2 ^ 63" by simp
    ultimately show "- (2 ^ 63) \<le> ?d" "?d < 2 ^ 63" by linarith+
  qed
  finally show ?thesis by (simp add: cmp_signed_def sgn_if)
qed

text \<open>
  The rows \<open>myps\<close> prints: the processes of the user asked for, each once per directory entry, in the order the option asks
  for, the largest first for memory and CPU time.
\<close>

definition row_order :: "sort_by \<Rightarrow> processInfo \<Rightarrow> processInfo \<Rightarrow> bool" where
  "row_order f p q \<longleftrightarrow> (case f of By_pid \<Rightarrow> pi_pid p \<le> pi_pid q | By_vmet \<Rightarrow> pi_vmem q \<le> pi_vmem p
     | By_cpu \<Rightarrow> pi_cputime q \<le> pi_cputime p)"

lemma printProcess_rows:
  assumes "\<And>cmp xs. mset (qsort cmp xs) = mset xs" "\<And>cmp xs. sorted_wrt (\<lambda>p q. cmp p q \<le> 0) (qsort cmp xs)"
    and "\<And>pid. unat (pi_vmem (info pid)) < 2 ^ 63 \<and> unat (pi_cputime (info pid)) < 2 ^ 63"
  shows "\<exists>ps. printProcess qsort info tck f username (Some names) = print_process tck None @ concat (map (\<lambda>p. print_process tck (Some p)) ps) \<and>
    mset ps = mset (filter (\<lambda>p. \<forall>u. username = Some u \<longrightarrow> pi_username p = u) (map info (filter (\<lambda>n. n \<noteq> 0) (map entry_pid names)))) \<and>
    sorted_wrt (row_order f) ps"
proof -
  define xs where "xs = filter (\<lambda>p. \<not> (case username of Some u \<Rightarrow> u \<noteq> pi_username p | None \<Rightarrow> False)) (map info (filter (\<lambda>n. n \<noteq> 0) (map entry_pid names)))"
  let ?ps = "qsort (callback f) xs"
  have "set ?ps = set xs" using assms(1) by (rule mset_eq_setD)
  then have x: "set ?ps \<subseteq> range info" by (auto simp: xs_def)
  have "row_order f p q" if "callback f p q \<le> 0" "p \<in> range info" "q \<in> range info" for p q
    using that assms(3) by (cases f) (auto simp: callback_def row_order_def cmpPid_def cmpVm_def cmpCpu_def cmp_signed_diff sgn_if word_le_def split: if_splits)
  then have "sorted_wrt (row_order f) ?ps"
    using x by (intro sorted_wrt_mono_rel [OF _ assms(2) [of "callback f" xs]]) blast
  moreover have "xs = filter (\<lambda>p. \<forall>u. username = Some u \<longrightarrow> pi_username p = u) (map info (filter (\<lambda>n. n \<noteq> 0) (map entry_pid names)))"
    unfolding xs_def by (intro filter_cong) (auto split: option.splits)
  moreover have "printProcess qsort info tck f username (Some names) = print_process tck None @ concat (map (\<lambda>p. print_process tck (Some p)) ?ps)"
    by (simp add: printProcess_def xs_def Let_def)
  ultimately show ?thesis using assms(1) [of "callback f" xs] by metis
qed

lemma isCpu_iff: "isCpu l \<longleftrightarrow> (case l of c # p # u # x # r \<Rightarrow> [c, p, u] = ''cpu'' \<and> x \<noteq> CHR '' '' | _ \<Rightarrow> False)"
  by (auto simp: isCpu_def numeral_3_eq_3 split: list.splits)

text \<open>The words of \<open>/proc/stat\<close> that look like a CPU are the lines that do: the counters fit the array sized by \<open>countCpu\<close>.\<close>

lemma getCpuUsage_fits:
  assumes "\<And>l. l \<in> set stat \<Longrightarrow> fst (scan l) = takeWhile (\<lambda>c. c \<noteq> CHR '' '') l"
  shows "length (getCpuUsage scan stat) = countCpu stat"
proof -
  have "isCpu (takeWhile (\<lambda>c. c \<noteq> CHR '' '') l) = isCpu l" for l
    by (auto simp: isCpu_iff split: list.splits)
  then show ?thesis using assms by (simp add: getCpuUsage_def countCpu_def cong: filter_cong)
qed

end
