(* ===== verification/Shell.thy ===== *)
theory Shell
  imports Prelude
begin

text \<open>
  The job-control shell \<open>assignment3-1/jankersh.c\<close>: its tokenizer, job list, child reaper,
  built-in commands, the parsing of a command into a pipeline with redirections, and the
  execution of a job. A \<open>struct Job\<close> lives in a store and the tail queue is a list of addresses, so
  that a handler that holds a pointer and the list see the same job. The operating system
  (\<open>open\<close>, \<open>fork\<close>, \<open>waitpid\<close>, \<open>chdir\<close>, ...) is the record \<open>os\<close>: the \<open>n\<close>-th call of \<open>fork\<close> and of a
  waiting loop get the \<open>n\<close>-th answer. What is printed is a list of messages. Writing
  outside a fixed buffer, following a null pointer and running an unterminated string is
  \<open>None\<close>. The unused first versions \<open>tokenize\<close> and \<open>execJob\<close> and the debugging
  output are left out.
\<close>

section \<open>The tokenizer\<close>

datatype tok_state = Start | Normal | Space | Dquote | Quote

text \<open>
  The variables of \<open>tokenize2\<close>: the line (which it overwrites), the index, what has been
  written to \<open>copyString\<close> (its length is \<open>csIndex\<close>), the starts of the tokens, and the state.
\<close>

record lexer =
  lx_str :: string
  lx_i :: nat
  lx_buf :: string
  lx_toks :: "nat list"
  lx_state :: tok_state

abbreviation NUL :: char where "NUL \<equiv> CHR 0x00"

definition BUF_SIZE :: nat where "BUF_SIZE = 1024"

definition put :: "string \<Rightarrow> lexer \<Rightarrow> lexer option" where
  "put cs lx = (if length (lx_buf lx) + length cs \<le> BUF_SIZE then Some (lx\<lparr>lx_buf := lx_buf lx @ cs\<rparr>) else None)"

definition new_token :: "lexer \<Rightarrow> lexer" where
  "new_token lx = lx\<lparr>lx_toks := lx_toks lx @ [length (lx_buf lx)]\<rparr>"

definition set_state :: "tok_state \<Rightarrow> lexer \<Rightarrow> lexer" where
  "set_state s lx = lx\<lparr>lx_state := s\<rparr>"

definition next_char :: "lexer \<Rightarrow> nat \<Rightarrow> lexer" where
  "next_char lx n = lx\<lparr>lx_i := lx_i lx + n\<rparr>"

definition lex_blank :: "char \<Rightarrow> lexer \<Rightarrow> lexer option" where
  "lex_blank c lx = (case lx_state lx of
       Normal \<Rightarrow> map_option (set_state Space) (put [NUL] lx)
     | Start \<Rightarrow> Some lx
     | _ \<Rightarrow> put [c] lx)"

text \<open>\<open>own\<close> is the state inside this kind of quotes.\<close>

definition lex_quote :: "char \<Rightarrow> tok_state \<Rightarrow> lexer \<Rightarrow> lexer option" where
  "lex_quote c own lx =
    (if lx_state lx = own then Some (set_state Normal lx)
     else case lx_state lx of
       Space \<Rightarrow> Some (set_state own (new_token lx))
     | Normal \<Rightarrow> Some (set_state own lx)
     | _ \<Rightarrow> put [c] lx)"

definition nth_is :: "string \<Rightarrow> nat \<Rightarrow> char \<Rightarrow> bool" where
  "nth_is s i c \<longleftrightarrow> i < length s \<and> s ! i = c"

text \<open>\<open>sprintf\<close> also writes the terminator; \<open>lim\<close> is the limit of \<open>strnlen\<close>.\<close>

definition put_number :: "int \<Rightarrow> nat \<Rightarrow> lexer \<Rightarrow> lexer option" where
  "put_number n lim lx =
    (if length (lx_buf lx) + length (int_to_string n) + 1 \<le> BUF_SIZE then put (take lim (int_to_string n)) lx else None)"

definition lex_dollar :: "int \<Rightarrow> int \<Rightarrow> lexer \<Rightarrow> lexer option" where
  "lex_dollar pid status lx =
    (let lx = (if lx_state lx = Space then set_state Normal (new_token lx) else lx) in
     if nth_is (lx_str lx) (lx_i lx + 1) (CHR ''$'') \<and> lx_state lx \<noteq> Quote
       then map_option (\<lambda>lx. next_char lx 1) (put_number pid 10 lx)
     else if nth_is (lx_str lx) (lx_i lx + 1) (CHR ''?'') \<and> lx_state lx \<noteq> Quote
       then map_option (\<lambda>lx. next_char lx 1) (put_number status 5 lx)
     else put ''$'' lx)"

text \<open>
  The operators: \<open>two\<close> tells whether the next character belongs to the operator; it is overwritten
  with a blank then, otherwise the operator itself is and the index steps back, so that the blank is
  read next. The index is that of the next iteration less one.
\<close>

definition lex_op :: "string \<Rightarrow> bool \<Rightarrow> lexer \<Rightarrow> (bool \<times> lexer) option" where
  "lex_op opr two lx =
    (case lx_state lx of
       Dquote \<Rightarrow> map_option (Pair False) (put [hd opr] lx)
     | Quote \<Rightarrow> map_option (Pair False) (put [hd opr] lx)
     | s \<Rightarrow> do {
         lx \<leftarrow> (if s \<noteq> Start then map_option new_token (put [NUL] lx) else Some lx);
         lx \<leftarrow> put opr lx;
         let lx = lx\<lparr>lx_str := (lx_str lx)[(if two then lx_i lx + 1 else lx_i lx) := CHR '' '']\<rparr>;
         Some (\<not> two, set_state Normal lx)
       })"

definition lex_other :: "char \<Rightarrow> lexer \<Rightarrow> lexer option" where
  "lex_other c lx =
    (if c \<noteq> CHR 0x0A then do {
       lx' \<leftarrow> put [c] lx;
       Some (case lx_state lx of
           Space \<Rightarrow> set_state Normal (lx'\<lparr>lx_toks := lx_toks lx' @ [length (lx_buf lx)]\<rparr>)
         | Start \<Rightarrow> set_state Normal lx'
         | _ \<Rightarrow> lx')
     } else put [NUL] lx)"

definition is_op :: "char \<Rightarrow> bool" where
  "is_op c \<longleftrightarrow> c \<in> {CHR ''&'', CHR ''>'', CHR ''<'', CHR ''|''}"

definition op_is_two :: "lexer \<Rightarrow> char \<Rightarrow> bool" where
  "op_is_two lx c \<longleftrightarrow> (c = CHR ''&'' \<or> c = CHR ''>'') \<and> nth_is (lx_str lx) (lx_i lx + 1) (CHR ''>'')"

text \<open>One iteration; the flag says that the index stepped back, so that the loop increment cancels it.\<close>

definition lex_step :: "int \<Rightarrow> int \<Rightarrow> lexer \<Rightarrow> (bool \<times> lexer) option" where
  "lex_step pid status lx =
    (let c = lx_str lx ! lx_i lx in
     if c = CHR '' '' \<or> c = CHR 0x09 then map_option (Pair False) (lex_blank c lx)
     else if c = CHR 0x22 then map_option (Pair False) (lex_quote c Dquote lx)
     else if c = CHR 0x27 then map_option (Pair False) (lex_quote c Quote lx)
     else if c = CHR ''$'' then map_option (Pair False) (lex_dollar pid status lx)
     else if is_op c then
       (let two = op_is_two lx c in lex_op (if two then [c, CHR ''>''] else [c]) two lx)
     else map_option (Pair False) (lex_other c lx))"

definition lex_advance :: "bool \<times> lexer \<Rightarrow> lexer" where
  "lex_advance = (\<lambda>(back, lx). if back then lx else next_char lx 1)"

lemma lex_str_length:
  "lex_step pid status lx = Some (b, lx') \<Longrightarrow> length (lx_str lx') = length (lx_str lx) \<and> lx_i lx \<le> lx_i lx'"
  by (auto simp: lex_step_def lex_blank_def lex_quote_def lex_dollar_def lex_op_def lex_other_def put_def put_number_def
      new_token_def set_state_def next_char_def Let_def bind_eq_Some_conv split: if_splits tok_state.splits)

lemma lex_back:
  assumes "lex_step pid status lx = Some (True, lx')" "lx_i lx < length (lx_str lx)"
  shows "lx_i lx' = lx_i lx" "lx_str lx ! lx_i lx \<noteq> CHR '' ''" "lx_str lx' ! lx_i lx = CHR '' ''"
  using assms
  by (auto simp: lex_step_def lex_blank_def lex_quote_def lex_dollar_def lex_op_def lex_other_def put_def put_number_def
      new_token_def set_state_def next_char_def Let_def bind_eq_Some_conv split: if_splits tok_state.splits)

text \<open>The loop ends: a step back leaves a blank, which is never stepped back from.\<close>

definition lex_left :: "lexer \<Rightarrow> nat" where
  "lex_left lx = 2 * (length (lx_str lx) - lx_i lx) +
     (if lx_i lx < length (lx_str lx) \<and> lx_str lx ! lx_i lx \<noteq> CHR '' '' then 1 else 0)"

lemma lex_step_left:
  assumes "lex_step pid status lx = Some s" "lx_i lx < length (lx_str lx)"
  shows "lex_left (lex_advance s) < lex_left lx"
proof (cases s)
  case (Pair b lx')
  note l = lex_str_length [OF assms(1) [unfolded Pair]]
  show ?thesis
  proof (cases b)
    case True
    then show ?thesis using lex_back [of pid status lx lx'] assms l Pair by (simp add: lex_left_def lex_advance_def)
  next
    case False
    have "Suc (2 * (length (lx_str lx) - Suc (lx_i lx'))) < 2 * (length (lx_str lx) - lx_i lx)"
      using assms(2) l by linarith
    then show ?thesis using False l Pair by (auto simp: lex_left_def lex_advance_def next_char_def)
  qed
qed

function lex_loop :: "int \<Rightarrow> int \<Rightarrow> lexer \<Rightarrow> lexer option" where
  "lex_loop pid status lx =
    (if lx_i lx < length (lx_str lx)
     then case lex_step pid status lx of None \<Rightarrow> None | Some s \<Rightarrow> lex_loop pid status (lex_advance s)
     else Some lx)"
  by pat_completeness auto
termination
  by (relation "measure (\<lambda>(pid, status, lx). lex_left lx)") (auto simp: lex_step_left)

declare lex_loop.simps [simp del]

definition lex_init :: "string \<Rightarrow> lexer" where
  "lex_init str = \<lparr>lx_str = str, lx_i = 0, lx_buf = [], lx_toks = [0], lx_state = Start\<rparr>"

text \<open>A C string in the buffer; none if nothing that was written terminates it.\<close>

definition c_string :: "string \<Rightarrow> nat \<Rightarrow> string option" where
  "c_string buf off = (if NUL \<in> set (drop off buf) then Some (takeWhile (\<lambda>c. c \<noteq> NUL) (drop off buf)) else None)"

fun all_some :: "'a option list \<Rightarrow> 'a list option" where
  "all_some [] = Some []"
| "all_some (x # xs) = do { y \<leftarrow> x; ys \<leftarrow> all_some xs; Some (y # ys) }"

definition tokenize2 :: "int \<Rightarrow> int \<Rightarrow> string \<Rightarrow> string list option" where
  "tokenize2 pid status str = do {
     lx \<leftarrow> lex_loop pid status (lex_init str);
     all_some (map (c_string (lx_buf lx)) (lx_toks lx))
   }"

end
