(* ===== verification/Shell_Jobs.thy ===== *)
theory Shell_Jobs
  imports Shell
begin

text \<open>
  The job half of \<open>assignment3-1/jankersh.c\<close>: the job list and the reaper, the parsing of a
  job into a pipeline with redirections, its execution, the built-in commands and one turn of
  the main loop.
\<close>

section \<open>Jobs\<close>

datatype job_status = PENDING | RUNNING | HIATUS | DONE

record job =
  isBackground :: bool
  tokenized :: "string list"
  status :: job_status
  groupId :: int
  nPipe :: int
  finishCount :: int
  jobId :: int

datatype message = Job_info int job_status "string list" | Text string | Error_text string

record shell =
  jobs :: "nat \<Rightarrow> job"
  joblist :: "nat list"
  fresh :: nat
  nJobs :: int
  shellGroup :: int
  term_pgrp :: int
  cwd :: string
  curr_path :: string
  prev_path :: string
  forks :: nat
  waits :: nat
  continued :: "int list"
  messages :: "message list"

definition upd_job :: "nat \<Rightarrow> (job \<Rightarrow> job) \<Rightarrow> shell \<Rightarrow> shell" where
  "upd_job j f sh = sh\<lparr>jobs := (jobs sh)(j := f (jobs sh j))\<rparr>"

definition say :: "message \<Rightarrow> shell \<Rightarrow> shell" where
  "say m sh = sh\<lparr>messages := messages sh @ [m]\<rparr>"

definition findJobByGrpId :: "int \<Rightarrow> shell \<Rightarrow> nat option" where
  "findJobByGrpId gpid sh = find (\<lambda>j. groupId (jobs sh j) = gpid) (joblist sh)"

definition findJobByJobId :: "int \<Rightarrow> shell \<Rightarrow> nat option" where
  "findJobByJobId n sh = find (\<lambda>j. jobId (jobs sh j) = n) (joblist sh)"

definition removeJob :: "nat option \<Rightarrow> shell \<Rightarrow> shell" where
  "removeJob j sh = (case j of None \<Rightarrow> sh | Some j \<Rightarrow> sh\<lparr>joblist := remove1 j (joblist sh)\<rparr>)"

definition printJobInfo :: "nat \<Rightarrow> shell \<Rightarrow> shell" where
  "printJobInfo j sh = say (Job_info (jobId (jobs sh j)) (status (jobs sh j)) (tokenized (jobs sh j))) sh"

fun print_loop :: "nat list \<Rightarrow> shell \<Rightarrow> shell" where
  "print_loop [] sh = sh"
| "print_loop (j # js) sh = print_loop js (if status (jobs sh j) \<noteq> DONE then printJobInfo j sh else sh)"

definition printJobList :: "shell \<Rightarrow> shell" where
  "printJobList sh = print_loop (joblist sh) sh"

text \<open>The removal lags one job behind the traversal, so that the link to the next job is still there.\<close>

fun clean_loop :: "nat option \<Rightarrow> nat list \<Rightarrow> shell \<Rightarrow> shell" where
  "clean_loop prev [] sh = (case prev of Some p \<Rightarrow> if status (jobs sh p) = DONE then removeJob prev sh else sh | None \<Rightarrow> sh)"
| "clean_loop prev (j # js) sh =
    (let sh = (if status (jobs sh j) = DONE \<and> isBackground (jobs sh j) then printJobInfo j sh else sh);
         sh = (case prev of Some p \<Rightarrow> if status (jobs sh p) = DONE then removeJob prev sh else sh | None \<Rightarrow> sh)
     in clean_loop (Some j) js sh)"

definition cleanJobList :: "shell \<Rightarrow> shell" where
  "cleanJobList sh = (let sh = clean_loop None (joblist sh) sh in if joblist sh = [] then sh\<lparr>nJobs := 1\<rparr> else sh)"

text \<open>Its two searches are the same: the last stopped job, else the last job.\<close>

definition currentJob :: "shell \<Rightarrow> nat option" where
  "currentJob sh =
    (case find (\<lambda>j. status (jobs sh j) = HIATUS) (rev (joblist sh)) of Some j \<Rightarrow> Some j
     | None \<Rightarrow> (case find (\<lambda>j. status (jobs sh j) = HIATUS) (rev (joblist sh)) of Some j \<Rightarrow> Some j
     | None \<Rightarrow> if joblist sh = [] then None else Some (last (joblist sh))))"

section \<open>The reaper\<close>

datatype wait_result = Stopped | Exited

text \<open>\<open>os_open\<close>: \<open>None\<close> as a path is a null pointer. \<open>os_waits n g\<close>: what the \<open>n\<close>-th waiting loop gets for group \<open>g\<close>.\<close>

datatype open_mode = Read_only | Write_trunc | Write_append

record os =
  os_open :: "string option \<Rightarrow> open_mode \<Rightarrow> int"
  os_fork :: "nat \<Rightarrow> int"
  os_waits :: "nat \<Rightarrow> int \<Rightarrow> wait_result list"
  os_chdir :: "string \<Rightarrow> string \<Rightarrow> string option"
  os_home :: string
  os_tcsetpgrp_ok :: bool

fun reap_events :: "nat \<Rightarrow> wait_result list \<Rightarrow> shell \<Rightarrow> shell" where
  "reap_events j [] sh = sh"
| "reap_events j (w # ws) sh = reap_events j ws
    (upd_job j (\<lambda>b. case w of Stopped \<Rightarrow> b\<lparr>status := HIATUS\<rparr>
       | Exited \<Rightarrow> let b = b\<lparr>finishCount := finishCount b + 1\<rparr> in
           if finishCount b = nPipe b then b\<lparr>status := DONE\<rparr> else b) sh)"

fun reap_loop :: "os \<Rightarrow> nat list \<Rightarrow> shell \<Rightarrow> shell" where
  "reap_loop os [] sh = sh"
| "reap_loop os (j # js) sh =
    (if status (jobs sh j) = RUNNING
     then reap_loop os js (reap_events j (os_waits os (waits sh) (groupId (jobs sh j))) (sh\<lparr>waits := waits sh + 1\<rparr>))
     else reap_loop os js sh)"

definition theReaper :: "os \<Rightarrow> shell \<Rightarrow> shell" where
  "theReaper os sh = reap_loop os (joblist sh) sh"

section \<open>Parsing a job\<close>

text \<open>
  One segment of the pipeline: its entry of \<open>descTable\<close> (three descriptors, -1 for none) and its
  words; \<open>None\<close> is a null \<open>cmdStartInd\<close>.
\<close>

record segment =
  seg_in :: int
  seg_out :: int
  seg_err :: int
  seg_cmd :: "string list option"

definition empty_segment :: segment where
  "empty_segment = \<lparr>seg_in = -1, seg_out = -1, seg_err = -1, seg_cmd = None\<rparr>"

definition MAX_PIPES :: nat where "MAX_PIPES = 1024"

definition arg_of :: "string list \<Rightarrow> string option" where
  "arg_of ts = (case ts of t # _ \<Rightarrow> Some t | [] \<Rightarrow> None)"

text \<open>
  The loop over the tokens: the segments before the current one and the current one. \<open>Inl\<close> is the return
  after a failed \<open>open\<close>, with what \<open>perror\<close> is given; \<open>None\<close> is the overflow of the fixed tables.
\<close>

function parse_loop :: "os \<Rightarrow> string list \<Rightarrow> segment list \<Rightarrow> segment \<Rightarrow> (string + segment list) option" where
  "parse_loop os [] before cur = Some (Inr (before @ [cur]))"
| "parse_loop os (t # ts) before cur =
    (if t = ''<'' then
       let fd = os_open os (arg_of ts) Read_only in
       if fd < 0 then Some (Inl ''Error when reading file'') else parse_loop os (drop 1 ts) before (cur\<lparr>seg_in := fd\<rparr>)
     else if t = ''&>'' then
       let fd = os_open os (arg_of ts) Write_trunc in
       if fd < 0 then Some (Inl ''Error when writing file'') else parse_loop os (drop 1 ts) before (cur\<lparr>seg_out := fd, seg_err := fd\<rparr>)
     else if t = ''>>'' then
       let fd = os_open os (arg_of ts) Write_append in
       if fd < 0 then Some (Inl ''Error when writing file'') else parse_loop os (drop 1 ts) before (cur\<lparr>seg_out := fd\<rparr>)
     else if t = ''>'' then
       let fd = os_open os (arg_of ts) Write_trunc in
       if fd < 0 then Some (Inl ''Error when writing file'') else parse_loop os (drop 1 ts) before (cur\<lparr>seg_out := fd\<rparr>)
     else if t = ''|'' then
       if length before + 1 < MAX_PIPES then parse_loop os ts (before @ [cur]) empty_segment else None
     else parse_loop os ts before (cur\<lparr>seg_cmd := Some (case seg_cmd cur of None \<Rightarrow> [t] | Some ws \<Rightarrow> ws @ [t])\<rparr>))"
  by pat_completeness auto
termination by (relation "measure (\<lambda>(os, ts, before, cur). length ts)") auto

definition parse_job :: "os \<Rightarrow> string list \<Rightarrow> (string + segment list) option" where
  "parse_job os ts = parse_loop os ts [] (empty_segment\<lparr>seg_cmd := Some []\<rparr>)"

section \<open>Starting the processes\<close>

datatype stream = Inherited | File int | Pipe_read nat | Pipe_write nat

record child =
  ch_pid :: int
  ch_group :: int
  ch_in :: stream
  ch_out :: stream
  ch_err :: stream
  ch_cmd :: "string list option"

text \<open>\<open>setFileDescriptor\<close>: a descriptor that is not positive is left alone.\<close>

definition setFileDescriptor :: "int \<Rightarrow> stream" where
  "setFileDescriptor fd = (if fd > 0 then File fd else Inherited)"

text \<open>Child \<open>i\<close> of \<open>n\<close>: the redirections first, then the pipes over them.\<close>

definition start_child :: "int \<Rightarrow> int \<Rightarrow> nat \<Rightarrow> nat \<Rightarrow> segment \<Rightarrow> child" where
  "start_child pid grp i n seg = \<lparr>ch_pid = pid, ch_group = grp,
     ch_in = (if i \<noteq> 0 then Pipe_read (i - 1) else setFileDescriptor (seg_in seg)),
     ch_out = (if i \<noteq> n - 1 then Pipe_write i else setFileDescriptor (seg_out seg)),
     ch_err = setFileDescriptor (seg_err seg), ch_cmd = seg_cmd seg\<rparr>"

definition start_children :: "os \<Rightarrow> nat \<Rightarrow> segment list \<Rightarrow> child list" where
  "start_children os k segs =
     map (\<lambda>i. start_child (os_fork os (k + i)) (os_fork os k) i (length segs) (segs ! i)) [0..<length segs]"

text \<open>The foreground wait: it ends at the first stop; no more children is the error return of \<open>waitpid\<close>.\<close>

fun wait_foreground :: "nat \<Rightarrow> wait_result list \<Rightarrow> shell \<Rightarrow> shell" where
  "wait_foreground j [] sh = upd_job j (\<lambda>b. b\<lparr>status := DONE\<rparr>) sh"
| "wait_foreground j (w # ws) sh = (case w of
       Stopped \<Rightarrow> (upd_job j (\<lambda>b. b\<lparr>isBackground := True, status := HIATUS, jobId := nJobs sh\<rparr>) sh)\<lparr>nJobs := nJobs sh + 1\<rparr>
     | Exited \<Rightarrow> wait_foreground j ws sh)"

definition tcsetpgrp :: "os \<Rightarrow> int \<Rightarrow> string \<Rightarrow> shell \<Rightarrow> shell" where
  "tcsetpgrp os g msg sh = (if os_tcsetpgrp_ok os then sh\<lparr>term_pgrp := g\<rparr> else say (Error_text msg) sh)"

text \<open>The part of \<open>execJob2\<close> after the processes run: background jobs get a number, others are waited for.\<close>

definition run_job :: "os \<Rightarrow> nat \<Rightarrow> int \<Rightarrow> shell \<Rightarrow> shell" where
  "run_job os j gpid sh =
    (if isBackground (jobs sh j)
     then printJobInfo j ((upd_job j (\<lambda>b. b\<lparr>jobId := nJobs sh\<rparr>) sh)\<lparr>nJobs := nJobs sh + 1\<rparr>)
     else
       let sh = tcsetpgrp os gpid (''tcsetpgrp error'' @ [CHR 0x0A]) sh;
           sh = wait_foreground j (os_waits os (waits sh) gpid) (sh\<lparr>waits := waits sh + 1\<rparr>)
       in tcsetpgrp os (shellGroup sh) ''tcsetpgrp error'' sh)"

text \<open>The result, the children started, and the shell; the first token of a job is never null.\<close>

definition execJob2 :: "os \<Rightarrow> nat \<Rightarrow> shell \<Rightarrow> (int \<times> child list \<times> shell) option" where
  "execJob2 os j sh =
    (case tokenized (jobs sh j) of [] \<Rightarrow> None
     | t # _ \<Rightarrow>
       if t = [] then Some (0, [], upd_job j (\<lambda>b. b\<lparr>status := DONE, isBackground := False\<rparr>) sh)
       else case status (jobs sh j) of
         PENDING \<Rightarrow>
           let sh = upd_job j (\<lambda>b. b\<lparr>status := RUNNING\<rparr>) sh in do {
             r \<leftarrow> parse_job os (tokenized (jobs sh j));
             case r of Inl m \<Rightarrow> Some (1, [], say (Error_text m) sh)
             | Inr segs \<Rightarrow>
                 let kids = start_children os (forks sh) segs; gpid = os_fork os (forks sh);
                     sh = (upd_job j (\<lambda>b. b\<lparr>nPipe := int (length segs), groupId := gpid, finishCount := 0\<rparr>) sh)
                            \<lparr>forks := forks sh + length segs\<rparr>
                 in Some (0, kids, run_job os j gpid sh)
           }
       | HIATUS \<Rightarrow>
           let gpid = groupId (jobs sh j);
               sh = (upd_job j (\<lambda>b. b\<lparr>status := RUNNING\<rparr>) sh)\<lparr>continued := continued sh @ [gpid]\<rparr>
           in Some (0, [], run_job os j gpid sh)
       | RUNNING \<Rightarrow> Some (0, [], run_job os j (groupId (jobs sh j)) sh)
       | DONE \<Rightarrow> Some (0, [], sh))"

fun exec_loop :: "os \<Rightarrow> nat list \<Rightarrow> shell \<Rightarrow> (child list \<times> shell) option" where
  "exec_loop os [] sh = Some ([], sh)"
| "exec_loop os (j # js) sh =
    (if status (jobs sh j) = PENDING then do {
       (r, kids, sh) \<leftarrow> execJob2 os j sh;
       (kids', sh) \<leftarrow> exec_loop os js sh;
       Some (kids @ kids', sh)
     } else exec_loop os js sh)"

definition execJobs :: "os \<Rightarrow> shell \<Rightarrow> (child list \<times> shell) option" where
  "execJobs os sh = exec_loop os (joblist sh) sh"

section \<open>Adding jobs\<close>

definition new_job :: "bool \<Rightarrow> string list \<Rightarrow> job" where
  "new_job bg ts = \<lparr>isBackground = bg, tokenized = ts, status = PENDING, groupId = 0, nPipe = 0, finishCount = 0, jobId = 0\<rparr>"

definition insert_job :: "job \<Rightarrow> shell \<Rightarrow> shell" where
  "insert_job b sh = sh\<lparr>jobs := (jobs sh)(fresh sh := b), joblist := joblist sh @ [fresh sh], fresh := fresh sh + 1\<rparr>"

text \<open>The loop of \<open>addJobs\<close>: \<open>s\<close> is \<open>prevTokS\<close>, \<open>i\<close> the index.\<close>

function add_loop :: "string list \<Rightarrow> nat \<Rightarrow> nat \<Rightarrow> shell \<Rightarrow> shell" where
  "add_loop ts s i sh =
    (if i < length ts then
       if ts ! i = ''&'' then add_loop ts (i + 1) (i + 1) (insert_job (new_job True (take (i - s) (drop s ts))) sh)
       else if i = length ts - 1 then add_loop ts s (i + 1) (insert_job (new_job False (take (i - s + 1) (drop s ts))) sh)
       else add_loop ts s (i + 1) sh
     else sh)"
  by pat_completeness auto
termination by (relation "measure (\<lambda>(ts, s, i, sh). length ts - i)") auto

declare add_loop.simps [simp del]

definition addJobs :: "string list \<Rightarrow> shell \<Rightarrow> shell" where
  "addJobs ts sh = add_loop ts 0 0 sh"

section \<open>Built-in commands\<close>

text \<open>\<open>atoi\<close> on the characters after the percent sign.\<close>

definition atoi :: "string \<Rightarrow> int" where
  "atoi s = (let s = dropWhile (\<lambda>c. c \<in> {CHR '' '', CHR 0x09, CHR 0x0A, CHR 0x0B, CHR 0x0C, CHR 0x0D}) s in
     case s of c # cs \<Rightarrow> if c = CHR ''-'' then - int (digits_val (takeWhile is_digit cs))
                        else if c = CHR ''+'' then int (digits_val (takeWhile is_digit cs))
                        else int (digits_val (takeWhile is_digit s))
     | [] \<Rightarrow> 0)"

datatype outcome = Result int | Exits

definition builtin_cd :: "os \<Rightarrow> string list \<Rightarrow> shell \<Rightarrow> outcome \<times> shell" where
  "builtin_cd os ts sh =
    (if length ts = 1 then
       (case os_chdir os (cwd sh) (os_home os) of None \<Rightarrow> (Result (-1), say (Error_text ''cd'') sh)
        | Some d \<Rightarrow> (Result 0, sh\<lparr>cwd := d, prev_path := curr_path sh\<rparr>))
     else if length ts > 2 then (Result (-1), say (Text ''cd: Too many arguments'') sh)
     else if ts ! 1 = ''-'' then (Result (-1), say (Text (prev_path sh)) sh)
     else (case os_chdir os (cwd sh) (ts ! 1) of None \<Rightarrow> (Result (-1), say (Error_text ''cd'') sh)
           | Some d \<Rightarrow> (Result 0, sh\<lparr>cwd := d, curr_path := d\<rparr>)))"

text \<open>
  \<open>bg\<close> and \<open>fg\<close>: the job to continue, or the result of the command. Without an argument the current job
  is dereferenced unchecked. \<open>bg\<close> also refuses a job that is running.
\<close>

definition job_arg :: "bool \<Rightarrow> string list \<Rightarrow> shell \<Rightarrow> (nat + shell) option" where
  "job_arg bg ts sh =
    (let complain = (\<lambda>m. Some (Inr (say (Error_text (''jankersh: '' @ (if bg then ''bg: '' else ''fg: '') @ m)) sh))) in
     if length ts = 1 then
       (case currentJob sh of None \<Rightarrow> None
        | Some j \<Rightarrow>
            if bg \<and> status (jobs sh j) = RUNNING then complain ''job is running in background''
            else if status (jobs sh j) = PENDING then complain ''congrat, you've seen a bug''
            else if status (jobs sh j) = DONE then complain ''job has terminated''
            else Some (Inl j))
     else if nth_is (ts ! 1) 0 (CHR ''%'') then
       let n = atoi (drop 1 (ts ! 1)) in
       case findJobByJobId n sh of None \<Rightarrow> complain (''%'' @ int_to_string n @ '': no such job'') | Some j \<Rightarrow> Some (Inl j)
     else complain ''bro, type better lol'')"

definition builtin_job :: "os \<Rightarrow> bool \<Rightarrow> string list \<Rightarrow> shell \<Rightarrow> (outcome \<times> shell) option" where
  "builtin_job os bg ts sh = do {
     r \<leftarrow> job_arg bg ts sh;
     case r of Inr sh \<Rightarrow> Some (Result (-1), sh)
     | Inl j \<Rightarrow> do {
         (e, kids, sh) \<leftarrow> execJob2 os j (upd_job j (\<lambda>b. b\<lparr>isBackground := bg\<rparr>) sh);
         Some (Result 0, sh)
       }
   }"

definition inBuiltCommands :: "os \<Rightarrow> string list \<Rightarrow> shell \<Rightarrow> (outcome \<times> shell) option" where
  "inBuiltCommands os ts sh =
    (case ts of [] \<Rightarrow> None
     | t # _ \<Rightarrow>
       if t = ''cd'' then Some (builtin_cd os ts sh)
       else if t = ''jobs'' then Some (Result 0, printJobList sh)
       else if t = ''exit'' then Some (Exits, sh)
       else if t = ''bg'' then builtin_job os True ts sh
       else if t = ''fg'' then builtin_job os False ts sh
       else Some (Result 1, sh))"

text \<open>
  The state after \<open>SHELL_INIT\<close> and the start of \<open>main\<close>, for a shell with process id \<open>pid\<close> that was started as the
  foreground group of its terminal.
\<close>

definition SHELL_INIT :: "int \<Rightarrow> string \<Rightarrow> shell" where
  "SHELL_INIT pid dir = \<lparr>jobs = (\<lambda>_. new_job False []), joblist = [], fresh = 0, nJobs = 1, shellGroup = pid, term_pgrp = pid,
     cwd = dir, curr_path = [], prev_path = dir, forks = 0, waits = 0, continued = [], messages = [Text ''Welcome to JankSh'']\<rparr>"

text \<open>The last component of the working directory; a path without a slash would be read at the null pointer.\<close>

definition printPrompt :: "os \<Rightarrow> shell \<Rightarrow> shell option" where
  "printPrompt os sh =
    (let prompt = (\<lambda>n. Some (say (Text (''['' @ n @ ''] jankersh > '')) sh)) in
     if curr_path sh = os_home os then prompt ''~''
     else if curr_path sh = ''/'' then prompt ''/''
     else if CHR ''/'' \<in> set (curr_path sh) then prompt (rev (takeWhile (\<lambda>c. c \<noteq> CHR ''/'') (rev (curr_path sh))))
     else None)"

text \<open>
  One turn of the main loop, after the prompt, on a line read by \<open>fgets\<close>: the shell afterwards, none when it exited.
  \<open>getcwd\<close> returns the working directory; \<open>childExitStatus\<close> is never assigned and so is 0.
\<close>

definition shell_line :: "os \<Rightarrow> int \<Rightarrow> string \<Rightarrow> shell \<Rightarrow> (child list \<times> shell option) option" where
  "shell_line os pid line sh = do {
     let sh = sh\<lparr>curr_path := cwd sh\<rparr>;
     ts \<leftarrow> tokenize2 pid 0 line;
     (r, sh) \<leftarrow> inBuiltCommands os ts sh;
     case r of Exits \<Rightarrow> Some ([], None)
     | Result n \<Rightarrow>
         if n \<noteq> 1 then Some ([], Some (cleanJobList (cleanJobList sh)))
         else do {
           (kids, sh) \<leftarrow> execJobs os (addJobs ts sh);
           Some (kids, Some (cleanJobList sh))
         }
   }"

end
