(* ===== verification/Shell_Lex.thy ===== *)
theory Shell_Lex
  imports Shell
begin

text \<open>
  Correctness of the shell's tokenizer: it walks an index back and forth over a line it
  overwrites, and yet computes a one-pass lexer that returns the words, quoted strings and
  operators of a command line; where its fixed buffer ends.
\<close>

section \<open>The tokenizer as a one-pass lexer\<close>

text \<open>An operator outside quotes ends the token before it and is a token of its own.\<close>

definition lex_op_token :: "string \<Rightarrow> lexer \<Rightarrow> lexer option" where
  "lex_op_token opr lx = do {
     lx \<leftarrow> (if lx_state lx \<noteq> Start then map_option new_token (put [NUL] lx) else Some lx);
     lx \<leftarrow> put opr lx;
     lx \<leftarrow> put [NUL] lx;
     Some (set_state Space lx)
   }"

definition quoted :: "lexer \<Rightarrow> bool" where
  "quoted lx \<longleftrightarrow> lx_state lx = Dquote \<or> lx_state lx = Quote"

definition starts :: "char \<Rightarrow> string \<Rightarrow> bool" where
  "starts c s \<longleftrightarrow> (case s of d # _ \<Rightarrow> c = d | [] \<Rightarrow> False)"

definition word_start :: "lexer \<Rightarrow> lexer" where
  "word_start lx = (if lx_state lx = Space then set_state Normal (new_token lx) else lx)"

function lex_rest :: "int \<Rightarrow> int \<Rightarrow> string \<Rightarrow> lexer \<Rightarrow> lexer option" where
  "lex_rest pid status [] lx = Some lx"
| "lex_rest pid status (c # cs) lx =
    (if c = CHR '' '' \<or> c = CHR 0x09 then Option.bind (lex_blank c lx) (lex_rest pid status cs)
     else if c = CHR 0x22 then Option.bind (lex_quote c Dquote lx) (lex_rest pid status cs)
     else if c = CHR 0x27 then Option.bind (lex_quote c Quote lx) (lex_rest pid status cs)
     else if c = CHR ''$'' then
       if starts (CHR ''$'') cs \<and> lx_state lx \<noteq> Quote
         then Option.bind (put_number pid 10 (word_start lx)) (lex_rest pid status (drop 1 cs))
       else if starts (CHR ''?'') cs \<and> lx_state lx \<noteq> Quote
         then Option.bind (put_number status 5 (word_start lx)) (lex_rest pid status (drop 1 cs))
       else Option.bind (put ''$'' (word_start lx)) (lex_rest pid status cs)
     else if is_op c then
       if quoted lx then Option.bind (put [c] lx) (lex_rest pid status cs)
       else if (c = CHR ''&'' \<or> c = CHR ''>'') \<and> starts (CHR ''>'') cs
         then Option.bind (lex_op_token [c, CHR ''>''] lx) (lex_rest pid status (drop 1 cs))
       else Option.bind (lex_op_token [c] lx) (lex_rest pid status cs)
     else Option.bind (lex_other c lx) (lex_rest pid status cs))"
  by pat_completeness auto
termination by (relation "measure (\<lambda>(pid, status, cs, lx). length cs)") auto

lemmas lex_ops = lex_blank_def lex_quote_def lex_dollar_def lex_op_def lex_other_def put_def put_number_def
  new_token_def set_state_def next_char_def lex_op_token_def word_start_def

text \<open>Every action commutes with a change of the line and of the index.\<close>

definition move :: "string \<Rightarrow> nat \<Rightarrow> lexer \<Rightarrow> lexer" where
  "move str i lx = lx\<lparr>lx_str := str, lx_i := i\<rparr>"

lemma move_sel [simp]:
  "lx_buf (move str i lx) = lx_buf lx" "lx_toks (move str i lx) = lx_toks lx" "lx_state (move str i lx) = lx_state lx"
  "lx_str (move str i lx) = str" "lx_i (move str i lx) = i" "quoted (move str i lx) = quoted lx"
  by (simp_all add: move_def quoted_def)

lemma move_simple:
  "put cs (move str i lx) = map_option (move str i) (put cs lx)"
  "new_token (move str i lx) = move str i (new_token lx)" "set_state t (move str i lx) = move str i (set_state t lx)"
  "word_start (move str i lx) = move str i (word_start lx)"
  by (simp_all add: put_def new_token_def set_state_def word_start_def move_def)

lemma move_number: "put_number n lim (move str i lx) = map_option (move str i) (put_number n lim lx)"
  by (simp add: put_number_def move_simple)

lemma map_option_swap: "(\<And>x. f (g x) = g (f x)) \<Longrightarrow> map_option f (map_option g y) = map_option g (map_option f y)"
  by (cases y) simp_all

lemma move_blank: "lex_blank c (move str i lx) = map_option (move str i) (lex_blank c lx)"
  by (cases "lx_state lx") (simp_all add: lex_blank_def move_simple option.map_comp o_def)

lemma move_quote: "lex_quote c own (move str i lx) = map_option (move str i) (lex_quote c own lx)"
  by (cases "lx_state lx") (simp_all add: lex_quote_def move_simple)

lemma move_other: "lex_other c (move str i lx) = map_option (move str i) (lex_other c lx)"
proof (cases "put [c] lx")
  case (Some y)
  then show ?thesis
    by (cases "lx_state lx") (simp_all add: lex_other_def move_simple, simp_all add: move_def set_state_def)
qed (simp add: lex_other_def move_simple)

lemma move_bind: "(\<And>x. f (move str i x) = map_option (move str i) (f x)) \<Longrightarrow>
  Option.bind (map_option (move str i) y) f = map_option (move str i) (Option.bind y f)"
  by (cases y) simp_all

lemma move_op_token: "lex_op_token opr (move str i lx) = map_option (move str i) (lex_op_token opr lx)"
proof -
  have "(if lx_state lx \<noteq> Start then map_option new_token (put [NUL] (move str i lx)) else Some (move str i lx)) =
      map_option (move str i) (if lx_state lx \<noteq> Start then map_option new_token (put [NUL] lx) else Some lx)"
    by (simp add: move_simple option.map_comp o_def)
  then show ?thesis
    unfolding lex_op_token_def move_sel by (simp only:) (intro move_bind, simp add: move_simple, intro move_bind, simp add: move_simple, intro move_bind, simp add: move_simple)
qed

lemma lex_rest_move: "lex_rest pid status cs (move str i lx) = map_option (move str i) (lex_rest pid status cs lx)"
proof (induction pid status cs lx rule: lex_rest.induct)
  case (2 pid status c cs lx)
  have m: "Option.bind (map_option (move str i) y) (lex_rest pid status ds) = map_option (move str i) (Option.bind y (lex_rest pid status ds))"
    if "\<And>x. y = Some x \<Longrightarrow> lex_rest pid status ds (move str i x) = map_option (move str i) (lex_rest pid status ds x)" for y ds
    using that by (cases y) simp_all
  show ?case
    unfolding lex_rest.simps(2) move_sel move_blank move_quote move_simple move_number move_op_token move_other
    using 2 by (simp add: m split del: if_split cong: if_cong) (auto simp: m)
qed simp

definition forget :: "lexer \<Rightarrow> lexer" where "forget = move [] 0"

definition at :: "lexer \<Rightarrow> string \<Rightarrow> bool" where
  "at lx rest \<longleftrightarrow> (\<exists>pre. lx_str lx = pre @ rest \<and> lx_i lx = length pre)"

lemma atI: "lx_str lx = pre @ rest \<Longrightarrow> lx_i lx = length pre \<Longrightarrow> at lx rest"
  by (auto simp: at_def)

lemma at_Cons:
  assumes "at lx (c # cs)"
  shows "lx_i lx < length (lx_str lx)" "lx_str lx ! lx_i lx = c" "nth_is (lx_str lx) (lx_i lx + 1) d \<longleftrightarrow> starts d cs"
  using assms by (auto simp: at_def nth_is_def starts_def nth_append split: list.splits)

lemma put_same: "put cs lx = Some lx' \<Longrightarrow> lx_str lx' = lx_str lx \<and> lx_i lx' = lx_i lx"
  by (auto simp: put_def split: if_splits)

lemma action_same:
  "lex_blank c lx = Some lx' \<Longrightarrow> lx_str lx' = lx_str lx \<and> lx_i lx' = lx_i lx"
  "lex_quote c own lx = Some lx' \<Longrightarrow> lx_str lx' = lx_str lx \<and> lx_i lx' = lx_i lx"
  "lex_other c lx = Some lx' \<Longrightarrow> lx_str lx' = lx_str lx \<and> lx_i lx' = lx_i lx"
  "put_number n lim (word_start lx) = Some lx' \<Longrightarrow> lx_str lx' = lx_str lx \<and> lx_i lx' = lx_i lx"
  "put cs (word_start lx) = Some lx' \<Longrightarrow> lx_str lx' = lx_str lx \<and> lx_i lx' = lx_i lx"
  by (cases "lx_state lx"; auto simp: lex_blank_def lex_quote_def lex_other_def put_def put_number_def new_token_def set_state_def
      word_start_def bind_eq_Some_conv split: if_splits)+

lemma at_next: "at lx (c # cs) \<Longrightarrow> lx_str lx' = lx_str lx \<Longrightarrow> lx_i lx' = lx_i lx \<Longrightarrow> at (next_char lx' 1) cs"
  unfolding at_def next_char_def by (elim exE) (rule_tac x = "pre @ [c]" in exI, simp)

lemma at_next2: "at lx (c # d # cs) \<Longrightarrow> lx_str lx' = lx_str lx \<Longrightarrow> lx_i lx' = lx_i lx \<Longrightarrow> at (next_char (next_char lx' 1) 1) cs"
  unfolding at_def next_char_def by (elim exE) (rule_tac x = "pre @ [c, d]" in exI, simp)

lemma forget_rest: "map_option forget (lex_rest pid status cs (next_char lx n)) = map_option forget (lex_rest pid status cs lx)"
proof -
  have "next_char lx n = move (lx_str lx) (lx_i lx + n) lx" by (simp add: next_char_def move_def)
  moreover have "forget (move a b x) = forget x" for a b x by (simp add: forget_def move_def)
  ultimately show ?thesis by (simp add: lex_rest_move option.map_comp o_def)
qed

lemma forget_eq: "lx_buf a = lx_buf b \<Longrightarrow> lx_toks a = lx_toks b \<Longrightarrow> lx_state a = lx_state b \<Longrightarrow>
  map_option forget (lex_rest pid status cs a) = map_option forget (lex_rest pid status cs b)"
proof -
  assume "lx_buf a = lx_buf b" "lx_toks a = lx_toks b" "lx_state a = lx_state b"
  then have "a = move (lx_str a) (lx_i a) b" by (simp add: move_def)
  moreover have "forget (move s i x) = forget x" for s i x by (simp add: forget_def move_def)
  ultimately show ?thesis by (metis (no_types, lifting) lex_rest_move option.map_comp option.map_cong0 o_apply)
qed

text \<open>A plain step: the loop and the one-pass lexer do the same action and go on with the next character.\<close>

lemma loop_plain:
  assumes at: "at lx (c # cs)" and step: "lex_step pid status lx = map_option (Pair False) y"
    and same: "\<And>lx'. y = Some lx' \<Longrightarrow> lx_str lx' = lx_str lx \<and> lx_i lx' = lx_i lx"
    and IH: "\<And>lx. at lx cs \<Longrightarrow> map_option forget (lex_loop pid status lx) = map_option forget (lex_rest pid status cs lx)"
  shows "map_option forget (lex_loop pid status lx) = map_option forget (Option.bind y (lex_rest pid status cs))"
proof (cases y)
  case None
  then show ?thesis using at_Cons(1) [OF at] step by (simp add: lex_loop.simps [of pid status lx])
next
  case (Some lx')
  have "lex_loop pid status lx = lex_loop pid status (next_char lx' 1)"
    using at_Cons(1) [OF at] step Some by (simp add: lex_loop.simps [of pid status lx] lex_advance_def)
  then show ?thesis using IH [OF at_next [OF at]] same [OF Some] Some by (simp add: forget_rest)
qed

text \<open>An operator: the blank that is left behind is read next and ends the operator's token.\<close>

definition op_text :: "lexer \<Rightarrow> char \<Rightarrow> string" where
  "op_text lx c = (if op_is_two lx c then [c, CHR ''>''] else [c])"

definition op_begin :: "lexer \<Rightarrow> lexer option" where
  "op_begin lx = (if lx_state lx \<noteq> Start then map_option new_token (put [NUL] lx) else Some lx)"

lemma lex_op_unquoted:
  "\<not> quoted lx \<Longrightarrow> lex_op opr two lx = do {
     lx \<leftarrow> op_begin lx;
     lx \<leftarrow> put opr lx;
     Some (\<not> two, set_state Normal (lx\<lparr>lx_str := (lx_str lx)[(if two then lx_i lx + 1 else lx_i lx) := CHR '' '']\<rparr>))
   }"
  by (cases "lx_state lx") (simp_all add: lex_op_def op_begin_def quoted_def Let_def)

lemma op_begin_same: "op_begin lx = Some lx' \<Longrightarrow> lx_str lx' = lx_str lx \<and> lx_i lx' = lx_i lx"
  by (auto simp: op_begin_def put_def new_token_def split: if_splits)

lemma loop_blank:
  assumes "at lx (CHR '' '' # cs)" "lx_state lx = Normal"
  shows "lex_loop pid status lx = Option.bind (put [NUL] lx) (\<lambda>lx. lex_loop pid status (next_char (set_state Space lx) 1))"
proof -
  have "lex_step pid status lx = map_option (Pair False) (map_option (set_state Space) (put [NUL] lx))"
    using at_Cons(2) [OF assms(1)] assms(2) by (simp add: lex_step_def lex_blank_def)
  then show ?thesis
    using at_Cons(1) [OF assms(1)] by (cases "put [NUL] lx") (simp_all add: lex_loop.simps [of pid status lx] lex_advance_def)
qed

lemma loop_op:
  assumes at: "at lx (c # cs)" and c: "is_op c" and q: "\<not> quoted lx"
    and two: "two \<longleftrightarrow> (c = CHR ''&'' \<or> c = CHR ''>'') \<and> starts (CHR ''>'') cs"
    and IH: "\<And>lx. at lx (if two then drop 1 cs else cs) \<Longrightarrow>
      map_option forget (lex_loop pid status lx) = map_option forget (lex_rest pid status (if two then drop 1 cs else cs) lx)"
  shows "map_option forget (lex_loop pid status lx) =
    map_option forget (Option.bind (lex_op_token (if two then [c, CHR ''>''] else [c]) lx) (lex_rest pid status (if two then drop 1 cs else cs)))"
proof -
  let ?op = "if two then [c, CHR ''>''] else [c]" and ?rest = "if two then drop 1 cs else cs"
  have t: "op_is_two lx c = two" using two at_Cons(3) [OF at] by (simp add: op_is_two_def)
  have step: "lex_step pid status lx = lex_op ?op two lx"
    using c at_Cons(2) [OF at] t by (auto simp: lex_step_def is_op_def)
  have tok: "lex_op_token ?op lx = do { lx \<leftarrow> op_begin lx; lx \<leftarrow> put ?op lx; lx \<leftarrow> put [NUL] lx; Some (set_state Space lx) }"
    by (simp add: lex_op_token_def op_begin_def)
  show ?thesis
  proof (cases "Option.bind (op_begin lx) (put ?op)")
    case None
    then have "lex_op ?op two lx = None" "lex_op_token ?op lx = None"
      unfolding lex_op_unquoted [OF q] tok by (cases "op_begin lx"; simp)+
    then show ?thesis using at_Cons(1) [OF at] step by (simp add: lex_loop.simps [of pid status lx])
  next
    case (Some b)
    then obtain a where a: "op_begin lx = Some a" "put ?op a = Some b" by (cases "op_begin lx") auto
    have same: "lx_str b = lx_str lx" "lx_i b = lx_i lx" using op_begin_same [OF a(1)] put_same [OF a(2)] by auto
    define j where "j = (if two then lx_i lx + 1 else lx_i lx)"
    define d where "d = set_state Normal (b\<lparr>lx_str := (lx_str lx)[j := CHR '' '']\<rparr>)"
    define e where "e = (if two then next_char d 1 else d)"
    have loop: "lex_loop pid status lx = lex_loop pid status e"
      using at_Cons(1) [OF at] step a same
      by (simp add: lex_loop.simps [of pid status lx] lex_op_unquoted [OF q] lex_advance_def d_def e_def j_def)
    obtain pre where pre: "lx_str lx = pre @ c # cs" "lx_i lx = length pre" using at by (auto simp: at_def)
    have ate: "at e (CHR '' '' # ?rest)"
    proof (cases two)
      case True
      then obtain cs' where cs: "cs = CHR ''>'' # cs'" using two by (auto simp: starts_def split: list.splits)
      then show ?thesis using True pre by (intro atI [of _ "pre @ [c]"]) (simp_all add: e_def d_def j_def next_char_def set_state_def same list_update_append)
    next
      case False
      then show ?thesis using pre by (intro atI [of _ pre]) (simp_all add: e_def d_def j_def set_state_def same)
    qed
    have se: "lx_state e = Normal" by (simp add: e_def d_def next_char_def set_state_def)
    have be: "lx_buf e = lx_buf b" "lx_toks e = lx_toks b" by (simp_all add: e_def d_def next_char_def set_state_def)
    show ?thesis
    proof (cases "put [NUL] e")
      case None
      then have "put [NUL] b = None" by (simp add: put_def be split: if_splits)
      then show ?thesis using None a by (simp add: loop loop_blank [OF ate se] tok)
    next
      case (Some f)
      obtain g where g: "put [NUL] b = Some g" "lx_buf g = lx_buf f" "lx_toks g = lx_toks f"
        using Some by (auto simp: put_def be split: if_splits)
      have "at (next_char (set_state Space f) 1) ?rest"
        using at_next [OF ate, of "set_state Space f"] put_same [OF Some] by (simp add: set_state_def)
      then have "map_option forget (lex_loop pid status lx) = map_option forget (lex_rest pid status ?rest (set_state Space f))"
        using IH Some by (simp add: loop loop_blank [OF ate se] forget_rest)
      also have "\<dots> = map_option forget (lex_rest pid status ?rest (set_state Space g))"
        by (rule forget_eq) (simp_all add: set_state_def g)
      finally show ?thesis using a g(1) by (simp add: tok)
    qed
  qed
qed

text \<open>A \<open>$\<close> that is expanded: two characters are consumed.\<close>

lemma loop_number:
  assumes at: "at lx (CHR ''$'' # d # cs)" and step: "lex_dollar pid status lx = map_option (\<lambda>lx. next_char lx 1) (put_number n lim (word_start lx))"
    and IH: "\<And>lx. at lx cs \<Longrightarrow> map_option forget (lex_loop pid status lx) = map_option forget (lex_rest pid status cs lx)"
  shows "map_option forget (lex_loop pid status lx) =
    map_option forget (Option.bind (put_number n lim (word_start lx)) (lex_rest pid status cs))"
proof -
  have s: "lex_step pid status lx = map_option (Pair False) (lex_dollar pid status lx)"
    using at_Cons(2) [OF at] by (simp add: lex_step_def)
  show ?thesis
  proof (cases "put_number n lim (word_start lx)")
    case None
    then show ?thesis using at_Cons(1) [OF at] s step by (simp add: lex_loop.simps [of pid status lx])
  next
    case (Some y)
    have "lex_loop pid status lx = lex_loop pid status (next_char (next_char y 1) 1)"
      using at_Cons(1) [OF at] s step Some by (simp add: lex_loop.simps [of pid status lx] lex_advance_def)
    then show ?thesis using IH [OF at_next2 [OF at]] action_same(4) [OF Some] Some by (simp add: forget_rest)
  qed
qed

lemma word_start_state: "lx_state (word_start lx) \<noteq> Quote \<longleftrightarrow> lx_state lx \<noteq> Quote"
  "lx_str (word_start lx) = lx_str lx" "lx_i (word_start lx) = lx_i lx"
  by (auto simp: word_start_def set_state_def new_token_def)

lemma lex_dollar_cases:
  assumes "at lx (CHR ''$'' # cs)"
  shows "lex_dollar pid status lx =
    (if starts (CHR ''$'') cs \<and> lx_state lx \<noteq> Quote then map_option (\<lambda>lx. next_char lx 1) (put_number pid 10 (word_start lx))
     else if starts (CHR ''?'') cs \<and> lx_state lx \<noteq> Quote then map_option (\<lambda>lx. next_char lx 1) (put_number status 5 (word_start lx))
     else put ''$'' (word_start lx))"
  unfolding lex_dollar_def word_start_def [symmetric] Let_def word_start_state at_Cons(3) [OF assms] by (rule refl)

lemma is_op_neq: "is_op c \<Longrightarrow> c \<noteq> CHR '' '' \<and> c \<noteq> CHR 0x09 \<and> c \<noteq> CHR 0x22 \<and> c \<noteq> CHR 0x27 \<and> c \<noteq> CHR ''$''"
  by (auto simp: is_op_def)

lemma starts_Cons: "starts c cs \<Longrightarrow> cs = c # drop 1 cs"
  by (cases cs) (simp_all add: starts_def)

lemma lex_loop_rest:
  "at lx cs \<Longrightarrow> map_option forget (lex_loop pid status lx) = map_option forget (lex_rest pid status cs lx)"
proof (induction "length cs" arbitrary: cs lx rule: less_induct)
  case less
  show ?case
  proof (cases cs)
    case Nil
    then show ?thesis using less.prems by (simp add: at_def lex_loop.simps [of pid status lx])
  next
    case (Cons c ds)
    note at = less.prems [unfolded Cons]
    have IH: "map_option forget (lex_loop pid status a) = map_option forget (lex_rest pid status ds a)" if "at a ds" for a
      using less.hyps [OF _ that] Cons by simp
    have IH2: "map_option forget (lex_loop pid status a) = map_option forget (lex_rest pid status (drop 1 ds) a)" if "at a (drop 1 ds)" for a
      using less.hyps [OF _ that] Cons by simp
    note plain = loop_plain [OF at _ _ IH]
    note [simp] = at_Cons(2) [OF at]
    consider (blank) "c = CHR '' '' \<or> c = CHR 0x09" | (dq) "c = CHR 0x22" | (sq) "c = CHR 0x27" | (dollar) "c = CHR ''$''"
      | (opq) "is_op c" "quoted lx" | (opr) "is_op c" "\<not> quoted lx"
      | (other) "\<not> (c = CHR '' '' \<or> c = CHR 0x09)" "c \<noteq> CHR 0x22" "c \<noteq> CHR 0x27" "c \<noteq> CHR ''$''" "\<not> is_op c" by blast
    then show ?thesis
    proof cases
      case blank
      then show ?thesis using plain [of "lex_blank c lx"] action_same(1) Cons by (auto simp: lex_step_def)
    next
      case dq
      then show ?thesis using plain [of "lex_quote c Dquote lx"] action_same(2) Cons by (auto simp: lex_step_def)
    next
      case sq
      then show ?thesis using plain [of "lex_quote c Quote lx"] action_same(2) Cons by (auto simp: lex_step_def)
    next
      case dollar
      note at' = at [unfolded dollar]
      note dc = lex_dollar_cases [OF at', of pid status]
      consider (pid) "starts (CHR ''$'') ds" "lx_state lx \<noteq> Quote" | (st) "\<not> starts (CHR ''$'') ds" "starts (CHR ''?'') ds" "lx_state lx \<noteq> Quote"
        | (none) "\<not> ((starts (CHR ''$'') ds \<or> starts (CHR ''?'') ds) \<and> lx_state lx \<noteq> Quote)" by blast
      then show ?thesis
      proof cases
        case pid
        have "at lx (CHR ''$'' # CHR ''$'' # drop 1 ds)" using at' starts_Cons [OF pid(1)] by simp
        from loop_number [OF this _ IH2] show ?thesis using dc pid Cons dollar by (simp add: is_op_def)
      next
        case st
        have "at lx (CHR ''$'' # CHR ''?'' # drop 1 ds)" using at' starts_Cons [OF st(2)] by simp
        from loop_number [OF this _ IH2] show ?thesis using dc st Cons dollar by (simp add: is_op_def)
      next
        case none
        then have "lex_step pid status lx = map_option (Pair False) (put ''$'' (word_start lx))"
          using dc dollar by (auto simp: lex_step_def)
        from plain [OF this] show ?thesis using none action_same(5) Cons dollar by auto
      qed
    next
      case opq
      have "lex_step pid status lx = map_option (Pair False) (put [c] lx)"
        using opq(2) opq(1) is_op_neq [OF opq(1)] by (auto simp: lex_step_def lex_op_def quoted_def Let_def)
      from plain [OF this put_same] show ?thesis using opq is_op_neq [OF opq(1)] Cons by simp
    next
      case opr
      define two where "two \<longleftrightarrow> (c = CHR ''&'' \<or> c = CHR ''>'') \<and> starts (CHR ''>'') ds"
      have "map_option forget (lex_loop pid status lx) =
          map_option forget (Option.bind (lex_op_token (if two then [c, CHR ''>''] else [c]) lx) (lex_rest pid status (if two then drop 1 ds else ds)))"
        by (rule loop_op [OF at opr two_def]) (cases two, simp_all only: if_True if_False IH IH2)
      also have "\<dots> = map_option forget (lex_rest pid status cs lx)"
        using opr is_op_neq [OF opr(1)] Cons by (simp add: two_def)
      finally show ?thesis .
    next
      case other
      then show ?thesis using plain [of "lex_other c lx"] action_same(3) Cons by (auto simp: lex_step_def)
    qed
  qed
qed

text \<open>
  C29: \<open>tokenize2\<close>, which overwrites the line while it reads it and steps its index back after an
  operator, is a one-pass lexer: it ends, and writes the same token buffer and token starts as
  \<open>lex_rest\<close>, which consumes the line from left to right, or overruns its buffer exactly when \<open>lex_rest\<close> does.
\<close>

theorem tokenize2_one_pass:
  "map_option (\<lambda>lx. (lx_buf lx, lx_toks lx, lx_state lx)) (lex_loop pid status (lex_init str)) =
   map_option (\<lambda>lx. (lx_buf lx, lx_toks lx, lx_state lx)) (lex_rest pid status str (lex_init str))"
proof -
  have "at (lex_init str) str" by (simp add: at_def lex_init_def)
  from lex_loop_rest [OF this, of pid status]
  have "map_option ((\<lambda>lx. (lx_buf lx, lx_toks lx, lx_state lx)) \<circ> forget) (lex_loop pid status (lex_init str)) =
    map_option ((\<lambda>lx. (lx_buf lx, lx_toks lx, lx_state lx)) \<circ> forget) (lex_rest pid status str (lex_init str))"
    by (metis option.map_comp)
  then show ?thesis by (simp add: o_def forget_def)
qed

lemma tokenize2_rest:
  "tokenize2 pid status str = Option.bind (lex_rest pid status str (lex_init str)) (\<lambda>lx. all_some (map (c_string (lx_buf lx)) (lx_toks lx)))"
proof -
  let ?f = "\<lambda>lx. all_some (map (c_string (lx_buf lx)) (lx_toks lx))"
  have f: "Option.bind x ?f = Option.bind (map_option forget x) ?f" for x by (cases x) (simp_all add: forget_def)
  have "at (lex_init str) str" by (simp add: at_def lex_init_def)
  note e = lex_loop_rest [OF this, of pid status]
  have "tokenize2 pid status str = Option.bind (map_option forget (lex_loop pid status (lex_init str))) ?f"
    unfolding tokenize2_def by (rule f)
  also have "\<dots> = Option.bind (lex_rest pid status str (lex_init str)) ?f" unfolding e by (rule f [symmetric])
  finally show ?thesis .
qed

end
