(* ===== verification/Shell_Props.thy ===== *)
theory Shell_Props
  imports Shell_Jobs Shell_Words
begin

text \<open>
  Correctness of the job-control shell: the job list and its numbering as an invariant of every
  history of command lines and child signals, the clean-up of finished jobs, the splitting of a line
  into jobs, and the whole way from a command line to the processes of a pipeline.
\<close>

section \<open>Cleaning the job list\<close>

definition job_info :: "shell \<Rightarrow> nat \<Rightarrow> message" where
  "job_info sh j = Job_info (jobId (jobs sh j)) (status (jobs sh j)) (tokenized (jobs sh j))"

abbreviation live :: "shell \<Rightarrow> nat \<Rightarrow> bool" where "live sh j \<equiv> status (jobs sh j) \<noteq> DONE"

abbreviation finished_bg :: "shell \<Rightarrow> nat \<Rightarrow> bool" where "finished_bg sh j \<equiv> status (jobs sh j) = DONE \<and> isBackground (jobs sh j)"

lemma clean_loop_prev:
  "joblist sh = kept @ p # js \<Longrightarrow> distinct (joblist sh) \<Longrightarrow>
    clean_loop (Some p) js sh = sh\<lparr>joblist := kept @ filter (live sh) (p # js),
      messages := messages sh @ map (job_info sh) (filter (finished_bg sh) js)\<rparr>"
proof (induction js arbitrary: kept p sh)
  case (Cons j js)
  define sh1 where "sh1 = (if finished_bg sh j then printJobInfo j sh else sh)"
  define sh2 where "sh2 = (if status (jobs sh p) = DONE then removeJob (Some p) sh1 else sh1)"
  have s1: "jobs sh1 = jobs sh" "joblist sh1 = joblist sh"
    "messages sh1 = messages sh @ map (job_info sh) (filter (finished_bg sh) [j])"
    by (simp_all add: sh1_def printJobInfo_def say_def job_info_def)
  have j2: "joblist sh2 = (kept @ filter (live sh) [p]) @ j # js" and m2: "jobs sh2 = jobs sh" "messages sh2 = messages sh1"
    using s1 Cons.prems by (auto simp: sh2_def removeJob_def remove1_append)
  have d2: "distinct (joblist sh2)" using Cons.prems unfolding j2 by auto
  have eq: "clean_loop (Some p) (j # js) sh = clean_loop (Some j) js sh2"
    by (simp add: sh1_def sh2_def Let_def printJobInfo_def say_def)
  have up: "sh2\<lparr>joblist := l, messages := m\<rparr> = sh\<lparr>joblist := l, messages := m\<rparr>" for l m
    by (simp add: sh2_def sh1_def removeJob_def printJobInfo_def say_def)
  show ?case unfolding eq Cons.IH [OF j2 d2] up by (simp add: m2 s1 job_info_def fun_eq_iff)
qed (auto simp: removeJob_def remove1_append)

lemma cleanJobList_eq:
  assumes "distinct (joblist sh)"
  shows "cleanJobList sh = sh\<lparr>joblist := filter (live sh) (joblist sh),
    messages := messages sh @ map (job_info sh) (filter (finished_bg sh) (joblist sh)),
    nJobs := (if filter (live sh) (joblist sh) = [] then 1 else nJobs sh)\<rparr>"
proof (cases "joblist sh")
  case Nil
  then show ?thesis by (simp add: cleanJobList_def)
next
  case (Cons j js)
  define sh1 where "sh1 = (if finished_bg sh j then printJobInfo j sh else sh)"
  have s1: "joblist sh1 = [] @ j # js" "distinct (joblist sh1)" "jobs sh1 = jobs sh" "nJobs sh1 = nJobs sh"
    "messages sh1 = messages sh @ map (job_info sh) (filter (finished_bg sh) [j])"
    using Cons assms by (simp_all add: sh1_def printJobInfo_def say_def job_info_def)
  have up: "sh1\<lparr>joblist := l, messages := m\<rparr> = sh\<lparr>joblist := l, messages := m\<rparr>" for l m
    by (simp add: sh1_def printJobInfo_def say_def)
  have "clean_loop None (joblist sh) sh = clean_loop (Some j) js sh1" using Cons by (simp add: sh1_def Let_def)
  also have "\<dots> = sh\<lparr>joblist := filter (live sh) (joblist sh),
      messages := messages sh @ map (job_info sh) (filter (finished_bg sh) (joblist sh))\<rparr>"
    unfolding clean_loop_prev [OF s1(1,2)] up by (simp add: s1 Cons job_info_def fun_eq_iff)
  finally show ?thesis by (simp add: cleanJobList_def Let_def)
qed

text \<open>
  \<open>cleanJobList\<close>, which removes each finished job one step behind its traversal, reports exactly the
  finished background jobs, in list order, keeps exactly the unfinished jobs, in order, and restarts the job numbers
  exactly when none is left.
\<close>

theorem cleanJobList_spec:
  assumes "distinct (joblist sh)"
  shows "joblist (cleanJobList sh) = filter (live sh) (joblist sh) \<and>
    messages (cleanJobList sh) = messages sh @ map (job_info sh) (filter (finished_bg sh) (joblist sh)) \<and>
    nJobs (cleanJobList sh) = (if filter (live sh) (joblist sh) = [] then 1 else nJobs sh) \<and>
    jobs (cleanJobList sh) = jobs sh"
  by (simp add: cleanJobList_eq [OF assms])

theorem cleanJobList_spec_witness:
  "let b = new_job True [''a'']; sh = (SHELL_INIT 7 ''/'')\<lparr>joblist := [0, 1, 2], nJobs := 4,
      jobs := (\<lambda>_. b\<lparr>status := DONE\<rparr>)(1 := b\<lparr>status := HIATUS, jobId := 2\<rparr>, 2 := (new_job False [''b''])\<lparr>status := DONE\<rparr>)\<rparr>
   in joblist (cleanJobList sh) = [1] \<and> nJobs (cleanJobList sh) = 4 \<and>
      messages (cleanJobList sh) = [Text ''Welcome to JankSh'', Job_info 0 DONE [''a'']]"
proof -
  define sh where "sh = (SHELL_INIT 7 ''/'')\<lparr>joblist := [0, 1, 2], nJobs := 4,
    jobs := (\<lambda>_. (new_job True [''a''])\<lparr>status := DONE\<rparr>)(1 := (new_job True [''a''])\<lparr>status := HIATUS, jobId := 2\<rparr>,
      2 := (new_job False [''b''])\<lparr>status := DONE\<rparr>)\<rparr>"
  have "distinct (joblist sh)" by (simp add: sh_def)
  from cleanJobList_spec [OF this] show ?thesis
    unfolding Let_def sh_def [symmetric] by (simp add: sh_def SHELL_INIT_def new_job_def job_info_def)
qed

section \<open>Splitting a line into jobs\<close>

text \<open>The reference: \<open>&\<close> ends a background job, and what is left at the end is a foreground job.\<close>

fun split_jobs :: "string list \<Rightarrow> string list \<Rightarrow> (bool \<times> string list) list" where
  "split_jobs acc [] = (if acc = [] then [] else [(False, acc)])"
| "split_jobs acc (t # ts) = (if t = ''&'' then (True, acc) # split_jobs [] ts else split_jobs (acc @ [t]) ts)"

definition insert_jobs :: "(bool \<times> string list) list \<Rightarrow> shell \<Rightarrow> shell" where
  "insert_jobs js sh = fold (\<lambda>(bg, ts). insert_job (new_job bg ts)) js sh"

lemma take_drop_snoc: "s \<le> i \<Longrightarrow> i < length ts \<Longrightarrow> take (Suc i - s) (drop s ts) = take (i - s) (drop s ts) @ [ts ! i]"
  by (simp add: Suc_diff_le take_Suc_conv_app_nth)

lemma add_loop_split:
  "s \<le> i \<Longrightarrow> i < length ts \<or> s = i \<Longrightarrow>
    add_loop ts s i sh = insert_jobs (split_jobs (take (i - s) (drop s ts)) (drop i ts)) sh"
proof (induction "length ts - i" arbitrary: s i sh)
  case 0
  then show ?case by (auto simp: add_loop.simps [of ts i i] insert_jobs_def)
next
  case (Suc n)
  then have i: "i < length ts" and n: "n = length ts - Suc i" by auto
  have d: "drop i ts = ts ! i # drop (Suc i) ts" using i by (simp add: Cons_nth_drop_Suc)
  note IH = Suc.hyps(1) [OF n]
  consider (amp) "ts ! i = ''&''" | (last) "ts ! i \<noteq> ''&''" "Suc i = length ts" | (word) "ts ! i \<noteq> ''&''" "Suc i < length ts"
    using i by linarith
  then show ?case
  proof cases
    case amp
    then show ?thesis using i d IH [of "Suc i"] by (simp add: add_loop.simps [of ts s i] insert_jobs_def)
  next
    case last
    then have len: "length ts = Suc i" by simp
    then have "add_loop ts s (Suc i) sh' = sh'" for sh' by (subst add_loop.simps) simp
    then show ?thesis using d len last(1) take_drop_snoc [OF Suc.prems(1) i] Suc.prems(1)
      by (simp add: add_loop.simps [of ts s i] insert_jobs_def Suc_diff_le)
  next
    case word
    then show ?thesis using i d IH [of s "sh"] take_drop_snoc [OF Suc.prems(1) i] Suc.prems(1)
      by (simp add: add_loop.simps [of ts s i])
  qed
qed

lemma addJobs_eq: "addJobs ts sh = insert_jobs (split_jobs [] ts) sh"
  unfolding addJobs_def using add_loop_split [of 0 0 ts sh] by simp

lemma split_jobs_join: "concat (map (\<lambda>(bg, u). u @ (if bg then [''&''] else [])) (split_jobs acc ts)) = acc @ ts"
  by (induction acc ts rule: split_jobs.induct) auto

lemma split_jobs_amp: "''&'' \<notin> set acc \<Longrightarrow> list_all (\<lambda>(bg, u). ''&'' \<notin> set u \<and> (bg \<or> u \<noteq> [])) (split_jobs acc ts)"
  by (induction acc ts rule: split_jobs.induct) auto

lemma insert_jobs_list:
  "joblist (insert_jobs js sh) = joblist sh @ [fresh sh ..< fresh sh + length js] \<and>
   map (jobs (insert_jobs js sh)) [fresh sh ..< fresh sh + length js] = map (\<lambda>(bg, u). new_job bg u) js \<and>
   fresh (insert_jobs js sh) = fresh sh + length js \<and> (\<forall>k < fresh sh. jobs (insert_jobs js sh) k = jobs sh k)"
proof (induction js arbitrary: sh)
  case (Cons x js)
  obtain bg u where x: "x = (bg, u)" by (cases x)
  define sh1 where "sh1 = insert_job (new_job bg u) sh"
  have s1: "insert_jobs (x # js) sh = insert_jobs js sh1" by (simp add: insert_jobs_def x sh1_def)
  have f1: "fresh sh1 = Suc (fresh sh)" "joblist sh1 = joblist sh @ [fresh sh]" "jobs sh1 (fresh sh) = new_job bg u"
    "\<And>k. k < fresh sh \<Longrightarrow> jobs sh1 k = jobs sh k"
    by (simp_all add: sh1_def insert_job_def)
  have up: "[fresh sh ..< fresh sh + length (x # js)] = fresh sh # [fresh sh1 ..< fresh sh1 + length js]"
    using upt_conv_Cons [of "fresh sh" "fresh sh + length (x # js)"] f1(1) by (simp del: upt_Suc)
  show ?case unfolding s1 up using Cons.IH [of sh1] f1 x by simp
qed (simp add: insert_jobs_def)

text \<open>
  \<open>addJobs\<close> appends to the job list one pending job per \<open>&\<close>-terminated command of the line, in the background, and
  one foreground job for what follows the last \<open>&\<close>: the commands joined with their \<open>&\<close> are the line again, no
  command contains an \<open>&\<close>, no foreground command is empty, and the jobs that were in the list stay as they are.
\<close>

theorem addJobs_splits:
  "let js = split_jobs [] ts; sh' = addJobs ts sh; new = [fresh sh ..< fresh sh + length js] in
     concat (map (\<lambda>(bg, u). u @ (if bg then [''&''] else [])) js) = ts \<and>
     list_all (\<lambda>(bg, u). ''&'' \<notin> set u \<and> (bg \<or> u \<noteq> [])) js \<and>
     joblist sh' = joblist sh @ new \<and> map (jobs sh') new = map (\<lambda>(bg, u). new_job bg u) js \<and>
     list_all (\<lambda>k. jobs sh' k = jobs sh k) [0 ..< fresh sh]"
  using insert_jobs_list [of "split_jobs [] ts" sh] split_jobs_join [of "[]" ts] split_jobs_amp [of "[]" ts]
  by (simp add: addJobs_eq Let_def list_all_length)

theorem addJobs_splits_witness:
  "let sh = addJobs [''a'', ''&'', ''b'', ''|'', ''c''] (SHELL_INIT 7 ''/'') in
     joblist sh = [0, 1] \<and> jobs sh 0 = new_job True [''a''] \<and> jobs sh 1 = new_job False [''b'', ''|'', ''c'']"
  using addJobs_splits [of "[''a'', ''&'', ''b'', ''|'', ''c'']" "SHELL_INIT 7 ''/''"]
  by (simp add: Let_def SHELL_INIT_def)

section \<open>The invariant of the shell\<close>

text \<open>
  The list has no job twice and only allocated ones; job numbers are below the next one and distinct (0 is no
  number); and the terminal belongs to the shell.
\<close>

definition shell_ok :: "shell \<Rightarrow> bool" where
  "shell_ok sh \<longleftrightarrow> distinct (joblist sh) \<and> 1 \<le> nJobs sh \<and> term_pgrp sh = shellGroup sh \<and>
     (\<forall>j\<in>set (joblist sh). j < fresh sh \<and> 0 \<le> jobId (jobs sh j) \<and> jobId (jobs sh j) < nJobs sh) \<and>
     (\<forall>j\<in>set (joblist sh). \<forall>k\<in>set (joblist sh). jobId (jobs sh j) = jobId (jobs sh k) \<and> jobId (jobs sh j) \<noteq> 0 \<longrightarrow> j = k)"

definition none_pending :: "shell \<Rightarrow> bool" where
  "none_pending sh \<longleftrightarrow> (\<forall>j\<in>set (joblist sh). status (jobs sh j) \<noteq> PENDING)"


















lemma say_ok [simp]: "shell_ok (say m sh) = shell_ok sh" "none_pending (say m sh) = none_pending sh"
  by (simp_all add: shell_ok_def none_pending_def say_def)

lemma print_loop_ok [simp]: "shell_ok (print_loop js sh) = shell_ok sh" "none_pending (print_loop js sh) = none_pending sh"
  by (induction js arbitrary: sh) (simp_all add: printJobInfo_def)












section \<open>From a command line to the processes of a pipeline\<close>


























end
