(* ===== verification/Spec2Isabelle.thy ===== *)
theory Spec2Isabelle
  imports Sched_Core_Props Sched_RT_Runtime Sched_Cfs_Limits Net_Flow_Props Sched_Cgroup Sched_Group_Props Sched_Remote_Tick Sched_Queries Sched_System Sched_Locks Sched_Switch Sched_Kicks
    Sched_RT_Groups_System
    Proc_Tools Shell_Props
begin

text \<open>
  Verification of the kernel and user programs of the repository: a modified CPU scheduler
  (\<open>temp/kernel/sched\<close>, with a time-sharing class \<open>SCHED_TS\<close> added to Linux), two netfilter modules, a system
  call, two small kernel modules, a job-control shell and some exercises.

  \<^bold>\<open>Conventions.\<close> A state of the kernel is the record \<open>sched_state\<close> (\<open>Sched_Types\<close>): tasks, run queues, the root domain, clocks and
  sysctls. An operation takes and returns the state; \<open>None\<close> stands for a \<open>BUG\<close>, an index
  outside an array, an intrusive list used while corrupt, or a null pointer followed. Machine integers keep their
  width (\<open>u32\<close>, \<open>u64\<close>); C's \<open>int\<close> is \<open>int\<close> where the code cannot overflow it. A definition has the name of the
  C function (a leading underscore becomes the suffix \<open>_raw\<close>). Code that is not in the repository is a parameter: \<open>kernel_env\<close> (the
  stop, deadline, fair and idle classes as records of operations, the topology and \<open>cpupri\<close>), \<open>policy_env\<close>
  (capabilities, security hooks, user memory, rlimits), \<open>hotplug_env\<close>, \<open>boot_env\<close>, \<open>cgroup_env\<close>, \<open>file_ops\<close> of \<open>xmerge\<close>, \<open>os\<close> of
  the shell, the slab allocator of the rate limiter. What a theorem needs of
  such a parameter is a named hypothesis, and its witness gives a concrete instance.

  \<^bold>\<open>Prelude.\<close> Arrays of intrusive lists (\<open>qs_del\<close>, \<open>qs_add_tail\<close>, \<open>qs_ok\<close>), checked access, decimal printing, the
  collections \<open>st_simps\<close> and \<open>q_simps\<close>, and the locale \<open>step_invariant\<close>: what every step of a state machine keeps, every reachable state has.
  It is interpreted seven times: \<open>kernel\<close> (\<open>Sched_System\<close>), \<open>locking\<close> (\<open>Sched_Locks\<close>), \<open>switches\<close> (\<open>Sched_Switch\<close>), \<open>hrticks\<close> (\<open>Sched_Kicks\<close>),
  \<open>rt_groups\<close> (\<open>Sched_RT_Groups_System\<close>), \<open>tick\<close> (\<open>Sched_Remote_Tick\<close>) and \<open>lab4\<close> (\<open>User_Programs\<close>).

  \<^bold>\<open>The classes.\<close>
  \<^item> \<open>Sched_Class\<close> states what \<open>core.c\<close> relies on in a class as the locale \<open>class_queue\<close>; \<open>Sched_Move\<close> extends it to
    \<open>class_mover\<close>, with the moves between CPUs proved once. Both are interpreted on
    \<open>ts.c\<close> (\<open>ts_queue\<close>, \<open>ts_mover\<close>) and \<open>rt.c\<close> (\<open>rt_class\<close>, \<open>rt_mover\<close>).
  \<^item> \<open>Sched_TS\<close> is \<open>ts.c\<close>: forty queues per CPU, the sleep boost table, the tick. \<open>Sched_TS_Props\<close>: queueing refines
    stable insertion into a dispatch order, the pick takes its head, a tick counts down and demotes, a CPU-bound
    task reaches the lowest level within 64 ticks.
  \<^item> \<open>Sched_RT_Model\<close> (bandwidth, overload, pushable tasks), \<open>Sched_RT_Queue\<close> (the priority array with its bitmap and the handlers) and
    the second half of \<open>Sched_Dispatch\<close> (push, pull, CPU selection) are \<open>rt.c\<close>. \<open>Sched_RT_Inv\<close> is the invariant \<open>rt_wf\<close> of
    array, bitmap, counters, \<open>nr_running\<close> and task flags; \<open>Sched_RT_Props\<close> the refinement of enqueue, dequeue, pick, yield and round robin;
    \<open>Sched_RT_Runtime\<close> that lending runtime between CPUs conserves the pool.
  \<^item> \<open>Sched_RT_Groups\<close> is the same class with \<open>RT_GROUP_SCHED\<close>: run queues and entities of all groups, which are named by their paths, on all CPUs, operations that go down and up the stack of
    entities, throttling and replenishing of groups. \<open>Sched_RT_Groups_Props\<close>: the invariant \<open>hier_wf\<close> of the hierarchy and what one entity moved, a whole stack, and a task enqueued or dequeued do to it.
    \<open>Sched_RT_Groups_System\<close>: every sequence of operations (\<open>hier_step\<close>) is free of faults and warnings, the descent of the pick ends at the best task that no throttled group holds back,
    and \<open>nr_running\<close> counts exactly those tasks.

  \<^bold>\<open>The core\<close> (\<open>core.c\<close>).
  \<^item> \<open>Sched_Dispatch\<close> and \<open>Sched_Core\<close>: enqueue and dequeue through the classes, preemption, affinity, migration, wake-up, fork,
    tick, \<open>pick_next_task\<close>, \<open>__schedule\<close>. \<open>Sched_Policy\<close>: priority inheritance, nice values, \<open>__sched_setscheduler\<close>.
    \<open>Sched_Core_Props\<close>: moves and pushes, the budget, fork, safety of \<open>sched_setscheduler\<close>, and two defects.
  \<^item> \<open>Sched_Calls\<close> (wake queues as linked nodes with reference counts, the loops around \<open>__schedule\<close>), \<open>Sched_Queries\<close> (statistics, attributes,
    affinity system calls), \<open>Sched_Hotplug\<close>, \<open>Sched_Remote_Tick\<close> (the delayed work against CPU hotplug as a step relation).
  \<^item> \<open>Sched_Boot\<close> is \<open>sched_init\<close>. \<open>Sched_System\<close> puts the classes together: no handler of one class disturbs what the other relies on,
    and from \<open>sched_init\<close> on every interleaving of the operations stays free of faults (\<open>sched_step\<close>, \<open>sched_wf\<close>).
  \<^item> \<open>Sched_Locks\<close> takes the operations apart at their locks: threads with a program counter each inside \<open>task_rq_lock\<close>, \<open>__task_rq_lock\<close>, \<open>double_rq_lock\<close>,
    \<open>double_lock_balance\<close> and the migration of a task between the two locks. A thread that returned from \<open>task_rq_lock\<close> has the queue of the task until it unlocks, and no
    reachable state is a deadlock. Also the pinning of run queues and their clock flags.
  \<^item> \<open>Sched_Switch\<close> is \<open>context_switch\<close> and \<open>finish_task_switch\<close>: the references on memory descriptors and task structures, kernel threads that borrow a
    descriptor, dead tasks, \<open>do_task_dead\<close>, \<open>idle_task_exit\<close>, preemption notifiers. In every reachable state each reference count is the number of holders.
  \<^item> \<open>Sched_Kicks\<close>: the high-resolution tick (a request is never lost between the CPUs), \<open>set_nr_if_polling\<close>, the timer target and kicks of \<open>NO_HZ\<close>,
    \<open>scheduler_ipi\<close>, wake-up statistics, \<open>schedstats\<close>, preemption counts, state letters, \<open>wait_task_inactive\<close>.
  \<^item> \<open>Sched_Bandwidth\<close>, \<open>Sched_Bandwidth_Props\<close>, \<open>Sched_Cfs_Limits\<close>: sysctls, group limits, the pointer walk over the group tree and its equivalence with the
    recursive traversal, feasibility of accepted limits. \<open>Sched_Group\<close>, \<open>Sched_Group_Props\<close>: creation and destruction of groups over a heap with failing
    allocations. \<open>Sched_Cgroup\<close>: the files of the cpu controller and moving tasks between groups.

  \<^bold>\<open>Other kernel code.\<close> \<open>Net_Flow\<close>, \<open>Net_Flow_Props\<close>: \<open>drop_flow_byte.c\<close> and \<open>rate_limit.c\<close>, with bounds on what a flow can send over any run of
  packets. \<open>Kernel_Modules\<close>: \<open>xmerge.c\<close>, \<open>myfirst.c\<close>, \<open>mysum.c\<close>.

  \<^bold>\<open>User programs.\<close> \<open>Shell\<close> (the tokenizer of \<open>jankersh.c\<close>, which overwrites its input and steps back), \<open>Shell_Jobs\<close> (jobs, reaper, parser, pipelines, built-in
  commands, main loop), \<open>Shell_Lex\<close> (equivalence with a one-pass lexer), \<open>Shell_Words\<close> (printing and tokenizing), \<open>Shell_Props\<close>
  (the invariant over all histories of lines and signals, pipelines from the typed line to the processes).
  \<open>User_Programs\<close>: \<open>myshell.c\<close>, \<open>lab4.c\<close>, \<open>test_xmerge.c\<close> on top of \<open>xmerge\<close>. \<open>Proc_Tools\<close>: \<open>myps.c\<close>, \<open>info.c\<close>.

  \<^bold>\<open>Loops and bounds.\<close> Loops are structural or have a measure (\<open>walk_loop\<close>, \<open>rto_next_cpu\<close>, \<open>sum_loop\<close>, \<open>lex_loop\<close>, \<open>parse_loop\<close>, \<open>add_loop\<close>, \<open>reap\<close>, \<open>wait_task_inactive\<close>). Loops
  whose end depends on code outside the repository, on races or on the shape of the state are \<open>partial_function (option)\<close>, so that not ending is \<open>None\<close>: \<open>xm_copy\<close>, \<open>wake_loop\<close>,
  \<open>schedule_loop\<close>, \<open>pick_again\<close>, \<open>pick_loop\<close>, \<open>push_retry\<close>, \<open>push_rt_tasks\<close>, \<open>migrate_loop\<close>, \<open>affinity_loop\<close>; theorems about them state that a result is returned.
  \<open>find_lock_lowest_rq\<close> has the bound \<open>RT_MAX_TRIES\<close> of the source. \<open>MAX_TASKS\<close> is \<open>PID_MAX_LIMIT\<close>, which keeps the 32-bit counters of a run queue from wrapping.

  \<^bold>\<open>Configuration.\<close> SMP on 64 bits. The theories of the core use the real-time queues without \<open>RT_GROUP_SCHED\<close>; the code it enables is modelled by
  itself in \<open>Sched_RT_Groups\<close>, \<open>Sched_Bandwidth\<close> and \<open>Sched_Group\<close>, as is the \<open>NO_HZ_FULL\<close> code in \<open>Sched_Remote_Tick\<close>.

  \<^bold>\<open>What the model showed.\<close> The core does not know of the time-sharing class in several places: its tasks are not counted in \<open>nr_running\<close>, so an idle CPU does not pick them, a dying CPU
  keeps them and the tick may stop under them; a task whose priority boost ends moves to the fair class; its run time is not accounted. On the version 2 hierarchy all fair limits are recorded as
  unlimited. The shell's tokenizer overruns its buffer on words of 1024 characters.

  \<^bold>\<open>Not modelled.\<close> Memory barriers: the steps of \<open>Sched_Locks\<close> and \<open>Sched_Kicks\<close> interleave, in program order. The other theories take an operation under a lock as one step, and
  interleavings are sequences of such steps. The resumption of a task inside \<open>io_schedule\<close>. Debugging and tracing output (\<open>__might_sleep\<close>, \<open>schedule_debug\<close>). The timers of fair bandwidth
  pools and autogroups, which are in files outside the repository. With \<open>RT_GROUP_SCHED\<close>, the loops of \<open>__disable_runtime\<close> and
  \<open>__enable_runtime\<close> over all groups; the theorems about its queues are for enqueues and dequeues that link the entity anew, not for \<open>DEQUEUE_SAVE\<close> without \<open>DEQUEUE_MOVE\<close>. Reading \<open>/proc\<close> in \<open>myps.c\<close> (a parameter), the
  floating-point percentages of \<open>info.c\<close>, \<open>myuname.c\<close> (it prints two words of a file), and the unused first versions \<open>tokenize\<close> and \<open>execJob\<close> of the shell.
\<close>

end
